(* ===== verification/Prelude.thy ===== *)
theory Prelude
  imports Complex_Main "HOL-Library.List_Lexorder" "HOL-Library.Char_ord" "HOL-Library.AList"
    "HOL-Library.Sublist" "HOL-Library.Multiset"
begin

section \<open>Shared vocabulary: Python values, dictionaries, exceptions\<close>

text \<open>
  This theory holds what every component shares: text (a Python \<open>str\<close> is a HOL
  \<open>string\<close> whose characters are the code points 0 to 255), insertion ordered
  dictionaries (association lists with distinct keys, updated in place by \<open>AList.update\<close>),
  dynamically typed metadata (\<open>pyval\<close>), exceptions as values, and the generic list
  lemmas the component proofs use.
\<close>

named_theorems dict_simps \<open>look-ups in dictionaries built by the code\<close>
named_theorems issue_simps \<open>when a validation step reports nothing\<close>

subsection \<open>Text\<close>

text \<open>Python's \<open>str.isspace\<close> on code points below 256, and \<open>str.strip()\<close>.\<close>

definition py_space :: "char \<Rightarrow> bool" where
  "py_space c = (let n = (of_char c :: nat) in
     (9 \<le> n \<and> n \<le> 13) \<or> (28 \<le> n \<and> n \<le> 32) \<or> n = 133 \<or> n = 160)"

definition strip :: "string \<Rightarrow> string" where
  "strip s = rev (dropWhile py_space (rev (dropWhile py_space s)))"

text \<open>\<open>not value.strip()\<close>: the value is empty or only white space.\<close>

definition blank :: "string \<Rightarrow> bool" where
  "blank s = (strip s = [])"

fun join :: "string \<Rightarrow> string list \<Rightarrow> string" where
  "join sep [] = []"
| "join sep [x] = x"
| "join sep (x # y # xs) = x @ sep @ join sep (y # xs)"

lemma join_Cons: "join sep (x # xs) = x @ (if xs = [] then [] else sep @ join sep xs)"
  by (cases xs) auto

text \<open>
  The text of an f-string: its parts in order. It is a definition of its own so that proofs
  do not take messages apart.
\<close>

definition msg :: "string list \<Rightarrow> string" where
  "msg parts = concat parts"

text \<open>\<open>str(n)\<close> of a non-negative integer.\<close>

fun show_nat :: "nat \<Rightarrow> string" where
  "show_nat n = (if n < 10 then [char_of (48 + n)]
     else show_nat (n div 10) @ [char_of (48 + n mod 10)])"

declare show_nat.simps [simp del]

definition show_int :: "int \<Rightarrow> string" where
  "show_int i = (if i < 0 then ''-'' @ show_nat (nat (- i)) else show_nat (nat i))"

text \<open>\<open>None\<close> and the empty string are both false where the code writes \<open>value or ""\<close>.\<close>

definition or_empty :: "string option \<Rightarrow> string" where
  "or_empty v = (case v of None \<Rightarrow> [] | Some s \<Rightarrow> s)"

lemma blank_iff: "blank s \<longleftrightarrow> (\<forall>c \<in> set s. py_space c)"
proof -
  have "strip s = [] \<longleftrightarrow> (\<forall>c \<in> set (dropWhile py_space s). py_space c)"
    by (auto simp: strip_def dropWhile_eq_Nil_conv)
  also have "\<dots> \<longleftrightarrow> (\<forall>c \<in> set s. py_space c)"
    by (induction s) auto
  finally show ?thesis by (simp add: blank_def)
qed

subsection \<open>Floats that are only compared\<close>

text \<open>
  A Python \<open>float\<close>: a finite value (the rational it denotes), an infinity or a NaN, with the
  IEEE comparisons, in which every comparison with NaN is false.
\<close>

datatype pyfloat = Fin rat | Inf bool \<comment> \<open>\<open>Inf True\<close> is plus infinity\<close> | NaN

fun flt :: "pyfloat \<Rightarrow> pyfloat \<Rightarrow> bool" where
  "flt (Fin a) (Fin b) = (a < b)"
| "flt (Fin a) (Inf p) = p"
| "flt (Inf p) (Fin b) = (\<not> p)"
| "flt (Inf p) (Inf q) = (\<not> p \<and> q)"
| "flt NaN _ = False"
| "flt _ NaN = False"

fun fle :: "pyfloat \<Rightarrow> pyfloat \<Rightarrow> bool" where
  "fle (Fin a) (Fin b) = (a \<le> b)"
| "fle (Fin a) (Inf p) = p"
| "fle (Inf p) (Fin b) = (\<not> p)"
| "fle (Inf p) (Inf q) = (p \<longrightarrow> q)"
| "fle NaN _ = False"
| "fle _ NaN = False"

fun isfinite :: "pyfloat \<Rightarrow> bool" where
  "isfinite (Fin _) = True"
| "isfinite _ = False"

text \<open>Python's \<open>max(a, b)\<close> keeps \<open>a\<close> unless \<open>b > a\<close>, \<open>min\<close> unless \<open>b < a\<close>.\<close>

definition fmax :: "pyfloat \<Rightarrow> pyfloat \<Rightarrow> pyfloat" where
  "fmax a b = (if flt a b then b else a)"

definition fmin :: "pyfloat \<Rightarrow> pyfloat \<Rightarrow> pyfloat" where
  "fmin a b = (if flt b a then b else a)"

lemma isfinite_iff: "isfinite x \<longleftrightarrow> (\<exists>q. x = Fin q)"
  by (cases x) auto

subsection \<open>Dynamically typed values\<close>

text \<open>
  The values of a \<open>dict[str, Any]\<close>, as JSON and the trace metadata use them. \<open>POpaque\<close> is
  any object of another type, known by the name of that type; JSON cannot serialise it.
\<close>

datatype pyval =
    PNone
  | PBool bool
  | PInt int
  | PFloat pyfloat
  | PStr string
  | PList "pyval list"
  | PDict "(string \<times> pyval) list"
  | POpaque string

type_synonym meta = "(string \<times> pyval) list"

fun opt_str :: "string option \<Rightarrow> pyval" where
  "opt_str None = PNone"
| "opt_str (Some s) = PStr s"

subsection \<open>Dictionaries in insertion order\<close>

text \<open>
  \<open>d[k] = v\<close> overwrites in place or appends: \<open>AList.update\<close>. A comprehension
  \<open>{k: v for ...}\<close> inserts from left to right, so a later pair with an equal key wins.
\<close>

definition dict_of :: "('k \<times> 'v) list \<Rightarrow> ('k \<times> 'v) list" where
  "dict_of ps = foldl (\<lambda>d (k, v). AList.update k v d) [] ps"

text \<open>\<open>{**a, **b}\<close>.\<close>

definition dict_merge :: "('k \<times> 'v) list \<Rightarrow> ('k \<times> 'v) list \<Rightarrow> ('k \<times> 'v) list" where
  "dict_merge a b = foldl (\<lambda>d (k, v). AList.update k v d) a b"

text \<open>\<open>list(dict.fromkeys(xs))\<close>: the first occurrence of each element.\<close>

definition fromkeys :: "'a list \<Rightarrow> 'a list" where
  "fromkeys xs = rev (remdups (rev xs))"

lemma map_of_foldl_update:
  "map_of (foldl (\<lambda>d (k, v). AList.update k v d) d ps) = map_of d ++ map_of (rev ps)"
proof (induction ps arbitrary: d)
  case Nil
  then show ?case by simp
next
  case (Cons p ps)
  obtain k v where p: "p = (k, v)" by (cases p)
  show ?case
    by (simp add: p Cons.IH update_conv' map_add_assoc[symmetric] map_add_upd_left
        fun_eq_iff map_add_def split: option.splits)
qed

lemma map_of_dict_of [dict_simps]: "map_of (dict_of ps) = map_of (rev ps)"
  by (simp add: dict_of_def map_of_foldl_update)

lemma map_of_dict_merge [dict_simps]: "map_of (dict_merge a b) = map_of a ++ map_of (rev b)"
  by (simp add: dict_merge_def map_of_foldl_update)

lemma distinct_foldl_update:
  "distinct (map fst d) \<Longrightarrow>
   distinct (map fst (foldl (\<lambda>d (k, v). AList.update k v d) d ps))"
  by (induction ps arbitrary: d) (auto simp: distinct_update)

lemma distinct_dict_of [simp]: "distinct (map fst (dict_of ps))"
  by (simp add: dict_of_def distinct_foldl_update)

lemma map_of_rev_distinct: "distinct (map fst ps) \<Longrightarrow> map_of (rev ps) = map_of ps"
  by (rule map_of_inject_set[THEN iffD2]) (auto simp: rev_map[symmetric])

lemma set_fromkeys [simp]: "set (fromkeys xs) = set xs"
  by (simp add: fromkeys_def)

lemma distinct_fromkeys [simp]: "distinct (fromkeys xs)"
  by (simp add: fromkeys_def)

lemma fromkeys_distinct: "distinct xs \<Longrightarrow> fromkeys xs = xs"
  by (simp add: fromkeys_def distinct_remdups_id)

lemma update_append_new:
  "k \<notin> fst ` set d \<Longrightarrow> AList.update k v d = d @ [(k, v)]"
  by (induction d) auto

lemma dict_of_distinct_aux:
  "distinct (map fst (d @ ps)) \<Longrightarrow>
   foldl (\<lambda>d (k, v). AList.update k v d) d ps = d @ ps"
proof (induction ps arbitrary: d)
  case (Cons p ps)
  obtain k v where p: "p = (k, v)" by (cases p)
  with Cons.prems have "k \<notin> fst ` set d" by auto
  then have "AList.update k v d = d @ [(k, v)]" by (rule update_append_new)
  with Cons p show ?case by simp
qed simp

lemma dict_of_distinct [dict_simps]: "distinct (map fst ps) \<Longrightarrow> dict_of ps = ps"
  by (simp add: dict_of_def dict_of_distinct_aux)

subsection \<open>Exceptions as values\<close>

text \<open>
  The exception classes the modelled code raises, catches or tests with \<open>isinstance\<close>,
  under the source's names (a prefix \<open>Py\<close> marks Python's own classes). \<open>PyOther\<close> is any
  exception class raised by code outside the repository.
\<close>

datatype exc_class =
    PyValueError | PyTypeError | PyKeyError | PyIndexError | PyLookupError | PyRuntimeError
  | PyOther string
  | CellGraphValidationErrorC | ExecutionPlanValidationErrorC | CapabilityCatalogError
  | DuplicateCellRegistrationError | CellNotRegisteredError | PlacementUnavailableError
  | InputResolutionError | InputReferenceNotFoundError | InputIntegrityError
  | InputCompositionError | RuntimeSummaryStoreError
  | CellExecutionError | CellExecutionBindingError | CellResultContractError
  | ExecutionTraceMismatchError | ExecutorRoutingError | ExecutorRouteNotFoundError
  | ExecutorDispatchError | CellExecutionControlError | CellExecutionTimeoutError
  | CellExecutionBackpressureError | CellExecutionCanceledError | ExecutionControlMismatchError

text \<open>The base class each \<open>class X(Y)\<close> statement names; \<open>None\<close> is \<open>Exception\<close> itself.\<close>

fun exc_base :: "exc_class \<Rightarrow> exc_class option" where
  "exc_base PyKeyError = Some PyLookupError"
| "exc_base PyIndexError = Some PyLookupError"
| "exc_base CellGraphValidationErrorC = Some PyValueError"
| "exc_base ExecutionPlanValidationErrorC = Some PyValueError"
| "exc_base CapabilityCatalogError = Some PyValueError"
| "exc_base DuplicateCellRegistrationError = Some PyValueError"
| "exc_base CellNotRegisteredError = Some PyLookupError"
| "exc_base PlacementUnavailableError = Some PyValueError"
| "exc_base InputResolutionError = Some PyRuntimeError"
| "exc_base InputReferenceNotFoundError = Some InputResolutionError"
| "exc_base InputIntegrityError = Some InputResolutionError"
| "exc_base InputCompositionError = Some InputResolutionError"
| "exc_base RuntimeSummaryStoreError = Some PyRuntimeError"
| "exc_base CellExecutionError = Some PyRuntimeError"
| "exc_base CellExecutionBindingError = Some CellExecutionError"
| "exc_base CellResultContractError = Some CellExecutionError"
| "exc_base ExecutionTraceMismatchError = Some CellExecutionError"
| "exc_base ExecutorRoutingError = Some CellExecutionError"
| "exc_base ExecutorRouteNotFoundError = Some ExecutorRoutingError"
| "exc_base ExecutorDispatchError = Some ExecutorRoutingError"
| "exc_base CellExecutionControlError = Some CellExecutionError"
| "exc_base CellExecutionTimeoutError = Some CellExecutionControlError"
| "exc_base CellExecutionBackpressureError = Some CellExecutionControlError"
| "exc_base CellExecutionCanceledError = Some CellExecutionControlError"
| "exc_base ExecutionControlMismatchError = Some CellExecutionControlError"
| "exc_base _ = None"

text \<open>\<open>isinstance\<close> follows the base classes; four steps reach the top of every chain above.\<close>

fun subclass_fuel :: "nat \<Rightarrow> exc_class \<Rightarrow> exc_class \<Rightarrow> bool" where
  "subclass_fuel 0 c d = (c = d)"
| "subclass_fuel (Suc n) c d =
     (c = d \<or> (case exc_base c of None \<Rightarrow> False | Some b \<Rightarrow> subclass_fuel n b d))"

definition exc_subclass :: "exc_class \<Rightarrow> exc_class \<Rightarrow> bool" where
  "exc_subclass c d = subclass_fuel 4 c d"

text \<open>
  An exception: its class, \<open>str(exc)\<close>, and the two attributes an
  \<open>InputResolutionError\<close> carries (\<open>None\<close> elsewhere).
\<close>

record exc =
  ex_class :: exc_class
  ex_msg :: string
  ex_actual_content_hash :: "string option"
  ex_actual_payload_size_bytes :: "int option"

definition mk_exc :: "exc_class \<Rightarrow> string \<Rightarrow> exc" where
  "mk_exc c m = \<lparr>ex_class = c, ex_msg = m, ex_actual_content_hash = None,
     ex_actual_payload_size_bytes = None\<rparr>"

definition isinstance_exc :: "exc \<Rightarrow> exc_class \<Rightarrow> bool" where
  "isinstance_exc e c = exc_subclass (ex_class e) c"

text \<open>\<open>type(exc).__name__\<close>.\<close>

fun exc_name :: "exc_class \<Rightarrow> string" where
  "exc_name PyValueError = ''ValueError''"
| "exc_name PyTypeError = ''TypeError''"
| "exc_name PyKeyError = ''KeyError''"
| "exc_name PyIndexError = ''IndexError''"
| "exc_name PyLookupError = ''LookupError''"
| "exc_name PyRuntimeError = ''RuntimeError''"
| "exc_name (PyOther s) = s"
| "exc_name CellGraphValidationErrorC = ''CellGraphValidationError''"
| "exc_name ExecutionPlanValidationErrorC = ''ExecutionPlanValidationError''"
| "exc_name CapabilityCatalogError = ''CapabilityCatalogError''"
| "exc_name DuplicateCellRegistrationError = ''DuplicateCellRegistrationError''"
| "exc_name CellNotRegisteredError = ''CellNotRegisteredError''"
| "exc_name PlacementUnavailableError = ''PlacementUnavailableError''"
| "exc_name InputResolutionError = ''InputResolutionError''"
| "exc_name InputReferenceNotFoundError = ''InputReferenceNotFoundError''"
| "exc_name InputIntegrityError = ''InputIntegrityError''"
| "exc_name InputCompositionError = ''InputCompositionError''"
| "exc_name RuntimeSummaryStoreError = ''RuntimeSummaryStoreError''"
| "exc_name CellExecutionError = ''CellExecutionError''"
| "exc_name CellExecutionBindingError = ''CellExecutionBindingError''"
| "exc_name CellResultContractError = ''CellResultContractError''"
| "exc_name ExecutionTraceMismatchError = ''ExecutionTraceMismatchError''"
| "exc_name ExecutorRoutingError = ''ExecutorRoutingError''"
| "exc_name ExecutorRouteNotFoundError = ''ExecutorRouteNotFoundError''"
| "exc_name ExecutorDispatchError = ''ExecutorDispatchError''"
| "exc_name CellExecutionControlError = ''CellExecutionControlError''"
| "exc_name CellExecutionTimeoutError = ''CellExecutionTimeoutError''"
| "exc_name CellExecutionBackpressureError = ''CellExecutionBackpressureError''"
| "exc_name CellExecutionCanceledError = ''CellExecutionCanceledError''"
| "exc_name ExecutionControlMismatchError = ''ExecutionControlMismatchError''"

type_synonym 'a res = "exc + 'a"

abbreviation raise :: "exc_class \<Rightarrow> string \<Rightarrow> 'a res" where
  "raise c m \<equiv> Inl (mk_exc c m)"

definition bind_res :: "'a res \<Rightarrow> ('a \<Rightarrow> 'b res) \<Rightarrow> 'b res" where
  "bind_res m f = (case m of Inl e \<Rightarrow> Inl e | Inr x \<Rightarrow> f x)"

text \<open>A loop that stops at the first exception.\<close>

fun map_res :: "('a \<Rightarrow> 'b res) \<Rightarrow> 'a list \<Rightarrow> 'b list res" where
  "map_res f [] = Inr []"
| "map_res f (x # xs) =
     (case f x of Inl e \<Rightarrow> Inl e
      | Inr y \<Rightarrow> (case map_res f xs of Inl e \<Rightarrow> Inl e | Inr ys \<Rightarrow> Inr (y # ys)))"

lemma bind_res_simps [simp]:
  "bind_res (Inl e) f = Inl e"
  "bind_res (Inr x) f = f x"
  by (simp_all add: bind_res_def)

lemma bind_res_eq_Inr: "bind_res m f = Inr y \<longleftrightarrow> (\<exists>x. m = Inr x \<and> f x = Inr y)"
  by (cases m) auto

lemma map_res_Inr:
  "map_res f xs = Inr ys \<longleftrightarrow> list_all2 (\<lambda>x y. f x = Inr y) xs ys"
proof (induction xs arbitrary: ys)
  case Nil
  then show ?case by auto
next
  case (Cons x xs)
  show ?case
    by (cases "f x"; cases "map_res f xs") (auto simp: list_all2_Cons1 Cons.IH[symmetric])
qed

lemma map_res_total:
  "(\<And>x. x \<in> set xs \<Longrightarrow> f x = Inr (g x)) \<Longrightarrow> map_res f xs = Inr (map g xs)"
  by (induction xs) auto

text \<open>A guard that raises, and the two ways through a chain of them.\<close>

lemma guard_Inr: "(if b then Inl e else m) = Inr y \<longleftrightarrow> \<not> b \<and> m = Inr y"
  by simp

lemma issues_Inr: "(if xs \<noteq> [] then Inl xs else Inr y) = Inr v \<longleftrightarrow> xs = [] \<and> v = y"
  by auto

lemma map_res_map_inv: "(\<And>x. g (f x) = Inr x) \<Longrightarrow> map_res g (map f xs) = Inr xs"
  by (induction xs) auto

lemma mk_exc_sel [simp]:
  "ex_class (mk_exc c m) = c" "ex_msg (mk_exc c m) = m"
  by (simp_all add: mk_exc_def)

subsection \<open>Lists\<close>

lemma concat_map_Nil_iff [issue_simps]:
  "concat (map f xs) = [] \<longleftrightarrow> (\<forall>x \<in> set xs. f x = [])"
  by (induction xs) auto

lemma length_set_distinct [issue_simps]: "length xs = card (set xs) \<longleftrightarrow> distinct xs"
  by (metis card_distinct distinct_card)

lemma in_concat_nth: "x \<in> set (concat xss) \<longleftrightarrow> (\<exists>i < length xss. x \<in> set (xss ! i))"
proof -
  have "x \<in> set (concat xss) \<longleftrightarrow> (\<exists>xs \<in> set xss. x \<in> set xs)" by simp
  then show ?thesis by (metis in_set_conv_nth)
qed

lemma in_concat_take:
  "j \<le> length xss \<Longrightarrow> x \<in> set (concat (take j xss)) \<longleftrightarrow> (\<exists>i < j. x \<in> set (xss ! i))"
  unfolding in_concat_nth by auto

lemma distinct_concat_disjoint:
  "distinct (concat xss) \<Longrightarrow> i < length xss \<Longrightarrow> j < length xss \<Longrightarrow> x \<in> set (xss ! i) \<Longrightarrow> x \<in> set (xss ! j) \<Longrightarrow> i = j"
proof (induction xss arbitrary: i j)
  case (Cons xs xss)
  have out: "x \<notin> set (xss ! k)" if "x \<in> set xs" "k < length xss" for k
    using that Cons.prems(1) in_concat_nth[of x xss] by auto
  show ?case
    using Cons.prems Cons.IH out by (cases i; cases j) auto
qed simp

lemma foldl_concat_map:
  "foldl f s (concat (map g xs)) = foldl (\<lambda>s x. foldl f s (g x)) s xs"
  by (induction xs arbitrary: s) auto

lemma count_list_filter: "count_list (filter P xs) x = (if P x then count_list xs x else 0)"
  by (induction xs) auto

lemma count_list_concat: "count_list (concat xss) x = sum_list (map (\<lambda>xs. count_list xs x) xss)"
  by (induction xss) auto

lemma count_list_sort [simp]: "count_list (sort xs) x = count_list xs x"
proof -
  have "mset (sort xs) = mset xs" by simp
  then show ?thesis by (metis count_mset)
qed

lemma unreached_Nil [issue_simps]:
  "map f (sort (filter (\<lambda>i. i \<notin> R) ks)) = [] \<longleftrightarrow> set ks \<subseteq> R"
proof -
  have "map f (sort (filter (\<lambda>i. i \<notin> R) ks)) = [] \<longleftrightarrow> set (sort (filter (\<lambda>i. i \<notin> R) ks)) = {}"
    by (simp only: map_is_Nil_conv set_empty)
  also have "\<dots> \<longleftrightarrow> set ks \<subseteq> R" by auto
  finally show ?thesis .
qed

lemma option_ext: "(\<And>x. a = Some x \<longleftrightarrow> b = Some x) \<Longrightarrow> a = b"
  by (cases a; cases b) auto

lemma find_Some_D: "find P xs = Some x \<Longrightarrow> x \<in> set xs \<and> P x"
  by (induction xs) (auto split: if_splits)

lemma find_None_D: "find P xs = None \<Longrightarrow> x \<in> set xs \<Longrightarrow> \<not> P x"
  by (induction xs) (auto split: if_splits)


subsection \<open>Indexing a list by a key\<close>

text \<open>
  The loop the validators share: the first element with each key enters the dictionary, and
  every later one with that key is reported instead.
\<close>

definition unique_by :: "('a \<Rightarrow> 'k) \<Rightarrow> ('a \<Rightarrow> 'i) \<Rightarrow> 'a list \<Rightarrow> ('k \<times> 'a) list \<times> 'i list" where
  "unique_by key issue xs = foldl (\<lambda>(d, is) x.
     if key x \<in> fst ` set d then (d, is @ [issue x]) else (AList.update (key x) x d, is))
     ([], []) xs"

text \<open>The first element of each key.\<close>

fun firsts :: "('a \<Rightarrow> 'k) \<Rightarrow> 'k set \<Rightarrow> 'a list \<Rightarrow> 'a list" where
  "firsts key seen [] = []"
| "firsts key seen (x # xs) =
     (if key x \<in> seen then firsts key seen xs else x # firsts key (insert (key x) seen) xs)"

fun repeats :: "('a \<Rightarrow> 'k) \<Rightarrow> 'k set \<Rightarrow> 'a list \<Rightarrow> 'a list" where
  "repeats key seen [] = []"
| "repeats key seen (x # xs) =
     (if key x \<in> seen then x # repeats key seen xs else repeats key (insert (key x) seen) xs)"

lemma unique_by_aux:
  "foldl (\<lambda>(d, is) x.
     if key x \<in> fst ` set d then (d, is @ [issue x]) else (AList.update (key x) x d, is)) (d, is) xs
   = (d @ map (\<lambda>x. (key x, x)) (firsts key (fst ` set d) xs),
      is @ map issue (repeats key (fst ` set d) xs))"
  by (induction xs arbitrary: d "is") (auto simp: update_append_new)

lemma unique_by_eq:
  "unique_by key issue xs
   = (map (\<lambda>x. (key x, x)) (firsts key {} xs), map issue (repeats key {} xs))"
  by (simp add: unique_by_def unique_by_aux)

lemma key_firsts: "key ` set (firsts key seen xs) = key ` set xs - seen"
  by (induction xs arbitrary: seen) auto

lemma set_firsts: "set (firsts key seen xs) \<subseteq> set xs"
  by (induction xs arbitrary: seen) auto

lemma distinct_firsts: "distinct (map key (firsts key seen xs))"
proof (induction xs arbitrary: seen)
  case (Cons x xs)
  have "key x \<notin> key ` set (firsts key (insert (key x) seen) xs)"
    by (simp add: key_firsts)
  with Cons show ?case by simp
qed simp

lemma repeats_Nil: "repeats key seen xs = [] \<longleftrightarrow> distinct (map key xs) \<and> key ` set xs \<inter> seen = {}"
  by (induction xs arbitrary: seen) auto

lemma firsts_distinct:
  "distinct (map key xs) \<Longrightarrow> key ` set xs \<inter> seen = {} \<Longrightarrow> firsts key seen xs = xs"
  by (induction xs arbitrary: seen) auto

lemma unique_by_issues [issue_simps]:
  "snd (unique_by key issue xs) = [] \<longleftrightarrow> distinct (map key xs)"
  by (simp add: unique_by_eq repeats_Nil)

lemma unique_by_distinct [simp]: "distinct (map fst (fst (unique_by key issue xs)))"
  by (simp add: unique_by_eq comp_def distinct_firsts)

lemma unique_by_keys [simp]: "fst ` set (fst (unique_by key issue xs)) = key ` set xs"
  by (simp add: unique_by_eq image_image key_firsts)

lemma unique_by_all:
  "distinct (map key xs) \<Longrightarrow> fst (unique_by key issue xs) = map (\<lambda>x. (key x, x)) xs"
  by (simp add: unique_by_eq firsts_distinct)

lemma map_of_key_map:
  "distinct (map key xs) \<Longrightarrow> x \<in> set xs \<Longrightarrow> map_of (map (\<lambda>x. (key x, x)) xs) (key x) = Some x"
  by (simp add: comp_def map_of_eq_Some_iff)

lemma map_of_key_map_D:
  "map_of (map (\<lambda>x. (key x, x)) xs) k = Some x \<Longrightarrow> x \<in> set xs \<and> key x = k"
  by (auto dest: map_of_SomeD)

lemma key_map_lookup:
  "distinct (map key xs) \<Longrightarrow>
   map_of (map (\<lambda>x. (key x, x)) xs) k = Some x \<longleftrightarrow> x \<in> set xs \<and> key x = k"
  using map_of_key_map[of key xs x] map_of_key_map_D[of key xs k x] by blast

lemma unique_by_lookup:
  "map_of (fst (unique_by key issue xs)) k = Some x \<Longrightarrow> x \<in> set xs \<and> key x = k"
  using set_firsts[of key "{}" xs] map_of_key_map_D[of key "firsts key {} xs" k x]
  by (auto simp: unique_by_eq)

lemma key_map_check:
  assumes "distinct (map key xs)"
  shows "(case map_of (map (\<lambda>x. (key x, x)) xs) k of None \<Rightarrow> False | Some x \<Rightarrow> P x)
    \<longleftrightarrow> (\<exists>x \<in> set xs. key x = k \<and> P x)"
proof (cases "map_of (map (\<lambda>x. (key x, x)) xs) k")
  case None
  have "\<forall>x \<in> set xs. key x \<noteq> k"
  proof
    fix x assume "x \<in> set xs"
    with map_of_key_map[OF assms this] None show "key x \<noteq> k" by auto
  qed
  with None show ?thesis by auto
next
  case (Some x)
  with key_map_lookup[OF assms, of k] show ?thesis by force
qed

lemma distinct_at_most_once:
  "(\<forall>k \<in> set (map f xs). length (filter (\<lambda>x. f x = k) xs) \<le> 1) \<longleftrightarrow> distinct (map f xs)"
proof (induction xs)
  case (Cons x xs)
  have none: "length (filter (\<lambda>y. f y = f x) xs) = 0 \<longleftrightarrow> f x \<notin> set (map f xs)"
    by (simp add: filter_empty_conv) (metis imageE imageI)
  have "(\<forall>k \<in> set (map f (x # xs)). length (filter (\<lambda>y. f y = k) (x # xs)) \<le> 1)
    \<longleftrightarrow> f x \<notin> set (map f xs) \<and> (\<forall>k \<in> set (map f xs). length (filter (\<lambda>y. f y = k) xs) \<le> 1)"
    using none by auto
  with Cons show ?case by simp
qed simp

end
