(* ===== verification/Core_Models.thy ===== *)
theory Core_Models
  imports Prelude
begin

section \<open>Core data model and request validation\<close>

text \<open>
  Models \<open>models.py\<close>, the part of \<open>inputs/models.py\<close> that names the input kinds,
  \<open>validation.py\<close> and \<open>data/quality.py\<close>. A Python \<open>float\<close> that only travels or is
  compared is a \<open>pyfloat\<close> (see \<open>Prelude\<close>).
\<close>

subsection \<open>Records\<close>

datatype direction = Bullish | Bearish | Neutral | Conflict
datatype risk_level = Low | Medium | High | Extreme
datatype action_posture =
  Observe | Wait_for_confirmation | Cautious_follow | Reduce_exposure | Avoid_chasing

record candle =
  cd_timestamp :: string
  cd_open :: pyfloat
  cd_high :: pyfloat
  cd_low :: pyfloat
  cd_close :: pyfloat
  cd_volume :: pyfloat

record market_event =
  ev_title :: string
  ev_category :: string
  ev_sentiment :: pyfloat
  ev_impact :: pyfloat
  ev_freshness :: pyfloat

record evidence =
  evd_source :: string
  evd_summary :: string
  evd_weight :: pyfloat
  evd_freshness :: pyfloat
  evd_reliability :: pyfloat

record manifest =
  mf_cell_id :: string
  mf_name :: string
  mf_category :: string
  mf_description :: string
  mf_inputs :: "string list"
  mf_outputs :: "string list"
  mf_formula_version :: string
  mf_required_input_kinds :: "string list"
  mf_risk_dimensions :: "string list"
  mf_status :: string

record request =
  rq_target :: string
  rq_horizon :: string
  rq_candles :: "candle list"
  rq_events :: "market_event list"
  rq_context :: meta

text \<open>A result holds its children, so it is a datatype with the fields as selectors.\<close>

datatype cell_result = CellResult
  (cr_cell_id: string) (cr_name: string) (cr_category: string)
  (cr_target: string) (cr_horizon: string) (cr_direction: direction)
  (cr_strength: pyfloat) (cr_confidence: pyfloat) (cr_volatility_risk: pyfloat)
  (cr_manipulation_risk: pyfloat) (cr_urgency: pyfloat) (cr_score: pyfloat)
  (cr_explanation: string) (cr_risk_level: "risk_level option")
  (cr_action_posture: "action_posture option") (cr_evidence: "evidence list")
  (cr_children: "cell_result list") (cr_metadata: meta)

text \<open>
  \<open>InputKind\<close> is a \<open>Literal\<close> type, which Python does not enforce: a kind is any string and
  the code tests membership in the five literals where it matters.
\<close>

definition input_kinds :: "string list" where
  "input_kinds = [''analysis_request'', ''candle_batch'', ''funding_open_interest_snapshot'',
     ''feature_snapshot'', ''order_book_snapshot'']"

subsection \<open>Validation of a request\<close>

text \<open>The messages of \<open>validate_request\<close>, one constructor per text, with the index it names.\<close>

datatype request_issue =
    TargetEmpty | HorizonEmpty | CandlesEmpty
  | TimestampEmpty nat | TimestampDuplicate nat | FieldInvalid nat string
  | HighBelowLow nat | PriceNotPositive nat | HighBelowOpenClose nat | LowAboveOpenClose nat
  | VolumeNegative nat
  | TitleEmpty nat | CategoryEmpty nat | SentimentOutOfRange nat | ImpactOutOfRange nat
  | FreshnessOutOfRange nat

definition candle_fields :: "candle \<Rightarrow> (string \<times> pyfloat) list" where
  "candle_fields c = [(''open'', cd_open c), (''high'', cd_high c), (''low'', cd_low c),
     (''close'', cd_close c), (''volume'', cd_volume c)]"

definition opt_issue :: "bool \<Rightarrow> 'i \<Rightarrow> 'i list" where
  "opt_issue b i = (if b then [i] else [])"

lemma opt_issue_Nil [issue_simps]: "opt_issue b i = [] \<longleftrightarrow> \<not> b"
  by (simp add: opt_issue_def)

lemma set_opt_issue [simp]: "set (opt_issue b i) = (if b then {i} else {})"
  by (simp add: opt_issue_def)

definition candle_value_issues :: "nat \<Rightarrow> candle \<Rightarrow> request_issue list" where
  "candle_value_issues index c =
     concat (map (\<lambda>(f, v). opt_issue (\<not> isfinite v) (FieldInvalid index f)) (candle_fields c))
   @ opt_issue (flt (cd_high c) (cd_low c)) (HighBelowLow index)
   @ opt_issue (fle (cd_open c) (Fin 0) \<or> fle (cd_close c) (Fin 0) \<or> fle (cd_high c) (Fin 0)
       \<or> fle (cd_low c) (Fin 0)) (PriceNotPositive index)
   @ opt_issue (flt (cd_high c) (fmax (cd_open c) (cd_close c))) (HighBelowOpenClose index)
   @ opt_issue (flt (fmin (cd_open c) (cd_close c)) (cd_low c)) (LowAboveOpenClose index)
   @ opt_issue (flt (cd_volume c) (Fin 0)) (VolumeNegative index)"

text \<open>The candle loop, with the set of time stamps seen so far.\<close>

fun candle_issues :: "nat \<Rightarrow> string set \<Rightarrow> candle list \<Rightarrow> request_issue list" where
  "candle_issues index seen [] = []"
| "candle_issues index seen (c # cs) =
     (if cd_timestamp c = [] then [TimestampEmpty index]
      else opt_issue (cd_timestamp c \<in> seen) (TimestampDuplicate index))
     @ candle_value_issues index c
     @ candle_issues (Suc index) (insert (cd_timestamp c) seen) cs"

fun event_issues :: "nat \<Rightarrow> market_event list \<Rightarrow> request_issue list" where
  "event_issues index [] = []"
| "event_issues index (e # es) =
     opt_issue (blank (ev_title e)) (TitleEmpty index)
   @ opt_issue (blank (ev_category e)) (CategoryEmpty index)
   @ opt_issue (\<not> isfinite (ev_sentiment e)
       \<or> \<not> (fle (Fin (-1)) (ev_sentiment e) \<and> fle (ev_sentiment e) (Fin 1))) (SentimentOutOfRange index)
   @ opt_issue (\<not> isfinite (ev_impact e)
       \<or> \<not> (fle (Fin 0) (ev_impact e) \<and> fle (ev_impact e) (Fin 100))) (ImpactOutOfRange index)
   @ opt_issue (\<not> isfinite (ev_freshness e)
       \<or> \<not> (fle (Fin 0) (ev_freshness e) \<and> fle (ev_freshness e) (Fin 100))) (FreshnessOutOfRange index)
   @ event_issues (Suc index) es"

text \<open>\<open>Inl\<close> is the raised \<open>ValidationError\<close> with the collected issues.\<close>

definition validate_request :: "request \<Rightarrow> request_issue list + unit" where
  "validate_request rq =
     (let issues = opt_issue (blank (rq_target rq)) TargetEmpty
        @ opt_issue (blank (rq_horizon rq)) HorizonEmpty
        @ opt_issue (rq_candles rq = []) CandlesEmpty
        @ candle_issues 0 {} (rq_candles rq)
        @ event_issues 0 (rq_events rq)
      in if issues \<noteq> [] then Inl issues else Inr ())"

subsection \<open>Candle quality\<close>

datatype quality_issue =
    QCandlesEmpty | QTimestampEmpty nat | QTimestampDuplicate nat | QTimestampOutOfOrder nat
  | QFieldInvalid nat string | QPriceNonPositive nat | QVolumeNegative nat
  | QHighBelowLow nat | QHighBelowOpenClose nat | QLowAboveOpenClose nat

record quality_report =
  qr_is_usable :: bool
  qr_issues :: "quality_issue list"

definition quality_value_issues :: "nat \<Rightarrow> candle \<Rightarrow> quality_issue list" where
  "quality_value_issues index c =
     concat (map (\<lambda>(f, v). opt_issue (\<not> isfinite v) (QFieldInvalid index f)) (candle_fields c))
   @ opt_issue (fle (cd_open c) (Fin 0) \<or> fle (cd_high c) (Fin 0) \<or> fle (cd_low c) (Fin 0)
       \<or> fle (cd_close c) (Fin 0)) (QPriceNonPositive index)
   @ opt_issue (flt (cd_volume c) (Fin 0)) (QVolumeNegative index)
   @ opt_issue (flt (cd_high c) (cd_low c)) (QHighBelowLow index)
   @ opt_issue (flt (cd_high c) (fmax (cd_open c) (cd_close c))) (QHighBelowOpenClose index)
   @ opt_issue (flt (fmin (cd_open c) (cd_close c)) (cd_low c)) (QLowAboveOpenClose index)"

fun quality_issues :: "nat \<Rightarrow> string set \<Rightarrow> string option \<Rightarrow> candle list \<Rightarrow> quality_issue list" where
  "quality_issues index seen previous [] = []"
| "quality_issues index seen previous (c # cs) =
     opt_issue (cd_timestamp c = []) (QTimestampEmpty index)
   @ opt_issue (cd_timestamp c \<in> seen) (QTimestampDuplicate index)
   @ (case previous of None \<Rightarrow> []
      | Some p \<Rightarrow> opt_issue (cd_timestamp c < p) (QTimestampOutOfOrder index))
   @ quality_value_issues index c
   @ quality_issues (Suc index) (insert (cd_timestamp c) seen) (Some (cd_timestamp c)) cs"

definition inspect_candles :: "candle list \<Rightarrow> quality_report" where
  "inspect_candles cs =
     (if cs = [] then \<lparr>qr_is_usable = False, qr_issues = [QCandlesEmpty]\<rparr>
      else let issues = quality_issues 0 {} None cs
        in \<lparr>qr_is_usable = (issues = []), qr_issues = issues\<rparr>)"

subsection \<open>What a valid candle is\<close>

text \<open>The declarative specification of one candle: finite, positive, and ordered.\<close>

definition candle_ok :: "candle \<Rightarrow> bool" where
  "candle_ok c = (\<exists>o' h l cl v. c = \<lparr>cd_timestamp = cd_timestamp c, cd_open = Fin o',
     cd_high = Fin h, cd_low = Fin l, cd_close = Fin cl, cd_volume = Fin v\<rparr>
     \<and> 0 < l \<and> l \<le> min o' cl \<and> max o' cl \<le> h \<and> 0 \<le> v)"

definition event_ok :: "market_event \<Rightarrow> bool" where
  "event_ok e = (\<not> blank (ev_title e) \<and> \<not> blank (ev_category e)
     \<and> (\<exists>s i f. ev_sentiment e = Fin s \<and> ev_impact e = Fin i \<and> ev_freshness e = Fin f
       \<and> \<bar>s\<bar> \<le> 1 \<and> 0 \<le> i \<and> i \<le> 100 \<and> 0 \<le> f \<and> f \<le> 100))"

definition request_ok :: "request \<Rightarrow> bool" where
  "request_ok rq \<longleftrightarrow> \<not> blank (rq_target rq) \<and> \<not> blank (rq_horizon rq) \<and> rq_candles rq \<noteq> []
     \<and> (\<forall>c \<in> set (rq_candles rq). candle_ok c \<and> cd_timestamp c \<noteq> [])
     \<and> distinct (map cd_timestamp (rq_candles rq)) \<and> (\<forall>e \<in> set (rq_events rq). event_ok e)"

lemma candle_finite_ok:
  assumes "\<forall>(f, v) \<in> set (candle_fields c). isfinite v"
  shows "(\<not> flt (cd_high c) (cd_low c)
     \<and> \<not> (fle (cd_open c) (Fin 0) \<or> fle (cd_close c) (Fin 0) \<or> fle (cd_high c) (Fin 0)
         \<or> fle (cd_low c) (Fin 0))
     \<and> \<not> flt (cd_high c) (fmax (cd_open c) (cd_close c))
     \<and> \<not> flt (fmin (cd_open c) (cd_close c)) (cd_low c)
     \<and> \<not> flt (cd_volume c) (Fin 0)) \<longleftrightarrow> candle_ok c"
proof -
  from assms obtain o' h l cl v where
    "cd_open c = Fin o'" "cd_high c = Fin h" "cd_low c = Fin l" "cd_close c = Fin cl" "cd_volume c = Fin v"
    by (auto simp: candle_fields_def isfinite_iff)
  then show ?thesis
    by (cases c) (auto simp: candle_ok_def fmax_def fmin_def)
qed

lemma candle_ok_finite: "candle_ok c \<Longrightarrow> \<forall>(f, v) \<in> set (candle_fields c). isfinite v"
  by (cases c) (auto simp: candle_ok_def candle_fields_def)

lemma candle_value_issues_Nil: "candle_value_issues index c = [] \<longleftrightarrow> candle_ok c"
  using candle_finite_ok[of c] candle_ok_finite[of c]
  by (auto simp: candle_value_issues_def issue_simps split_beta)

lemma quality_value_issues_Nil: "quality_value_issues index c = [] \<longleftrightarrow> candle_ok c"
  using candle_finite_ok[of c] candle_ok_finite[of c]
  by (auto simp: quality_value_issues_def issue_simps split_beta)

lemma candle_issues_Nil:
  "candle_issues index seen cs = [] \<longleftrightarrow>
   (\<forall>c \<in> set cs. candle_ok c \<and> cd_timestamp c \<noteq> [] \<and> cd_timestamp c \<notin> seen)
   \<and> distinct (map cd_timestamp cs)"
proof (induction cs arbitrary: index seen)
  case (Cons c cs)
  have "(\<forall>x \<in> set cs. cd_timestamp x \<noteq> cd_timestamp c) \<longleftrightarrow> cd_timestamp c \<notin> cd_timestamp ` set cs"
    by (auto simp: image_iff)
  with Cons show ?case by (auto simp: issue_simps candle_value_issues_Nil)
qed simp

lemma event_issues_Nil: "event_issues index es = [] \<longleftrightarrow> (\<forall>e \<in> set es. event_ok e)"
proof (induction es arbitrary: index)
  case (Cons e es)
  show ?case
    by (simp add: issue_simps Cons.IH event_ok_def isfinite_iff abs_le_iff)
      (auto simp: isfinite_iff)
qed simp

lemma quality_issues_Cons:
  "quality_issues index seen previous (c # cs) = [] \<longleftrightarrow>
   cd_timestamp c \<noteq> [] \<and> cd_timestamp c \<notin> seen \<and> candle_ok c
   \<and> (\<forall>p. previous = Some p \<longrightarrow> p \<le> cd_timestamp c)
   \<and> quality_issues (Suc index) (insert (cd_timestamp c) seen) (Some (cd_timestamp c)) cs = []"
  by (auto simp: issue_simps quality_value_issues_Nil split: option.splits)

lemma quality_issues_Nil:
  "quality_issues index seen previous cs = [] \<longleftrightarrow>
   (\<forall>c \<in> set cs. candle_ok c \<and> cd_timestamp c \<noteq> [] \<and> cd_timestamp c \<notin> seen)
   \<and> distinct (map cd_timestamp cs) \<and> sorted (map cd_timestamp cs)
   \<and> (\<forall>p c cs'. previous = Some p \<longrightarrow> cs = c # cs' \<longrightarrow> p \<le> cd_timestamp c)"
proof (induction cs arbitrary: index seen previous)
  case (Cons c cs)
  have notin: "(\<forall>x \<in> set cs. cd_timestamp x \<noteq> cd_timestamp c)
      \<longleftrightarrow> cd_timestamp c \<notin> cd_timestamp ` set cs"
    by (auto simp: image_iff)
  have srt: "sorted (map cd_timestamp (c # cs)) \<longleftrightarrow> sorted (map cd_timestamp cs)
      \<and> (\<forall>d cs'. cs = d # cs' \<longrightarrow> cd_timestamp c \<le> cd_timestamp d)"
    by (cases cs) auto
  show ?case
    unfolding quality_issues_Cons Cons.IH srt by (auto simp: notin) (metis imageI)
qed simp

lemma validate_request_ok: "validate_request rq = Inr () \<longleftrightarrow> request_ok rq"
  unfolding validate_request_def Let_def request_ok_def
  by (auto simp: issue_simps candle_issues_Nil event_issues_Nil)

subsection \<open>Properties\<close>

text \<open>
  C31: The request validator decides its specification: a request is accepted exactly when target
  and horizon are not blank, there is at least one candle, every candle is finite, positive and
  ordered (\<open>low \<le> open, close \<le> high\<close>) with a time stamp of its own, and every event is in range.
\<close>

theorem request_validator_decides: "validate_request rq = Inr () \<longleftrightarrow> request_ok rq"
  by (rule validate_request_ok)

text \<open>
  C32: The candle inspector and the request validator agree on candles: the inspector calls a list
  usable exactly when the validator has no complaint about it and its time stamps are in order.
\<close>

theorem quality_agrees_with_validation:
  "qr_is_usable (inspect_candles cs) \<longleftrightarrow> cs \<noteq> [] \<and> candle_issues 0 {} cs = [] \<and> sorted (map cd_timestamp cs)"
  by (simp add: inspect_candles_def Let_def candle_issues_Nil quality_issues_Nil)

end
