(* ===== verification/Graph_Topology.thy ===== *)
theory Graph_Topology
  imports Prelude
begin

section \<open>Stable topological levels and dependency closure\<close>

text \<open>
  Models \<open>graph/topology.py\<close>. The functions there are generic in the node type and use a
  node's \<open>node_id\<close> and \<open>dependencies\<close> only; a \<open>node_by_id\<close> mapping is therefore the
  association list of identifiers and dependency lists, in insertion order
  (\<open>dep_map\<close> projects one out of a mapping of nodes). Both dictionaries of the level
  computation have the keys of \<open>node_by_id\<close> and are total functions here.
  The lemmas show that the level loop ends, that its levels are exactly the layers of the
  dependency order, which nodes it reports as cyclic, and that the closure is reachability.
\<close>

type_synonym 'a depmap = "('a \<times> 'a list) list"

definition dep_map :: "('n \<Rightarrow> 'a list) \<Rightarrow> ('a \<times> 'n) list \<Rightarrow> 'a depmap" where
  "dep_map dependencies node_by_id = map (\<lambda>(k, n). (k, dependencies n)) node_by_id"

definition nodes :: "'a depmap \<Rightarrow> 'a set" where
  "nodes g = set (map fst g)"

definition deps_of :: "'a depmap \<Rightarrow> 'a \<Rightarrow> 'a list" where
  "deps_of g n = (case map_of g n of None \<Rightarrow> [] | Some ds \<Rightarrow> ds)"

subsection \<open>The level computation\<close>

definition dependency_counts :: "'a depmap \<Rightarrow> 'a \<Rightarrow> int" where
  "dependency_counts g n = int (length (filter (\<lambda>d. d \<in> nodes g) (deps_of g n)))"

definition dependents :: "'a depmap \<Rightarrow> 'a \<Rightarrow> 'a list" where
  "dependents g = foldl (\<lambda>D (n, ds).
      foldl (\<lambda>D d. if d \<in> nodes g then D(d := D d @ [n]) else D) D ds) (\<lambda>_. []) g"

text \<open>One dependent of a finished node: decrement, and queue it when its count reaches zero.\<close>

definition relax :: "('a \<Rightarrow> int) \<times> 'a list \<Rightarrow> 'a \<Rightarrow> ('a \<Rightarrow> int) \<times> 'a list" where
  "relax st d = (let c = fst st; c' = c(d := c d - 1)
     in (c', if c' d = 0 then snd st @ [d] else snd st))"

text \<open>One pass of the \<open>while current\<close> body over the nodes of the level.\<close>

definition process_level ::
  "('a::linorder \<Rightarrow> 'a list) \<Rightarrow> ('a \<Rightarrow> int) \<Rightarrow> 'a list \<Rightarrow> ('a \<Rightarrow> int) \<times> 'a list" where
  "process_level D c current =
     foldl (\<lambda>st n. foldl relax st (sort (D n))) (c, []) current"

text \<open>
  The loop, with fuel. \<open>None\<close> is "ran out of fuel"; \<open>topo_loop_total\<close> below shows that one
  more unit than there are nodes is always enough.
\<close>

fun topo_loop :: "nat \<Rightarrow> ('a::linorder \<Rightarrow> 'a list) \<Rightarrow> ('a \<Rightarrow> int) \<Rightarrow> 'a set \<Rightarrow> 'a list
    \<Rightarrow> ('a list list \<times> 'a set) option" where
  "topo_loop fuel D c visited [] = Some ([], visited)"
| "topo_loop 0 D c visited (x # xs) = None"
| "topo_loop (Suc fuel) D c visited (x # xs) =
     (let (c', nxt) = process_level D c (x # xs) in
      case topo_loop fuel D c' (visited \<union> set (x # xs)) (sort (remdups nxt)) of
        None \<Rightarrow> None
      | Some (ls, v) \<Rightarrow> Some ((x # xs) # ls, v))"

definition stable_topological_levels :: "('a::linorder) depmap \<Rightarrow> 'a list list \<times> 'a list" where
  "stable_topological_levels g =
     (let ids = map fst g;
          c = dependency_counts g;
          current = sort (filter (\<lambda>n. c n = 0) ids);
          (levels, visited) = the (topo_loop (Suc (length g)) (dependents g) c {} current)
      in (levels, sort (filter (\<lambda>n. n \<notin> visited) ids)))"

subsection \<open>The dependency closure\<close>

text \<open>
  The work list is a Python list used as a stack: \<open>pop()\<close> takes its last element and
  \<open>extend\<close> appends. Each round either drops an element of the stack or marks a new node.
\<close>

function closure_loop :: "'a depmap \<Rightarrow> 'a list \<Rightarrow> 'a set \<Rightarrow> 'a set" where
  "closure_loop g pending reachable =
     (if pending = [] then reachable
      else let node_id = last pending; rest = butlast pending in
        if node_id \<in> reachable \<or> node_id \<notin> nodes g then closure_loop g rest reachable
        else closure_loop g (rest @ filter (\<lambda>d. d \<in> nodes g) (deps_of g node_id))
               (insert node_id reachable))"
  by pat_completeness auto
termination
proof (relation "inv_image (finite_psubset <*lex*> less_than)
        (\<lambda>(g, pending, reachable). (nodes g - reachable, length pending))", goal_cases)
  case 1
  show ?case by (simp add: wf_finite_psubset wf_lex_prod)
qed (auto simp: finite_psubset_def nodes_def)

declare closure_loop.simps [simp del]

definition dependency_closure :: "'a list \<Rightarrow> 'a depmap \<Rightarrow> 'a set" where
  "dependency_closure roots g = closure_loop g roots {}"

subsection \<open>The dependency relation\<close>

definition dep_rel :: "'a depmap \<Rightarrow> ('a \<times> 'a) set" where
  "dep_rel g = {(n, d). n \<in> nodes g \<and> d \<in> set (deps_of g n) \<and> d \<in> nodes g}"

text \<open>The nodes whose present dependencies all lie in \<open>V\<close>.\<close>

definition ready :: "'a depmap \<Rightarrow> 'a set \<Rightarrow> 'a set" where
  "ready g V = {n \<in> nodes g. set (deps_of g n) \<inter> nodes g \<subseteq> V}"

text \<open>
  The specification of the levels: from the nodes \<open>V\<close> already placed, every level holds, in
  order and once each, exactly the nodes that have become ready; the levels end when none has.
\<close>

primrec layered :: "('a::linorder) depmap \<Rightarrow> 'a set \<Rightarrow> 'a list list \<Rightarrow> bool" where
  "layered g V [] = (ready g V \<subseteq> V)"
| "layered g V (l # ls) = (l \<noteq> [] \<and> sorted l \<and> distinct l \<and> set l = ready g V - V
     \<and> layered g (V \<union> set l) ls)"

lemma layered_Nil: "layered g V [] \<longleftrightarrow> ready g V \<subseteq> V"
  by simp

lemma layered_ConsI:
  "\<lbrakk>l \<noteq> []; sorted l; distinct l; set l = ready g V - V; layered g (V \<union> set l) ls\<rbrakk>
    \<Longrightarrow> layered g V (l # ls)"
  by simp

lemma layered_ConsE:
  assumes "layered g V (l # ls)"
  obtains "l \<noteq> []" "sorted l" "distinct l" "set l = ready g V - V" "layered g (V \<union> set l) ls"
  using assms unfolding layered.simps by blast

declare layered.simps [simp del]

lemma finite_nodes [simp]: "finite (nodes g)"
  by (simp add: nodes_def)

lemma deps_of_dep_map:
  "deps_of (dep_map f m) n = (case map_of m n of None \<Rightarrow> [] | Some x \<Rightarrow> f x)"
  by (simp add: deps_of_def dep_map_def map_of_map split: option.splits)

lemma nodes_dep_map [simp]: "nodes (dep_map f m) = fst ` set m"
  by (force simp: nodes_def dep_map_def)

lemma deps_of_outside: "n \<notin> nodes g \<Longrightarrow> deps_of g n = []"
proof -
  assume "n \<notin> nodes g"
  then have "map_of g n = None" by (auto simp: nodes_def map_of_eq_None_iff)
  then show ?thesis by (simp add: deps_of_def)
qed

lemma dep_relI: "n \<in> nodes g \<Longrightarrow> d \<in> set (deps_of g n) \<Longrightarrow> d \<in> nodes g \<Longrightarrow> (n, d) \<in> dep_rel g"
  by (simp add: dep_rel_def)

lemma layered_unique: "layered g V ls \<Longrightarrow> layered g V ls' \<Longrightarrow> ls = ls'"
proof (induction ls arbitrary: V ls')
  case Nil
  then have "ready g V - V = {}" by (simp add: layered_Nil)
  with Nil.prems(2) show ?case by (cases ls') (blast, metis layered_ConsE set_empty)
next
  case (Cons l ls)
  from Cons.prems(1) have "set l = ready g V - V" "l \<noteq> []" by (auto elim: layered_ConsE)
  then have "\<not> ready g V \<subseteq> V" by (metis Diff_eq_empty_iff set_empty)
  with Cons.prems(2) obtain m ms where ls': "ls' = m # ms"
    by (cases ls') (auto simp: layered_Nil)
  with Cons.prems have "l = m"
    by (metis layered_ConsE sorted_distinct_set_unique)
  with Cons ls' show ?case by (metis layered_ConsE)
qed

subsection \<open>The loop computes the layers\<close>

text \<open>The dependencies of \<open>n\<close> that are nodes and not yet visited.\<close>

definition pending_deps :: "'a depmap \<Rightarrow> 'a set \<Rightarrow> 'a \<Rightarrow> int" where
  "pending_deps g V n = int (length (filter (\<lambda>d. d \<in> nodes g \<and> d \<notin> V) (deps_of g n)))"

lemma pending_deps_empty: "dependency_counts g n = pending_deps g {} n"
  by (simp add: dependency_counts_def pending_deps_def)

lemma pending_deps_zero: "n \<in> nodes g \<Longrightarrow> pending_deps g V n = 0 \<longleftrightarrow> n \<in> ready g V"
  by (auto simp: pending_deps_def ready_def filter_empty_conv)

lemma ready_mono: "V \<subseteq> W \<Longrightarrow> ready g V \<subseteq> ready g W"
  by (auto simp: ready_def)

lemma ready_nodes: "ready g V \<subseteq> nodes g"
  by (auto simp: ready_def)

lemma relax_fold:
  assumes "\<And>x. int (count_list ds x) \<le> c x"
  shows "fst (foldl relax (c, nx) ds) = (\<lambda>x. c x - int (count_list ds x))
    \<and> set (snd (foldl relax (c, nx) ds)) = set nx \<union> {x \<in> set ds. c x = int (count_list ds x)}"
  using assms
proof (induction ds arbitrary: c nx)
  case Nil
  then show ?case by simp
next
  case (Cons d ds)
  define c' where "c' = c(d := c d - 1)"
  define nx' where "nx' = (if c' d = 0 then nx @ [d] else nx)"
  have step: "foldl relax (c, nx) (d # ds) = foldl relax (c', nx') ds"
    by (simp add: relax_def c'_def nx'_def Let_def)
  have le: "int (count_list ds x) \<le> c' x" for x
    using Cons.prems[of x] by (auto simp: c'_def)
  have c'0: "d \<notin> set ds" if "c' d = 0"
    using le[of d] that by (simp add: count_list_0_iff)
  have "set nx' \<union> {x \<in> set ds. c' x = int (count_list ds x)}
      = set nx \<union> {x \<in> set (d # ds). c x = int (count_list (d # ds) x)}"
  proof (cases "c' d = 0")
    case True
    with c'0 show ?thesis by (auto simp: nx'_def c'_def count_list_0_iff)
  next
    case False
    then have "d \<in> set ds \<or> c' d \<noteq> int (count_list ds d)"
      by (metis count_notin of_nat_0)
    with False show ?thesis by (auto simp: nx'_def c'_def)
  qed
  with Cons.IH[OF le] have
    "set (snd (foldl relax (c', nx') ds)) = set nx \<union> {x \<in> set (d # ds). c x = int (count_list (d # ds) x)}"
    by blast
  moreover have "fst (foldl relax (c', nx') ds) = (\<lambda>x. c' x - int (count_list ds x))"
    using Cons.IH[OF le] by blast
  moreover have "(\<lambda>x. c' x - int (count_list ds x)) = (\<lambda>x. c x - int (count_list (d # ds) x))"
    by (auto simp: c'_def fun_eq_iff)
  ultimately show ?case by (simp only: step)
qed

lemma dependents_aux:
  "count_list (foldl (\<lambda>D d. if d \<in> N then D(d := D d @ [n]) else D) D ds x) m
     = count_list (D x) m + (if n = m \<and> x \<in> N then count_list ds x else 0)"
  by (induction ds arbitrary: D) auto

lemma dependents_aux2:
  assumes "x \<in> N"
  shows "count_list (foldl (\<lambda>D (n, ds).
        foldl (\<lambda>D d. if d \<in> N then D(d := D d @ [n]) else D) D ds) D g x) m
     = count_list (D x) m + sum_list (map (\<lambda>(n, ds). if n = m then count_list ds x else 0) g)"
proof (induction g arbitrary: D)
  case (Cons p g)
  obtain n ds where p: "p = (n, ds)" by (cases p)
  show ?case
    using assms by (simp add: p Cons.IH dependents_aux)
qed simp

lemma sum_list_assoc:
  assumes "distinct (map fst g)"
  shows "sum_list (map (\<lambda>(n, ds). if n = m then f ds else (0::nat)) g)
    = (case map_of g m of None \<Rightarrow> 0 | Some ds \<Rightarrow> f ds)"
  using assms
proof (induction g)
  case (Cons p g)
  obtain n ds where p: "p = (n, ds)" by (cases p)
  show ?case
  proof (cases "n = m")
    case True
    with Cons.prems p have "map_of g m = None" by (auto simp: map_of_eq_None_iff)
    with Cons p True show ?thesis by simp
  next
    case False
    with Cons p show ?thesis by simp
  qed
qed simp

text \<open>A node occurs among the dependents of \<open>x\<close> as often as \<open>x\<close> among its dependencies.\<close>

lemma count_dependents:
  assumes "distinct (map fst g)" "x \<in> nodes g"
  shows "count_list (dependents g x) m = count_list (deps_of g m) x"
  using dependents_aux2[OF assms(2), of "\<lambda>_. []" g m] sum_list_assoc[OF assms(1), of m "\<lambda>ds. count_list ds x"]
  by (simp add: dependents_def deps_of_def split: option.splits)

lemma count_filter_set:
  assumes "distinct cs"
  shows "length (filter (\<lambda>d. d \<in> set cs) ds) = sum_list (map (count_list ds) cs)"
  using assms
proof (induction cs)
  case (Cons c cs)
  have "length (filter (\<lambda>d. d \<in> set (c # cs)) ds)
      = length (filter (\<lambda>d. d = c) ds) + length (filter (\<lambda>d. d \<in> set cs) ds)"
    using Cons.prems by (induction ds) auto
  moreover have "length (filter (\<lambda>d. d = c) ds) = count_list ds c"
    by (induction ds) auto
  ultimately show ?case using Cons by simp
qed simp

lemma pending_split:
  assumes "C \<subseteq> nodes g" "C \<inter> V = {}"
  shows "pending_deps g V n
    = pending_deps g (V \<union> C) n + int (length (filter (\<lambda>d. d \<in> C) (deps_of g n)))"
proof -
  have "length (filter (\<lambda>d. d \<in> nodes g \<and> d \<notin> V) ds) =
      length (filter (\<lambda>d. d \<in> nodes g \<and> d \<notin> V \<union> C) ds) + length (filter (\<lambda>d. d \<in> C) ds)" for ds
    using assms by (induction ds) auto
  then show ?thesis by (simp add: pending_deps_def)
qed

text \<open>
  One pass over a level: the counts become the pending dependencies of the enlarged visited
  set, and the nodes queued are exactly those whose last pending dependency was in the level.
\<close>

lemma process_level_spec:
  fixes cur :: "'a::linorder list"
  assumes g: "distinct (map fst g)" and cur: "distinct cur" "set cur \<subseteq> nodes g" "set cur \<inter> V = {}"
  shows "fst (process_level (dependents g) (pending_deps g V) cur) = pending_deps g (V \<union> set cur)"
    and "set (snd (process_level (dependents g) (pending_deps g V) cur))
      = ready g (V \<union> set cur) - ready g V"
proof -
  define ds where "ds = concat (map (\<lambda>n. sort (dependents g n)) cur)"
  have pl: "process_level (dependents g) (pending_deps g V) cur
      = foldl relax (pending_deps g V, []) ds"
    by (simp add: process_level_def ds_def foldl_concat_map)
  have cnt: "count_list ds x = length (filter (\<lambda>d. d \<in> set cur) (deps_of g x))" for x
  proof -
    have "count_list ds x = sum_list (map (\<lambda>n. count_list (dependents g n) x) cur)"
      by (simp add: ds_def count_list_concat comp_def)
    also have "\<dots> = sum_list (map (count_list (deps_of g x)) cur)"
      using cur(2) by (intro arg_cong[where f = sum_list] map_cong refl count_dependents g) auto
    also have "\<dots> = length (filter (\<lambda>d. d \<in> set cur) (deps_of g x))"
      using cur(1) by (simp add: count_filter_set)
    finally show ?thesis .
  qed
  note split = pending_split[OF cur(2,3), folded cnt]
  have le: "int (count_list ds x) \<le> pending_deps g V x" for x
    using split[of x] by (simp add: pending_deps_def)
  have "fst (process_level (dependents g) (pending_deps g V) cur)
      = (\<lambda>x. pending_deps g V x - int (count_list ds x))"
    using relax_fold[OF le, where nx = "[]"] pl by simp
  also have "\<dots> = pending_deps g (V \<union> set cur)"
    by (rule ext) (simp add: split)
  finally show "fst (process_level (dependents g) (pending_deps g V) cur)
      = pending_deps g (V \<union> set cur)" .
  have inN: "x \<in> nodes g" if "x \<in> set ds" for x
  proof (rule ccontr)
    assume "x \<notin> nodes g"
    then have "deps_of g x = []" by (rule deps_of_outside)
    with cnt[of x] that show False by (simp add: count_list_0_iff)
  qed
  have "set (snd (process_level (dependents g) (pending_deps g V) cur))
      = {x \<in> set ds. pending_deps g V x = int (count_list ds x)}"
    using relax_fold[OF le, where nx = "[]"] pl by simp
  also have "\<dots> = {x \<in> set ds. pending_deps g (V \<union> set cur) x = 0}"
    by (intro Collect_cong conj_cong refl) (simp add: split)
  also have "\<dots> = ready g (V \<union> set cur) - ready g V"
  proof (intro equalityI subsetI)
    fix x assume "x \<in> {x \<in> set ds. pending_deps g (V \<union> set cur) x = 0}"
    then have x: "x \<in> nodes g" "x \<in> set ds" "pending_deps g (V \<union> set cur) x = 0"
      using inN by auto
    then have "pending_deps g V x \<noteq> 0"
      using split[of x] by (simp add: count_list_0_iff)
    with x show "x \<in> ready g (V \<union> set cur) - ready g V" by (simp add: pending_deps_zero)
  next
    fix x assume x: "x \<in> ready g (V \<union> set cur) - ready g V"
    then have "x \<in> nodes g" using ready_nodes[of g "V \<union> set cur"] by blast
    with x have "pending_deps g (V \<union> set cur) x = 0" "pending_deps g V x \<noteq> 0"
      by (auto simp: pending_deps_zero)
    moreover from this split[of x] have "x \<in> set ds" by (metis add.left_neutral count_notin of_nat_0)
    ultimately show "x \<in> {x \<in> set ds. pending_deps g (V \<union> set cur) x = 0}" by simp
  qed
  finally show "set (snd (process_level (dependents g) (pending_deps g V) cur))
      = ready g (V \<union> set cur) - ready g V" .
qed


text \<open>The loop ends within one unit of fuel per unplaced node, and its result is layered.\<close>

lemma topo_loop_total:
  fixes cur :: "'a::linorder list"
  assumes g: "distinct (map fst g)"
    and "ready g V = V \<union> set cur" "V \<inter> set cur = {}" "sorted cur" "distinct cur"
    and "V \<subseteq> nodes g" "card (nodes g - V) < fuel"
  shows "\<exists>ls. topo_loop fuel (dependents g) (pending_deps g V) V cur
      = Some (ls, V \<union> set (concat ls)) \<and> layered g V ls"
  using assms(2-)
proof (induction fuel arbitrary: V cur)
  case 0
  then show ?case by simp
next
  case (Suc fuel)
  show ?case
  proof (cases cur)
    case Nil
    with Suc.prems(1) show ?thesis by (intro exI[of _ "[]"]) (simp add: layered_Nil)
  next
    case (Cons x xs)
    define V' where "V' = V \<union> set cur"
    have curN: "set cur \<subseteq> nodes g"
      using Suc.prems(1) ready_nodes[of g V] by blast
    obtain c' nxt where pl: "process_level (dependents g) (pending_deps g V) cur = (c', nxt)"
      by (cases "process_level (dependents g) (pending_deps g V) cur")
    from process_level_spec[OF g Suc.prems(4) curN, of V] Suc.prems(2) pl
    have c': "c' = pending_deps g V'" and nxt: "set nxt = ready g V' - V'"
      by (auto simp: V'_def Suc.prems(1))
    define cur' where "cur' = sort (remdups nxt)"
    have "V' = ready g V" by (simp add: V'_def Suc.prems(1))
    then have sub: "V' \<subseteq> ready g V'"
      using ready_mono[of V V' g] by (auto simp: V'_def)
    have "nodes g - V' \<subset> nodes g - V"
      using curN Suc.prems(2) Cons by (auto simp: V'_def)
    then have "card (nodes g - V') < card (nodes g - V)" by (intro psubset_card_mono) auto
    with Suc.prems(6) have card: "card (nodes g - V') < fuel" by simp
    have "\<exists>ls. topo_loop fuel (dependents g) (pending_deps g V') V' cur'
      = Some (ls, V' \<union> set (concat ls)) \<and> layered g V' ls"
      using sub card curN Suc.prems(5) by (intro Suc.IH) (auto simp: cur'_def nxt V'_def)
    then obtain ls where ls: "topo_loop fuel (dependents g) (pending_deps g V') V' cur'
        = Some (ls, V' \<union> set (concat ls))" "layered g V' ls"
      by blast
    have "topo_loop (Suc fuel) (dependents g) (pending_deps g V) V cur
        = (case topo_loop fuel (dependents g) c' V' cur' of None \<Rightarrow> None
           | Some (ls, v) \<Rightarrow> Some (cur # ls, v))"
      using pl unfolding Cons cur'_def V'_def by (simp del: set_simps)
    with ls(1) have res: "topo_loop (Suc fuel) (dependents g) (pending_deps g V) V cur
        = Some (cur # ls, V' \<union> set (concat ls))"
      by (simp add: c')
    have "set cur = ready g V - V"
      using Suc.prems(1,2) by blast
    moreover have "cur \<noteq> []" using Cons by simp
    ultimately have "layered g V (cur # ls)"
      using ls(2) Suc.prems(3,4) unfolding V'_def by (intro layered_ConsI)
    with res show ?thesis
      by (intro exI[of _ "cur # ls"]) (simp add: V'_def Un_assoc)
  qed
qed

definition initial_level :: "('a::linorder) depmap \<Rightarrow> 'a list" where
  "initial_level g = sort (filter (\<lambda>n. dependency_counts g n = 0) (map fst g))"

lemma topo_loop_initial:
  assumes g: "distinct (map fst g)"
  shows "\<exists>ls. topo_loop (Suc (length g)) (dependents g) (dependency_counts g) {} (initial_level g)
      = Some (ls, set (concat ls)) \<and> layered g {} ls"
proof -
  have "dependency_counts g n = 0 \<longleftrightarrow> n \<in> ready g {}" if "n \<in> set (map fst g)" for n
    using that by (simp add: pending_deps_empty pending_deps_zero nodes_def)
  then have "set (filter (\<lambda>n. dependency_counts g n = 0) (map fst g))
      = set (map fst g) \<inter> ready g {}" by auto
  then have "set (initial_level g) = ready g {}"
    using ready_nodes[of g "{}"] by (auto simp: initial_level_def nodes_def)
  moreover have "card (nodes g) < Suc (length g)"
    using card_length[of "map fst g"] by (simp add: nodes_def)
  ultimately have "\<exists>ls. topo_loop (Suc (length g)) (dependents g) (pending_deps g {}) {} (initial_level g)
      = Some (ls, {} \<union> set (concat ls)) \<and> layered g {} ls"
    using g by (intro topo_loop_total) (auto simp: initial_level_def distinct_filter)
  moreover have "dependency_counts g = pending_deps g {}"
    by (rule ext) (rule pending_deps_empty)
  ultimately show ?thesis by simp
qed

lemma stable_levels_layered:
  assumes g: "distinct (map fst g)" and res: "stable_topological_levels g = (levels, cyclic)"
  shows "layered g {} levels \<and> cyclic = sort (filter (\<lambda>n. n \<notin> set (concat levels)) (map fst g))"
proof -
  obtain ls where ls:
      "topo_loop (Suc (length g)) (dependents g) (dependency_counts g) {} (initial_level g)
      = Some (ls, set (concat ls))" "layered g {} ls"
    using topo_loop_initial[OF g] by blast
  then have eq: "stable_topological_levels g
      = (ls, sort (filter (\<lambda>n. n \<notin> set (concat ls)) (map fst g)))"
    by (simp add: stable_topological_levels_def Let_def initial_level_def)
  from trans[OF res[symmetric] eq]
  have "levels = ls" "cyclic = sort (filter (\<lambda>n. n \<notin> set (concat ls)) (map fst g))"
    unfolding prod.inject by blast+
  with ls(2) show ?thesis by blast
qed

subsection \<open>What the layers say\<close>

lemma layered_distinct:
  "layered g V ls \<Longrightarrow> distinct (concat ls) \<and> set (concat ls) \<inter> V = {} \<and> [] \<notin> set ls"
proof (induction ls arbitrary: V)
  case (Cons l ls)
  from Cons.prems have l: "l \<noteq> []" "distinct l" "set l \<inter> V = {}"
    and "layered g (V \<union> set l) ls" by (auto elim: layered_ConsE)
  with Cons.IH have "distinct (concat ls)" "set (concat ls) \<inter> (V \<union> set l) = {}" "[] \<notin> set ls"
    by blast+
  with l show ?case by auto
qed simp

lemma layered_nodes: "layered g V ls \<Longrightarrow> set (concat ls) \<subseteq> nodes g"
proof (induction ls arbitrary: V)
  case (Cons l ls)
  then have "set l \<subseteq> nodes g" "set (concat ls) \<subseteq> nodes g"
    using ready_nodes[of g V] by (blast elim: layered_ConsE)+
  then show ?case by simp
qed simp

text \<open>No unplaced node is ready once the levels end.\<close>

lemma layered_final: "layered g V ls \<Longrightarrow> ready g (V \<union> set (concat ls)) \<subseteq> V \<union> set (concat ls)"
proof (induction ls arbitrary: V)
  case (Cons l ls)
  then have "layered g (V \<union> set l) ls" by (blast elim: layered_ConsE)
  from Cons.IH[OF this] show ?case by (simp add: Un_assoc)
qed (simp add: layered_Nil)

lemma layered_before:
  "layered g V ls \<Longrightarrow> i < length ls \<Longrightarrow> n \<in> set (ls ! i) \<Longrightarrow>
   set (deps_of g n) \<inter> nodes g \<subseteq> V \<union> set (concat (take i ls))"
proof (induction ls arbitrary: V i)
  case (Cons l ls)
  from Cons.prems(1) have l: "set l \<subseteq> ready g V" and ls: "layered g (V \<union> set l) ls"
    by (blast elim: layered_ConsE)+
  show ?case
  proof (cases i)
    case 0
    with Cons.prems(3) l show ?thesis by (auto simp: ready_def)
  next
    case (Suc j)
    with Cons.IH[OF ls, of j] Cons.prems(2,3) show ?thesis by (simp add: Un_assoc)
  qed
qed simp

text \<open>A level holds no node that an earlier level could already have held.\<close>

lemma layered_tight:
  "layered g V ls \<Longrightarrow> Suc i < length ls \<Longrightarrow> n \<in> set (ls ! Suc i) \<Longrightarrow>
   \<not> set (deps_of g n) \<inter> nodes g \<subseteq> V \<union> set (concat (take i ls))"
proof (induction ls arbitrary: V i)
  case (Cons l ls)
  from Cons.prems(1) have l: "set l = ready g V - V" and ls: "layered g (V \<union> set l) ls"
    by (blast elim: layered_ConsE)+
  show ?case
  proof (cases i)
    case 0
    obtain m ms where m: "ls = m # ms" using Cons.prems(2) by (cases ls) auto
    from ls m have "set m = ready g (V \<union> set l) - (V \<union> set l)" by (blast elim: layered_ConsE)
    with Cons.prems(3) 0 m have "n \<in> ready g (V \<union> set l)" "n \<notin> V \<union> set l" by auto
    with l have "n \<notin> ready g V" "n \<in> nodes g" using ready_nodes[of g "V \<union> set l"] by blast+
    with 0 show ?thesis by (simp add: ready_def)
  next
    case (Suc j)
    with Cons.IH[OF ls, of j] Cons.prems(2,3) show ?thesis by (simp add: Un_assoc)
  qed
qed simp

text \<open>Placed nodes are accessible: every chain of dependencies from them ends.\<close>

lemma layered_acc:
  "layered g V ls \<Longrightarrow> V \<subseteq> Wellfounded.acc ((dep_rel g)\<inverse>) \<Longrightarrow>
   set (concat ls) \<subseteq> Wellfounded.acc ((dep_rel g)\<inverse>)"
proof (induction ls arbitrary: V)
  case (Cons l ls)
  from Cons.prems(1) have l: "set l \<subseteq> ready g V" and ls: "layered g (V \<union> set l) ls"
    by (blast elim: layered_ConsE)+
  have l_acc: "set l \<subseteq> Wellfounded.acc ((dep_rel g)\<inverse>)"
  proof
    fix n assume "n \<in> set l"
    then have "set (deps_of g n) \<inter> nodes g \<subseteq> V" using l by (auto simp: ready_def)
    then have "y \<in> V" if "(y, n) \<in> (dep_rel g)\<inverse>" for y
      using that by (auto simp: dep_rel_def)
    with Cons.prems(2) show "n \<in> Wellfounded.acc ((dep_rel g)\<inverse>)"
      by (blast intro: accI)
  qed
  with Cons.prems(2) have "V \<union> set l \<subseteq> Wellfounded.acc ((dep_rel g)\<inverse>)" by blast
  with Cons.IH[OF ls] l_acc show ?case by simp
qed simp

lemma acc_no_cycle: "m \<in> Wellfounded.acc r \<Longrightarrow> (m, m) \<notin> r\<^sup>+"
proof (induction rule: acc.induct)
  case (accI m)
  show ?case
  proof
    assume "(m, m) \<in> r\<^sup>+"
    then obtain y where "(m, y) \<in> r\<^sup>*" "(y, m) \<in> r" by (blast dest: tranclD2)
    then have "(y, y) \<in> r\<^sup>+" by (blast intro: rtrancl_into_trancl2)
    with accI.IH \<open>(y, m) \<in> r\<close> show False by blast
  qed
qed

lemma finite_dep_rel: "finite (dep_rel g)"
  by (rule finite_subset[of _ "nodes g \<times> nodes g"]) (auto simp: dep_rel_def)

lemma succ_closed_cycle:
  assumes "finite r" "S \<noteq> {}" "\<And>n. n \<in> S \<Longrightarrow> \<exists>d \<in> S. (n, d) \<in> r"
  shows "\<exists>m \<in> S. (m, m) \<in> r\<^sup>+"
proof -
  define q where "q = r \<inter> S \<times> S"
  have "\<not> acyclic q"
  proof
    assume "acyclic q"
    with assms(1) have "wf (q\<inverse>)" by (intro finite_acyclic_wf_converse) (auto simp: q_def)
    from assms(2) obtain a where "a \<in> S" by blast
    from wfE_min[OF \<open>wf (q\<inverse>)\<close> this] obtain z where
      z: "z \<in> S" "\<And>y. (y, z) \<in> q\<inverse> \<Longrightarrow> y \<notin> S" by blast
    obtain d where "d \<in> S" "(z, d) \<in> r" using assms(3)[OF z(1)] by blast
    then have "(d, z) \<in> q\<inverse>" using z(1) by (simp add: q_def)
    with z(2) \<open>d \<in> S\<close> show False by blast
  qed
  then obtain m where m: "(m, m) \<in> q\<^sup>+" by (auto simp: acyclic_def)
  then have "m \<in> S" by (auto simp: q_def dest: tranclD)
  moreover have "(m, m) \<in> r\<^sup>+" using m by (rule trancl_mono) (auto simp: q_def)
  ultimately show ?thesis by blast
qed


lemma stable_levels_nodes:
  assumes "distinct (map fst g)" "stable_topological_levels g = (levels, cyclic)"
  shows "set cyclic = nodes g - set (concat levels)" and "distinct cyclic" and "sorted cyclic"
  using stable_levels_layered[OF assms] assms(1) by (auto simp: nodes_def)

lemma stable_levels_acc:
  assumes "distinct (map fst g)" "stable_topological_levels g = (levels, cyclic)"
  shows "set cyclic = {n \<in> nodes g. n \<notin> Wellfounded.acc ((dep_rel g)\<inverse>)}"
proof -
  note lay = stable_levels_layered[OF assms, THEN conjunct1]
  note cyc = stable_levels_nodes(1)[OF assms]
  have "set (concat levels) \<subseteq> Wellfounded.acc ((dep_rel g)\<inverse>)"
    using layered_acc[OF lay] by simp
  moreover have "n \<notin> Wellfounded.acc ((dep_rel g)\<inverse>)" if "n \<in> set cyclic" for n
  proof
    assume "n \<in> Wellfounded.acc ((dep_rel g)\<inverse>)"
    then show False using that
    proof (induction rule: acc.induct)
      case (accI n)
      have fin: "ready g (set (concat levels)) \<subseteq> set (concat levels)"
        using layered_final[OF lay] by simp
      have n: "n \<in> nodes g" "n \<notin> set (concat levels)" using accI.prems cyc by auto
      with fin have "n \<notin> ready g (set (concat levels))" by blast
      with n obtain d where "d \<in> set (deps_of g n)" "d \<in> nodes g" "d \<notin> set (concat levels)"
        by (auto simp: ready_def)
      with n cyc show False using accI.IH[of d] by (auto simp: dep_rel_def)
    qed
  qed
  ultimately show ?thesis using cyc by blast
qed

lemma acc_iff_no_cycle:
  "n \<in> Wellfounded.acc ((dep_rel g)\<inverse>) \<longleftrightarrow>
   (\<nexists>m. (n, m) \<in> (dep_rel g)\<^sup>* \<and> (m, m) \<in> (dep_rel g)\<^sup>+)"
proof
  assume n: "n \<in> Wellfounded.acc ((dep_rel g)\<inverse>)"
  show "\<nexists>m. (n, m) \<in> (dep_rel g)\<^sup>* \<and> (m, m) \<in> (dep_rel g)\<^sup>+"
  proof safe
    fix m assume m: "(n, m) \<in> (dep_rel g)\<^sup>*" "(m, m) \<in> (dep_rel g)\<^sup>+"
    from m(1) have "(m, n) \<in> ((dep_rel g)\<inverse>)\<^sup>*" by (rule rtrancl_converseI)
    with n have "m \<in> Wellfounded.acc ((dep_rel g)\<inverse>)" by (rule acc_downwards)
    moreover from m(2) have "(m, m) \<in> ((dep_rel g)\<inverse>)\<^sup>+" by (intro trancl_converseI) simp
    ultimately show False using acc_no_cycle[of m "(dep_rel g)\<inverse>"] by metis
  qed
next
  assume no: "\<nexists>m. (n, m) \<in> (dep_rel g)\<^sup>* \<and> (m, m) \<in> (dep_rel g)\<^sup>+"
  show "n \<in> Wellfounded.acc ((dep_rel g)\<inverse>)"
  proof (rule ccontr)
    assume n: "n \<notin> Wellfounded.acc ((dep_rel g)\<inverse>)"
    define S where "S = {m. (n, m) \<in> (dep_rel g)\<^sup>* \<and> m \<notin> Wellfounded.acc ((dep_rel g)\<inverse>)}"
    have "\<exists>d \<in> S. (m, d) \<in> dep_rel g" if "m \<in> S" for m
    proof -
      from that have "m \<notin> Wellfounded.acc ((dep_rel g)\<inverse>)" by (simp add: S_def)
      then obtain d where "(m, d) \<in> dep_rel g" "d \<notin> Wellfounded.acc ((dep_rel g)\<inverse>)"
        by (meson accI converseD)
      with that have "d \<in> S" unfolding S_def by (blast intro: rtrancl_into_rtrancl)
      with \<open>(m, d) \<in> dep_rel g\<close> show ?thesis by blast
    qed
    moreover have "n \<in> S" using n by (simp add: S_def)
    ultimately obtain m where "m \<in> S" "(m, m) \<in> (dep_rel g)\<^sup>+"
      using succ_closed_cycle[OF finite_dep_rel, of S g] by blast
    with no show False by (auto simp: S_def)
  qed
qed

lemma stable_levels_acyclic:
  assumes "distinct (map fst g)" "stable_topological_levels g = (levels, cyclic)"
  shows "cyclic = [] \<longleftrightarrow> acyclic (dep_rel g)"
proof -
  have "cyclic = [] \<longleftrightarrow> (\<forall>n \<in> nodes g. n \<in> Wellfounded.acc ((dep_rel g)\<inverse>))"
    using stable_levels_acc[OF assms] by (auto simp flip: set_empty)
  also have "\<dots> \<longleftrightarrow> acyclic (dep_rel g)"
  proof
    assume l: "\<forall>n \<in> nodes g. n \<in> Wellfounded.acc ((dep_rel g)\<inverse>)"
    show "acyclic (dep_rel g)"
      unfolding acyclic_def
    proof safe
      fix m assume m: "(m, m) \<in> (dep_rel g)\<^sup>+"
      then obtain d where "(m, d) \<in> dep_rel g" by (blast dest: tranclD)
      then have "m \<in> nodes g" by (simp add: dep_rel_def)
      with l have "m \<in> Wellfounded.acc ((dep_rel g)\<inverse>)" by metis
      with acc_iff_no_cycle[of m g] m show False by (metis rtrancl.rtrancl_refl)
    qed
  next
    assume "acyclic (dep_rel g)"
    then show "\<forall>n \<in> nodes g. n \<in> Wellfounded.acc ((dep_rel g)\<inverse>)"
      by (simp add: acc_iff_no_cycle acyclic_def)
  qed
  finally show ?thesis .
qed

text \<open>The position of a placed node, and that an acyclic graph is placed completely.\<close>

lemma stable_levels_complete:
  assumes "distinct (map fst g)" "stable_topological_levels g = (levels, [])"
  shows "set (concat levels) = nodes g" and "distinct (concat levels)"
    and "\<And>i n d. i < length levels \<Longrightarrow> n \<in> set (levels ! i) \<Longrightarrow> d \<in> set (deps_of g n) \<Longrightarrow>
      d \<in> nodes g \<Longrightarrow> d \<in> set (concat (take i levels))"
proof -
  note lay = stable_levels_layered[OF assms, THEN conjunct1]
  show "set (concat levels) = nodes g"
    using stable_levels_nodes(1)[OF assms] layered_nodes[OF lay] by auto
  show "distinct (concat levels)" using layered_distinct[OF lay] by blast
  show "d \<in> set (concat (take i levels))"
    if "i < length levels" "n \<in> set (levels ! i)" "d \<in> set (deps_of g n)" "d \<in> nodes g" for i n d
    using layered_before[OF lay that(1,2)] that(3,4) by auto
qed

subsection \<open>The closure is reachability\<close>

definition reachable_from :: "'a depmap \<Rightarrow> 'a list \<Rightarrow> 'a set" where
  "reachable_from g roots = (dep_rel g)\<^sup>* `` (set roots \<inter> nodes g)"

lemma closure_loop_sound:
  "closure_loop g pending R \<subseteq> R \<union> (dep_rel g)\<^sup>* `` (set pending \<inter> nodes g)"
proof (induction g pending R rule: closure_loop.induct)
  case (1 g pending R)
  show ?case
  proof (cases "pending = []")
    case True
    then show ?thesis by (simp add: closure_loop.simps)
  next
    case ne: False
    define n where "n = last pending"
    define rest where "rest = butlast pending"
    have p: "set pending = insert n (set rest)"
      using ne by (metis append_butlast_last_id n_def rest_def rotate1.simps(2) set_rotate1 list.simps(15))
    show ?thesis
    proof (cases "n \<in> R \<or> n \<notin> nodes g")
      case True
      with ne have "closure_loop g pending R = closure_loop g rest R"
        by (subst closure_loop.simps) (simp add: n_def rest_def)
      with "1.IH"(1)[OF ne n_def rest_def] True p show ?thesis by auto
    next
      case False
      let ?ds = "filter (\<lambda>d. d \<in> nodes g) (deps_of g n)"
      define star where "star X = (dep_rel g)\<^sup>* `` X" for X
      have un: "star (X \<union> Y) = star X \<union> star Y" for X Y by (simp add: star_def Image_Un)
      from False ne have "closure_loop g pending R = closure_loop g (rest @ ?ds) (insert n R)"
        by (subst closure_loop.simps) (simp add: n_def rest_def Let_def)
      with "1.IH"(2)[OF ne n_def rest_def] False
      have "closure_loop g pending R \<subseteq> insert n R \<union> star (set (rest @ ?ds) \<inter> nodes g)"
        by (simp add: star_def)
      also have "star (set (rest @ ?ds) \<inter> nodes g)
          = star (set rest \<inter> nodes g) \<union> star (set ?ds \<inter> nodes g)"
        by (simp only: set_append Int_Un_distrib2 un)
      also have "insert n R \<union> (star (set rest \<inter> nodes g) \<union> star (set ?ds \<inter> nodes g))
          \<subseteq> R \<union> (star {n} \<union> star (set rest \<inter> nodes g))"
      proof -
        have "star (set ?ds \<inter> nodes g) \<subseteq> star {n}"
          using False by (auto simp: star_def dep_rel_def intro: converse_rtrancl_into_rtrancl)
        moreover have "n \<in> star {n}" by (simp add: star_def)
        ultimately show ?thesis by auto
      qed
      also have "star {n} \<union> star (set rest \<inter> nodes g) = star (set pending \<inter> nodes g)"
        using False p by (simp flip: un)
      finally show ?thesis by (simp add: star_def)
    qed
  qed
qed

lemma closure_loop_complete:
  "R \<union> (set pending \<inter> nodes g) \<subseteq> closure_loop g pending R \<and>
   (dep_rel g `` R \<subseteq> R \<union> set pending \<longrightarrow>
      dep_rel g `` closure_loop g pending R \<subseteq> closure_loop g pending R)"
proof (induction g pending R rule: closure_loop.induct)
  case (1 g pending R)
  show ?case
  proof (cases "pending = []")
    case True
    then show ?thesis by (simp add: closure_loop.simps)
  next
    case ne: False
    define n where "n = last pending"
    define rest where "rest = butlast pending"
    have p: "set pending = insert n (set rest)"
      using ne by (metis append_butlast_last_id n_def rest_def rotate1.simps(2) set_rotate1 list.simps(15))
    have relN: "dep_rel g `` R \<subseteq> nodes g" by (auto simp: dep_rel_def)
    show ?thesis
    proof (cases "n \<in> R \<or> n \<notin> nodes g")
      case True
      with ne have eq: "closure_loop g pending R = closure_loop g rest R"
        by (subst closure_loop.simps) (simp add: n_def rest_def)
      have "dep_rel g `` R \<subseteq> R \<union> set rest" if "dep_rel g `` R \<subseteq> R \<union> set pending"
        using that True p relN by auto
      with "1.IH"(1)[OF ne n_def rest_def] True p show ?thesis by (auto simp: eq)
    next
      case False
      let ?ds = "filter (\<lambda>d. d \<in> nodes g) (deps_of g n)"
      from False ne have eq: "closure_loop g pending R = closure_loop g (rest @ ?ds) (insert n R)"
        by (subst closure_loop.simps) (simp add: n_def rest_def Let_def)
      have "dep_rel g `` (insert n R) \<subseteq> insert n R \<union> set (rest @ ?ds)"
        if "dep_rel g `` R \<subseteq> R \<union> set pending"
        using that p by (auto simp: dep_rel_def)
      with "1.IH"(2)[OF ne n_def rest_def] False p show ?thesis by (auto simp: eq)
    qed
  qed
qed

lemma dependency_closure_reachable: "dependency_closure roots g = reachable_from g roots"
proof
  show "dependency_closure roots g \<subseteq> reachable_from g roots"
    using closure_loop_sound[of g roots "{}"]
    by (simp add: dependency_closure_def reachable_from_def)
  have "set roots \<inter> nodes g \<subseteq> dependency_closure roots g"
    and "dep_rel g `` dependency_closure roots g \<subseteq> dependency_closure roots g"
    using closure_loop_complete[of "{}" roots g] by (auto simp: dependency_closure_def)
  then show "reachable_from g roots \<subseteq> dependency_closure roots g"
    unfolding reachable_from_def by (metis Image_closed_trancl Image_mono order_refl)
qed

lemma layered_sorted: "layered g V ls \<Longrightarrow> \<forall>l \<in> set ls. l \<noteq> [] \<and> sorted l"
proof (induction ls arbitrary: V)
  case (Cons l ls)
  then show ?case by (auto elim!: layered_ConsE)
qed simp

subsection \<open>Properties\<close>

text \<open>
  C18: Stable topological levels. Every node is placed once or reported as cyclic. A placed node's
  dependencies all lie in earlier levels, and one of them in the level just before its own, so
  every node is placed as early as possible. The nodes reported are exactly those from which a
  dependency cycle can be reached.
\<close>

theorem stable_levels_correct:
  assumes "distinct (map fst g)" and "stable_topological_levels g = (levels, cyclic)"
  shows "nodes g = set (concat levels) \<union> set cyclic \<and> set (concat levels) \<inter> set cyclic = {}
    \<and> distinct (concat levels) \<and> (\<forall>l \<in> set levels. l \<noteq> [] \<and> sorted l)
    \<and> (\<forall>i n. i < length levels \<longrightarrow> n \<in> set (levels ! i) \<longrightarrow>
         set (deps_of g n) \<inter> nodes g \<subseteq> set (concat (take i levels)))
    \<and> (\<forall>i n. Suc i < length levels \<longrightarrow> n \<in> set (levels ! Suc i) \<longrightarrow>
         (\<exists>d \<in> set (deps_of g n). d \<in> set (levels ! i)))
    \<and> set cyclic = {n \<in> nodes g. \<exists>m. (n, m) \<in> (dep_rel g)\<^sup>* \<and> (m, m) \<in> (dep_rel g)\<^sup>+}"
proof (intro conjI allI impI)
  note lay = stable_levels_layered[OF assms, THEN conjunct1]
  note cyc = stable_levels_nodes(1)[OF assms]
  show "nodes g = set (concat levels) \<union> set cyclic" "set (concat levels) \<inter> set cyclic = {}"
    using cyc layered_nodes[OF lay] by auto
  show "distinct (concat levels)" using layered_distinct[OF lay] by blast
  show "\<forall>l \<in> set levels. l \<noteq> [] \<and> sorted l" by (rule layered_sorted[OF lay])
  show "set (deps_of g n) \<inter> nodes g \<subseteq> set (concat (take i levels))"
    if "i < length levels" "n \<in> set (levels ! i)" for i n
    using layered_before[OF lay that] by simp
  show "\<exists>d \<in> set (deps_of g n). d \<in> set (levels ! i)"
    if i: "Suc i < length levels" and n: "n \<in> set (levels ! Suc i)" for i n
  proof -
    have "set (concat (take (Suc i) levels)) = set (concat (take i levels)) \<union> set (levels ! i)"
      using i by (simp add: take_Suc_conv_app_nth)
    then show ?thesis using layered_before[OF lay i n] layered_tight[OF lay i n] by auto
  qed
  show "set cyclic = {n \<in> nodes g. \<exists>m. (n, m) \<in> (dep_rel g)\<^sup>* \<and> (m, m) \<in> (dep_rel g)\<^sup>+}"
    using stable_levels_acc[OF assms] acc_iff_no_cycle[of _ g] by blast
qed

definition sample_deps :: "nat depmap" where
  "sample_deps = [(1, [2, 3]), (2, []), (3, [2]), (4, [4]), (5, [4, 2])]"

theorem stable_levels_correct_witness:
  "stable_topological_levels sample_deps = ([[2], [3], [1]], [4, 5])
   \<and> {4, 5} = {n \<in> nodes sample_deps. \<exists>m. (n, m) \<in> (dep_rel sample_deps)\<^sup>* \<and> (m, m) \<in> (dep_rel sample_deps)\<^sup>+}"
proof -
  have r: "stable_topological_levels sample_deps = ([[2], [3], [1]], [4, 5])" by code_simp
  have "distinct (map fst sample_deps)" by code_simp
  from stable_levels_correct[OF this r] r show ?thesis by simp
qed

text \<open>
  C28: The level loop ends: one unit of fuel more than there are nodes always gives a result, so
  the \<open>the\<close> in \<open>stable_topological_levels\<close> never meets \<open>None\<close>.
\<close>

theorem level_loop_terminates:
  assumes "distinct (map fst g)"
  shows "\<exists>levels visited. topo_loop (Suc (length g)) (dependents g) (dependency_counts g) {}
     (sort (filter (\<lambda>n. dependency_counts g n = 0) (map fst g))) = Some (levels, visited)"
  using topo_loop_initial[OF assms] by (auto simp: initial_level_def)

theorem level_loop_terminates_witness:
  "\<exists>levels visited. topo_loop 6 (dependents sample_deps) (dependency_counts sample_deps) {} [2] = Some (levels, visited)"
proof -
  have d: "distinct (map fst sample_deps)" by code_simp
  have i: "sort (filter (\<lambda>n. dependency_counts sample_deps n = 0) (map fst sample_deps)) = [2]" by code_simp
  have l: "Suc (length sample_deps) = 6" by (simp add: sample_deps_def)
  from level_loop_terminates[OF d, unfolded i l] show ?thesis .
qed

text \<open>C29: The dependency closure of a list of roots is what can be reached from them.\<close>

theorem closure_is_reachability:
  "dependency_closure roots g = (dep_rel g)\<^sup>* `` (set roots \<inter> nodes g)"
  by (simp add: dependency_closure_reachable reachable_from_def)

end
