(* ===== verification/Graph_Model.thy ===== *)
theory Graph_Model
  imports Core_Models Graph_Topology
begin

section \<open>Cell graphs and their validation\<close>

text \<open>
  Models \<open>graph/models.py\<close> and \<open>graph/validation.py\<close>: the records of a graph, the
  validator with every issue it reports, in the order it reports them, and the declarative
  specification \<open>graph_ok\<close> the validator decides. Python iterates over the set
  \<open>member_ids\<close> in an unspecified order; the model visits the members by first occurrence, and
  the theorems depend on which issues are reported, not on their order.
\<close>

datatype node_role = Leaf | Aggregator | Root

fun show_role :: "node_role \<Rightarrow> string" where
  "show_role Leaf = ''leaf''"
| "show_role Aggregator = ''aggregator''"
| "show_role Root = ''root''"

record graph_node =
  gn_node_id :: string
  gn_cell_id :: string
  gn_execution_role :: node_role
  gn_dependencies :: "string list"
  gn_metadata :: meta

record organ =
  og_organ_id :: string
  og_organ_version :: string
  og_name :: string
  og_node_ids :: "string list"
  og_output_node_ids :: "string list"
  og_description :: string
  og_metadata :: meta

record graph =
  gr_graph_id :: string
  gr_graph_version :: string
  gr_name :: string
  gr_root_node_id :: string
  gr_nodes :: "graph_node list"
  gr_organs :: "organ list"
  gr_description :: string
  gr_schema_version :: string
  gr_metadata :: meta

datatype graph_code =
    G_duplicate_node_id | G_missing_root | G_invalid_root_role | G_unexpected_root_role
  | G_missing_dependency | G_duplicate_dependency | G_self_dependency
  | G_leaf_has_dependencies | G_cycle_detected | G_unreachable_node
  | G_missing_cell_implementation | G_duplicate_organ_id | G_duplicate_organ_node
  | G_duplicate_organ_output | G_organ_has_no_outputs | G_missing_organ_node
  | G_organ_output_not_member | G_organ_dependency_outside_subgraph | G_organ_unreachable_node

record graph_issue =
  gi_code :: graph_code
  gi_message :: string
  gi_node_id :: "string option"
  gi_dependency_id :: "string option"
  gi_cell_id :: "string option"
  gi_organ_id :: "string option"

definition graph_issue ::
  "graph_code \<Rightarrow> string \<Rightarrow> string option \<Rightarrow> string option \<Rightarrow> string option \<Rightarrow> string option \<Rightarrow> graph_issue" where
  "graph_issue code message node dep cell organ = \<lparr>gi_code = code, gi_message = message,
     gi_node_id = node, gi_dependency_id = dep, gi_cell_id = cell, gi_organ_id = organ\<rparr>"

type_synonym node_dict = "(string \<times> graph_node) list"

subsection \<open>The validation passes\<close>

definition unique_nodes :: "graph \<Rightarrow> node_dict \<times> graph_issue list" where
  "unique_nodes g = unique_by gn_node_id
     (\<lambda>n. graph_issue G_duplicate_node_id (msg [''node_id '', gn_node_id n, '' appears more than once''])
        (Some (gn_node_id n)) None None None) (gr_nodes g)"

definition root_issues :: "graph \<Rightarrow> node_dict \<Rightarrow> graph_issue list" where
  "root_issues g d =
     (case map_of d (gr_root_node_id g) of
        None \<Rightarrow> [graph_issue G_missing_root
          (msg [''root_node_id '', gr_root_node_id g, '' does not exist''])
          (Some (gr_root_node_id g)) None None None]
      | Some rt \<Rightarrow> opt_issue (gn_execution_role rt \<noteq> Root)
          (graph_issue G_invalid_root_role (msg [''root node '', gn_node_id rt, '' has role '', show_role (gn_execution_role rt)]) (Some (gn_node_id rt)) None None None))
     @ concat (map (\<lambda>n. opt_issue
          (gn_execution_role n = Root \<and> gn_node_id n \<noteq> gr_root_node_id g)
          (graph_issue G_unexpected_root_role
             (msg [''node '', gn_node_id n, '' is root but is not root_node_id''])
             (Some (gn_node_id n)) None None None)) (gr_nodes g))"

definition dependency_issues :: "node_dict \<Rightarrow> graph_node \<Rightarrow> string \<Rightarrow> graph_issue list" where
  "dependency_issues d n dep =
     (if dep = gn_node_id n then
        [graph_issue G_self_dependency (msg [''node '', gn_node_id n, '' depends on itself''])
          (Some (gn_node_id n)) (Some dep) None None]
      else opt_issue (dep \<notin> fst ` set d)
        (graph_issue G_missing_dependency
          (msg [''node '', gn_node_id n, '' depends on missing node '', dep])
          (Some (gn_node_id n)) (Some dep) None None))"

definition node_issues :: "node_dict \<Rightarrow> graph_node \<Rightarrow> graph_issue list" where
  "node_issues d n =
     opt_issue (gn_execution_role n = Leaf \<and> gn_dependencies n \<noteq> [])
       (graph_issue G_leaf_has_dependencies (msg [''leaf node '', gn_node_id n, '' has dependencies''])
          (Some (gn_node_id n)) None None None)
   @ opt_issue (length (gn_dependencies n) \<noteq> card (set (gn_dependencies n)))
       (graph_issue G_duplicate_dependency (msg [''node '', gn_node_id n, '' repeats a dependency''])
          (Some (gn_node_id n)) None None None)
   @ concat (map (dependency_issues d n) (gn_dependencies n))"

definition cell_implementation_issues :: "graph \<Rightarrow> manifest list \<Rightarrow> graph_issue list" where
  "cell_implementation_issues g manifests =
     concat (map (\<lambda>n. opt_issue (gn_cell_id n \<notin> set (map mf_cell_id manifests))
       (graph_issue G_missing_cell_implementation
          (msg [''node '', gn_node_id n, '' references unregistered Cell '', gn_cell_id n])
          (Some (gn_node_id n)) None (Some (gn_cell_id n)) None)) (gr_nodes g))"

text \<open>The subgraph of an organ: its members that exist, with their nodes.\<close>

definition existing_members :: "organ \<Rightarrow> node_dict \<Rightarrow> node_dict" where
  "existing_members og d =
     map (\<lambda>i. (i, the (map_of d i))) (filter (\<lambda>i. i \<in> fst ` set d) (fromkeys (og_node_ids og)))"

definition organ_outside_issues :: "organ \<Rightarrow> node_dict \<Rightarrow> graph_node \<Rightarrow> graph_issue list" where
  "organ_outside_issues og d n =
     concat (map (\<lambda>dep. opt_issue (dep \<in> fst ` set d \<and> dep \<notin> set (og_node_ids og))
       (graph_issue G_organ_dependency_outside_subgraph
          (msg [''organ '', og_organ_id og, '' node '', gn_node_id n, '' depends on non-member '', dep])
          (Some (gn_node_id n)) (Some dep) None (Some (og_organ_id og)))) (gn_dependencies n))"

definition organ_unreachable_issues :: "organ \<Rightarrow> node_dict \<Rightarrow> graph_issue list" where
  "organ_unreachable_issues og members =
     (let valid_outputs = filter (\<lambda>i. i \<in> fst ` set members) (og_output_node_ids og) in
      if valid_outputs = [] then []
      else let reachable = dependency_closure valid_outputs (dep_map gn_dependencies members)
        in map (\<lambda>i. graph_issue G_organ_unreachable_node
            (msg [''organ '', og_organ_id og, '' node '', i, '' is not reachable from outputs''])
            (Some i) None None (Some (og_organ_id og)))
          (sort (filter (\<lambda>i. i \<notin> reachable) (map fst members))))"

definition organ_issues :: "organ \<Rightarrow> node_dict \<Rightarrow> graph_issue list" where
  "organ_issues og d =
     opt_issue (card (set (og_node_ids og)) \<noteq> length (og_node_ids og))
       (graph_issue G_duplicate_organ_node (msg [''organ '', og_organ_id og, '' repeats a node''])
          None None None (Some (og_organ_id og)))
   @ opt_issue (card (set (og_output_node_ids og)) \<noteq> length (og_output_node_ids og))
       (graph_issue G_duplicate_organ_output
          (msg [''organ '', og_organ_id og, '' repeats an output node''])
          None None None (Some (og_organ_id og)))
   @ opt_issue (og_output_node_ids og = [])
       (graph_issue G_organ_has_no_outputs (msg [''organ '', og_organ_id og, '' has no output nodes''])
          None None None (Some (og_organ_id og)))
   @ concat (map (\<lambda>i. opt_issue (i \<notin> fst ` set d)
       (graph_issue G_missing_organ_node
          (msg [''organ '', og_organ_id og, '' references missing node '', i])
          (Some i) None None (Some (og_organ_id og)))) (og_node_ids og))
   @ concat (map (\<lambda>i. opt_issue (i \<notin> set (og_node_ids og))
       (graph_issue G_organ_output_not_member
          (msg [''organ '', og_organ_id og, '' output '', i, '' is not a member''])
          (Some i) None None (Some (og_organ_id og)))) (og_output_node_ids og))
   @ concat (map (\<lambda>(i, n). organ_outside_issues og d n) (existing_members og d))
   @ organ_unreachable_issues og (existing_members og d)"

fun organs_issues :: "string set \<Rightarrow> node_dict \<Rightarrow> organ list \<Rightarrow> graph_issue list" where
  "organs_issues organ_ids d [] = []"
| "organs_issues organ_ids d (og # ogs) =
     opt_issue (og_organ_id og \<in> organ_ids)
       (graph_issue G_duplicate_organ_id
          (msg [''organ_id '', og_organ_id og, '' appears more than once''])
          None None None (Some (og_organ_id og)))
   @ organ_issues og d
   @ organs_issues (insert (og_organ_id og) organ_ids) d ogs"

definition reachability_issues :: "graph \<Rightarrow> node_dict \<Rightarrow> graph_issue list" where
  "reachability_issues g d =
     (if gr_root_node_id g \<notin> fst ` set d then []
      else let reachable = dependency_closure [gr_root_node_id g] (dep_map gn_dependencies d)
        in map (\<lambda>i. graph_issue G_unreachable_node
            (msg [''node '', i, '' is not reachable from root '', gr_root_node_id g])
            (Some i) None None None)
          (sort (filter (\<lambda>i. i \<notin> reachable) (map fst d))))"

record validated_graph =
  vg_graph :: graph
  vg_topological_levels :: "string list list"

text \<open>\<open>Inl\<close> is the raised \<open>CellGraphValidationError\<close> with its issues.\<close>

definition validate_cell_graph_definition ::
  "graph \<Rightarrow> manifest list option \<Rightarrow> graph_issue list + validated_graph" where
  "validate_cell_graph_definition g manifests =
     (let (d, dup_issues) = unique_nodes g;
          (levels, cyclic) = stable_topological_levels (dep_map gn_dependencies d);
          issues = dup_issues @ root_issues g d
            @ concat (map (node_issues d) (gr_nodes g))
            @ (case manifests of None \<Rightarrow> [] | Some ms \<Rightarrow> cell_implementation_issues g ms)
            @ organs_issues {} d (gr_organs g)
            @ opt_issue (cyclic \<noteq> []) (graph_issue G_cycle_detected
                (msg [''cycle or cycle-blocked nodes: '', join '', '' cyclic]) None None None None)
            @ reachability_issues g d
      in if issues \<noteq> [] then Inl issues
         else Inr \<lparr>vg_graph = g, vg_topological_levels = levels\<rparr>)"

subsection \<open>The specification of a well-formed graph\<close>

definition graph_deps :: "graph_node list \<Rightarrow> string depmap" where
  "graph_deps ns = map (\<lambda>n. (gn_node_id n, gn_dependencies n)) ns"

definition graph_ids :: "graph \<Rightarrow> string set" where
  "graph_ids g = gn_node_id ` set (gr_nodes g)"

definition node_ok :: "graph \<Rightarrow> graph_node \<Rightarrow> bool" where
  "node_ok g n \<longleftrightarrow> distinct (gn_dependencies n)
     \<and> set (gn_dependencies n) \<subseteq> graph_ids g - {gn_node_id n}
     \<and> (gn_execution_role n = Leaf \<longrightarrow> gn_dependencies n = [])
     \<and> (gn_execution_role n = Root \<longrightarrow> gn_node_id n = gr_root_node_id g)"

definition organ_nodes :: "graph \<Rightarrow> organ \<Rightarrow> graph_node list" where
  "organ_nodes g og = filter (\<lambda>n. gn_node_id n \<in> set (og_node_ids og)) (gr_nodes g)"

text \<open>
  An organ is a set of existing nodes closed under dependencies, with outputs among its members
  from which every member is reachable.
\<close>

definition organ_ok :: "graph \<Rightarrow> organ \<Rightarrow> bool" where
  "organ_ok g og \<longleftrightarrow> distinct (og_node_ids og) \<and> distinct (og_output_node_ids og)
     \<and> og_output_node_ids og \<noteq> []
     \<and> set (og_node_ids og) \<subseteq> graph_ids g
     \<and> set (og_output_node_ids og) \<subseteq> set (og_node_ids og)
     \<and> (\<forall>n \<in> set (organ_nodes g og). set (gn_dependencies n) \<inter> graph_ids g \<subseteq> set (og_node_ids og))
     \<and> set (og_node_ids og) \<subseteq> reachable_from (graph_deps (organ_nodes g og)) (og_output_node_ids og)"

definition graph_ok :: "graph \<Rightarrow> manifest list option \<Rightarrow> bool" where
  "graph_ok g manifests \<longleftrightarrow> distinct (map gn_node_id (gr_nodes g))
     \<and> (\<exists>rt \<in> set (gr_nodes g). gn_node_id rt = gr_root_node_id g \<and> gn_execution_role rt = Root)
     \<and> (\<forall>n \<in> set (gr_nodes g). node_ok g n)
     \<and> (\<forall>ms. manifests = Some ms \<longrightarrow> gn_cell_id ` set (gr_nodes g) \<subseteq> mf_cell_id ` set ms)
     \<and> distinct (map og_organ_id (gr_organs g)) \<and> (\<forall>og \<in> set (gr_organs g). organ_ok g og)
     \<and> acyclic (dep_rel (graph_deps (gr_nodes g)))
     \<and> graph_ids g \<subseteq> reachable_from (graph_deps (gr_nodes g)) [gr_root_node_id g]"


subsection \<open>The validator decides the specification\<close>

definition graph_dict :: "graph \<Rightarrow> node_dict" where
  "graph_dict g = map (\<lambda>n. (gn_node_id n, n)) (gr_nodes g)"

lemma graph_dict_keys [simp]: "fst ` set (graph_dict g) = graph_ids g"
  by (simp add: graph_dict_def graph_ids_def image_image)

lemma graph_dict_deps [simp]: "dep_map gn_dependencies (graph_dict g) = graph_deps (gr_nodes g)"
  by (simp add: graph_dict_def dep_map_def graph_deps_def)

lemma map_fst_graph_deps [simp]: "map fst (graph_deps ns) = map gn_node_id ns"
  by (simp add: graph_deps_def)

lemma nodes_graph_deps [simp]: "nodes (graph_deps ns) = gn_node_id ` set ns"
  by (simp add: nodes_def)

lemma unique_nodes_issues: "snd (unique_nodes g) = [] \<longleftrightarrow> distinct (map gn_node_id (gr_nodes g))"
  by (simp add: unique_nodes_def issue_simps)

lemma unique_nodes_dict:
  "distinct (map gn_node_id (gr_nodes g)) \<Longrightarrow> fst (unique_nodes g) = graph_dict g"
  by (simp add: unique_nodes_def unique_by_all graph_dict_def)

lemma graph_dict_lookup:
  assumes "distinct (map gn_node_id (gr_nodes g))"
  shows "map_of (graph_dict g) i = Some n \<longleftrightarrow> n \<in> set (gr_nodes g) \<and> gn_node_id n = i"
  unfolding graph_dict_def by (rule key_map_lookup[OF assms])

lemma graph_dict_None: "map_of (graph_dict g) i = None \<longleftrightarrow> i \<notin> graph_ids g"
  by (simp add: map_of_eq_None_iff)

lemma root_issues_Nil:
  assumes d: "distinct (map gn_node_id (gr_nodes g))"
  shows "root_issues g (graph_dict g) = [] \<longleftrightarrow>
    (\<exists>rt \<in> set (gr_nodes g). gn_node_id rt = gr_root_node_id g \<and> gn_execution_role rt = Root)
    \<and> (\<forall>n \<in> set (gr_nodes g). gn_execution_role n = Root \<longrightarrow> gn_node_id n = gr_root_node_id g)"
proof (cases "map_of (graph_dict g) (gr_root_node_id g)")
  case None
  then have "\<forall>n \<in> set (gr_nodes g). gn_node_id n \<noteq> gr_root_node_id g"
    by (simp add: graph_dict_None graph_ids_def) (metis imageI)
  with None show ?thesis unfolding root_issues_def by simp
next
  case (Some rt)
  have "rt \<in> set (gr_nodes g)" "gn_node_id rt = gr_root_node_id g"
    using graph_dict_lookup[OF d] Some by blast+
  moreover have "n = rt" if "n \<in> set (gr_nodes g)" "gn_node_id n = gr_root_node_id g" for n
    using that Some graph_dict_lookup[OF d, of "gr_root_node_id g" n] by simp
  moreover have "root_issues g (graph_dict g) = [] \<longleftrightarrow> gn_execution_role rt = Root
      \<and> (\<forall>n \<in> set (gr_nodes g). gn_execution_role n = Root \<longrightarrow> gn_node_id n = gr_root_node_id g)"
    unfolding root_issues_def append_is_Nil_conv concat_map_Nil_iff opt_issue_Nil Some option.case
    by auto
  ultimately show ?thesis by metis
qed

lemma dependency_issues_Nil:
  "dependency_issues (graph_dict g) n dep = [] \<longleftrightarrow> dep \<noteq> gn_node_id n \<and> dep \<in> graph_ids g"
  by (simp add: dependency_issues_def issue_simps)

lemma node_issues_Nil:
  "node_issues (graph_dict g) n = [] \<longleftrightarrow> (gn_execution_role n = Leaf \<longrightarrow> gn_dependencies n = [])
    \<and> distinct (gn_dependencies n) \<and> set (gn_dependencies n) \<subseteq> graph_ids g - {gn_node_id n}"
  by (auto simp: node_issues_def issue_simps dependency_issues_Nil)

lemma cell_implementation_issues_Nil:
  "cell_implementation_issues g ms = [] \<longleftrightarrow> gn_cell_id ` set (gr_nodes g) \<subseteq> mf_cell_id ` set ms"
  by (auto simp: cell_implementation_issues_def issue_simps)

text \<open>Two mappings with the same look-ups have the same reachable nodes.\<close>

lemma nodes_dom: "nodes g = dom (map_of g)"
  by (simp add: nodes_def dom_map_of_conv_image_fst)

lemma reachable_from_cong: "map_of g = map_of h \<Longrightarrow> reachable_from g r = reachable_from h r"
  by (simp add: reachable_from_def dep_rel_def nodes_dom deps_of_def)

lemma map_of_graph_deps:
  "distinct (map gn_node_id ns) \<Longrightarrow>
   map_of (graph_deps ns) i = map_option gn_dependencies (map_of (map (\<lambda>n. (gn_node_id n, n)) ns) i)"
  by (induction ns) (auto simp: graph_deps_def)

lemma existing_members_keys:
  "map fst (existing_members og (graph_dict g))
     = filter (\<lambda>i. i \<in> graph_ids g) (fromkeys (og_node_ids og))"
  by (simp add: existing_members_def comp_def)

lemma existing_members_lookup:
  assumes d: "distinct (map gn_node_id (gr_nodes g))"
  shows "map_of (existing_members og (graph_dict g)) i = Some n \<longleftrightarrow>
    n \<in> set (organ_nodes g og) \<and> gn_node_id n = i"
proof -
  have "distinct (map fst (existing_members og (graph_dict g)))"
    by (simp add: existing_members_keys)
  then have "map_of (existing_members og (graph_dict g)) i = Some n
      \<longleftrightarrow> (i, n) \<in> set (existing_members og (graph_dict g))"
    by (rule map_of_eq_Some_iff)
  also have "\<dots> \<longleftrightarrow> i \<in> set (og_node_ids og) \<and> map_of (graph_dict g) i = Some n"
    using graph_dict_None[of g i]
    by (auto simp: existing_members_def simp del: map_of_eq_None_iff)
  also have "\<dots> \<longleftrightarrow> n \<in> set (organ_nodes g og) \<and> gn_node_id n = i"
    by (auto simp: graph_dict_lookup[OF d] organ_nodes_def)
  finally show ?thesis .
qed

lemma existing_members_set:
  assumes d: "distinct (map gn_node_id (gr_nodes g))"
  shows "set (existing_members og (graph_dict g)) = (\<lambda>n. (gn_node_id n, n)) ` set (organ_nodes g og)"
proof -
  have "distinct (map fst (existing_members og (graph_dict g)))"
    by (simp add: existing_members_keys)
  then have "(i, n) \<in> set (existing_members og (graph_dict g)) \<longleftrightarrow>
      n \<in> set (organ_nodes g og) \<and> gn_node_id n = i" for i n
    by (simp add: existing_members_lookup[OF d] flip: map_of_eq_Some_iff)
  then show ?thesis by auto
qed

lemma organ_reachable:
  assumes d: "distinct (map gn_node_id (gr_nodes g))"
  shows "reachable_from (dep_map gn_dependencies (existing_members og (graph_dict g))) r
    = reachable_from (graph_deps (organ_nodes g og)) r"
proof (rule reachable_from_cong, rule ext)
  fix i
  have d': "distinct (map gn_node_id (organ_nodes g og))"
    using d by (simp add: organ_nodes_def distinct_map_filter)
  have "map_of (existing_members og (graph_dict g)) i
      = map_of (map (\<lambda>n. (gn_node_id n, n)) (organ_nodes g og)) i"
    using existing_members_lookup[OF d, of og i] key_map_lookup[OF d', of i]
    by (intro option_ext) simp
  then show "map_of (dep_map gn_dependencies (existing_members og (graph_dict g))) i
      = map_of (graph_deps (organ_nodes g og)) i"
    by (simp add: map_of_graph_deps[OF d'] dep_map_def map_of_map)
qed

lemma organ_unreachable_issues_Nil:
  assumes d: "distinct (map gn_node_id (gr_nodes g))"
    and ids: "set (og_node_ids og) \<subseteq> graph_ids g" "set (og_output_node_ids og) \<subseteq> set (og_node_ids og)"
      "og_output_node_ids og \<noteq> []"
  shows "organ_unreachable_issues og (existing_members og (graph_dict g)) = [] \<longleftrightarrow>
    set (og_node_ids og) \<subseteq> reachable_from (graph_deps (organ_nodes g og)) (og_output_node_ids og)"
proof -
  have keys: "set (map fst (existing_members og (graph_dict g))) = set (og_node_ids og)"
    using ids(1) by (auto simp: existing_members_keys)
  then have "filter (\<lambda>i. i \<in> fst ` set (existing_members og (graph_dict g))) (og_output_node_ids og)
      = og_output_node_ids og"
    using ids(2) by (intro filter_True) auto
  with ids(3) show ?thesis
    unfolding organ_unreachable_issues_def Let_def dependency_closure_reachable organ_reachable[OF d]
    by (simp only: if_False issue_simps keys)
qed

lemma organ_issues_Nil:
  assumes d: "distinct (map gn_node_id (gr_nodes g))"
  shows "organ_issues og (graph_dict g) = [] \<longleftrightarrow> organ_ok g og"
proof -
  have outside: "concat (map (\<lambda>(i, n). organ_outside_issues og (graph_dict g) n)
        (existing_members og (graph_dict g))) = []
      \<longleftrightarrow> (\<forall>n \<in> set (organ_nodes g og). set (gn_dependencies n) \<inter> graph_ids g \<subseteq> set (og_node_ids og))"
    unfolding concat_map_Nil_iff existing_members_set[OF d] organ_outside_issues_def
    by (auto simp: opt_issue_Nil)
  have card: "card (set xs) \<noteq> length xs \<longleftrightarrow> \<not> distinct xs" for xs :: "string list"
    by (auto simp: card_distinct distinct_card)
  have "organ_issues og (graph_dict g) = [] \<longleftrightarrow>
      distinct (og_node_ids og) \<and> distinct (og_output_node_ids og) \<and> og_output_node_ids og \<noteq> []
      \<and> set (og_node_ids og) \<subseteq> graph_ids g \<and> set (og_output_node_ids og) \<subseteq> set (og_node_ids og)
      \<and> (\<forall>n \<in> set (organ_nodes g og). set (gn_dependencies n) \<inter> graph_ids g \<subseteq> set (og_node_ids og))
      \<and> organ_unreachable_issues og (existing_members og (graph_dict g)) = []"
    unfolding organ_issues_def append_is_Nil_conv opt_issue_Nil outside card
    by (simp only: concat_map_Nil_iff opt_issue_Nil graph_dict_keys) blast
  with organ_unreachable_issues_Nil[OF d, of og] show ?thesis
    unfolding organ_ok_def by blast
qed

lemma organs_issues_Nil:
  assumes "distinct (map gn_node_id (gr_nodes g))"
  shows "organs_issues seen (graph_dict g) ogs = [] \<longleftrightarrow> distinct (map og_organ_id ogs)
    \<and> og_organ_id ` set ogs \<inter> seen = {} \<and> (\<forall>og \<in> set ogs. organ_ok g og)"
  by (induction ogs arbitrary: seen) (auto simp: issue_simps organ_issues_Nil[OF assms])

lemma reachability_issues_Nil:
  assumes "gr_root_node_id g \<in> graph_ids g"
  shows "reachability_issues g (graph_dict g) = [] \<longleftrightarrow>
    graph_ids g \<subseteq> reachable_from (graph_deps (gr_nodes g)) [gr_root_node_id g]"
  using assms
  unfolding reachability_issues_def Let_def dependency_closure_reachable graph_dict_deps
  by (simp only: graph_dict_keys not_True_eq_False if_False unreached_Nil set_map)

lemma validate_graph_decides:
  "validate_cell_graph_definition g ms = Inr v \<longleftrightarrow> graph_ok g ms
     \<and> v = \<lparr>vg_graph = g,
            vg_topological_levels = fst (stable_topological_levels (graph_deps (gr_nodes g)))\<rparr>"
proof (cases "distinct (map gn_node_id (gr_nodes g))")
  case False
  then show ?thesis
    by (auto simp: validate_cell_graph_definition_def graph_ok_def unique_nodes_issues[symmetric]
        Let_def split: prod.splits if_splits)
next
  case d: True
  obtain levels cyclic where lv: "stable_topological_levels (graph_deps (gr_nodes g)) = (levels, cyclic)"
    by (cases "stable_topological_levels (graph_deps (gr_nodes g))")
  have cyc: "cyclic = [] \<longleftrightarrow> acyclic (dep_rel (graph_deps (gr_nodes g)))"
    using d lv by (intro stable_levels_acyclic) simp_all
  have un: "unique_nodes g = (graph_dict g, [])"
    using unique_nodes_dict[OF d] unique_nodes_issues[of g] d by (metis prod.collapse)
  have cells: "(case ms of None \<Rightarrow> [] | Some ms \<Rightarrow> cell_implementation_issues g ms) = [] \<longleftrightarrow>
      (\<forall>m. ms = Some m \<longrightarrow> gn_cell_id ` set (gr_nodes g) \<subseteq> mf_cell_id ` set m)"
    by (auto simp: cell_implementation_issues_Nil split: option.splits)
  show ?thesis
  proof (cases "root_issues g (graph_dict g) = []")
    case True
    then have rt: "gr_root_node_id g \<in> graph_ids g"
      unfolding root_issues_Nil[OF d] graph_ids_def by (metis imageI)
    have nodes_ok: "(\<forall>n \<in> set (gr_nodes g). node_ok g n)
        \<longleftrightarrow> (\<forall>n \<in> set (gr_nodes g). node_issues (graph_dict g) n = [])"
      using True unfolding root_issues_Nil[OF d] node_issues_Nil node_ok_def by blast
    have "graph_ok g ms \<longleftrightarrow> concat (map (node_issues (graph_dict g)) (gr_nodes g)) = []
       \<and> (case ms of None \<Rightarrow> [] | Some ms \<Rightarrow> cell_implementation_issues g ms) = []
       \<and> organs_issues {} (graph_dict g) (gr_organs g) = [] \<and> cyclic = []
       \<and> reachability_issues g (graph_dict g) = []"
      using True unfolding graph_ok_def cells organs_issues_Nil[OF d] reachability_issues_Nil[OF rt]
        cyc concat_map_Nil_iff nodes_ok root_issues_Nil[OF d]
      using d by blast
    then have ok: "graph_ok g ms \<longleftrightarrow> concat (map (node_issues (graph_dict g)) (gr_nodes g))
       @ (case ms of None \<Rightarrow> [] | Some ms \<Rightarrow> cell_implementation_issues g ms)
       @ organs_issues {} (graph_dict g) (gr_organs g)
       @ opt_issue (cyclic \<noteq> []) (graph_issue G_cycle_detected
           (msg [''cycle or cycle-blocked nodes: '', join '', '' cyclic]) None None None None)
       @ reachability_issues g (graph_dict g) = []"
      unfolding append_is_Nil_conv opt_issue_Nil not_not .
    show ?thesis
      unfolding validate_cell_graph_definition_def un Let_def prod.case graph_dict_deps lv
        True append_Nil issues_Inr ok fst_conv by (rule refl)
  next
    case False
    then have "\<not> graph_ok g ms"
      unfolding graph_ok_def root_issues_Nil[OF d] node_ok_def by blast
    with False show ?thesis
      by (auto simp: validate_cell_graph_definition_def un lv Let_def)
  qed
qed

subsection \<open>Properties\<close>

lemma root_placed_last:
  assumes lv: "stable_topological_levels g = (levels, [])" and d: "distinct (map fst g)"
    and r: "nodes g \<subseteq> reachable_from g [r]" and ne: "levels \<noteq> []"
  shows "last levels = [r]"
proof -
  note placed = stable_levels_complete[OF d lv]
  have later: "\<exists>j > i. j < length levels \<and> m \<in> set (levels ! j)"
    if "(m, n) \<in> dep_rel g" "i < length levels" "n \<in> set (levels ! i)" for m n i
  proof -
    from that(1) have m: "m \<in> nodes g" "n \<in> set (deps_of g m)" "n \<in> nodes g" by (auto simp: dep_rel_def)
    then obtain j where j: "j < length levels" "m \<in> set (levels ! j)"
      using placed(1) in_concat_nth[of m levels] by blast
    have "n \<in> set (concat (take j levels))" by (rule placed(3)[OF j m(2,3)])
    then obtain k where k: "k < j" "n \<in> set (levels ! k)" using in_concat_take[of j levels n] j(1) by auto
    have "k = i" by (rule distinct_concat_disjoint[OF placed(2)]) (use k j(1) that(2,3) in auto)
    with j k show ?thesis by blast
  qed
  have only: "n = r" if n: "n \<in> set (last levels)" for n
  proof (rule ccontr)
    assume "n \<noteq> r"
    let ?i = "length levels - 1"
    have i: "?i < length levels" "n \<in> set (levels ! ?i)" using ne n by (simp_all add: last_conv_nth)
    then have "n \<in> nodes g" using placed(1) in_concat_nth[of n levels] by blast
    with r have "(r, n) \<in> (dep_rel g)\<^sup>*" by (auto simp: reachable_from_def)
    with \<open>n \<noteq> r\<close> obtain m where "(m, n) \<in> dep_rel g" by (metis rtranclE)
    from later[OF this i] show False by linarith
  qed
  have "last levels \<noteq> []" "distinct (last levels)"
    using layered_distinct[OF stable_levels_layered[OF d lv, THEN conjunct1]] ne
    by (auto simp: distinct_concat_iff) (metis last_in_set)+
  with only show ?thesis
    by (cases "last levels" rule: remdups_adj.cases) auto
qed

text \<open>
  C16: The graph validator decides the specification: it accepts a graph exactly when the graph is
  well formed (unique nodes, one root, existing and acyclic dependencies, everything reachable
  from the root, registered Cells, well-formed organs), and then returns its stable levels.
\<close>

theorem graph_validator_decides:
  "validate_cell_graph_definition g ms = Inr v \<longleftrightarrow> graph_ok g ms
     \<and> v = \<lparr>vg_graph = g,
            vg_topological_levels = fst (stable_topological_levels (graph_deps (gr_nodes g)))\<rparr>"
  by (rule validate_graph_decides)

text \<open>
  C30: The levels of a validated graph are an execution order: they hold every node once, a node
  comes after all its dependencies, and the last level is the root alone.
\<close>

theorem validated_levels_run_root_last:
  assumes "validate_cell_graph_definition g ms = Inr v"
  shows "mset (concat (vg_topological_levels v)) = mset (map gn_node_id (gr_nodes g))
    \<and> (\<forall>i < length (vg_topological_levels v). \<forall>n \<in> set (gr_nodes g).
         gn_node_id n \<in> set (vg_topological_levels v ! i) \<longrightarrow>
         set (gn_dependencies n) \<subseteq> set (concat (take i (vg_topological_levels v))))
    \<and> last (vg_topological_levels v) = [gr_root_node_id g]"
proof (intro conjI allI impI ballI)
  let ?g = "graph_deps (gr_nodes g)"
  obtain levels cyc where s: "stable_topological_levels ?g = (levels, cyc)" by (meson surj_pair)
  from assms s have ok: "graph_ok g ms" and v: "vg_topological_levels v = levels"
    by (simp_all add: validate_graph_decides)
  from ok have d: "distinct (map fst ?g)" and ids: "distinct (map gn_node_id (gr_nodes g))"
    and "acyclic (dep_rel ?g)" and reach: "graph_ids g \<subseteq> reachable_from ?g [gr_root_node_id g]"
    and ok': "\<forall>n \<in> set (gr_nodes g). node_ok g n"
    and root: "\<exists>rt \<in> set (gr_nodes g). gn_node_id rt = gr_root_node_id g"
    unfolding graph_ok_def map_fst_graph_deps by blast+
  then have "cyc = []" using stable_levels_acyclic[OF d s] by blast
  with s have s: "stable_topological_levels ?g = (levels, [])" by simp
  note placed = stable_levels_complete[OF d s]
  show "mset (concat (vg_topological_levels v)) = mset (map gn_node_id (gr_nodes g))"
    unfolding v by (rule set_eq_iff_mset_eq_distinct[THEN iffD1])
      (use placed ids in \<open>simp_all\<close>)
  show "set (gn_dependencies n) \<subseteq> set (concat (take i (vg_topological_levels v)))"
    if "i < length (vg_topological_levels v)" "n \<in> set (gr_nodes g)"
      "gn_node_id n \<in> set (vg_topological_levels v ! i)" for i n
  proof
    fix x assume x: "x \<in> set (gn_dependencies n)"
    have "deps_of ?g (gn_node_id n) = gn_dependencies n"
      using that(2) ids by (simp add: deps_of_def map_of_graph_deps map_of_key_map)
    moreover have "x \<in> nodes ?g" using ok' that(2) x by (auto simp: node_ok_def graph_ids_def)
    ultimately show "x \<in> set (concat (take i (vg_topological_levels v)))"
      using placed(3)[of i "gn_node_id n" x] that x unfolding v by simp
  qed
  have "levels \<noteq> []" using placed(1) root by auto
  then show "last (vg_topological_levels v) = [gr_root_node_id g]"
    unfolding v using reach by (intro root_placed_last[OF s d]) (simp add: graph_ids_def)
qed

end
