(* ===== verification/Graph_Defaults.thy ===== *)
theory Graph_Defaults
  imports Graph_Model
begin

section \<open>The built-in analysis graphs\<close>

text \<open>
  Models \<open>graph/defaults.py\<close>: the default single-horizon graph and its two extensions, which
  insert one more leaf in front of the root and append it to the root's dependencies. The
  descriptions and names are kept; metadata is the source's.
\<close>

definition simple_node :: "string \<Rightarrow> string \<Rightarrow> node_role \<Rightarrow> string list \<Rightarrow> graph_node" where
  "simple_node i c r ds = \<lparr>gn_node_id = i, gn_cell_id = c, gn_execution_role = r,
     gn_dependencies = ds, gn_metadata = []\<rparr>"

definition default_analysis_graph :: graph where
  "default_analysis_graph =
    (let trend = ''cell:technical.trend'';
         support_resistance = ''cell:technical.support_resistance'';
         breakout = ''cell:technical.breakout'';
         volume = ''cell:technical.volume'';
         volume_price_anomaly = ''cell:risk.volume_price_anomaly'';
         volatility = ''cell:technical.volatility'';
         regime = ''cell:technical.market_regime'';
         news = ''cell:external.news'';
         manipulation = ''cell:risk.manipulation'';
         rt = ''cell:root.decision'';
         leaf_nodes =
          [simple_node trend ''technical.trend'' Leaf [],
           simple_node support_resistance ''technical.support_resistance'' Leaf [],
           simple_node volume ''technical.volume'' Leaf [],
           simple_node volatility ''technical.volatility'' Leaf [],
           simple_node regime ''technical.market_regime'' Leaf [],
           simple_node news ''external.news'' Leaf [],
           simple_node volume_price_anomaly ''risk.volume_price_anomaly'' Leaf []];
         breakout_node = simple_node breakout ''technical.breakout'' Aggregator [support_resistance];
         manipulation_node =
           simple_node manipulation ''risk.manipulation'' Aggregator [volume_price_anomaly];
         root_dependency_ids =
           [trend, breakout, volume, volatility, regime, news, manipulation]
     in \<lparr>gr_graph_id = ''market.default_analysis'', gr_graph_version = ''0.4.0'',
         gr_name = ''Default Market Analysis'', gr_root_node_id = rt,
         gr_nodes = leaf_nodes @ [breakout_node, manipulation_node,
           simple_node rt ''root.decision'' Root root_dependency_ids],
         gr_organs =
          [\<lparr>og_organ_id = ''organ.technical_structure'', og_organ_version = ''0.3.0'',
             og_name = ''Technical Structure'',
             og_node_ids = [trend, support_resistance, breakout, volume, volatility, regime],
             og_output_node_ids = [trend, breakout, volume, volatility, regime],
             og_description = '''', og_metadata = []\<rparr>,
           \<lparr>og_organ_id = ''organ.market_risk'', og_organ_version = ''0.2.0'',
             og_name = ''Market Risk'',
             og_node_ids = [volatility, volume_price_anomaly, manipulation],
             og_output_node_ids = [volatility, manipulation],
             og_description = '''', og_metadata = []\<rparr>,
           \<lparr>og_organ_id = ''organ.external_context'', og_organ_version = ''0.1.0'',
             og_name = ''External Context'',
             og_node_ids = [news], og_output_node_ids = [news],
             og_description = '''', og_metadata = []\<rparr>],
         gr_description = ''Reference graph for the current single-horizon analysis report.'',
         gr_schema_version = ''cell_graph_definition.v1'',
         gr_metadata = [(''source'', PStr ''market_cell.graph.defaults'')]\<rparr>)"

text \<open>The loop both extensions share: a new leaf just before the root, added to its dependencies.\<close>

definition extend_nodes :: "string \<Rightarrow> string \<Rightarrow> graph \<Rightarrow> graph_node list" where
  "extend_nodes i c base = concat (map (\<lambda>n.
     if gn_node_id n = gr_root_node_id base
     then [simple_node i c Leaf [], n\<lparr>gn_dependencies := gn_dependencies n @ [i]\<rparr>]
     else [n]) (gr_nodes base))"

definition extension_metadata :: "graph \<Rightarrow> meta" where
  "extension_metadata base = [(''source'', PStr ''market_cell.graph.defaults''),
     (''base_graph_id'', PStr (gr_graph_id base)),
     (''base_graph_version'', PStr (gr_graph_version base))]"

definition liquidity_analysis_graph :: graph where
  "liquidity_analysis_graph =
    (let base = default_analysis_graph; liquidity = ''cell:microstructure.liquidity''
     in \<lparr>gr_graph_id = ''market.liquidity_analysis'', gr_graph_version = ''0.2.0'',
         gr_name = ''Liquidity-Aware Market Analysis'',
         gr_root_node_id = gr_root_node_id base,
         gr_nodes = extend_nodes liquidity ''microstructure.liquidity'' base,
         gr_organs = gr_organs base @
          [\<lparr>og_organ_id = ''organ.market_microstructure'', og_organ_version = ''0.1.0'',
             og_name = ''Market Microstructure'', og_node_ids = [liquidity],
             og_output_node_ids = [liquidity],
             og_description = ''Near-book spread, depth imbalance, concentration, and liquidity fragility.'',
             og_metadata = []\<rparr>],
         gr_description = ''Default market analysis extended with one typed order-book liquidity snapshot.'',
         gr_schema_version = ''cell_graph_definition.v1'',
         gr_metadata = extension_metadata base\<rparr>)"

definition derivatives_analysis_graph :: graph where
  "derivatives_analysis_graph =
    (let base = default_analysis_graph; positioning = ''cell:crypto.funding_open_interest''
     in \<lparr>gr_graph_id = ''market.derivatives_analysis'', gr_graph_version = ''0.1.0'',
         gr_name = ''Derivatives Positioning Market Analysis'',
         gr_root_node_id = gr_root_node_id base,
         gr_nodes = extend_nodes positioning ''crypto.funding_open_interest'' base,
         gr_organs = gr_organs base @
          [\<lparr>og_organ_id = ''organ.derivatives_positioning'', og_organ_version = ''0.1.0'',
             og_name = ''Derivatives Positioning'', og_node_ids = [positioning],
             og_output_node_ids = [positioning],
             og_description = ''Funding crowding, synchronized open-interest change, deleveraging, and leverage-driven volatility risk.'',
             og_metadata = []\<rparr>],
         gr_description = ''Default market analysis extended with one typed funding-rate, open-interest, and mark-price time series.'',
         gr_schema_version = ''cell_graph_definition.v1'',
         gr_metadata = extension_metadata base\<rparr>)"

lemma default_levels:
  "stable_topological_levels (graph_deps (gr_nodes default_analysis_graph)) =
   ([[''cell:external.news'', ''cell:risk.volume_price_anomaly'', ''cell:technical.market_regime'',
      ''cell:technical.support_resistance'', ''cell:technical.trend'', ''cell:technical.volatility'',
      ''cell:technical.volume''],
     [''cell:risk.manipulation'', ''cell:technical.breakout''], [''cell:root.decision'']], [])"
  by code_simp

subsection \<open>Properties\<close>

lemma builtin_valid:
  "\<exists>v. validate_cell_graph_definition default_analysis_graph None = Inr v"
  "\<exists>v. validate_cell_graph_definition liquidity_analysis_graph None = Inr v"
  "\<exists>v. validate_cell_graph_definition derivatives_analysis_graph None = Inr v"
proof -
  have isr: "\<exists>v. x = Inr v" if "Sum_Type.isl x = False" for x :: "'a + 'b" using that by (cases x) auto
  show "\<exists>v. validate_cell_graph_definition default_analysis_graph None = Inr v" by (rule isr) code_simp
  show "\<exists>v. validate_cell_graph_definition liquidity_analysis_graph None = Inr v" by (rule isr) code_simp
  show "\<exists>v. validate_cell_graph_definition derivatives_analysis_graph None = Inr v" by (rule isr) code_simp
qed

text \<open>The three built-in graphs are well formed.\<close>

theorem builtin_graphs_ok:
  "graph_ok default_analysis_graph None \<and> graph_ok liquidity_analysis_graph None
   \<and> graph_ok derivatives_analysis_graph None"
  using builtin_valid unfolding validate_graph_decides by blast

text \<open>
  The levels of the default graph: the theorem about validated graphs applies to it.
\<close>

theorem validated_levels_run_root_last_witness:
  "\<exists>v. validate_cell_graph_definition default_analysis_graph None = Inr v
     \<and> last (vg_topological_levels v) = [gr_root_node_id default_analysis_graph]"
proof -
  from builtin_valid(1) obtain v where v: "validate_cell_graph_definition default_analysis_graph None = Inr v" ..
  from validated_levels_run_root_last[OF v] have "last (vg_topological_levels v) = [gr_root_node_id default_analysis_graph]"
    by (elim conjE)
  with v show ?thesis by (intro exI conjI)
qed

end
