(* ===== verification/Hashing.thy ===== *)
theory Hashing
  imports Prelude
begin

section \<open>Canonical JSON and content hashes\<close>

text \<open>
  Models \<open>hashing.py\<close>. \<open>json.dumps(..., allow_nan=False, ensure_ascii=False, sort_keys=True,
  separators=(",", ":"))\<close> is written out: keys in code point order, no white space, and the
  string escapes of Python's encoder. Three library functions stay parameters, in the record
  \<open>stdlib\<close>: SHA-256, the shortest decimal of a float, and the text conversions of values that
  are neither strings nor integers. The lemmas show that the encoding of a string or an integer
  can be read back, so identity payloads with equal bytes are equal.
\<close>

record stdlib =
  sl_sha256_hex :: "string \<Rightarrow> string"
  sl_float_repr :: "pyfloat \<Rightarrow> string"
  sl_parse_float :: "string \<Rightarrow> pyfloat option"
  sl_parse_int :: "string \<Rightarrow> int option"
  sl_repr :: "pyval \<Rightarrow> string"
  sl_dict :: "pyval \<Rightarrow> meta res"

subsection \<open>Strings\<close>

definition hex_digit :: "nat \<Rightarrow> char" where
  "hex_digit n = (if n < 10 then char_of (48 + n) else char_of (87 + n))"

text \<open>One character inside a JSON string.\<close>

definition esc :: "char \<Rightarrow> string" where
  "esc c =
    (if c = CHR 0x22 then [CHR 0x5C, CHR 0x22]
     else if c = CHR 0x5C then [CHR 0x5C, CHR 0x5C]
     else if c = CHR 0x08 then [CHR 0x5C, CHR ''b'']
     else if c = CHR 0x0C then [CHR 0x5C, CHR ''f'']
     else if c = CHR 0x0A then [CHR 0x5C, CHR ''n'']
     else if c = CHR 0x0D then [CHR 0x5C, CHR ''r'']
     else if c = CHR 0x09 then [CHR 0x5C, CHR ''t'']
     else let n = (of_char c :: nat) in
       if n < 32 then [CHR 0x5C, CHR ''u'', CHR ''0'', CHR ''0'', hex_digit (n div 16), hex_digit (n mod 16)]
       else [c])"

definition quote :: "string \<Rightarrow> string" where
  "quote s = CHR 0x22 # concat (map esc s) @ [CHR 0x22]"

subsection \<open>The encoder\<close>

fun json_ok :: "pyval \<Rightarrow> bool" where
  "json_ok (PFloat f) = isfinite f"
| "json_ok (PList vs) = (\<forall>v \<in> set vs. json_ok v)"
| "json_ok (PDict kvs) = (\<forall>kv \<in> set kvs. json_ok (snd kv))"
| "json_ok (POpaque _) = False"
| "json_ok _ = True"

text \<open>
  What the encoder raises: it visits a dictionary in key order and stops at the first value JSON
  cannot express.
\<close>

fun json_errors :: "pyval \<Rightarrow> exc list" where
  "json_errors (PFloat f) = (if isfinite f then []
     else [mk_exc PyValueError ''Out of range float values are not JSON compliant''])"
| "json_errors (PList vs) = concat (map json_errors vs)"
| "json_errors (PDict kvs) = concat (map snd (sort_key fst (map (\<lambda>kv. (fst kv, json_errors (snd kv))) kvs)))"
| "json_errors (POpaque t) = [mk_exc PyTypeError (msg [''Object of type '', t, '' is not JSON serializable''])]"
| "json_errors _ = []"

definition json_error :: "pyval \<Rightarrow> exc" where
  "json_error v = hd (json_errors v)"

lemma json_errors_Nil: "json_errors v = [] \<longleftrightarrow> json_ok v"
  by (induction v rule: json_errors.induct) auto

text \<open>\<open>sort_keys\<close>: insertion into key order (the keys of a dictionary are distinct).\<close>

definition sort_items :: "(string \<times> string) list \<Rightarrow> (string \<times> string) list" where
  "sort_items kvs = sort_key fst kvs"

fun dumps :: "stdlib \<Rightarrow> pyval \<Rightarrow> string" where
  "dumps L PNone = ''null''"
| "dumps L (PBool b) = (if b then ''true'' else ''false'')"
| "dumps L (PInt i) = show_int i"
| "dumps L (PFloat f) = sl_float_repr L f"
| "dumps L (PStr s) = quote s"
| "dumps L (PList vs) = ''['' @ join '','' (map (dumps L) vs) @ '']''"
| "dumps L (PDict kvs) = ''{'' @ join '','' (map (\<lambda>(k, t). quote k @ '':'' @ t)
     (sort_items (map (\<lambda>kv. (fst kv, dumps L (snd kv))) kvs))) @ ''}''"
| "dumps L (POpaque _) = []"

text \<open>The number of bytes of the UTF-8 encoding (code points below 256 take one or two).\<close>

definition utf8_size :: "string \<Rightarrow> int" where
  "utf8_size s = int (length (filter (\<lambda>c. (of_char c :: nat) < 128) s))
     + 2 * int (length (filter (\<lambda>c. \<not> (of_char c :: nat) < 128) s))"

text \<open>\<open>None\<close> is the \<open>TypeError\<close> or \<open>ValueError\<close> of a value JSON cannot express, \<open>json_error\<close>.\<close>

definition canonical_json_hash_and_size :: "stdlib \<Rightarrow> pyval \<Rightarrow> (string \<times> int) option" where
  "canonical_json_hash_and_size L v =
     (if json_ok v then Some (sl_sha256_hex L (dumps L v), utf8_size (dumps L v)) else None)"

definition stable_json_hash :: "stdlib \<Rightarrow> meta \<Rightarrow> string" where
  "stable_json_hash L d = sl_sha256_hex L (dumps L (PDict d))"

subsection \<open>Reading back\<close>

definition unhex :: "char \<Rightarrow> nat" where
  "unhex c = (let n = (of_char c :: nat) in if n < 58 then n - 48 else n - 87)"

text \<open>Decodes the first encoded character of a string body.\<close>

fun unesc :: "string \<Rightarrow> (char \<times> string) option" where
  "unesc [] = None"
| "unesc [c] = (if c = CHR 0x5C then None else Some (c, []))"
| "unesc (c # d # ds) =
    (if c \<noteq> CHR 0x5C then Some (c, d # ds)
     else if d = CHR ''b'' then Some (CHR 0x08, ds)
     else if d = CHR ''f'' then Some (CHR 0x0C, ds)
     else if d = CHR ''n'' then Some (CHR 0x0A, ds)
     else if d = CHR ''r'' then Some (CHR 0x0D, ds)
     else if d = CHR ''t'' then Some (CHR 0x09, ds)
     else if d = CHR ''u'' then
       (case ds of _ # _ # h # l # rest \<Rightarrow> Some (char_of (16 * unhex h + unhex l), rest)
        | _ \<Rightarrow> None)
     else Some (d, ds))"

lemma unhex_hex: "n < 16 \<Longrightarrow> unhex (hex_digit n) = n"
  by (simp add: unhex_def hex_digit_def Let_def)

lemma unesc_plain: "c \<noteq> CHR 0x5C \<Longrightarrow> unesc (c # r) = Some (c, r)"
  by (cases r) auto

lemma esc_cases:
  obtains "c \<in> {CHR 0x22, CHR 0x5C, CHR 0x08, CHR 0x0C, CHR 0x0A, CHR 0x0D, CHR 0x09}"
  | "esc c = [CHR 0x5C, CHR ''u'', CHR ''0'', CHR ''0'', hex_digit (of_char c div 16),
       hex_digit (of_char c mod 16)]" "(of_char c :: nat) < 32"
  | "esc c = [c]" "c \<noteq> CHR 0x5C" "c \<noteq> CHR 0x22"
proof (cases "c \<in> {CHR 0x22, CHR 0x5C, CHR 0x08, CHR 0x0C, CHR 0x0A, CHR 0x0D, CHR 0x09}")
  case False
  then show ?thesis using that(2,3) by (cases "(of_char c :: nat) < 32") (auto simp: esc_def Let_def)
qed (rule that(1))

lemma unesc_esc: "unesc (esc c @ r) = Some (c, r)"
proof (cases c rule: esc_cases)
  case 1
  then show ?thesis by (auto simp: esc_def)
next
  case 2
  have "16 * (of_char c div 16) + of_char c mod 16 = (of_char c :: nat)" by simp
  moreover have "(of_char c div 16 :: nat) < 16" "(of_char c mod 16 :: nat) < 16"
    using 2(2) by auto
  ultimately show ?thesis by (simp add: 2(1) unhex_hex)
next
  case 3
  then show ?thesis by (simp add: unesc_plain)
qed

lemma esc_no_quote: "esc c \<noteq> [] \<and> hd (esc c) \<noteq> CHR 0x22"
  by (cases c rule: esc_cases) (auto simp: esc_def)

lemma esc_body_inj:
  "concat (map esc s) @ CHR 0x22 # r = concat (map esc t) @ CHR 0x22 # r' \<Longrightarrow> s = t \<and> r = r'"
proof (induction s arbitrary: t)
  case Nil
  show ?case
  proof (cases t)
    case Nil
    with Nil.prems show ?thesis by simp
  next
    case (Cons d t')
    with Nil.prems esc_no_quote[of d] show ?thesis by (cases "esc d") auto
  qed
next
  case (Cons c s)
  show ?case
  proof (cases t)
    case Nil
    with Cons.prems esc_no_quote[of c] show ?thesis by (cases "esc c") auto
  next
    case (Cons d t')
    from Cons.prems Cons have
      "unesc (esc c @ (concat (map esc s) @ CHR 0x22 # r))
        = unesc (esc d @ (concat (map esc t') @ CHR 0x22 # r'))"
      by simp
    then have "c = d" "concat (map esc s) @ CHR 0x22 # r = concat (map esc t') @ CHR 0x22 # r'"
      by (simp_all only: unesc_esc option.inject prod.inject)
    with Cons.IH[of t'] Cons show ?thesis by simp
  qed
qed

text \<open>A quoted string is a prefix code: it determines its text and what follows.\<close>

lemma quote_append_inj: "quote s @ r = quote t @ r' \<longleftrightarrow> s = t \<and> r = r'"
  using esc_body_inj[of s r t r'] by (auto simp: quote_def)


text \<open>Decimal digits determine the number and end at the first other character.\<close>

definition is_digit :: "char \<Rightarrow> bool" where
  "is_digit c = (48 \<le> (of_char c :: nat) \<and> (of_char c :: nat) \<le> 57)"

definition digits_value :: "string \<Rightarrow> nat" where
  "digits_value s = foldl (\<lambda>a c. 10 * a + (of_char c - 48)) 0 s"

lemma digits_value_show: "digits_value (show_nat n) = n"
proof (induction n rule: show_nat.induct)
  case (1 n)
  show ?case
  proof (cases "n < 10")
    case True
    then show ?thesis by (subst show_nat.simps) (simp add: digits_value_def of_char_of)
  next
    case False
    with 1 have "digits_value (show_nat (n div 10)) = n div 10" by simp
    with False show ?thesis
      by (subst show_nat.simps) (simp add: digits_value_def of_char_of)
  qed
qed

lemma show_nat_digits: "c \<in> set (show_nat n) \<Longrightarrow> is_digit c"
proof (induction n rule: show_nat.induct)
  case (1 n)
  then show ?case
    by (cases "n < 10") (auto simp: show_nat.simps[of n] is_digit_def of_char_of)
qed

lemma show_nat_append_inj:
  assumes "\<not> is_digit c" "show_nat n @ c # r = show_nat m @ c # r'"
  shows "n = m \<and> r = r'"
proof -
  have tw: "takeWhile is_digit (show_nat k @ c # q) = show_nat k" for k q
    using assms(1) show_nat_digits by (simp add: takeWhile_append)
  from assms(2) have eq: "show_nat n = show_nat m" by (metis tw)
  then have "n = m" by (metis digits_value_show)
  with assms(2) show ?thesis by simp
qed

subsection \<open>Plain values can be read back\<close>

text \<open>
  Values without floats, nested objects or opaque objects; identity payloads hold only these.
  Followed by a delimiter, the text of such a value determines the value and what follows.
\<close>

fun plain :: "pyval \<Rightarrow> bool" where
  "plain (PFloat _) = False"
| "plain (POpaque _) = False"
| "plain (PDict _) = False"
| "plain (PList vs) = (\<forall>v \<in> set vs. plain v)"
| "plain _ = True"

definition delim :: "char \<Rightarrow> bool" where
  "delim c = (c = CHR '','' \<or> c = CHR '']'' \<or> c = CHR 0x7D)"

lemma delim_digit: "delim c \<Longrightarrow> \<not> is_digit c"
  by (auto simp: delim_def is_digit_def)

lemma show_nat_Cons: "\<exists>d ds. show_nat n = d # ds \<and> is_digit d"
proof -
  have "show_nat n \<noteq> []" by (subst show_nat.simps) simp
  then obtain d ds where "show_nat n = d # ds" by (cases "show_nat n") auto
  then show ?thesis using show_nat_digits[of d n] by auto
qed

lemma show_nat_delim:
  assumes "delim c" "delim c'" "show_nat n @ c # r = show_nat m @ c' # r'"
  shows "n = m \<and> c # r = c' # r'"
proof -
  have tw: "takeWhile is_digit (show_nat k @ b # q) = show_nat k" if "delim b" for k b q
    using delim_digit[OF that] show_nat_digits by (simp add: takeWhile_append)
  have "show_nat n = show_nat m" using tw[OF assms(1)] tw[OF assms(2)] assms(3) by metis
  then have "n = m" by (metis digits_value_show)
  with assms(3) show ?thesis by simp
qed

lemma show_int_delim:
  assumes "delim c" "delim c'" "show_int i @ c # r = show_int j @ c' # r'"
  shows "i = j \<and> c # r = c' # r'"
proof (cases "i < 0"; cases "j < 0")
  assume "i < 0" "j < 0"
  with assms(3) show_nat_delim[OF assms(1,2), of "nat (- i)" r "nat (- j)" r'] show ?thesis
    by (simp add: show_int_def eq_nat_nat_iff)
next
  assume "i < 0" "\<not> j < 0"
  with assms(3) show_nat_Cons[of "nat j"] show ?thesis by (auto simp: show_int_def is_digit_def)
next
  assume "\<not> i < 0" "j < 0"
  with assms(3) show_nat_Cons[of "nat i"] show ?thesis by (auto simp: show_int_def is_digit_def)
next
  assume "\<not> i < 0" "\<not> j < 0"
  with assms(3) show_nat_delim[OF assms(1,2), of "nat i" r "nat j" r'] show ?thesis
    by (simp add: show_int_def eq_nat_nat_iff)
qed

text \<open>The first character of a value's text tells its kind.\<close>

definition kind_of_text :: "pyval \<Rightarrow> char \<Rightarrow> bool" where
  "kind_of_text v c = (case v of
     PNone \<Rightarrow> c = CHR ''n'' | PBool b \<Rightarrow> c = (if b then CHR ''t'' else CHR ''f'')
   | PInt _ \<Rightarrow> c = CHR ''-'' \<or> is_digit c | PStr _ \<Rightarrow> c = CHR 0x22 | PList _ \<Rightarrow> c = CHR ''[''
   | _ \<Rightarrow> False)"

lemma dumps_head:
  assumes "plain v"
  obtains c r where "dumps L v = c # r" "kind_of_text v c"
proof -
  have "\<exists>c r. dumps L v = c # r \<and> kind_of_text v c"
  proof (cases v)
    case (PInt i)
    then show ?thesis
      using show_nat_Cons[of "nat i"] by (auto simp: kind_of_text_def show_int_def)
  qed (use assms in \<open>auto simp: kind_of_text_def quote_def\<close>)
  with that show ?thesis by blast
qed

lemma same_kind:
  assumes "plain v" "plain w" "dumps L v @ r = dumps L w @ r'"
  shows "\<exists>c. kind_of_text v c \<and> kind_of_text w c"
proof -
  obtain c q where "dumps L v = c # q" "kind_of_text v c" using assms(1) by (rule dumps_head)
  moreover obtain d q' where "dumps L w = d # q'" "kind_of_text w d" using assms(2) by (rule dumps_head)
  ultimately show ?thesis using assms(3) by auto
qed

lemma not_bracket:
  assumes "plain v" shows "dumps L v @ r \<noteq> CHR '']'' # r'"
proof -
  obtain c q where "dumps L v = c # q" "kind_of_text v c" using assms by (rule dumps_head)
  then show ?thesis by (cases v) (auto simp: kind_of_text_def is_digit_def split: if_splits)
qed

definition reads_back :: "stdlib \<Rightarrow> pyval \<Rightarrow> bool" where
  "reads_back L v \<longleftrightarrow> (\<forall>w c r c' r'. plain w \<longrightarrow> delim c \<longrightarrow> delim c' \<longrightarrow>
     dumps L v @ c # r = dumps L w @ c' # r' \<longrightarrow> v = w \<and> c # r = c' # r')"

lemma list_body_reads_back:
  assumes "\<forall>v \<in> set vs. plain v \<and> reads_back L v" "\<forall>w \<in> set ws. plain w"
    "join '','' (map (dumps L) vs) @ CHR '']'' # r = join '','' (map (dumps L) ws) @ CHR '']'' # r'"
  shows "vs = ws \<and> r = r'"
  using assms
proof (induction vs arbitrary: ws)
  case Nil
  show ?case
  proof (cases ws)
    case (Cons w ws')
    with Nil.prems not_bracket[of w L _ r] show ?thesis by (cases ws') auto
  qed (use Nil in simp)
next
  case (Cons v vs)
  have pv: "plain v" "reads_back L v" using Cons.prems(1) by auto
  show ?case
  proof (cases ws)
    case Nil
    with Cons.prems(3) not_bracket[OF pv(1), of L _ r'] show ?thesis by (cases vs) auto
  next
    case (Cons w ws')
    have body: "join '','' (map (dumps L) (u # us)) @ CHR '']'' # q =
        dumps L u @ (if us = [] then CHR '']'' # q
          else CHR '','' # join '','' (map (dumps L) us) @ CHR '']'' # q)" for u us q
      by (simp add: join_Cons)
    define b where "b us q = (if us = [] then CHR '']'' # q
          else CHR '','' # join '','' (map (dumps L) us) @ CHR '']'' # q)" for us q
    have hd: "\<exists>d. delim d \<and> b us q = d # tl (b us q)" for us q
      by (auto simp: b_def delim_def)
    have "dumps L v @ b vs r = dumps L w @ b ws' r'"
      using Cons.prems(3) unfolding Cons body b_def .
    with pv(2) hd[of vs r] hd[of ws' r'] Cons.prems(2) Cons have vw: "v = w" "b vs r = b ws' r'"
      unfolding reads_back_def by (metis list.set_intros(1))+
    show ?thesis
    proof (cases "vs = [] \<or> ws' = []")
      case True
      with vw Cons show ?thesis by (auto simp: b_def split: if_splits)
    next
      case False
      with vw(2) have "join '','' (map (dumps L) vs) @ CHR '']'' # r
          = join '','' (map (dumps L) ws') @ CHR '']'' # r'"
        by (simp add: b_def)
      with Cons.IH[of ws'] Cons.prems(1,2) Cons vw(1) show ?thesis by simp
    qed
  qed
qed

lemma plain_reads_back: "plain v \<Longrightarrow> reads_back L v"
proof (induction v)
  case (PList vs)
  show ?case unfolding reads_back_def
  proof (intro allI impI)
    fix w c r c' r'
    assume w: "plain w" and eq: "dumps L (PList vs) @ c # r = dumps L w @ c' # r'"
    obtain ws where ws: "w = PList ws"
      using same_kind[OF PList.prems w eq] by (cases w) (auto simp: kind_of_text_def is_digit_def split: if_splits)
    with eq have "join '','' (map (dumps L) vs) @ CHR '']'' # (c # r)
        = join '','' (map (dumps L) ws) @ CHR '']'' # (c' # r')" by simp
    from list_body_reads_back[OF _ _ this] PList w ws show "PList vs = w \<and> c # r = c' # r'"
      by simp
  qed
next
  case (PInt i)
  show ?case unfolding reads_back_def
  proof (intro allI impI)
    fix w c r c' r'
    assume w: "plain w" and dl: "delim c" "delim c'"
      and eq: "dumps L (PInt i) @ c # r = dumps L w @ c' # r'"
    obtain j where j: "w = PInt j"
      using same_kind[OF PInt.prems w eq] by (cases w) (auto simp: kind_of_text_def is_digit_def split: if_splits)
    with eq show_int_delim[OF dl] show "PInt i = w \<and> c # r = c' # r'" by simp
  qed
next
  case (PStr s)
  show ?case unfolding reads_back_def
  proof (intro allI impI)
    fix w c r c' r'
    assume w: "plain w" and eq: "dumps L (PStr s) @ c # r = dumps L w @ c' # r'"
    obtain t where t: "w = PStr t"
      using same_kind[OF PStr.prems w eq] by (cases w) (auto simp: kind_of_text_def is_digit_def split: if_splits)
    with eq quote_append_inj show "PStr s = w \<and> c # r = c' # r'" by simp
  qed
next
  case PNone
  show ?case unfolding reads_back_def
  proof (intro allI impI)
    fix w c r c' r'
    assume w: "plain w" and eq: "dumps L PNone @ c # r = dumps L w @ c' # r'"
    from same_kind[OF PNone.prems w eq] have "w = PNone"
      by (cases w) (auto simp: kind_of_text_def is_digit_def split: if_splits)
    with eq show "PNone = w \<and> c # r = c' # r'" by simp
  qed
next
  case (PBool b)
  show ?case unfolding reads_back_def
  proof (intro allI impI)
    fix w c r c' r'
    assume w: "plain w" and eq: "dumps L (PBool b) @ c # r = dumps L w @ c' # r'"
    from same_kind[OF PBool.prems w eq] have "w = PBool b"
      by (cases w) (auto simp: kind_of_text_def is_digit_def split: if_splits)
    with eq show "PBool b = w \<and> c # r = c' # r'" by simp
  qed
qed simp_all

text \<open>
  Two objects with the same keys, in the same order, and plain values: equal texts, equal
  objects. The encoder sorts the items by key, so the keys meet pairwise.
\<close>

lemma map_of_snd: "map_of (map (\<lambda>kv. (fst kv, f (snd kv))) e) k = map_option f (map_of e k)"
  by (induction e) auto

lemma sort_items_keys:
  assumes "distinct (map fst d)"
  shows "sort_items d = map (\<lambda>k. (k, the (map_of d k))) (sort (map fst d))"
  unfolding sort_items_def
proof (rule sort_key_inj_key_eq)
  let ?ys = "map (\<lambda>k. (k, the (map_of d k))) (sort (map fst d))"
  have "map (\<lambda>k. (k, the (map_of d k))) (map fst d) = d"
    using assms by (auto simp: comp_def intro!: map_idI)
  then have "mset d = image_mset (\<lambda>k. (k, the (map_of d k))) (mset (map fst d))"
    by (metis mset_map)
  then show "mset d = mset ?ys" by simp
  show "inj_on fst (set d)" using assms by (simp add: distinct_map)
  show "sorted (map fst ?ys)" by (simp add: comp_def)
qed

lemma items_body_inj:
  assumes "\<forall>k \<in> set ks. plain (f k) \<and> plain (g k)"
    "join '','' (map (\<lambda>k. quote k @ '':'' @ dumps L (f k)) ks) @ ''}''
      = join '','' (map (\<lambda>k. quote k @ '':'' @ dumps L (g k)) ks) @ ''}''"
  shows "\<forall>k \<in> set ks. f k = g k"
  using assms
proof (induction ks)
  case (Cons k ks)
  have dl: "delim CHR '',''" "delim CHR 0x7D" by (simp_all add: delim_def)
  have rb: "dumps L (f k) @ c # r = dumps L (g k) @ c # r' \<Longrightarrow> delim c \<Longrightarrow> f k = g k \<and> r = r'" for c r r'
    using Cons.prems(1) plain_reads_back[of "f k" L] unfolding reads_back_def by (metis list.inject list.set_intros(1))
  have body: "join '','' (map (\<lambda>k. quote k @ '':'' @ dumps L (h k)) (k # ks)) @ ''}''
      = quote k @ CHR '':'' # dumps L (h k) @ (if ks = [] then ''}''
          else CHR '','' # join '','' (map (\<lambda>k. quote k @ '':'' @ dumps L (h k)) ks) @ ''}'')" for h
    by (simp add: join_Cons)
  have eq: "dumps L (f k) @ (if ks = [] then ''}''
          else CHR '','' # join '','' (map (\<lambda>k. quote k @ '':'' @ dumps L (f k)) ks) @ ''}'')
      = dumps L (g k) @ (if ks = [] then ''}''
          else CHR '','' # join '','' (map (\<lambda>k. quote k @ '':'' @ dumps L (g k)) ks) @ ''}'')"
    using Cons.prems(2) unfolding body quote_append_inj by (rule conjunct2[OF _, THEN list.inject[THEN iffD1], THEN conjunct2])
  show ?case
  proof (cases "ks = []")
    case True
    from eq have "f k = g k" unfolding True if_P[OF refl] using rb[OF _ dl(2)] by blast
    with True show ?thesis by simp
  next
    case False
    from eq have e: "f k = g k" "join '','' (map (\<lambda>k. quote k @ '':'' @ dumps L (f k)) ks) @ ''}''
      = join '','' (map (\<lambda>k. quote k @ '':'' @ dumps L (g k)) ks) @ ''}''"
      unfolding if_not_P[OF False] using rb[OF _ dl(1)] by blast+
    from Cons.IH[OF _ e(2)] Cons.prems(1) e(1) show ?thesis by simp
  qed
qed simp

lemma dumps_dict_inj:
  assumes keys: "map fst d = ks" "map fst d' = ks" "distinct ks"
    and plain: "\<forall>v \<in> snd ` set d. plain v" "\<forall>v \<in> snd ` set d'. plain v"
    and eq: "dumps L (PDict d) = dumps L (PDict d')"
  shows "d = d'"
proof -
  have val: "the (map_of (map (\<lambda>kv. (fst kv, dumps L (snd kv))) e) k) = dumps L (the (map_of e k))"
    if "k \<in> set ks" "map fst e = ks" for e k
  proof -
    have "k \<in> fst ` set e" using that by (metis list.set_map)
    then obtain v where "map_of e k = Some v" by (metis map_of_eq_None_iff not_None_eq)
    then show ?thesis by (simp add: map_of_snd)
  qed
  have dump: "dumps L (PDict e) = ''{'' @ join '',''
      (map (\<lambda>k. quote k @ '':'' @ dumps L (the (map_of e k))) (sort ks)) @ ''}''"
    if e: "map fst e = ks" for e
  proof -
    have fst: "map fst (map (\<lambda>kv. (fst kv, dumps L (snd kv))) e) = ks"
      using e by (simp add: comp_def)
    have "sort_items (map (\<lambda>kv. (fst kv, dumps L (snd kv))) e)
        = map (\<lambda>k. (k, dumps L (the (map_of e k)))) (sort ks)"
      unfolding sort_items_keys[of "map (\<lambda>kv. (fst kv, dumps L (snd kv))) e", unfolded fst, OF keys(3)]
      using val[OF _ e] by (intro map_cong) simp_all
    then show ?thesis by (simp add: comp_def)
  qed
  have pl: "plain (the (map_of e k))" if "k \<in> set ks" "map fst e = ks" "\<forall>v \<in> snd ` set e. plain v" for e k
  proof -
    have "k \<in> fst ` set e" using that by (metis list.set_map)
    then obtain v where "map_of e k = Some v" by (metis map_of_eq_None_iff not_None_eq)
    with that(3) show ?thesis by (metis image_eqI map_of_SomeD option.sel snd_conv)
  qed
  have "\<forall>k \<in> set (sort ks). the (map_of d k) = the (map_of d' k)"
  proof (rule items_body_inj[where L = L])
    show "\<forall>k \<in> set (sort ks). plain (the (map_of d k)) \<and> plain (the (map_of d' k))"
      using pl[OF _ keys(1) plain(1)] pl[OF _ keys(2) plain(2)] by simp
    show "join '','' (map (\<lambda>k. quote k @ '':'' @ dumps L (the (map_of d k))) (sort ks)) @ ''}''
      = join '','' (map (\<lambda>k. quote k @ '':'' @ dumps L (the (map_of d' k))) (sort ks)) @ ''}''"
      using eq unfolding dump[OF keys(1)] dump[OF keys(2)] by (simp only: same_append_eq)
  qed
  then have vals: "map (\<lambda>k. (k, the (map_of d k))) ks = map (\<lambda>k. (k, the (map_of d' k))) ks"
    by simp
  have id: "map (\<lambda>k. (k, the (map_of e k))) ks = e" if "map fst e = ks" for e
    using keys(3) that by (auto simp: comp_def intro!: map_idI)
  from vals show ?thesis unfolding id[OF keys(1)] id[OF keys(2)] .
qed

end
