(* ===== verification/Inputs.thy ===== *)
theory Inputs
  imports Core_Models Hashing
begin

section \<open>Input snapshots, references and the local resolver\<close>

text \<open>
  Models \<open>inputs/models.py\<close> and \<open>inputs/resolver.py\<close>: content-addressed snapshots, the light
  references to them, the resolver's store, and the typed bundle a Cell receives. A payload is
  a \<open>pyval\<close>, so that "the payload is not an object" and "not canonical JSON" are real cases.
  Copies (\<open>deepcopy\<close>) are the identity on values. Operations that can raise return a sum; the
  resolver's operations return the new state as well.
\<close>

subsection \<open>Records\<close>

record snapshot =
  sn_snapshot_id :: string
  sn_input_kind :: string
  sn_target :: string
  sn_horizon :: string
  sn_content_hash :: string
  sn_data_version :: string
  sn_source :: string
  sn_payload :: pyval
  sn_payload_size_bytes :: int
  sn_created_at :: string
  sn_schema_version :: string
  sn_metadata :: meta

record reference =
  rf_reference_id :: string
  rf_snapshot_id :: string
  rf_input_kind :: string
  rf_uri :: string
  rf_content_hash :: string
  rf_data_version :: string
  rf_source :: string
  rf_target :: string
  rf_horizon :: string
  rf_payload_size_bytes :: int
  rf_schema_version :: string
  rf_metadata :: meta

subsection \<open>Identity\<close>

definition input_identity_payload ::
  "string \<Rightarrow> string \<Rightarrow> string \<Rightarrow> string \<Rightarrow> string \<Rightarrow> string \<Rightarrow> meta" where
  "input_identity_payload kind target horizon chash version src =
     [(''content_hash'', PStr chash), (''data_version'', PStr version), (''horizon'', PStr horizon),
      (''input_kind'', PStr kind), (''source'', PStr src), (''target'', PStr target)]"

definition input_identity_hash ::
  "stdlib \<Rightarrow> string \<Rightarrow> string \<Rightarrow> string \<Rightarrow> string \<Rightarrow> string \<Rightarrow> string \<Rightarrow> string" where
  "input_identity_hash L kind target horizon chash version src =
     stable_json_hash L (input_identity_payload kind target horizon chash version src)"

definition input_snapshot_id ::
  "stdlib \<Rightarrow> string \<Rightarrow> string \<Rightarrow> string \<Rightarrow> string \<Rightarrow> string \<Rightarrow> string \<Rightarrow> string" where
  "input_snapshot_id L kind target horizon chash version src =
     ''snapshot:'' @ kind @ '':'' @ take 24 (input_identity_hash L kind target horizon chash version src)"

definition expected_snapshot_id :: "stdlib \<Rightarrow> snapshot \<Rightarrow> string" where
  "expected_snapshot_id L s = input_snapshot_id L (sn_input_kind s) (sn_target s) (sn_horizon s)
     (sn_content_hash s) (sn_data_version s) (sn_source s)"

text \<open>\<open>InputSnapshot._create_from_owned_payload\<close>; \<open>now\<close> is the default of \<open>created_at\<close>.\<close>

definition create_snapshot ::
  "stdlib \<Rightarrow> string \<Rightarrow> string \<Rightarrow> string \<Rightarrow> string \<Rightarrow> pyval \<Rightarrow> string \<Rightarrow> string \<Rightarrow> meta \<Rightarrow> snapshot res" where
  "create_snapshot L now kind target horizon payload version src metadata =
     (case canonical_json_hash_and_size L payload of
        None \<Rightarrow> Inl (json_error payload)
      | Some (chash, sz) \<Rightarrow> Inr
         \<lparr>sn_snapshot_id = input_snapshot_id L kind target horizon chash version src,
          sn_input_kind = kind, sn_target = target, sn_horizon = horizon,
          sn_content_hash = chash, sn_data_version = version, sn_source = src,
          sn_payload = payload, sn_payload_size_bytes = sz, sn_created_at = now,
          sn_schema_version = ''input_snapshot.v1'', sn_metadata = metadata\<rparr>)"

subsection \<open>Requests as payloads\<close>

text \<open>\<open>asdict(request)\<close>: dataclass fields in order, recursively.\<close>

definition candle_dict :: "candle \<Rightarrow> pyval" where
  "candle_dict c = PDict [(''timestamp'', PStr (cd_timestamp c)), (''open'', PFloat (cd_open c)),
     (''high'', PFloat (cd_high c)), (''low'', PFloat (cd_low c)),
     (''close'', PFloat (cd_close c)), (''volume'', PFloat (cd_volume c))]"

definition event_dict :: "market_event \<Rightarrow> pyval" where
  "event_dict e = PDict [(''title'', PStr (ev_title e)), (''category'', PStr (ev_category e)),
     (''sentiment'', PFloat (ev_sentiment e)), (''impact'', PFloat (ev_impact e)),
     (''freshness'', PFloat (ev_freshness e))]"

definition request_dict :: "request \<Rightarrow> pyval" where
  "request_dict r = PDict [(''target'', PStr (rq_target r)), (''horizon'', PStr (rq_horizon r)),
     (''candles'', PList (map candle_dict (rq_candles r))),
     (''events'', PList (map event_dict (rq_events r))), (''context'', PDict (rq_context r))]"

definition snapshot_from_request ::
  "stdlib \<Rightarrow> string \<Rightarrow> request \<Rightarrow> string \<Rightarrow> string \<Rightarrow> meta \<Rightarrow> snapshot res" where
  "snapshot_from_request L now r version src metadata =
     create_snapshot L now ''analysis_request'' (rq_target r) (rq_horizon r) (request_dict r)
       version src metadata"

text \<open>\<open>str(x)\<close> and \<open>float(x)\<close>.\<close>

fun py_str :: "stdlib \<Rightarrow> pyval \<Rightarrow> string" where
  "py_str L (PStr s) = s"
| "py_str L (PInt i) = show_int i"
| "py_str L v = sl_repr L v"

fun py_float :: "stdlib \<Rightarrow> pyval \<Rightarrow> pyfloat res" where
  "py_float L (PFloat f) = Inr f"
| "py_float L (PInt i) = Inr (Fin (of_int i))"
| "py_float L (PBool b) = Inr (Fin (if b then 1 else 0))"
| "py_float L (PStr s) = (case sl_parse_float L s of
      None \<Rightarrow> raise PyValueError (msg [''could not convert string to float: '', s])
    | Some f \<Rightarrow> Inr f)"
| "py_float L v = raise PyTypeError ''float() argument must be a string or a real number''"

text \<open>\<open>data[key]\<close>, \<open>data.get(key, default)\<close> and iteration over a value of any type.\<close>

definition item :: "meta \<Rightarrow> string \<Rightarrow> pyval res" where
  "item d k = (case map_of d k of
     None \<Rightarrow> raise PyKeyError (msg [[CHR 0x27], k, [CHR 0x27]]) | Some v \<Rightarrow> Inr v)"

definition item_or :: "meta \<Rightarrow> string \<Rightarrow> pyval \<Rightarrow> pyval" where
  "item_or d k v = (case map_of d k of None \<Rightarrow> v | Some w \<Rightarrow> w)"

fun py_iter :: "pyval \<Rightarrow> pyval list res" where
  "py_iter (PList vs) = Inr vs"
| "py_iter (PDict kvs) = Inr (map (\<lambda>kv. PStr (fst kv)) kvs)"
| "py_iter (PStr s) = Inr (map (\<lambda>c. PStr [c]) s)"
| "py_iter _ = raise PyTypeError ''object is not iterable''"

fun as_dict :: "pyval \<Rightarrow> meta res" where
  "as_dict (PDict d) = Inr d"
| "as_dict _ = raise (PyOther ''AttributeError'') ''object has no attribute get''"

definition candle_from_dict :: "stdlib \<Rightarrow> pyval \<Rightarrow> candle res" where
  "candle_from_dict L v = bind_res (as_dict v) (\<lambda>d.
     bind_res (bind_res (item d ''open'') (py_float L)) (\<lambda>o'.
     bind_res (bind_res (item d ''high'') (py_float L)) (\<lambda>h.
     bind_res (bind_res (item d ''low'') (py_float L)) (\<lambda>l.
     bind_res (bind_res (item d ''close'') (py_float L)) (\<lambda>c.
     bind_res (bind_res (item d ''volume'') (py_float L)) (\<lambda>w.
       Inr \<lparr>cd_timestamp = py_str L (item_or d ''timestamp'' (PStr [])), cd_open = o',
            cd_high = h, cd_low = l, cd_close = c, cd_volume = w\<rparr>))))))"

definition event_from_dict :: "stdlib \<Rightarrow> pyval \<Rightarrow> market_event res" where
  "event_from_dict L v = bind_res (as_dict v) (\<lambda>d.
     bind_res (item d ''title'') (\<lambda>t.
     bind_res (py_float L (item_or d ''sentiment'' (PInt 0))) (\<lambda>s.
     bind_res (py_float L (item_or d ''impact'' (PInt 0))) (\<lambda>i.
     bind_res (py_float L (item_or d ''freshness'' (PInt 50))) (\<lambda>f.
       Inr \<lparr>ev_title = py_str L t, ev_category = py_str L (item_or d ''category'' (PStr ''general'')),
            ev_sentiment = s, ev_impact = i, ev_freshness = f\<rparr>)))))"

fun py_dict :: "stdlib \<Rightarrow> pyval \<Rightarrow> meta res" where
  "py_dict L (PDict d) = Inr d"
| "py_dict L v = sl_dict L v"

definition request_from_dict :: "stdlib \<Rightarrow> pyval \<Rightarrow> request res" where
  "request_from_dict L v = bind_res (as_dict v) (\<lambda>d.
     bind_res (bind_res (py_iter (item_or d ''candles'' (PList []))) (map_res (candle_from_dict L))) (\<lambda>cs.
     bind_res (bind_res (py_iter (item_or d ''events'' (PList []))) (map_res (event_from_dict L))) (\<lambda>es.
     bind_res (item d ''target'') (\<lambda>t.
     bind_res (py_dict L (item_or d ''context'' (PDict []))) (\<lambda>ctx.
       Inr \<lparr>rq_target = py_str L t, rq_horizon = py_str L (item_or d ''horizon'' (PStr ''1h'')),
            rq_candles = cs, rq_events = es, rq_context = ctx\<rparr>)))))"

definition to_analysis_request :: "stdlib \<Rightarrow> snapshot \<Rightarrow> request res" where
  "to_analysis_request L s =
     (if sn_input_kind s \<noteq> ''analysis_request''
      then raise PyValueError (msg [''input snapshot '', sn_snapshot_id s, '' is '', sn_input_kind s,
        '', not analysis_request''])
      else request_from_dict L (sn_payload s))"

subsection \<open>References\<close>

definition removeprefix :: "string \<Rightarrow> string \<Rightarrow> string" where
  "removeprefix p s = (if take (length p) s = p then drop (length p) s else s)"

text \<open>\<open>to_reference(uri)\<close>; an empty \<open>uri\<close> counts as missing.\<close>

definition to_reference :: "snapshot \<Rightarrow> string option \<Rightarrow> meta \<Rightarrow> reference" where
  "to_reference s uri metadata =
     \<lparr>rf_reference_id = ''input:'' @ removeprefix ''snapshot:'' (sn_snapshot_id s),
      rf_snapshot_id = sn_snapshot_id s, rf_input_kind = sn_input_kind s,
      rf_uri = (if or_empty uri = [] then ''memory://market-cell-input/'' @ sn_snapshot_id s
                else or_empty uri),
      rf_content_hash = sn_content_hash s, rf_data_version = sn_data_version s,
      rf_source = sn_source s, rf_target = sn_target s, rf_horizon = sn_horizon s,
      rf_payload_size_bytes = sn_payload_size_bytes s,
      rf_schema_version = ''input_reference.v1'', rf_metadata = metadata\<rparr>"

definition reference_mismatches :: "reference \<Rightarrow> reference \<Rightarrow> string list" where
  "reference_mismatches r e =
     opt_issue (rf_reference_id r \<noteq> rf_reference_id e) ''reference_id''
   @ opt_issue (rf_snapshot_id r \<noteq> rf_snapshot_id e) ''snapshot_id''
   @ opt_issue (rf_input_kind r \<noteq> rf_input_kind e) ''input_kind''
   @ opt_issue (rf_content_hash r \<noteq> rf_content_hash e) ''content_hash''
   @ opt_issue (rf_data_version r \<noteq> rf_data_version e) ''data_version''
   @ opt_issue (rf_source r \<noteq> rf_source e) ''source''
   @ opt_issue (rf_target r \<noteq> rf_target e) ''target''
   @ opt_issue (rf_horizon r \<noteq> rf_horizon e) ''horizon''
   @ opt_issue (rf_payload_size_bytes r \<noteq> rf_payload_size_bytes e) ''payload_size_bytes''
   @ opt_issue (rf_schema_version r \<noteq> rf_schema_version e) ''schema_version''"

subsection \<open>Snapshot validation\<close>

text \<open>\<open>payload.get(key)\<close> must be a string equal to the declared value.\<close>

definition payload_scope_mismatch :: "pyval option \<Rightarrow> string \<Rightarrow> bool" where
  "payload_scope_mismatch v s = (v \<noteq> Some (PStr s))"

definition snapshot_mismatches :: "stdlib \<Rightarrow> snapshot \<Rightarrow> meta \<Rightarrow> string \<Rightarrow> int \<Rightarrow> string list" where
  "snapshot_mismatches L s payload actual_hash actual_size =
     opt_issue (sn_schema_version s \<noteq> ''input_snapshot.v1'') ''schema_version''
   @ opt_issue (sn_input_kind s \<notin> set input_kinds) ''input_kind''
   @ opt_issue (blank (sn_target s)) ''target''
   @ opt_issue (blank (sn_horizon s)) ''horizon''
   @ opt_issue (blank (sn_data_version s)) ''data_version''
   @ opt_issue (blank (sn_source s)) ''source''
   @ opt_issue (sn_snapshot_id s \<noteq> expected_snapshot_id L s) ''snapshot_id''
   @ opt_issue (sn_content_hash s \<noteq> actual_hash) ''content_hash''
   @ opt_issue (sn_payload_size_bytes s \<noteq> actual_size) ''payload_size_bytes''
   @ (if sn_input_kind s = ''analysis_request'' \<or> ''target'' \<in> fst ` set payload
      then opt_issue (payload_scope_mismatch (map_of payload ''target'') (sn_target s)) ''target''
      else [])
   @ (if sn_input_kind s = ''analysis_request'' \<or> ''horizon'' \<in> fst ` set payload
      then opt_issue (payload_scope_mismatch
        (Some (item_or payload ''horizon'' (PStr ''1h''))) (sn_horizon s)) ''horizon''
      else [])"

definition integrity_exc :: "exc_class \<Rightarrow> string \<Rightarrow> string \<Rightarrow> int \<Rightarrow> exc" where
  "integrity_exc c m h n = (mk_exc c m)\<lparr>ex_actual_content_hash := Some h,
     ex_actual_payload_size_bytes := Some n\<rparr>"

definition validate_snapshot :: "stdlib \<Rightarrow> snapshot \<Rightarrow> unit res" where
  "validate_snapshot L s =
     (case sn_payload s of
        PDict payload \<Rightarrow>
          (case canonical_json_hash_and_size L (sn_payload s) of
             None \<Rightarrow> raise InputIntegrityError
               (msg [''input snapshot '', sn_snapshot_id s, '' is not canonical JSON''])
           | Some (actual_hash, actual_size) \<Rightarrow>
              (let mismatches = snapshot_mismatches L s payload actual_hash actual_size in
               if mismatches \<noteq> [] then Inl (integrity_exc InputIntegrityError
                 (msg [''input snapshot '', sn_snapshot_id s, '' failed integrity checks: '',
                   join '', '' mismatches]) actual_hash actual_size)
               else Inr ()))
      | _ \<Rightarrow> raise InputIntegrityError
          (msg [''input snapshot '', sn_snapshot_id s, '' payload must be an object'']))"

subsection \<open>The local resolver\<close>

record resolver =
  rs_snapshots_by_uri :: "(string \<times> snapshot) list"
  rs_resolve_count :: int

definition empty_resolver :: resolver where
  "empty_resolver = \<lparr>rs_snapshots_by_uri = [], rs_resolve_count = 0\<rparr>"

definition register :: "stdlib \<Rightarrow> resolver \<Rightarrow> snapshot \<Rightarrow> reference res \<times> resolver" where
  "register L st s =
     (case validate_snapshot L s of
        Inl e \<Rightarrow> (Inl e, st)
      | Inr _ \<Rightarrow>
         (let ref = to_reference s None [];
              store = (Inr ref, st\<lparr>rs_snapshots_by_uri :=
                AList.update (rf_uri ref) s (rs_snapshots_by_uri st)\<rparr>)
          in case map_of (rs_snapshots_by_uri st) (rf_uri ref) of
               None \<Rightarrow> store
             | Some existing \<Rightarrow>
                (case validate_snapshot L existing of
                   Inl e \<Rightarrow> (Inl e, st)
                 | Inr _ \<Rightarrow>
                    (let mismatches = reference_mismatches ref
                           (to_reference existing (Some (rf_uri ref)) []) in
                     if mismatches \<noteq> [] then
                       (Inl (integrity_exc InputIntegrityError
                          (msg [''input URI collision for '', rf_uri ref, '': '', join '', '' mismatches])
                          (sn_content_hash existing) (sn_payload_size_bytes existing)), st)
                     else store))))"

definition resolve :: "stdlib \<Rightarrow> resolver \<Rightarrow> reference \<Rightarrow> snapshot res \<times> resolver" where
  "resolve L st ref =
     (let st' = st\<lparr>rs_resolve_count := rs_resolve_count st + 1\<rparr> in
      case map_of (rs_snapshots_by_uri st) (rf_uri ref) of
        None \<Rightarrow> (raise InputReferenceNotFoundError (msg [''input reference '', rf_reference_id ref,
          '' was not found at '', rf_uri ref]), st')
      | Some s \<Rightarrow>
         (case validate_snapshot L s of
            Inl e \<Rightarrow> (Inl e, st')
          | Inr _ \<Rightarrow>
             (let mismatches = reference_mismatches ref (to_reference s (Some (rf_uri ref)) []) in
              if mismatches \<noteq> [] then
                (Inl (integrity_exc InputIntegrityError
                   (msg [''input reference '', rf_reference_id ref, '' failed integrity checks: '',
                     join '', '' mismatches])
                   (sn_content_hash s) (sn_payload_size_bytes s)), st')
              else (Inr s, st'))))"


subsection \<open>The bundle a Cell receives\<close>

record resolved_input =
  ri_reference :: reference
  ri_snapshot :: snapshot

record cell_input_bundle =
  ib_node_id :: string
  ib_analysis_request :: request
  ib_resolved_inputs :: "resolved_input list"
  ib_required_input_kinds :: "string list"
  ib_schema_version :: string

definition resolved_input_mismatches :: "reference \<Rightarrow> snapshot \<Rightarrow> string list" where
  "resolved_input_mismatches r s =
     opt_issue (rf_snapshot_id r \<noteq> sn_snapshot_id s) ''snapshot_id''
   @ opt_issue (rf_input_kind r \<noteq> sn_input_kind s) ''input_kind''
   @ opt_issue (rf_content_hash r \<noteq> sn_content_hash s) ''content_hash''
   @ opt_issue (rf_data_version r \<noteq> sn_data_version s) ''data_version''
   @ opt_issue (rf_source r \<noteq> sn_source s) ''source''
   @ opt_issue (rf_target r \<noteq> sn_target s) ''target''
   @ opt_issue (rf_horizon r \<noteq> sn_horizon s) ''horizon''
   @ opt_issue (rf_payload_size_bytes r \<noteq> sn_payload_size_bytes s) ''payload_size_bytes''"

definition mk_resolved_input :: "reference \<Rightarrow> snapshot \<Rightarrow> resolved_input res" where
  "mk_resolved_input r s =
     (if resolved_input_mismatches r s \<noteq> [] then raise PyValueError
        (msg [''resolved Cell input reference does not match snapshot: '',
          join '', '' (resolved_input_mismatches r s)])
      else Inr \<lparr>ri_reference = r, ri_snapshot = s\<rparr>)"

definition bundle_all :: "resolved_input list \<Rightarrow> string \<Rightarrow> snapshot list" where
  "bundle_all inputs kind = filter (\<lambda>s. sn_input_kind s = kind) (map ri_snapshot inputs)"

definition scope_matches :: "request \<Rightarrow> snapshot \<Rightarrow> bool" where
  "scope_matches rq s = (sn_target s = rq_target rq \<and> sn_horizon s = rq_horizon rq)"

text \<open>\<open>CellInputBundle(...)\<close> with the checks of its \<open>__post_init__\<close>, in order.\<close>

definition mk_bundle ::
  "stdlib \<Rightarrow> string \<Rightarrow> request \<Rightarrow> resolved_input list \<Rightarrow> string list \<Rightarrow> cell_input_bundle res" where
  "mk_bundle L node_id rq inputs kinds =
     (if blank node_id then raise PyValueError ''Cell input bundle node_id must not be empty''
      else if inputs = [] then raise PyValueError ''Cell input bundle requires resolved inputs''
      else if \<not> distinct kinds then
        raise PyValueError ''Cell input bundle required input kinds must be unique''
      else if ''analysis_request'' \<notin> set kinds then
        raise PyValueError ''Cell input bundle must require analysis_request''
      else if \<not> distinct (map (\<lambda>i. rf_reference_id (ri_reference i)) inputs) then
        raise PyValueError ''Cell input bundle reference ids must be unique''
      else if map (\<lambda>i. sn_input_kind (ri_snapshot i)) inputs \<noteq> kinds then
        raise PyValueError (msg [''Cell input bundle kinds do not match node requirements: '',
          ''required='', sl_repr L (PList (map PStr kinds)), '', actual='',
          sl_repr L (PList (map (\<lambda>i. PStr (sn_input_kind (ri_snapshot i))) inputs))])
      else if length (bundle_all inputs ''analysis_request'') \<noteq> 1 then
        raise PyValueError ''Cell input bundle requires exactly one analysis_request''
      else if \<not> scope_matches rq (hd (bundle_all inputs ''analysis_request'')) then
        raise PyValueError ''Cell input bundle analysis_request scope does not match snapshot''
      else (case find (\<lambda>i. \<not> scope_matches rq (ri_snapshot i)) inputs of
          Some i \<Rightarrow> raise PyValueError (msg [''Cell input '', rf_reference_id (ri_reference i),
            '' does not match analysis request scope''])
        | None \<Rightarrow> Inr \<lparr>ib_node_id = node_id, ib_analysis_request = rq, ib_resolved_inputs = inputs,
            ib_required_input_kinds = kinds, ib_schema_version = ''cell_input_bundle.v1''\<rparr>))"

definition require_one :: "cell_input_bundle \<Rightarrow> string \<Rightarrow> snapshot res" where
  "require_one b kind =
     (case bundle_all (ib_resolved_inputs b) kind of
        [s] \<Rightarrow> Inr s
      | matches \<Rightarrow> raise PyValueError (msg [''node '', ib_node_id b, '' requires exactly one '', kind,
          '', received '', show_nat (length matches)]))"

subsection \<open>What the constructors enforce\<close>

lemma resolved_input_mismatches_Nil:
  "resolved_input_mismatches r s = [] \<longleftrightarrow>
   rf_snapshot_id r = sn_snapshot_id s \<and> rf_input_kind r = sn_input_kind s
   \<and> rf_content_hash r = sn_content_hash s \<and> rf_data_version r = sn_data_version s
   \<and> rf_source r = sn_source s \<and> rf_target r = sn_target s \<and> rf_horizon r = sn_horizon s
   \<and> rf_payload_size_bytes r = sn_payload_size_bytes s"
  by (simp add: resolved_input_mismatches_def opt_issue_Nil)

lemma reference_mismatches_Nil:
  "reference_mismatches r e = [] \<longleftrightarrow>
   rf_reference_id r = rf_reference_id e \<and> rf_snapshot_id r = rf_snapshot_id e
   \<and> rf_input_kind r = rf_input_kind e \<and> rf_content_hash r = rf_content_hash e
   \<and> rf_data_version r = rf_data_version e \<and> rf_source r = rf_source e
   \<and> rf_target r = rf_target e \<and> rf_horizon r = rf_horizon e
   \<and> rf_payload_size_bytes r = rf_payload_size_bytes e \<and> rf_schema_version r = rf_schema_version e"
  by (simp add: reference_mismatches_def opt_issue_Nil)

text \<open>What a bundle promises: \<open>bundle_ok\<close> is exactly what \<open>__post_init__\<close> accepts.\<close>

definition bundle_ok :: "cell_input_bundle \<Rightarrow> bool" where
  "bundle_ok b \<longleftrightarrow> \<not> blank (ib_node_id b)
     \<and> distinct (ib_required_input_kinds b) \<and> ''analysis_request'' \<in> set (ib_required_input_kinds b)
     \<and> distinct (map (\<lambda>i. rf_reference_id (ri_reference i)) (ib_resolved_inputs b))
     \<and> map (\<lambda>i. sn_input_kind (ri_snapshot i)) (ib_resolved_inputs b) = ib_required_input_kinds b
     \<and> (\<forall>i \<in> set (ib_resolved_inputs b). scope_matches (ib_analysis_request b) (ri_snapshot i))
     \<and> ib_schema_version b = ''cell_input_bundle.v1''"

lemma filter_kind_length:
  "distinct (map f xs) \<Longrightarrow> k \<in> set (map f xs) \<Longrightarrow> length (filter (\<lambda>x. f x = k) xs) = 1"
proof (induction xs)
  case (Cons x xs)
  show ?case
  proof (cases "f x = k")
    case True
    have "f y \<noteq> k" if "y \<in> set xs" for y
      using that Cons.prems(1) True by (metis distinct.simps(2) imageI list.set_map list.simps(9))
    then have "filter (\<lambda>x. f x = k) xs = []" by (simp add: filter_empty_conv)
    with True show ?thesis by simp
  next
    case False
    with Cons show ?thesis by auto
  qed
qed simp

lemma bundle_all_alt:
  "bundle_all xs k = map ri_snapshot (filter (\<lambda>i. sn_input_kind (ri_snapshot i) = k) xs)"
  by (simp add: bundle_all_def filter_map comp_def)

lemma mk_bundle_ok:
  "mk_bundle L n rq inputs kinds = Inr b \<longleftrightarrow>
   b = \<lparr>ib_node_id = n, ib_analysis_request = rq, ib_resolved_inputs = inputs,
        ib_required_input_kinds = kinds, ib_schema_version = ''cell_input_bundle.v1''\<rparr> \<and> bundle_ok b"
proof -
  have one: "length (bundle_all inputs ''analysis_request'') = 1"
    if "distinct kinds" "''analysis_request'' \<in> set kinds"
      "map (\<lambda>i. sn_input_kind (ri_snapshot i)) inputs = kinds"
    using that filter_kind_length[of "\<lambda>i. sn_input_kind (ri_snapshot i)" inputs "''analysis_request''"]
    by (simp add: bundle_all_alt)
  have hd: "hd (bundle_all inputs k) \<in> ri_snapshot ` set inputs"
    if "length (bundle_all inputs k) = 1" for k
  proof -
    have "hd (bundle_all inputs k) \<in> set (bundle_all inputs k)"
      using that by (cases "bundle_all inputs k") simp_all
    then show ?thesis by (auto simp: bundle_all_alt)
  qed
  have fnd: "find (\<lambda>i. \<not> scope_matches rq (ri_snapshot i)) inputs = None
      \<longleftrightarrow> (\<forall>i \<in> set inputs. scope_matches rq (ri_snapshot i))"
    by (auto simp: find_None_iff)
  show ?thesis
  proof (cases "find (\<lambda>i. \<not> scope_matches rq (ri_snapshot i)) inputs")
    case None
    then have all: "\<forall>i \<in> set inputs. scope_matches rq (ri_snapshot i)" using fnd by blast
    have h: "scope_matches rq (hd (bundle_all inputs ''analysis_request''))"
      if "length (bundle_all inputs ''analysis_request'') = 1"
      using hd[OF that] all by auto
    have nonempty: "inputs \<noteq> []"
      if "map (\<lambda>i. sn_input_kind (ri_snapshot i)) inputs = kinds" "''analysis_request'' \<in> set kinds"
      using that by auto
    have eq: "mk_bundle L n rq inputs kinds = Inr b \<longleftrightarrow>
        \<not> blank n \<and> inputs \<noteq> [] \<and> distinct kinds \<and> ''analysis_request'' \<in> set kinds
        \<and> distinct (map (\<lambda>i. rf_reference_id (ri_reference i)) inputs)
        \<and> map (\<lambda>i. sn_input_kind (ri_snapshot i)) inputs = kinds
        \<and> length (bundle_all inputs ''analysis_request'') = 1
        \<and> scope_matches rq (hd (bundle_all inputs ''analysis_request''))
        \<and> b = \<lparr>ib_node_id = n, ib_analysis_request = rq, ib_resolved_inputs = inputs,
             ib_required_input_kinds = kinds, ib_schema_version = ''cell_input_bundle.v1''\<rparr>"
      unfolding mk_bundle_def None
      by (simp only: guard_Inr option.case sum.inject not_not not_False_eq_True) blast
    show ?thesis
    proof
      assume "mk_bundle L n rq inputs kinds = Inr b"
      then show "b = \<lparr>ib_node_id = n, ib_analysis_request = rq, ib_resolved_inputs = inputs,
        ib_required_input_kinds = kinds, ib_schema_version = ''cell_input_bundle.v1''\<rparr> \<and> bundle_ok b"
        unfolding eq bundle_ok_def using all by simp
    next
      assume b: "b = \<lparr>ib_node_id = n, ib_analysis_request = rq, ib_resolved_inputs = inputs,
        ib_required_input_kinds = kinds, ib_schema_version = ''cell_input_bundle.v1''\<rparr> \<and> bundle_ok b"
      have bo: "bundle_ok b" by (rule b[THEN conjunct2])
      have k: "\<not> blank n" "distinct kinds" "''analysis_request'' \<in> set kinds"
        "distinct (map (\<lambda>i. rf_reference_id (ri_reference i)) inputs)"
        "map (\<lambda>i. sn_input_kind (ri_snapshot i)) inputs = kinds"
        using bo unfolding bundle_ok_def b[THEN conjunct1] by simp_all
      show "mk_bundle L n rq inputs kinds = Inr b"
        unfolding eq using k nonempty[OF k(5,3)] one[OF k(2,3,5)] h[OF one[OF k(2,3,5)]] b by blast
    qed
  next
    case (Some i)
    then have "\<not> (\<forall>i \<in> set inputs. scope_matches rq (ri_snapshot i))" using fnd by auto
    with Some show ?thesis by (auto simp: mk_bundle_def bundle_ok_def)
  qed
qed

lemma require_one_ok:
  assumes "bundle_ok b" "k \<in> set (ib_required_input_kinds b)"
  shows "\<exists>i \<in> set (ib_resolved_inputs b). require_one b k = Inr (ri_snapshot i)
    \<and> sn_input_kind (ri_snapshot i) = k"
proof -
  have "length (filter (\<lambda>i. sn_input_kind (ri_snapshot i) = k) (ib_resolved_inputs b)) = 1"
    using assms by (intro filter_kind_length) (simp_all add: bundle_ok_def)
  then obtain i where i: "filter (\<lambda>i. sn_input_kind (ri_snapshot i) = k) (ib_resolved_inputs b) = [i]"
    by (metis One_nat_def Suc_length_conv length_0_conv)
  then have "i \<in> set (filter (\<lambda>i. sn_input_kind (ri_snapshot i) = k) (ib_resolved_inputs b))"
    by simp
  then have "i \<in> set (ib_resolved_inputs b)" "sn_input_kind (ri_snapshot i) = k" by simp_all
  with i show ?thesis by (intro bexI[of _ i]) (simp_all add: require_one_def bundle_all_alt)
qed

subsection \<open>Audit records\<close>

text \<open>\<open>asdict\<close>, and the audit form, which leaves the payload out and has its own schema version.\<close>

definition snapshot_to_dict :: "snapshot \<Rightarrow> meta" where
  "snapshot_to_dict s =
     [(''snapshot_id'', PStr (sn_snapshot_id s)), (''input_kind'', PStr (sn_input_kind s)),
      (''target'', PStr (sn_target s)), (''horizon'', PStr (sn_horizon s)),
      (''content_hash'', PStr (sn_content_hash s)), (''data_version'', PStr (sn_data_version s)),
      (''source'', PStr (sn_source s)), (''payload'', sn_payload s),
      (''payload_size_bytes'', PInt (sn_payload_size_bytes s)),
      (''created_at'', PStr (sn_created_at s)), (''schema_version'', PStr (sn_schema_version s)),
      (''metadata'', PDict (sn_metadata s))]"

definition snapshot_audit_dict :: "snapshot \<Rightarrow> meta" where
  "snapshot_audit_dict s = AList.update ''schema_version'' (PStr ''input_snapshot_audit.v1'')
     (AList.delete ''payload'' (snapshot_to_dict s))"

definition bundle_audit_dict :: "cell_input_bundle \<Rightarrow> meta" where
  "bundle_audit_dict b =
     [(''node_id'', PStr (ib_node_id b)),
      (''required_input_kinds'', PList (map PStr (ib_required_input_kinds b))),
      (''inputs'', PList (map (\<lambda>i. PDict
         [(''reference_id'', PStr (rf_reference_id (ri_reference i))),
          (''snapshot_id'', PStr (sn_snapshot_id (ri_snapshot i))),
          (''input_kind'', PStr (sn_input_kind (ri_snapshot i))),
          (''data_version'', PStr (sn_data_version (ri_snapshot i))),
          (''source'', PStr (sn_source (ri_snapshot i))),
          (''content_hash'', PStr (sn_content_hash (ri_snapshot i)))]) (ib_resolved_inputs b))),
      (''schema_version'', PStr (ib_schema_version b))]"

text \<open>\<open>int(x)\<close>.\<close>

fun py_int :: "stdlib \<Rightarrow> pyval \<Rightarrow> int res" where
  "py_int L (PInt i) = Inr i"
| "py_int L (PBool b) = Inr (if b then 1 else 0)"
| "py_int L (PFloat (Fin q)) = Inr (if q < 0 then \<lceil>q\<rceil> else \<lfloor>q\<rfloor>)"
| "py_int L (PFloat NaN) = raise PyValueError ''cannot convert float NaN to integer''"
| "py_int L (PFloat (Inf _)) = raise (PyOther ''OverflowError'') ''cannot convert float infinity to integer''"
| "py_int L (PStr s) = (case sl_parse_int L s of
      None \<Rightarrow> raise PyValueError (msg [''invalid literal for int() with base 10: '', sl_repr L (PStr s)])
    | Some i \<Rightarrow> Inr i)"
| "py_int L v = raise PyTypeError ''int() argument must be a string or a real number''"

text \<open>
  \<open>InputSnapshot.from_dict\<close>. The code copies the kind and the metadata without a check; a kind
  that is not a string and metadata that is not an object are outside the model's types.
\<close>

definition snapshot_from_dict :: "stdlib \<Rightarrow> meta \<Rightarrow> snapshot res" where
  "snapshot_from_dict L d =
     bind_res (item d ''snapshot_id'') (\<lambda>sid. bind_res (item d ''input_kind'') (\<lambda>kind.
     bind_res (item d ''target'') (\<lambda>t. bind_res (item d ''horizon'') (\<lambda>h.
     bind_res (item d ''content_hash'') (\<lambda>ch. bind_res (item d ''data_version'') (\<lambda>v.
     bind_res (item d ''source'') (\<lambda>src. bind_res (item d ''payload'') (\<lambda>p.
     bind_res (bind_res (item d ''payload_size_bytes'') (py_int L)) (\<lambda>n.
     bind_res (item d ''created_at'') (\<lambda>cat.
     bind_res (as_dict (item_or d ''metadata'' (PDict []))) (\<lambda>md.
       Inr \<lparr>sn_snapshot_id = py_str L sid, sn_input_kind = py_str L kind, sn_target = py_str L t,
            sn_horizon = py_str L h, sn_content_hash = py_str L ch, sn_data_version = py_str L v,
            sn_source = py_str L src, sn_payload = p, sn_payload_size_bytes = n,
            sn_created_at = py_str L cat,
            sn_schema_version = py_str L (item_or d ''schema_version'' (PStr [])),
            sn_metadata = md\<rparr>)))))))))))"

lemma snapshot_from_to_dict: "snapshot_from_dict L (snapshot_to_dict s) = Inr s"
  by (simp add: snapshot_from_dict_def snapshot_to_dict_def item_def item_or_def)

subsection \<open>Requests and snapshots: the round trip\<close>

lemma candle_from_candle_dict: "candle_from_dict L (candle_dict c) = Inr c"
  by (simp add: candle_from_dict_def candle_dict_def item_def item_or_def)

lemma event_from_event_dict: "event_from_dict L (event_dict e) = Inr e"
  by (simp add: event_from_dict_def event_dict_def item_def item_or_def)

lemma request_from_request_dict: "request_from_dict L (request_dict r) = Inr r"
  by (simp add: request_from_dict_def request_dict_def item_def item_or_def
      map_res_map_inv[of "candle_from_dict L" candle_dict, OF candle_from_candle_dict]
      map_res_map_inv[of "event_from_dict L" event_dict, OF event_from_event_dict])

lemma snapshot_from_request_fields:
  assumes "snapshot_from_request L now r v src md = Inr s"
  shows "sn_input_kind s = ''analysis_request''" "sn_payload s = request_dict r"
    "sn_target s = rq_target r" "sn_horizon s = rq_horizon r"
    "sn_data_version s = v" "sn_source s = src"
  using assms
  unfolding snapshot_from_request_def create_snapshot_def by (simp_all split: option.splits prod.splits) auto

lemma created_snapshot_valid:
  assumes "create_snapshot L now kind t h (PDict payload) v src md = Inr s"
  shows "validate_snapshot L s = Inr () \<longleftrightarrow>
     kind \<in> set input_kinds \<and> \<not> blank t \<and> \<not> blank h \<and> \<not> blank v \<and> \<not> blank src
     \<and> (kind = ''analysis_request'' \<or> ''target'' \<in> fst ` set payload
          \<longrightarrow> map_of payload ''target'' = Some (PStr t))
     \<and> (kind = ''analysis_request'' \<or> ''horizon'' \<in> fst ` set payload
          \<longrightarrow> item_or payload ''horizon'' (PStr ''1h'') = PStr h)"
proof -
  obtain chash sz where hash: "canonical_json_hash_and_size L (PDict payload) = Some (chash, sz)"
    and s: "s = \<lparr>sn_snapshot_id = input_snapshot_id L kind t h chash v src,
          sn_input_kind = kind, sn_target = t, sn_horizon = h,
          sn_content_hash = chash, sn_data_version = v, sn_source = src,
          sn_payload = PDict payload, sn_payload_size_bytes = sz, sn_created_at = now,
          sn_schema_version = ''input_snapshot.v1'', sn_metadata = md\<rparr>"
    using assms by (auto simp only: create_snapshot_def split: option.splits)
  have "validate_snapshot L s = Inr () \<longleftrightarrow> snapshot_mismatches L s payload chash sz = []"
    by (simp add: validate_snapshot_def s hash Let_def)
  also have "\<dots> \<longleftrightarrow> kind \<in> set input_kinds \<and> \<not> blank t \<and> \<not> blank h \<and> \<not> blank v \<and> \<not> blank src
     \<and> (kind = ''analysis_request'' \<or> ''target'' \<in> fst ` set payload
          \<longrightarrow> map_of payload ''target'' = Some (PStr t))
     \<and> (kind = ''analysis_request'' \<or> ''horizon'' \<in> fst ` set payload
          \<longrightarrow> item_or payload ''horizon'' (PStr ''1h'') = PStr h)"
    unfolding snapshot_mismatches_def append_is_Nil_conv opt_issue_Nil
    by (simp add: s expected_snapshot_id_def payload_scope_mismatch_def opt_issue_Nil) blast
  finally show ?thesis .
qed

subsection \<open>The resolver keeps what it was given\<close>

lemma to_reference_uri: "rf_uri (to_reference s (Some (rf_uri (to_reference s None md))) md')
    = rf_uri (to_reference s None md)"
  by (simp add: to_reference_def or_empty_def)

lemma to_reference_refl: "reference_mismatches (to_reference s u md) (to_reference s u' md') = []"
  by (simp add: reference_mismatches_Nil) (simp add: to_reference_def)

lemma register_Inr:
  "register L st s = (Inr ref, st') \<longleftrightarrow>
   validate_snapshot L s = Inr () \<and> ref = to_reference s None []
   \<and> st' = st\<lparr>rs_snapshots_by_uri := AList.update (rf_uri ref) s (rs_snapshots_by_uri st)\<rparr>
   \<and> (\<forall>s0. map_of (rs_snapshots_by_uri st) (rf_uri ref) = Some s0 \<longrightarrow>
        validate_snapshot L s0 = Inr ()
        \<and> reference_mismatches ref (to_reference s0 (Some (rf_uri ref)) []) = [])"
  by (cases "validate_snapshot L s"; cases "map_of (rs_snapshots_by_uri st) (rf_uri (to_reference s None []))")
    (auto simp: register_def Let_def split: sum.splits if_splits)

lemma register_Inl: "register L st s = (Inl e, st') \<Longrightarrow> st' = st"
  by (auto simp: register_def Let_def split: sum.splits option.splits if_splits)

lemma resolve_Inr:
  "fst (resolve L st ref) = Inr s \<longleftrightarrow>
   map_of (rs_snapshots_by_uri st) (rf_uri ref) = Some s \<and> validate_snapshot L s = Inr ()
   \<and> reference_mismatches ref (to_reference s (Some (rf_uri ref)) []) = []"
  by (cases "map_of (rs_snapshots_by_uri st) (rf_uri ref)")
    (auto simp: resolve_def Let_def split: sum.splits)

lemma resolve_state: "snd (resolve L st ref) = st\<lparr>rs_resolve_count := rs_resolve_count st + 1\<rparr>"
  by (auto simp: resolve_def Let_def split: sum.splits option.splits)

lemma reference_mismatches_trans:
  "reference_mismatches a b = [] \<Longrightarrow> reference_mismatches c b = [] \<Longrightarrow> reference_mismatches a c = []"
  by (simp add: reference_mismatches_Nil)

text \<open>Two references that agree on everything but their location.\<close>

definition same_content :: "snapshot \<Rightarrow> snapshot \<Rightarrow> bool" where
  "same_content s s' \<longleftrightarrow> reference_mismatches (to_reference s None []) (to_reference s' None []) = []"

lemma same_content_refl: "same_content s s"
  by (simp add: same_content_def to_reference_refl)

lemma reference_mismatches_uri:
  "reference_mismatches (to_reference s u md) (to_reference s' u' md') = [] \<longleftrightarrow> same_content s s'"
  by (simp add: same_content_def reference_mismatches_Nil) (simp add: to_reference_def)

lemma same_content_trans: "same_content a b \<Longrightarrow> reference_mismatches r (to_reference a u md) = [] \<Longrightarrow>
   reference_mismatches r (to_reference b u md) = []"
  by (simp add: same_content_def reference_mismatches_Nil) (simp add: to_reference_def)

lemma valid_snapshot_hash:
  "validate_snapshot L s = Inr () \<Longrightarrow>
   canonical_json_hash_and_size L (sn_payload s) = Some (sn_content_hash s, sn_payload_size_bytes s)"
  unfolding validate_snapshot_def
  by (auto simp: Let_def snapshot_mismatches_def opt_issue_Nil split: pyval.splits option.splits if_splits)

lemma valid_snapshot_scope:
  "validate_snapshot L s = Inr () \<Longrightarrow> sn_snapshot_id s = expected_snapshot_id L s
   \<and> \<not> blank (sn_target s) \<and> \<not> blank (sn_horizon s)"
  unfolding validate_snapshot_def
  by (auto simp: Let_def snapshot_mismatches_def opt_issue_Nil split: pyval.splits option.splits if_splits)

lemma register_resolve:
  assumes "register L st s = (Inr ref, st')"
  shows "fst (resolve L st' ref) = Inr s"
  using assms unfolding register_Inr resolve_Inr
  by (auto simp: update_Some_unfold to_reference_refl)

lemma register_keeps:
  assumes reg: "register L st s = (out, st')" and res: "fst (resolve L st ref) = Inr s0"
  shows "\<exists>s1. fst (resolve L st' ref) = Inr s1 \<and> same_content s0 s1"
proof (cases out)
  case (Inl e)
  with reg register_Inl[of L st s e st'] res show ?thesis by (auto intro: same_content_refl)
next
  case (Inr r)
  note reg = reg[unfolded Inr register_Inr] and res = res[unfolded resolve_Inr]
  show ?thesis
  proof (cases "rf_uri ref = rf_uri r")
    case False
    with reg res show ?thesis
      by (intro exI[of _ s0]) (auto simp: resolve_Inr update_Some_unfold same_content_refl)
  next
    case True
    then have "same_content s s0"
      using reg res by (auto simp: reference_mismatches_uri)
    then have same: "same_content s0 s"
      by (simp add: same_content_def reference_mismatches_Nil)
    have "reference_mismatches ref (to_reference s (Some (rf_uri ref)) []) = []"
      using same_content_trans[OF same] res by blast
    with True reg same show ?thesis
      by (intro exI[of _ s]) (auto simp: resolve_Inr update_Some_unfold)
  qed
qed

lemma resolve_snapshots:
  "rs_snapshots_by_uri st = rs_snapshots_by_uri st' \<Longrightarrow> fst (resolve L st r) = fst (resolve L st' r)"
  by (auto simp: resolve_def Let_def split: option.splits sum.splits)

lemma resolve_pure: "fst (resolve L (snd (resolve L st r)) r') = fst (resolve L st r')"
  by (rule resolve_snapshots) (simp add: resolve_state)

subsection \<open>The resolver interfaces\<close>

text \<open>
  \<open>InputResolver\<close>: what the executor and the coordinator rely on. A snapshot that is returned
  is valid and agrees with the reference that named it, and resolving one reference does not
  change what another resolves to.
\<close>

locale input_resolver =
  fixes L :: stdlib
    and res :: "'st \<Rightarrow> reference \<Rightarrow> snapshot res \<times> 'st"
  assumes res_valid: "fst (res st r) = Inr s \<Longrightarrow> validate_snapshot L s = Inr ()"
    and res_faithful: "fst (res st r) = Inr s \<Longrightarrow>
      reference_mismatches r (to_reference s (Some (rf_uri r)) []) = []"
    and res_pure: "fst (res (snd (res st r)) r') = fst (res st r')"
begin

lemma res_wrap:
  assumes "fst (res st r) = Inr s"
  shows "mk_resolved_input r s = Inr \<lparr>ri_reference = r, ri_snapshot = s\<rparr>"
  using res_faithful[OF assms]
  by (simp add: mk_resolved_input_def resolved_input_mismatches_Nil reference_mismatches_Nil)
    (simp add: to_reference_def)

lemma res_agree:
  assumes "fst (res st r) = Inr s" "fst (res st' r) = Inr s'"
  shows "same_content s s'"
  using res_faithful[OF assms(1)] res_faithful[OF assms(2)]
  by (simp add: same_content_def reference_mismatches_Nil) (simp add: to_reference_def)

lemma res_hash:
  assumes "fst (res st r) = Inr s"
  shows "canonical_json_hash_and_size L (sn_payload s)
    = Some (rf_content_hash r, rf_payload_size_bytes r)"
proof -
  have "rf_content_hash r = sn_content_hash s" "rf_payload_size_bytes r = sn_payload_size_bytes s"
    using res_faithful[OF assms] by (simp_all add: reference_mismatches_Nil) (simp_all add: to_reference_def)
  with res_valid[OF assms] show ?thesis
    by (auto simp: valid_snapshot_hash)
qed

end

text \<open>\<open>InputSnapshotStore\<close>: a resolver that can be given snapshots.\<close>

locale snapshot_store = input_resolver L res
  for L :: stdlib and res :: "'st \<Rightarrow> reference \<Rightarrow> snapshot res \<times> 'st" +
  fixes reg :: "'st \<Rightarrow> snapshot \<Rightarrow> reference res \<times> 'st"
  assumes reg_res: "reg st s = (Inr r, st') \<Longrightarrow> fst (res st' r) = Inr s"
    and reg_keeps: "reg st s = (out, st') \<Longrightarrow> fst (res st r) = Inr s0 \<Longrightarrow>
      \<exists>s1. fst (res st' r) = Inr s1 \<and> same_content s0 s1"
begin

lemma reg_all_keeps:
  "fst (res st r) = Inr s0 \<Longrightarrow>
   \<exists>s1. fst (res (foldl (\<lambda>st s. snd (reg st s)) st ss) r) = Inr s1 \<and> same_content s0 s1"
proof (induction ss arbitrary: st s0)
  case Nil
  then show ?case using same_content_refl by auto
next
  case (Cons s ss)
  obtain out st' where reg: "reg st s = (out, st')" by (cases "reg st s")
  obtain s1 where s1: "fst (res st' r) = Inr s1" "same_content s0 s1"
    using reg_keeps[OF reg Cons.prems] by blast
  obtain s2 where "fst (res (foldl (\<lambda>st s. snd (reg st s)) st' ss) r) = Inr s2" "same_content s1 s2"
    using Cons.IH[OF s1(1)] by blast
  with s1 reg show ?case
    by (auto simp: same_content_def reference_mismatches_Nil)
qed

end

text \<open>\<open>LocalInputResolver\<close> provides both interfaces.\<close>

interpretation lr: snapshot_store L "resolve L" "register L" for L
proof unfold_locales
  show "fst (resolve L st r) = Inr s \<Longrightarrow> validate_snapshot L s = Inr ()" for st r s
    by (simp add: resolve_Inr)
  show "fst (resolve L st r) = Inr s \<Longrightarrow>
      reference_mismatches r (to_reference s (Some (rf_uri r)) []) = []" for st r s
    by (simp add: resolve_Inr)
  show "fst (resolve L (snd (resolve L st r)) r') = fst (resolve L st r')" for st r r'
    by (rule resolve_pure)
  show "register L st s = (Inr r, st') \<Longrightarrow> fst (resolve L st' r) = Inr s" for st s r st'
    by (rule register_resolve)
  show "register L st s = (out, st') \<Longrightarrow> fst (resolve L st r) = Inr s0 \<Longrightarrow>
      \<exists>s1. fst (resolve L st' r) = Inr s1 \<and> same_content s0 s1" for st s out st' r s0
    by (rule register_keeps)
qed

subsection \<open>Properties\<close>

text \<open>A standard library for concrete runs: the "digest" is the length of the text.\<close>

definition echo_lib :: stdlib where
  "echo_lib = \<lparr>sl_sha256_hex = (\<lambda>s. show_nat (length s)), sl_float_repr = (\<lambda>_. ''0.0''),
     sl_parse_float = (\<lambda>_. None), sl_parse_int = (\<lambda>_. None), sl_repr = (\<lambda>_. []), sl_dict = (\<lambda>_. Inr [])\<rparr>"

definition sample_request :: request where
  "sample_request = \<lparr>rq_target = ''BTCUSDT'', rq_horizon = ''1h'', rq_candles =
     [\<lparr>cd_timestamp = ''2024-01-01'', cd_open = Fin 10, cd_high = Fin 12, cd_low = Fin 9,
       cd_close = Fin 11, cd_volume = Fin 100\<rparr>], rq_events = [], rq_context = []\<rparr>"

definition sample_snapshot :: snapshot where
  "sample_snapshot =
     \<lparr>sn_snapshot_id = ''snapshot:analysis_request:124'', sn_input_kind = ''analysis_request'',
      sn_target = ''BTCUSDT'', sn_horizon = ''1h'', sn_content_hash = ''156'', sn_data_version = ''v1'',
      sn_source = ''feed'', sn_payload = request_dict sample_request, sn_payload_size_bytes = 156,
      sn_created_at = ''now'', sn_schema_version = ''input_snapshot.v1'', sn_metadata = []\<rparr>"

lemma sample_registered:
  "register echo_lib empty_resolver sample_snapshot
      = (Inr (to_reference sample_snapshot None []), snd (register echo_lib empty_resolver sample_snapshot))"
  by code_simp

lemma sample_resolves:
  "fst (resolve echo_lib (snd (register echo_lib empty_resolver sample_snapshot))
     (to_reference sample_snapshot None [])) = Inr sample_snapshot"
  by (rule register_resolve[OF sample_registered])

text \<open>
  C25: A request that is stored as a snapshot comes back unchanged, and the snapshot passes the
  resolver's integrity check exactly when target, horizon, data version and source are not blank.
\<close>

theorem request_snapshot_roundtrip:
  assumes "snapshot_from_request L now r v src md = Inr s"
  shows "to_analysis_request L s = Inr r \<and>
    (validate_snapshot L s = Inr () \<longleftrightarrow>
       \<not> blank (rq_target r) \<and> \<not> blank (rq_horizon r) \<and> \<not> blank v \<and> \<not> blank src)"
proof
  show "to_analysis_request L s = Inr r"
    using snapshot_from_request_fields[OF assms]
    by (simp add: to_analysis_request_def request_from_request_dict)
  have "create_snapshot L now ''analysis_request'' (rq_target r) (rq_horizon r)
      (PDict [(''target'', PStr (rq_target r)), (''horizon'', PStr (rq_horizon r)),
        (''candles'', PList (map candle_dict (rq_candles r))),
        (''events'', PList (map event_dict (rq_events r))), (''context'', PDict (rq_context r))])
      v src md = Inr s"
    using assms by (simp only: snapshot_from_request_def request_dict_def)
  from created_snapshot_valid[OF this] show "validate_snapshot L s = Inr () \<longleftrightarrow>
       \<not> blank (rq_target r) \<and> \<not> blank (rq_horizon r) \<and> \<not> blank v \<and> \<not> blank src"
    by (simp add: input_kinds_def item_or_def)
qed

theorem request_snapshot_roundtrip_witness:
  "to_analysis_request echo_lib sample_snapshot = Inr sample_request
   \<and> validate_snapshot echo_lib sample_snapshot = Inr ()"
proof -
  have s: "snapshot_from_request echo_lib ''now'' sample_request ''v1'' ''feed'' [] = Inr sample_snapshot"
    by code_simp
  have ok: "\<not> blank (rq_target sample_request)" "\<not> blank (rq_horizon sample_request)"
    "\<not> blank ''v1''" "\<not> blank ''feed''" by code_simp+
  show ?thesis using request_snapshot_roundtrip[OF s] ok by blast
qed

text \<open>
  C27: A snapshot survives \<open>to_dict\<close> and \<open>from_dict\<close>, payload and metadata included, and the
  audit form has the other keys, in the same order, without the payload.
\<close>

theorem snapshot_dict_roundtrip:
  "snapshot_from_dict L (snapshot_to_dict s) = Inr s
   \<and> map fst (snapshot_audit_dict s) = filter (\<lambda>k. k \<noteq> ''payload'') (map fst (snapshot_to_dict s))"
  unfolding snapshot_from_to_dict by (simp add: snapshot_audit_dict_def snapshot_to_dict_def)

text \<open>
  C26: A reference returned by \<open>register\<close> resolves to the snapshot that was registered, and
  whatever is registered afterwards (successfully or not) it still resolves, to a snapshot with
  the same identity, hash, size, source, version and scope.
\<close>

theorem register_then_resolve:
  assumes "register L st s = (Inr ref, st')"
  shows "fst (resolve L st' ref) = Inr s \<and>
    (\<exists>s1. fst (resolve L (foldl (\<lambda>st s. snd (register L st s)) st' later) ref) = Inr s1
       \<and> same_content s s1)"
  using lr.reg_res[OF assms] lr.reg_all_keeps[OF lr.reg_res[OF assms]] by blast

theorem register_then_resolve_witness:
  "fst (resolve echo_lib (snd (register echo_lib empty_resolver sample_snapshot))
     (to_reference sample_snapshot None [])) = Inr sample_snapshot"
  using register_then_resolve[OF sample_registered] by blast

text \<open>
  C20: What a resolve returns is what the reference promised: the payload is canonical JSON with
  the reference's content hash and byte size, the identity fields agree, the snapshot id is the
  one derived from them, and the scope is not blank.
\<close>

theorem resolve_integrity:
  assumes "fst (resolve L st ref) = Inr s"
  shows "canonical_json_hash_and_size L (sn_payload s) = Some (rf_content_hash ref, rf_payload_size_bytes ref)
    \<and> rf_snapshot_id ref = expected_snapshot_id L s \<and> sn_target s = rf_target ref
    \<and> sn_horizon s = rf_horizon ref \<and> sn_input_kind s = rf_input_kind ref
    \<and> \<not> blank (sn_target s) \<and> \<not> blank (sn_horizon s)"
proof -
  have "rf_target ref = sn_target s" "rf_horizon ref = sn_horizon s" "rf_snapshot_id ref = sn_snapshot_id s"
    "rf_input_kind ref = sn_input_kind s"
    using lr.res_faithful[OF assms]
    by (simp_all add: reference_mismatches_Nil) (simp_all add: to_reference_def)
  with lr.res_hash[OF assms] valid_snapshot_scope[OF lr.res_valid[OF assms]] show ?thesis by simp
qed

theorem resolve_integrity_witness:
  "rf_snapshot_id (to_reference sample_snapshot None []) = expected_snapshot_id echo_lib sample_snapshot"
  using resolve_integrity[OF sample_resolves] by blast

text \<open>
  A bundle that is built answers \<open>require_one\<close> for every required kind with a snapshot of
  that kind in the scope of the request, and refuses every other kind.
\<close>

theorem bundle_require_one:
  assumes "mk_bundle L n rq inputs kinds = Inr b"
  shows "if k \<in> set kinds
    then \<exists>s. require_one b k = Inr s \<and> s \<in> ri_snapshot ` set inputs \<and> sn_input_kind s = k
      \<and> scope_matches rq s
    else \<exists>e. require_one b k = Inl e"
proof -
  have b: "b = \<lparr>ib_node_id = n, ib_analysis_request = rq, ib_resolved_inputs = inputs,
      ib_required_input_kinds = kinds, ib_schema_version = ''cell_input_bundle.v1''\<rparr>" and ok: "bundle_ok b"
    using assms mk_bundle_ok by blast+
  show ?thesis
  proof (cases "k \<in> set kinds")
    case True
    then have "k \<in> set (ib_required_input_kinds b)" by (simp add: b)
    from require_one_ok[OF ok this] obtain i where i: "i \<in> set (ib_resolved_inputs b)"
      "require_one b k = Inr (ri_snapshot i)" "sn_input_kind (ri_snapshot i) = k" by blast
    have "scope_matches (ib_analysis_request b) (ri_snapshot i)"
      using ok i(1) unfolding bundle_ok_def by blast
    with i have "ri_snapshot i \<in> ri_snapshot ` set inputs" "scope_matches rq (ri_snapshot i)"
      by (simp_all add: b)
    with i True show ?thesis by auto
  next
    case False
    have "bundle_all inputs k = []"
      using False ok by (auto simp: bundle_all_alt bundle_ok_def b filter_empty_conv)
    with False show ?thesis by (simp add: require_one_def b)
  qed
qed

theorem bundle_require_one_witness:
  "\<exists>s. require_one \<lparr>ib_node_id = ''risk'', ib_analysis_request = sample_request,
      ib_resolved_inputs = [\<lparr>ri_reference = to_reference sample_snapshot None [], ri_snapshot = sample_snapshot\<rparr>],
      ib_required_input_kinds = [''analysis_request''], ib_schema_version = ''cell_input_bundle.v1''\<rparr>
    ''analysis_request'' = Inr s"
proof -
  have "mk_bundle echo_lib ''risk'' sample_request
      [\<lparr>ri_reference = to_reference sample_snapshot None [], ri_snapshot = sample_snapshot\<rparr>]
      [''analysis_request''] = Inr \<lparr>ib_node_id = ''risk'', ib_analysis_request = sample_request,
      ib_resolved_inputs = [\<lparr>ri_reference = to_reference sample_snapshot None [], ri_snapshot = sample_snapshot\<rparr>],
      ib_required_input_kinds = [''analysis_request''], ib_schema_version = ''cell_input_bundle.v1''\<rparr>"
    by code_simp
  from bundle_require_one[OF this, of "''analysis_request''"] show ?thesis by auto
qed

text \<open>
  The canonical bytes hashed for a snapshot's identity determine its six fields: no two
  identities share them, so equal identity hashes mean equal identities or a SHA-256 collision.
\<close>

theorem input_identity_injective:
  "dumps L (PDict (input_identity_payload kind t h c v s))
     = dumps L (PDict (input_identity_payload kind' t' h' c' v' s'))
   \<longleftrightarrow> (kind, t, h, c, v, s) = (kind', t', h', c', v', s')"
proof
  assume eq: "dumps L (PDict (input_identity_payload kind t h c v s))
     = dumps L (PDict (input_identity_payload kind' t' h' c' v' s'))"
  have "input_identity_payload kind t h c v s = input_identity_payload kind' t' h' c' v' s'"
    by (rule dumps_dict_inj[OF _ refl _ _ _ eq]) (simp_all add: input_identity_payload_def)
  then show "(kind, t, h, c, v, s) = (kind', t', h', c', v', s')"
    by (simp add: input_identity_payload_def)
qed simp

end
