(* ===== verification/Exec_Models.thy ===== *)
theory Exec_Models
  imports Graph_Model Inputs
begin

section \<open>Execution data model\<close>

text \<open>
  Models \<open>execution/models.py\<close>. Every dataclass is a record; a \<open>__post_init__\<close> is a function
  \<open>mk_...\<close> from the field values to the object or the exception it raises, with the checks in
  the source's order. Status fields are datatypes; the runtime of a binding is a string, since
  the \<open>Literal\<close> type is not enforced and the value is used as a dictionary key and as metadata.
  The last section says what an accepted execution control record is, without the loop.
\<close>

subsection \<open>Bindings\<close>

definition cell_runtimes :: "string list" where
  "cell_runtimes = [''python_local'', ''python_service'', ''rust_service'', ''external_service'']"

record resource_hints =
  rh_cpu_weight :: string
  rh_latency_sensitivity :: string
  rh_stateful :: bool
  rh_expected_timeout_ms :: int
  rh_max_retries :: int

definition mk_resource_hints :: "resource_hints \<Rightarrow> resource_hints res" where
  "mk_resource_hints h =
     (if rh_expected_timeout_ms h < 1 then raise PyValueError ''expected_timeout_ms must be at least 1''
      else if rh_max_retries h < 0 then raise PyValueError ''max_retries must not be negative''
      else Inr h)"

definition default_resource_hints :: resource_hints where
  "default_resource_hints = \<lparr>rh_cpu_weight = ''unknown'', rh_latency_sensitivity = ''normal'',
     rh_stateful = False, rh_expected_timeout_ms = 30000, rh_max_retries = 0\<rparr>"

record binding =
  bd_implementation_id :: string
  bd_cell_id :: string
  bd_service_id :: string
  bd_runtime :: string
  bd_language :: string
  bd_formula_version :: string
  bd_endpoint :: "string option"
  bd_task_queue :: "string option"
  bd_priority :: int
  bd_capabilities :: "string list"
  bd_supports_batch :: bool
  bd_max_concurrency :: "int option"
  bd_resource_hints :: resource_hints
  bd_binding_id :: string

definition service_binding_id :: "string \<Rightarrow> string \<Rightarrow> string" where
  "service_binding_id impl svc = ''binding:'' @ svc @ '':'' @ impl"

text \<open>The argument is the object before \<open>__post_init__\<close>; its \<open>binding_id\<close> is not read.\<close>

definition mk_binding :: "binding \<Rightarrow> binding res" where
  "mk_binding b =
     (case find (\<lambda>(f, v). blank v)
         [(''implementation_id'', bd_implementation_id b), (''cell_id'', bd_cell_id b),
          (''service_id'', bd_service_id b), (''language'', bd_language b),
          (''formula_version'', bd_formula_version b)] of
        Some (f, v) \<Rightarrow> raise PyValueError (msg [f, '' must not be empty''])
      | None \<Rightarrow>
         (if bd_priority b < 0 then raise PyValueError ''priority must not be negative''
          else if (case bd_max_concurrency b of None \<Rightarrow> False | Some m \<Rightarrow> m < 1)
          then raise PyValueError ''max_concurrency must be at least 1''
          else Inr (b\<lparr>bd_binding_id := service_binding_id (bd_implementation_id b) (bd_service_id b)\<rparr>)))"

subsection \<open>Plans\<close>

record exec_node =
  en_node_id :: string
  en_cell_id :: string
  en_formula_version :: string
  en_execution_role :: node_role
  en_binding_id :: string
  en_fallback_binding_ids :: "string list"
  en_dependencies :: "string list"
  en_input_reference_ids :: "string list"
  en_required_input_kinds :: "string list"
  en_input_keys :: "string list"
  en_output_keys :: "string list"
  en_resource_hints :: resource_hints
  en_metadata :: meta

record exec_plan =
  ep_plan_id :: string
  ep_target :: string
  ep_horizon :: string
  ep_root_node_id :: string
  ep_nodes :: "exec_node list"
  ep_input_references :: "reference list"
  ep_service_bindings :: "binding list"
  ep_schema_version :: string
  ep_created_at :: string
  ep_metadata :: meta

subsection \<open>Traces\<close>

datatype trace_status = TSucceeded | TFailed | TSkipped

record trace =
  rt_trace_id :: string
  rt_span_id :: string
  rt_run_id :: string
  rt_node_id :: string
  rt_cell_id :: string
  rt_formula_version :: string
  rt_status :: trace_status
  rt_started_at :: string
  rt_finished_at :: string
  rt_duration_ms :: pyfloat
  rt_schema_version :: string
  rt_plan_id :: "string option"
  rt_implementation_id :: "string option"
  rt_service_id :: "string option"
  rt_runtime :: "string option"
  rt_retry_count :: int
  rt_error :: "string option"
  rt_parent_span_id :: "string option"
  rt_metadata :: meta

definition mk_trace :: "trace \<Rightarrow> trace res" where
  "mk_trace t =
     (if flt (rt_duration_ms t) (Fin 0) then raise PyValueError ''duration_ms must not be negative''
      else if rt_retry_count t < 0 then raise PyValueError ''retry_count must not be negative''
      else Inr t)"

definition trace_ok :: "trace \<Rightarrow> bool" where
  "trace_ok t \<longleftrightarrow> \<not> flt (rt_duration_ms t) (Fin 0) \<and> 0 \<le> rt_retry_count t"

lemma mk_trace_Inr: "mk_trace t = Inr t' \<longleftrightarrow> t' = t \<and> trace_ok t"
  by (auto simp: mk_trace_def trace_ok_def)

subsection \<open>Attempts\<close>

datatype failure_kind = FRouting | FDispatch | FExecution | FTimeout | FBackpressure | FCanceled | FContract

datatype attempt_status = ASucceeded | AFailed | ATimed_out | ABackpressured | ACanceled

datatype control_status = CSucceeded | CFailed | CCanceled

fun show_failure_kind :: "failure_kind \<Rightarrow> string" where
  "show_failure_kind FRouting = ''routing''"
| "show_failure_kind FDispatch = ''dispatch''"
| "show_failure_kind FExecution = ''execution''"
| "show_failure_kind FTimeout = ''timeout''"
| "show_failure_kind FBackpressure = ''backpressure''"
| "show_failure_kind FCanceled = ''canceled''"
| "show_failure_kind FContract = ''contract''"

fun show_attempt_status :: "attempt_status \<Rightarrow> string" where
  "show_attempt_status ASucceeded = ''succeeded''"
| "show_attempt_status AFailed = ''failed''"
| "show_attempt_status ATimed_out = ''timed_out''"
| "show_attempt_status ABackpressured = ''backpressured''"
| "show_attempt_status ACanceled = ''canceled''"

record attempt =
  ca_attempt_id :: string
  ca_idempotency_key :: string
  ca_attempt_number :: int
  ca_binding_attempt_number :: int
  ca_fallback_index :: int
  ca_binding_id :: string
  ca_is_retry :: bool
  ca_status :: attempt_status
  ca_failure_kind :: "failure_kind option"
  ca_retryable :: bool
  ca_started_at :: string
  ca_finished_at :: string
  ca_duration_ms :: pyfloat
  ca_trace_span_id :: "string option"
  ca_actual_implementation_id :: "string option"
  ca_actual_service_id :: "string option"
  ca_actual_runtime :: "string option"
  ca_error :: "string option"
  ca_metadata :: meta

fun expected_failure_kind :: "attempt_status \<Rightarrow> failure_kind option" where
  "expected_failure_kind ATimed_out = Some FTimeout"
| "expected_failure_kind ABackpressured = Some FBackpressure"
| "expected_failure_kind ACanceled = Some FCanceled"
| "expected_failure_kind _ = None"

definition mk_attempt :: "attempt \<Rightarrow> attempt res" where
  "mk_attempt a =
     (if ca_attempt_number a < 1 then raise PyValueError ''attempt_number must be at least 1''
      else if ca_binding_attempt_number a < 1 then
        raise PyValueError ''binding_attempt_number must be at least 1''
      else if ca_fallback_index a < 0 then raise PyValueError ''fallback_index must not be negative''
      else if flt (ca_duration_ms a) (Fin 0) then raise PyValueError ''duration_ms must not be negative''
      else if ca_is_retry a \<noteq> (ca_binding_attempt_number a > 1) then
        raise PyValueError ''is_retry must match binding_attempt_number''
      else if ca_status a = ASucceeded \<and> (ca_failure_kind a \<noteq> None \<or> ca_error a \<noteq> None) then
        raise PyValueError ''successful attempt cannot contain failure details''
      else if ca_status a = ASucceeded \<and> ca_retryable a then
        raise PyValueError ''successful attempt cannot be retryable''
      else if ca_status a \<noteq> ASucceeded \<and> (ca_failure_kind a = None \<or> ca_error a = None) then
        raise PyValueError ''failed attempt requires failure_kind and error''
      else if expected_failure_kind (ca_status a) \<noteq> None
          \<and> ca_failure_kind a \<noteq> expected_failure_kind (ca_status a) then
        raise PyValueError (msg [''attempt status '', show_attempt_status (ca_status a), '' requires '',
          show_failure_kind (the (expected_failure_kind (ca_status a))), '' failure''])
      else if ca_status a = AFailed
          \<and> ca_failure_kind a \<in> {Some FTimeout, Some FBackpressure, Some FCanceled} then
        raise PyValueError ''specialized failure kind requires specialized attempt status''
      else Inr a)"

text \<open>The status a failure kind calls for; success has none.\<close>

fun status_of_kind :: "failure_kind option \<Rightarrow> attempt_status" where
  "status_of_kind None = ASucceeded"
| "status_of_kind (Some FTimeout) = ATimed_out"
| "status_of_kind (Some FBackpressure) = ABackpressured"
| "status_of_kind (Some FCanceled) = ACanceled"
| "status_of_kind _ = AFailed"

definition attempt_ok :: "attempt \<Rightarrow> bool" where
  "attempt_ok a \<longleftrightarrow> 1 \<le> ca_attempt_number a \<and> 1 \<le> ca_binding_attempt_number a
     \<and> 0 \<le> ca_fallback_index a \<and> \<not> flt (ca_duration_ms a) (Fin 0)
     \<and> ca_is_retry a = (1 < ca_binding_attempt_number a)
     \<and> ca_status a = status_of_kind (ca_failure_kind a)
     \<and> (ca_failure_kind a = None \<longleftrightarrow> ca_error a = None)
     \<and> (ca_failure_kind a = None \<longrightarrow> \<not> ca_retryable a)"

lemma mk_attempt_Inr: "mk_attempt a = Inr a' \<longleftrightarrow> a' = a \<and> attempt_ok a"
proof -
  have "mk_attempt a = Inr a' \<longleftrightarrow> a' = a \<and> 1 \<le> ca_attempt_number a
     \<and> 1 \<le> ca_binding_attempt_number a
     \<and> 0 \<le> ca_fallback_index a \<and> \<not> flt (ca_duration_ms a) (Fin 0)
     \<and> ca_is_retry a = (1 < ca_binding_attempt_number a)
     \<and> (ca_status a = ASucceeded \<longrightarrow> ca_failure_kind a = None \<and> ca_error a = None)
     \<and> (ca_status a = ASucceeded \<longrightarrow> \<not> ca_retryable a)
     \<and> (ca_status a \<noteq> ASucceeded \<longrightarrow> ca_failure_kind a \<noteq> None \<and> ca_error a \<noteq> None)
     \<and> (expected_failure_kind (ca_status a) \<noteq> None
          \<longrightarrow> ca_failure_kind a = expected_failure_kind (ca_status a))
     \<and> (ca_status a = AFailed \<longrightarrow>
          ca_failure_kind a \<notin> {Some FTimeout, Some FBackpressure, Some FCanceled})"
    unfolding mk_attempt_def guard_Inr sum.inject not_less not_not de_Morgan_conj de_Morgan_disj
    by (simp only: imp_conv_disj not_not) (rule iffI; (elim conjE; intro conjI; assumption?; (rule sym)?; assumption))
  also have "\<dots> \<longleftrightarrow> a' = a \<and> attempt_ok a"
  proof (cases "ca_failure_kind a")
    case None
    then show ?thesis by (cases "ca_status a") (auto simp: attempt_ok_def)
  next
    case (Some k)
    then show ?thesis by (cases "ca_status a"; cases k) (auto simp: attempt_ok_def)
  qed
  finally show ?thesis .
qed

subsection \<open>Control records\<close>

record control_record =
  ec_control_id :: string
  ec_idempotency_key :: string
  ec_run_id :: string
  ec_plan_id :: string
  ec_node_id :: string
  ec_primary_binding_id :: string
  ec_fallback_binding_ids :: "string list"
  ec_status :: control_status
  ec_attempts :: "attempt list"
  ec_retry_count :: int
  ec_fallback_count :: int
  ec_final_binding_id :: string
  ec_final_failure_kind :: "failure_kind option"
  ec_started_at :: string
  ec_finished_at :: string
  ec_schema_version :: string
  ec_metadata :: meta

text \<open>The loop over the attempts: the previous fallback index and the attempts per index so far.\<close>

fun walk_attempts :: "string list \<Rightarrow> int \<Rightarrow> (int \<Rightarrow> int) \<Rightarrow> attempt list \<Rightarrow> unit res" where
  "walk_attempts ids prev counts [] = Inr ()"
| "walk_attempts ids prev counts (a # as) =
     (if ca_fallback_index a \<ge> int (length ids) then
        raise PyValueError ''attempt fallback_index is outside configured bindings''
      else if ca_binding_id a \<noteq> ids ! nat (ca_fallback_index a) then
        raise PyValueError ''attempt binding_id does not match fallback_index''
      else if ca_fallback_index a \<noteq> prev \<and> ca_fallback_index a \<noteq> prev + 1 then
        raise PyValueError ''execution attempts must follow fallback order''
      else if ca_fallback_index a < prev then
        raise PyValueError ''execution attempts cannot return to an earlier binding''
      else if ca_binding_attempt_number a \<noteq> counts (ca_fallback_index a) + 1 then
        raise PyValueError ''binding_attempt_number must be contiguous for each binding''
      else walk_attempts ids (ca_fallback_index a)
        (counts(ca_fallback_index a := counts (ca_fallback_index a) + 1)) as)"

definition final_status :: "attempt_status \<Rightarrow> control_status" where
  "final_status s = (if s = ASucceeded then CSucceeded else if s = ACanceled then CCanceled else CFailed)"

definition mk_control_record :: "control_record \<Rightarrow> control_record res" where
  "mk_control_record r =
     (let as = ec_attempts r; ids = ec_primary_binding_id r # ec_fallback_binding_ids r in
      if as = [] then raise PyValueError ''execution control record requires at least one attempt''
      else if map ca_attempt_number as \<noteq> map int [1..<length as + 1] then
        raise PyValueError ''execution attempts must have contiguous attempt numbers''
      else if card (set (map ca_attempt_id as)) \<noteq> length as then
        raise PyValueError ''execution attempt_id values must be unique''
      else if (\<exists>a \<in> set as. ca_idempotency_key a \<noteq> ec_idempotency_key r) then
        raise PyValueError ''execution attempts must share the control idempotency key''
      else if length ids \<noteq> card (set ids) then
        raise PyValueError ''control primary and fallback binding ids must be unique''
      else if ca_fallback_index (hd as) \<noteq> 0 then
        raise PyValueError ''execution attempts must start with the primary binding''
      else bind_res (walk_attempts ids 0 (\<lambda>_. 0) as) (\<lambda>_.
        if ec_retry_count r \<noteq> int (length (filter ca_is_retry as)) then
          raise PyValueError ''retry_count does not match execution attempts''
        else if ec_fallback_count r \<noteq> Max (set (map ca_fallback_index as)) then
          raise PyValueError ''fallback_count does not match execution attempts''
        else if ec_final_binding_id r \<noteq> ca_binding_id (last as) then
          raise PyValueError ''final_binding_id does not match the final attempt''
        else if ec_final_failure_kind r \<noteq> ca_failure_kind (last as) then
          raise PyValueError ''final_failure_kind does not match the final attempt''
        else if ec_status r \<noteq> final_status (ca_status (last as)) then
          raise PyValueError ''control status does not match the final attempt''
        else Inr r))"

subsection \<open>What an accepted control record is\<close>

text \<open>
  Attempts that may follow attempt number \<open>j\<close> on the binding with index \<open>k\<close>: each one is either
  the next on the same binding or the first on the next binding.
\<close>

fun follows :: "string list \<Rightarrow> int \<Rightarrow> int \<Rightarrow> attempt list \<Rightarrow> bool" where
  "follows ids k j [] = True"
| "follows ids k j (a # as) \<longleftrightarrow>
     (ca_fallback_index a = k \<and> ca_binding_attempt_number a = j + 1
       \<or> ca_fallback_index a = k + 1 \<and> ca_binding_attempt_number a = 1)
     \<and> ca_fallback_index a < int (length ids)
     \<and> ca_binding_id a = ids ! nat (ca_fallback_index a)
     \<and> follows ids (ca_fallback_index a) (ca_binding_attempt_number a) as"

definition control_record_ok :: "control_record \<Rightarrow> bool" where
  "control_record_ok r \<longleftrightarrow>
     (let as = ec_attempts r; ids = ec_primary_binding_id r # ec_fallback_binding_ids r in
      as \<noteq> [] \<and> map ca_attempt_number as = map int [1..<length as + 1]
      \<and> distinct (map ca_attempt_id as) \<and> (\<forall>a \<in> set as. ca_idempotency_key a = ec_idempotency_key r)
      \<and> distinct ids \<and> ca_fallback_index (hd as) = 0 \<and> follows ids 0 0 as
      \<and> ec_retry_count r = int (length (filter ca_is_retry as))
      \<and> ec_fallback_count r = Max (set (map ca_fallback_index as))
      \<and> ec_final_binding_id r = ca_binding_id (last as)
      \<and> ec_final_failure_kind r = ca_failure_kind (last as)
      \<and> ec_status r = final_status (ca_status (last as)))"

lemma walk_attempts_follows:
  assumes "\<forall>i > k. counts i = 0"
  shows "walk_attempts ids k counts as = Inr () \<longleftrightarrow> follows ids k (counts k) as"
  using assms
proof (induction as arbitrary: k counts)
  case (Cons a as)
  let ?i = "ca_fallback_index a"
  have IH: "walk_attempts ids ?i (counts(?i := counts ?i + 1)) as = Inr ()
      \<longleftrightarrow> follows ids ?i (counts ?i + 1) as" if "?i = k \<or> ?i = k + 1"
    using Cons.IH[of ?i "counts(?i := counts ?i + 1)"] Cons.prems that by fastforce
  have zero: "counts (k + 1) = 0" using Cons.prems by simp
  show ?case
  proof (cases "?i = k \<or> ?i = k + 1")
    case True
    then show ?thesis
      unfolding walk_attempts.simps follows.simps guard_Inr IH[OF True] using zero by fastforce
  next
    case False
    then show ?thesis unfolding walk_attempts.simps follows.simps guard_Inr by blast
  qed
qed simp

lemma mk_control_record_Inr: "mk_control_record r = Inr r' \<longleftrightarrow> r' = r \<and> control_record_ok r"
proof -
  have walk: "walk_attempts ids 0 (\<lambda>_. 0) as = Inr u \<longleftrightarrow> follows ids 0 0 as" for ids as u
    using walk_attempts_follows[of 0 "\<lambda>_. 0" ids as] by simp
  have card: "card (set xs) \<noteq> length xs \<longleftrightarrow> \<not> distinct xs"
    "length xs \<noteq> card (set xs) \<longleftrightarrow> \<not> distinct xs" for xs :: "string list"
    using length_set_distinct[of xs] by auto
  have ids: "card (set (map ca_attempt_id (ec_attempts r))) \<noteq> length (ec_attempts r)
      \<longleftrightarrow> \<not> distinct (map ca_attempt_id (ec_attempts r))"
    using card(1)[of "map ca_attempt_id (ec_attempts r)"] by simp
  show ?thesis
    unfolding mk_control_record_def control_record_ok_def Let_def guard_Inr bind_res_eq_Inr walk
      card ids sum.inject not_not
    by (auto simp del: upt_Suc)
qed

text \<open>Attempts that follow each other can be extended at the end.\<close>

lemma follows_snoc:
  "follows ids k j (as @ [a]) \<longleftrightarrow> follows ids k j as \<and>
   (if as = [] then follows ids k j [a]
    else follows ids (ca_fallback_index (last as)) (ca_binding_attempt_number (last as)) [a])"
  by (induction as arbitrary: k j) auto

lemma follows_sorted:
  "follows ids k j as \<Longrightarrow> sorted (k # map ca_fallback_index as)"
proof (induction as arbitrary: k j)
  case (Cons a as)
  then have "sorted (ca_fallback_index a # map ca_fallback_index as)" "k \<le> ca_fallback_index a"
    by auto
  then show ?case by auto
qed simp

lemma sorted_Max_last: "sorted xs \<Longrightarrow> xs \<noteq> [] \<Longrightarrow> Max (set xs) = last xs"
  for xs :: "'a :: linorder list"
proof (rule Max_eqI)
  assume "sorted xs" "xs \<noteq> []"
  then show "last xs \<in> set xs" by simp
  show "y \<le> last xs" if "y \<in> set xs" for y
    using that \<open>sorted xs\<close> \<open>xs \<noteq> []\<close>
    by (auto simp: sorted_iff_nth_mono in_set_conv_nth last_conv_nth)
qed simp

subsection \<open>Properties\<close>

text \<open>
  C33: The constructor of a control record accepts exactly the well-formed histories: attempts
  numbered 1, 2, \<dots> with distinct ids and one key, walking through the bindings from the primary
  one without going back or skipping, numbered from 1 on each binding, with counters, final
  binding, failure kind and status derived from them.
\<close>

theorem control_record_constructor_decides:
  "mk_control_record r = Inr r' \<longleftrightarrow> r' = r \<and> control_record_ok r"
  by (rule mk_control_record_Inr)

end
