(* ===== verification/Catalog.thy ===== *)
theory Catalog
  imports Exec_Models "HOL-Library.Product_Lexorder"
begin

section \<open>Cells, the registry and the capability catalog\<close>

text \<open>
  Models \<open>registry.py\<close>, \<open>execution/catalog.py\<close> and the interface of \<open>cells/base.py\<close>. Effects
  outside the code (clock, random ids, the code of a Cell) act on a world of any type \<open>'w\<close>,
  which the operations thread through in the order of the calls.
\<close>

text \<open>\<open>utc_now_iso()\<close>, \<open>perf_counter()\<close> (a finite float) and \<open>uuid4().hex\<close>.\<close>

record 'w env =
  env_now :: "'w \<Rightarrow> string \<times> 'w"
  env_perf :: "'w \<Rightarrow> rat \<times> 'w"
  env_uuid :: "'w \<Rightarrow> string \<times> 'w"

text \<open>What a call of \<open>analyze\<close> may do: raise, return a \<open>CellResult\<close>, or return another type.\<close>

datatype cell_return = CellRaised exc | CellReturned cell_result | CellReturnedOther string

record 'w cell =
  cl_manifest :: manifest
  cl_analyze :: "request \<Rightarrow> cell_result list option \<Rightarrow> 'w \<Rightarrow> cell_return \<times> 'w"
  cl_analyze_inputs :: "cell_input_bundle \<Rightarrow> cell_result list option \<Rightarrow> 'w \<Rightarrow> cell_return \<times> 'w"

definition cl_cell_id :: "'w cell \<Rightarrow> string" where
  "cl_cell_id c = mf_cell_id (cl_manifest c)"

text \<open>\<open>MarketCell.analyze_inputs\<close>: the default passes the bundle's request on.\<close>

definition default_analyze_inputs ::
  "(request \<Rightarrow> cell_result list option \<Rightarrow> 'w \<Rightarrow> cell_return \<times> 'w)
   \<Rightarrow> cell_input_bundle \<Rightarrow> cell_result list option \<Rightarrow> 'w \<Rightarrow> cell_return \<times> 'w" where
  "default_analyze_inputs analyze b = analyze (ib_analysis_request b)"

subsection \<open>The registry\<close>

text \<open>\<open>Counter\<close>: the keys that occur more than once, sorted.\<close>

definition sorted_duplicates :: "string list \<Rightarrow> string list" where
  "sorted_duplicates xs = sort (filter (\<lambda>x. count_list xs x > 1) (fromkeys xs))"

definition mk_registry :: "'w cell list \<Rightarrow> 'w cell list res" where
  "mk_registry cells =
     (let dups = sorted_duplicates (map cl_cell_id cells) in
      if dups \<noteq> [] then raise DuplicateCellRegistrationError
        (msg [''duplicate local cell registrations: '', join '', '' dups])
      else Inr cells)"

definition registry_manifests :: "'w cell list \<Rightarrow> manifest list" where
  "registry_manifests cells = map cl_manifest cells"

definition registry_resolve :: "'w cell list \<Rightarrow> string \<Rightarrow> 'w cell res" where
  "registry_resolve cells cid =
     (case map_of (dict_of (map (\<lambda>c. (cl_cell_id c, c)) cells)) cid of
        None \<Rightarrow> raise CellNotRegisteredError
          (msg [''no local Cell implementation registered for '', cid])
      | Some c \<Rightarrow> Inr c)"

lemma sorted_duplicates_Nil [issue_simps]: "sorted_duplicates xs = [] \<longleftrightarrow> distinct xs"
proof -
  have "sorted_duplicates xs = [] \<longleftrightarrow> set (sorted_duplicates xs) = {}" by (simp only: set_empty)
  also have "\<dots> \<longleftrightarrow> (\<forall>x \<in> set xs. count_list xs x \<le> 1)"
    by (auto simp: sorted_duplicates_def not_less)
  also have "\<dots> \<longleftrightarrow> distinct xs"
  proof
    show "distinct xs \<Longrightarrow> \<forall>x \<in> set xs. count_list xs x \<le> 1"
      by (induction xs) (auto simp: count_notin)
    show "\<forall>x \<in> set xs. count_list xs x \<le> 1 \<Longrightarrow> distinct xs"
    proof (induction xs)
      case (Cons x xs)
      from bspec[OF Cons.prems, of x] have "count_list xs x = 0" by simp
      then have "x \<notin> set xs" by (simp only: count_list_0_iff not_False_eq_True)
      moreover have "count_list xs y \<le> 1" if "y \<in> set xs" for y
        using bspec[OF Cons.prems, of y] that by (cases "x = y") simp_all
      ultimately show ?case using Cons.IH by simp
    qed simp
  qed
  finally show ?thesis .
qed

lemma mk_registry_Inr: "mk_registry cells = Inr reg \<longleftrightarrow> reg = cells \<and> distinct (map cl_cell_id cells)"
  by (auto simp: mk_registry_def Let_def issue_simps)

lemma registry_resolve_Inr:
  assumes "distinct (map cl_cell_id cells)"
  shows "registry_resolve cells cid = Inr c \<longleftrightarrow> c \<in> set cells \<and> cl_cell_id c = cid"
proof -
  have "dict_of (map (\<lambda>c. (cl_cell_id c, c)) cells) = map (\<lambda>c. (cl_cell_id c, c)) cells"
    using assms by (simp add: dict_of_distinct comp_def)
  then show ?thesis
    using key_map_lookup[OF assms, of cid c]
    by (auto simp: registry_resolve_def split: option.splits)
qed

lemma registry_resolve_id: "registry_resolve cells cid = Inr c \<Longrightarrow> c \<in> set cells \<and> cl_cell_id c = cid"
  by (auto simp: registry_resolve_def map_of_dict_of dest!: map_of_SomeD split: option.splits)

subsection \<open>The catalog\<close>

record catalog =
  cg_catalog_id :: string
  cg_bindings :: "binding list"
  cg_schema_version :: string
  cg_generated_at :: string
  cg_metadata :: meta

definition mk_catalog :: "catalog \<Rightarrow> catalog res" where
  "mk_catalog c =
     (let dups = sorted_duplicates (map bd_binding_id (cg_bindings c)) in
      if dups \<noteq> [] then raise CapabilityCatalogError
        (msg [''duplicate binding_id values: '', join '', '' dups])
      else Inr c)"

text \<open>\<open>ServiceCapabilityCatalog.create\<close>.\<close>

definition create_catalog ::
  "'w env \<Rightarrow> binding list \<Rightarrow> string option \<Rightarrow> meta \<Rightarrow> 'w \<Rightarrow> catalog res \<times> 'w" where
  "create_catalog E bs cid metadata w =
     (let (cid', w1) = (if or_empty cid = [] then env_uuid E w else (or_empty cid, w));
          (generated, w2) = env_now E w1
      in (mk_catalog \<lparr>cg_catalog_id = cid', cg_bindings = bs,
            cg_schema_version = ''service_capability_catalog.v2'', cg_generated_at = generated,
            cg_metadata = metadata\<rparr>, w2))"

definition candidate_key :: "binding \<Rightarrow> int \<times> string \<times> string" where
  "candidate_key b = (bd_priority b, bd_implementation_id b, bd_service_id b)"

definition candidates_for :: "catalog \<Rightarrow> manifest \<Rightarrow> binding list" where
  "candidates_for c m = sort_key candidate_key
     (filter (\<lambda>b. bd_cell_id b = mf_cell_id m \<and> bd_formula_version b = mf_formula_version m)
        (cg_bindings c))"

definition implementation_id :: "string \<Rightarrow> manifest \<Rightarrow> string" where
  "implementation_id service_id m = msg [service_id, '':'', mf_cell_id m, '':'', mf_formula_version m]"

definition build_local_service_binding :: "manifest \<Rightarrow> string \<Rightarrow> binding res" where
  "build_local_service_binding m service_id = mk_binding
     \<lparr>bd_implementation_id = implementation_id service_id m, bd_cell_id = mf_cell_id m,
      bd_service_id = service_id, bd_runtime = ''python_local'', bd_language = ''python'',
      bd_formula_version = mf_formula_version m, bd_endpoint = None,
      bd_task_queue = Some (msg [''cell.'', service_id]), bd_priority = 100,
      bd_capabilities = [mf_category m], bd_supports_batch = False, bd_max_concurrency = None,
      bd_resource_hints = default_resource_hints, bd_binding_id = []\<rparr>"

definition build_local_capability_catalog ::
  "'w env \<Rightarrow> 'w cell list \<Rightarrow> string \<Rightarrow> 'w \<Rightarrow> catalog res \<times> 'w" where
  "build_local_capability_catalog E registry service_id w =
     (case map_res (\<lambda>m. build_local_service_binding m service_id) (registry_manifests registry) of
        Inl e \<Rightarrow> (Inl e, w)
      | Inr bs \<Rightarrow>
         (let (u, w1) = env_uuid E w in
          create_catalog E bs (Some (msg [service_id, '':'', u]))
            [(''source'', PStr ''local_registry''), (''service_id'', PStr service_id)] w1))"

lemma mk_catalog_Inr: "mk_catalog c = Inr c' \<longleftrightarrow> c' = c \<and> distinct (map bd_binding_id (cg_bindings c))"
  by (auto simp: mk_catalog_def Let_def issue_simps)

lemma set_candidates_for [simp]:
  "set (candidates_for c m) =
   {b \<in> set (cg_bindings c). bd_cell_id b = mf_cell_id m \<and> bd_formula_version b = mf_formula_version m}"
  by (auto simp: candidates_for_def)

lemma candidates_for_distinct:
  assumes "distinct (map bd_binding_id (cg_bindings c))"
  shows "distinct (map bd_binding_id (candidates_for c m))"
proof -
  have "mset (map bd_binding_id (candidates_for c m)) = mset (map bd_binding_id
      (filter (\<lambda>b. bd_cell_id b = mf_cell_id m \<and> bd_formula_version b = mf_formula_version m)
        (cg_bindings c)))"
    by (simp add: candidates_for_def)
  then have "distinct (map bd_binding_id (candidates_for c m)) \<longleftrightarrow> distinct (map bd_binding_id
      (filter (\<lambda>b. bd_cell_id b = mf_cell_id m \<and> bd_formula_version b = mf_formula_version m)
        (cg_bindings c)))"
    by (rule mset_eq_imp_distinct_iff)
  with assms show ?thesis by (simp add: distinct_map_filter)
qed

lemma local_binding_fields:
  assumes "build_local_service_binding m sid = Inr b"
  shows "bd_cell_id b = mf_cell_id m" "bd_formula_version b = mf_formula_version m"
    "bd_service_id b = sid" "bd_runtime b = ''python_local''" "bd_language b = ''python''"
    "bd_implementation_id b = implementation_id sid m"
    "bd_binding_id b = service_binding_id (implementation_id sid m) sid"
  using assms by (auto simp: build_local_service_binding_def mk_binding_def
      split: option.splits if_splits)

end
