(* ===== verification/Binary64.thy ===== *)
theory Binary64
  imports Prelude "HOL-Library.Log_Nat"
begin

section \<open>Float arithmetic\<close>

text \<open>
  Python's \<open>float\<close> is IEEE 754 binary64. A finite value is the rational it denotes; an operation
  computes the exact result and rounds it to the nearest representable value, ties to even, with
  gradual underflow and overflow to an infinity. \<open>round(x, n)\<close> rounds the exact value to \<open>n\<close>
  decimals, ties to even, and then to the nearest float. Signed zeros are not distinguished.
\<close>

definition round_half_even :: "rat \<Rightarrow> int" where
  "round_half_even x = (let f = \<lfloor>x\<rfloor>; d = x - of_int f in
     if d < 1 / 2 then f else if d > 1 / 2 then f + 1 else if even f then f else f + 1)"

definition pow2 :: "int \<Rightarrow> rat" where
  "pow2 e = (if e \<ge> 0 then 2 ^ nat e else 1 / 2 ^ nat (- e))"

text \<open>The exponent of a positive rational: \<open>2 ^ e \<le> x < 2 ^ (e + 1)\<close>.\<close>

definition ilog2 :: "rat \<Rightarrow> int" where
  "ilog2 x = (let (p, q) = quotient_of x;
       e = int (floorlog 2 (nat p)) - int (floorlog 2 (nat q))
     in if pow2 e \<le> x then e else e - 1)"

text \<open>The spacing of the floats around a non-zero \<open>x\<close>.\<close>

definition ulp :: "rat \<Rightarrow> rat" where
  "ulp x = pow2 (max (ilog2 \<bar>x\<bar>) (- 1022) - 52)"

definition b64 :: "rat \<Rightarrow> pyfloat" where
  "b64 x = (if x = 0 then Fin 0 else
     let m = of_int (round_half_even (x / ulp x)) * ulp x
     in if \<bar>m\<bar> \<ge> pow2 1024 then Inf (x > 0) else Fin m)"

fun fadd :: "pyfloat \<Rightarrow> pyfloat \<Rightarrow> pyfloat" where
  "fadd (Fin a) (Fin b) = b64 (a + b)"
| "fadd NaN _ = NaN"
| "fadd _ NaN = NaN"
| "fadd (Inf p) (Inf q) = (if p = q then Inf p else NaN)"
| "fadd (Inf p) _ = Inf p"
| "fadd _ (Inf q) = Inf q"

fun fneg :: "pyfloat \<Rightarrow> pyfloat" where
  "fneg (Fin a) = Fin (- a)"
| "fneg (Inf p) = Inf (\<not> p)"
| "fneg NaN = NaN"

definition fsub :: "pyfloat \<Rightarrow> pyfloat \<Rightarrow> pyfloat" where
  "fsub a b = fadd a (fneg b)"

fun fmul :: "pyfloat \<Rightarrow> pyfloat \<Rightarrow> pyfloat" where
  "fmul (Fin a) (Fin b) = b64 (a * b)"
| "fmul NaN _ = NaN"
| "fmul _ NaN = NaN"
| "fmul (Inf p) (Inf q) = Inf (p = q)"
| "fmul (Inf p) (Fin b) = (if b = 0 then NaN else Inf (p = (b > 0)))"
| "fmul (Fin a) (Inf q) = (if a = 0 then NaN else Inf (q = (a > 0)))"

text \<open>\<open>round(x, n)\<close>.\<close>

fun py_round :: "nat \<Rightarrow> pyfloat \<Rightarrow> pyfloat" where
  "py_round n (Fin x) = b64 (of_int (round_half_even (x * 10 ^ n)) / 10 ^ n)"
| "py_round n (Inf p) = Inf p"
| "py_round n NaN = NaN"

text \<open>\<open>a / b\<close> of two integers with \<open>b > 0\<close>: the nearest float to the exact quotient.\<close>

definition int_div :: "int \<Rightarrow> int \<Rightarrow> pyfloat" where
  "int_div a b = b64 (of_int a / of_int b)"

text \<open>\<open>round((perf_counter() - started) * 1000, 6)\<close>.\<close>

definition elapsed_ms :: "rat \<Rightarrow> rat \<Rightarrow> pyfloat" where
  "elapsed_ms started finished = py_round 6 (fmul (fsub (Fin finished) (Fin started)) (Fin 1000))"

subsection \<open>Bounds\<close>

lemma pow2_pos [simp]: "0 < pow2 e"
  by (simp add: pow2_def)

lemma ulp_pos [simp]: "0 < ulp x"
  by (simp add: ulp_def)

lemma round_half_even_mono: "x \<le> y \<Longrightarrow> round_half_even x \<le> round_half_even y"
proof -
  assume le: "x \<le> y"
  show ?thesis
  proof (cases "\<lfloor>x\<rfloor> = \<lfloor>y\<rfloor>")
    case True
    with le show ?thesis by (auto simp: round_half_even_def Let_def)
  next
    case False
    with le have "\<lfloor>x\<rfloor> + 1 \<le> \<lfloor>y\<rfloor>" using floor_mono[OF le] by linarith
    then show ?thesis by (auto simp: round_half_even_def Let_def)
  qed
qed

lemma round_half_even_int [simp]: "round_half_even (of_int n) = n"
  by (simp add: round_half_even_def)

lemma round_half_even_nonneg: "0 \<le> x \<Longrightarrow> 0 \<le> round_half_even x"
  using round_half_even_mono[of 0 x] round_half_even_int[of 0] by simp

lemma round_half_even_le_int: "x \<le> of_int n \<Longrightarrow> round_half_even x \<le> n"
  using round_half_even_mono[of x "of_int n"] by simp

definition fnonneg :: "pyfloat \<Rightarrow> bool" where
  "fnonneg f = fle (Fin 0) f"

lemma fnonneg_not_flt: "fnonneg f \<Longrightarrow> \<not> flt f (Fin 0)"
  by (cases f) (auto simp: fnonneg_def)

lemma b64_nonneg: "0 \<le> x \<Longrightarrow> fnonneg (b64 x)"
proof -
  assume x: "0 \<le> x"
  have "(0 :: rat) \<le> of_int (round_half_even (x / ulp x)) * ulp x"
    using x round_half_even_nonneg[of "x / ulp x"] by (simp add: less_imp_le)
  then show ?thesis using x by (auto simp: b64_def fnonneg_def Let_def)
qed

lemma fmul_nonneg: "fnonneg a \<Longrightarrow> 0 < b \<Longrightarrow> fnonneg (fmul a (Fin b))"
  by (cases a) (auto simp: fnonneg_def intro: b64_nonneg[unfolded fnonneg_def])

lemma py_round_nonneg: "fnonneg f \<Longrightarrow> fnonneg (py_round n f)"
proof (cases f)
  case (Fin x)
  assume "fnonneg f"
  with Fin have "0 \<le> x" by (simp add: fnonneg_def)
  then have "(0 :: rat) \<le> of_int (round_half_even (x * 10 ^ n)) / 10 ^ n"
    using round_half_even_nonneg[of "x * 10 ^ n"] by simp
  then show ?thesis using Fin b64_nonneg by simp
qed (auto simp: fnonneg_def)

lemma elapsed_ms_nonneg:
  assumes "s \<le> f"
  shows "fnonneg (elapsed_ms s f)"
proof -
  have "fnonneg (fsub (Fin f) (Fin s))" using assms by (simp add: fsub_def b64_nonneg)
  then show ?thesis unfolding elapsed_ms_def by (intro py_round_nonneg fmul_nonneg) simp_all
qed

end
