(* ===== verification/Executor.thy ===== *)
theory Executor
  imports Catalog Binary64
begin

section \<open>Executing one Cell\<close>

text \<open>
  Models \<open>execution/executor.py\<close>: the execution context, the outcome and what its constructor
  demands, the local executor, and the checks of a trace against its plan and its context. An
  executor is a function of the world; calling one returns an outcome, raises, or returns an
  object of another type.
\<close>

subsection \<open>Contexts and outcomes\<close>

record 'w exec_context =
  cx_run_id :: string
  cx_trace_id :: string
  cx_plan_id :: "string option"
  cx_node :: "exec_node option"
  cx_binding :: "binding option"
  cx_input_bundle :: "cell_input_bundle option"
  cx_fallback_bindings :: "binding list"
  cx_idempotency_key :: "string option"
  cx_attempt_id :: "string option"
  cx_attempt_number :: int
  cx_timeout_ms :: "int option"
  cx_cancellation_signal :: "('w \<Rightarrow> bool \<times> 'w) option"

record outcome =
  oc_trace :: trace
  oc_result :: "cell_result option"
  oc_error :: "exc option"
  oc_prior_traces :: "trace list"
  oc_control_record :: "control_record option"

fun show_trace_status :: "trace_status \<Rightarrow> string" where
  "show_trace_status TSucceeded = ''succeeded''"
| "show_trace_status TFailed = ''failed''"
| "show_trace_status TSkipped = ''skipped''"

definition mk_outcome :: "outcome \<Rightarrow> outcome res" where
  "mk_outcome c =
     (let succeeded = (oc_result c \<noteq> None \<and> oc_error c = None);
          failed = (oc_result c = None \<and> oc_error c \<noteq> None);
          expected = (if succeeded then TSucceeded else TFailed) in
      if \<not> succeeded \<and> \<not> failed then
        raise PyValueError ''execution outcome must contain exactly one of result or error''
      else if rt_status (oc_trace c) \<noteq> expected then
        raise PyValueError (msg [''execution outcome status '', show_trace_status (rt_status (oc_trace c)),
          '' does not match '', show_trace_status expected])
      else if \<not> distinct (map rt_span_id (oc_prior_traces c @ [oc_trace c])) then
        raise PyValueError ''execution outcome trace span_id values must be unique''
      else Inr c)"

definition runtime_traces :: "outcome \<Rightarrow> trace list" where
  "runtime_traces c = oc_prior_traces c @ [oc_trace c]"

definition unwrap :: "outcome \<Rightarrow> cell_result res" where
  "unwrap c = (case oc_error c of Some e \<Rightarrow> Inl e
     | None \<Rightarrow> (case oc_result c of
         None \<Rightarrow> raise CellExecutionError ''execution completed without a CellResult''
       | Some r \<Rightarrow> Inr r))"

text \<open>The invariant of every constructed outcome, its traces included.\<close>

definition outcome_ok :: "outcome \<Rightarrow> bool" where
  "outcome_ok c \<longleftrightarrow>
     (oc_result c = None \<longleftrightarrow> oc_error c \<noteq> None)
     \<and> rt_status (oc_trace c) = (if oc_error c = None then TSucceeded else TFailed)
     \<and> distinct (map rt_span_id (runtime_traces c))"

lemma mk_outcome_Inr: "mk_outcome c = Inr c' \<longleftrightarrow> c' = c \<and> outcome_ok c"
  by (cases "oc_result c"; cases "oc_error c")
    (auto simp: mk_outcome_def outcome_ok_def runtime_traces_def Let_def)

lemma unwrap_ok: "outcome_ok c \<Longrightarrow> unwrap c = (case oc_error c of Some e \<Rightarrow> Inl e | None \<Rightarrow> Inr (the (oc_result c)))"
  by (auto simp: unwrap_def outcome_ok_def split: option.splits)

text \<open>What calling an executor may do.\<close>

datatype exec_return = ExRaised exc | ExOutcome outcome | ExOther string

type_synonym 'w execute_fn =
  "'w cell \<Rightarrow> request \<Rightarrow> 'w exec_context \<Rightarrow> cell_result list option \<Rightarrow> 'w \<Rightarrow> exec_return \<times> 'w"

record 'w executor =
  ex_name :: string
  ex_execute :: "'w execute_fn"

fun of_outcome :: "outcome res \<Rightarrow> exec_return" where
  "of_outcome (Inl e) = ExRaised e"
| "of_outcome (Inr c) = ExOutcome c"

subsection \<open>Metadata\<close>

definition sorted_set :: "string list \<Rightarrow> string list" where
  "sorted_set xs = sort (remdups xs)"

definition strs :: "string list \<Rightarrow> pyval" where
  "strs xs = PList (map PStr xs)"

definition cell_input_trace_metadata :: "'w exec_context \<Rightarrow> meta" where
  "cell_input_trace_metadata cx = (case cx_input_bundle cx of None \<Rightarrow> []
     | Some b \<Rightarrow> [(''input_bundle_schema_version'', PStr (ib_schema_version b)),
         (''input_kinds'', strs (ib_required_input_kinds b)),
         (''input_snapshot_ids'', strs (map (\<lambda>i. sn_snapshot_id (ri_snapshot i)) (ib_resolved_inputs b)))])"

definition node_reference_ids :: "'w exec_context \<Rightarrow> string list" where
  "node_reference_ids cx = (case cx_node cx of None \<Rightarrow> [] | Some n \<Rightarrow> en_input_reference_ids n)"

definition trace_metadata :: "string \<Rightarrow> 'w exec_context \<Rightarrow> meta" where
  "trace_metadata executor_name cx =
     (let base = dict_merge
        [(''executor'', PStr executor_name), (''planned_binding'', PBool (cx_binding cx \<noteq> None)),
         (''input_reference_ids'', strs (node_reference_ids cx))] (cell_input_trace_metadata cx) in
      case cx_binding cx of None \<Rightarrow> base
      | Some b \<Rightarrow> dict_merge base
         [(''planned_implementation_id'', PStr (bd_implementation_id b)),
          (''planned_binding_id'', PStr (bd_binding_id b)),
          (''planned_service_id'', PStr (bd_service_id b)),
          (''planned_runtime'', PStr (bd_runtime b))])"

subsection \<open>The local executor\<close>

definition context_node_id :: "'w exec_context \<Rightarrow> string \<Rightarrow> string" where
  "context_node_id cx cell_id = (case cx_node cx of Some n \<Rightarrow> en_node_id n | None \<Rightarrow> msg [''cell:'', cell_id])"

definition local_context_mismatches ::
  "string \<Rightarrow> string \<Rightarrow> string list \<Rightarrow> binding \<Rightarrow> request \<Rightarrow> 'w exec_context \<Rightarrow> exec_node \<Rightarrow> binding \<Rightarrow> string list" where
  "local_context_mismatches cell_id fv kinds actual rq cx n b =
     opt_issue (en_cell_id n \<noteq> cell_id \<or> bd_cell_id b \<noteq> cell_id) ''cell_id''
   @ opt_issue (en_formula_version n \<noteq> fv \<or> bd_formula_version b \<noteq> fv) ''formula_version''
   @ opt_issue (en_binding_id n \<noteq> bd_binding_id b) ''node_binding_id''
   @ opt_issue (en_required_input_kinds n \<noteq> kinds) ''required_input_kinds''
   @ (case cx_input_bundle cx of
        None \<Rightarrow> [''input_bundle'']
      | Some ib \<Rightarrow>
          opt_issue (ib_node_id ib \<noteq> en_node_id n) ''input_bundle_node_id''
        @ opt_issue (ib_required_input_kinds ib \<noteq> kinds) ''input_bundle_required_input_kinds''
        @ opt_issue (map (\<lambda>i. rf_reference_id (ri_reference i)) (ib_resolved_inputs ib)
            \<noteq> en_input_reference_ids n) ''input_bundle_reference_ids''
        @ opt_issue (ib_analysis_request ib \<noteq> rq) ''input_bundle_analysis_request'')
   @ opt_issue (bd_binding_id b \<noteq> bd_binding_id actual) ''binding_id''
   @ opt_issue (bd_implementation_id b \<noteq> bd_implementation_id actual) ''implementation_id''
   @ opt_issue (bd_service_id b \<noteq> bd_service_id actual) ''service_id''
   @ opt_issue (bd_runtime b \<noteq> bd_runtime actual) ''runtime''
   @ opt_issue (bd_language b \<noteq> bd_language actual) ''language''"

definition validate_local_execution_context ::
  "string \<Rightarrow> string \<Rightarrow> string list \<Rightarrow> binding \<Rightarrow> request \<Rightarrow> 'w exec_context \<Rightarrow> unit res" where
  "validate_local_execution_context cell_id fv kinds actual rq cx =
     (case (cx_node cx, cx_binding cx) of
        (None, None) \<Rightarrow> Inr ()
      | (Some n, Some b) \<Rightarrow>
         (let ms = local_context_mismatches cell_id fv kinds actual rq cx n b in
          if ms \<noteq> [] then raise CellExecutionBindingError
            (msg [''local executor '', bd_service_id actual, '' rejected binding for '', cell_id, ''@'', fv,
              '': '', join '', '' (sorted_set ms)])
          else Inr ())
      | _ \<Rightarrow> raise CellExecutionBindingError ''execution plan must provide both node and binding'')"

definition result_mismatches :: "string \<Rightarrow> request \<Rightarrow> cell_result \<Rightarrow> string list" where
  "result_mismatches cell_id rq r =
     opt_issue (cr_cell_id r \<noteq> cell_id) ''cell_id''
   @ opt_issue (cr_target r \<noteq> rq_target rq) ''target''
   @ opt_issue (cr_horizon r \<noteq> rq_horizon rq) ''horizon''"

text \<open>\<open>validate_cell_result\<close> on a value of any type, and on a \<open>CellResult\<close>.\<close>

definition validate_cell_result :: "'w cell \<Rightarrow> request \<Rightarrow> cell_result \<Rightarrow> unit res" where
  "validate_cell_result c rq r =
     (let ms = result_mismatches (cl_cell_id c) rq r in
      if ms \<noteq> [] then raise CellResultContractError
        (msg [cl_cell_id c, '' returned an incompatible CellResult: '', join '', '' ms])
      else Inr ())"

fun checked_return :: "'w cell \<Rightarrow> request \<Rightarrow> cell_return \<Rightarrow> cell_result res" where
  "checked_return c rq (CellRaised e) = Inl e"
| "checked_return c rq (CellReturnedOther t) = raise CellResultContractError
     (msg [cl_cell_id c, '' returned '', t, '', expected CellResult''])"
| "checked_return c rq (CellReturned r) = bind_res (validate_cell_result c rq r) (\<lambda>_. Inr r)"

text \<open>\<open>_runtime_trace\<close>: the id is drawn before the time of completion is read.\<close>

definition runtime_trace ::
  "'w env \<Rightarrow> 'w exec_context \<Rightarrow> binding \<Rightarrow> string \<Rightarrow> string \<Rightarrow> trace_status \<Rightarrow> string \<Rightarrow> pyfloat
   \<Rightarrow> meta \<Rightarrow> string option \<Rightarrow> 'w \<Rightarrow> trace res \<times> 'w" where
  "runtime_trace E cx actual cell_id fv status started_at duration metadata error w =
     (let (span, w1) = env_uuid E w; (finished_at, w2) = env_now E w1 in
      (mk_trace \<lparr>rt_trace_id = cx_trace_id cx, rt_span_id = span, rt_run_id = cx_run_id cx,
         rt_node_id = context_node_id cx cell_id, rt_cell_id = cell_id, rt_formula_version = fv,
         rt_status = status, rt_started_at = started_at, rt_finished_at = finished_at,
         rt_duration_ms = duration, rt_schema_version = ''cell_runtime_trace.v1'',
         rt_plan_id = cx_plan_id cx, rt_implementation_id = Some (bd_implementation_id actual),
         rt_service_id = Some (bd_service_id actual), rt_runtime = Some (bd_runtime actual),
         rt_retry_count = 0, rt_error = error, rt_parent_span_id = None, rt_metadata = metadata\<rparr>, w2))"

text \<open>The call of the Cell, inside the \<open>try\<close>.\<close>

definition call_cell ::
  "binding \<Rightarrow> 'w cell \<Rightarrow> request \<Rightarrow> 'w exec_context \<Rightarrow> cell_result list option \<Rightarrow> 'w \<Rightarrow> cell_result res \<times> 'w" where
  "call_cell actual c rq cx children w =
     (case validate_local_execution_context (mf_cell_id (cl_manifest c)) (mf_formula_version (cl_manifest c))
          (mf_required_input_kinds (cl_manifest c)) actual rq cx of
        Inl e \<Rightarrow> (Inl e, w)
      | Inr _ \<Rightarrow>
         (let (ret, w1) = (case cx_input_bundle cx of
              Some b \<Rightarrow> cl_analyze_inputs c b children w
            | None \<Rightarrow> cl_analyze c rq children w)
          in (checked_return c rq ret, w1)))"

definition local_execute :: "'w env \<Rightarrow> string \<Rightarrow> 'w execute_fn" where
  "local_execute E sid c rq cx children w =
     (case build_local_service_binding (cl_manifest c) sid of
        Inl e \<Rightarrow> (ExRaised e, w)
      | Inr actual \<Rightarrow>
         (let (started_at, w1) = env_now E w;
              (started, w2) = env_perf E w1;
              metadata = trace_metadata ''local_python_executor_v0.1'' cx;
              (result, w3) = call_cell actual c rq cx children w2;
              (finished, w4) = env_perf E w3;
              (status, error) = (case result of Inl e \<Rightarrow> (TFailed, Some (ex_msg e)) | Inr _ \<Rightarrow> (TSucceeded, None));
              (tr, w5) = runtime_trace E cx actual (mf_cell_id (cl_manifest c))
                (mf_formula_version (cl_manifest c)) status started_at (elapsed_ms started finished)
                metadata error w4
          in (of_outcome (bind_res tr (\<lambda>t. mk_outcome
                \<lparr>oc_trace = t, oc_result = (case result of Inl _ \<Rightarrow> None | Inr r \<Rightarrow> Some r),
                 oc_error = (case result of Inl e \<Rightarrow> Some e | Inr _ \<Rightarrow> None),
                 oc_prior_traces = [], oc_control_record = None\<rparr>)), w5)))"

definition mk_local_executor :: "'w env \<Rightarrow> string \<Rightarrow> 'w executor res" where
  "mk_local_executor E sid =
     (if blank sid then raise PyValueError ''service_id must not be empty''
      else Inr \<lparr>ex_name = ''local_python_executor_v0.1'', ex_execute = local_execute E sid\<rparr>)"

subsection \<open>A trace against its plan\<close>

text \<open>The fallback index recorded by failure control: an int (or bool) of at least 1.\<close>

definition trace_fallback_index :: "trace \<Rightarrow> int option" where
  "trace_fallback_index t =
     (case map_of (rt_metadata t) ''execution_control'' of
        Some (PDict d) \<Rightarrow>
          (case map_of d ''fallback_index'' of
             Some (PInt i) \<Rightarrow> (if i < 1 then None else Some i)
           | Some (PBool b) \<Rightarrow> (if b then Some 1 else None)
           | _ \<Rightarrow> None)
      | _ \<Rightarrow> None)"

definition planned_metadata :: "binding \<Rightarrow> meta" where
  "planned_metadata b = [(''planned_implementation_id'', PStr (bd_implementation_id b)),
     (''planned_service_id'', PStr (bd_service_id b)), (''planned_runtime'', PStr (bd_runtime b))]"

definition actual_identity :: "trace \<Rightarrow> string option \<times> string option \<times> string option" where
  "actual_identity t = (rt_implementation_id t, rt_service_id t, rt_runtime t)"

definition binding_identity :: "binding \<Rightarrow> string option \<times> string option \<times> string option" where
  "binding_identity b = (Some (bd_implementation_id b), Some (bd_service_id b), Some (bd_runtime b))"

definition trace_binding_mismatches :: "trace \<Rightarrow> exec_node option \<Rightarrow> binding list \<Rightarrow> string list" where
  "trace_binding_mismatches t node allowed =
     (if actual_identity t = (None, None, None) then
        (case find (\<lambda>b. map_of (rt_metadata t) ''planned_binding_id'' = Some (PStr (bd_binding_id b))) allowed of
           None \<Rightarrow> [''service_binding'']
         | Some b \<Rightarrow>
            if rt_status t \<noteq> TFailed then [''service_binding'']
            else
              opt_issue (\<exists>(k, v) \<in> set (planned_metadata b). map_of (rt_metadata t) k \<noteq> Some v)
                ''planned_service_binding''
            @ (case node of None \<Rightarrow> []
               | Some n \<Rightarrow> opt_issue (bd_binding_id b \<noteq> en_binding_id n \<and> trace_fallback_index t = None)
                   ''fallback_control''))
      else
        (case find (\<lambda>b. actual_identity t = binding_identity b) allowed of
           None \<Rightarrow> [''service_binding'']
         | Some b \<Rightarrow>
            (case node of None \<Rightarrow> []
             | Some n \<Rightarrow> opt_issue (bd_binding_id b \<noteq> en_binding_id n \<and> trace_fallback_index t = None)
                 ''fallback_control'')))"

definition plan_node :: "exec_plan \<Rightarrow> string \<Rightarrow> exec_node option" where
  "plan_node p i = find (\<lambda>n. en_node_id n = i) (ep_nodes p)"

definition allowed_bindings :: "exec_plan \<Rightarrow> exec_node option \<Rightarrow> binding list" where
  "allowed_bindings p node = (case node of None \<Rightarrow> []
     | Some n \<Rightarrow> filter (\<lambda>b. bd_binding_id b \<in> set (en_binding_id n # en_fallback_binding_ids n))
         (ep_service_bindings p))"

definition plan_trace_mismatches :: "trace \<Rightarrow> exec_plan \<Rightarrow> string list" where
  "plan_trace_mismatches t p =
     (let node = plan_node p (rt_node_id t) in
      opt_issue (rt_plan_id t \<noteq> Some (ep_plan_id p)) ''plan_id''
    @ (case node of None \<Rightarrow> [''node_id'']
       | Some n \<Rightarrow> opt_issue (rt_cell_id t \<noteq> en_cell_id n) ''cell_id''
           @ opt_issue (rt_formula_version t \<noteq> en_formula_version n) ''formula_version'')
    @ trace_binding_mismatches t node (allowed_bindings p node))"

definition validate_execution_trace :: "trace \<Rightarrow> exec_plan option \<Rightarrow> unit res" where
  "validate_execution_trace t plan =
     (case plan of
        None \<Rightarrow> (case rt_plan_id t of None \<Rightarrow> Inr ()
          | Some pid \<Rightarrow> raise ExecutionTraceMismatchError (msg [''trace '', rt_span_id t,
              '' references plan '', pid, '' without an execution plan'']))
      | Some p \<Rightarrow>
         (let ms = plan_trace_mismatches t p in
          if ms \<noteq> [] then raise ExecutionTraceMismatchError (msg [''trace '', rt_span_id t,
            '' does not match plan '', ep_plan_id p, '': '', join '', '' (sorted_set ms)])
          else Inr ()))"

subsection \<open>A trace against its context\<close>

definition context_trace_mismatches :: "trace \<Rightarrow> 'w exec_context \<Rightarrow> string list" where
  "context_trace_mismatches t cx =
     opt_issue (rt_run_id t \<noteq> cx_run_id cx) ''run_id''
   @ opt_issue (rt_trace_id t \<noteq> cx_trace_id cx) ''trace_id''
   @ opt_issue (rt_plan_id t \<noteq> cx_plan_id cx) ''plan_id''
   @ (case cx_node cx of None \<Rightarrow> [''node'']
      | Some n \<Rightarrow> opt_issue (rt_node_id t \<noteq> en_node_id n) ''node_id''
          @ opt_issue (rt_cell_id t \<noteq> en_cell_id n) ''cell_id''
          @ opt_issue (rt_formula_version t \<noteq> en_formula_version n) ''formula_version'')
   @ (case cx_binding cx of None \<Rightarrow> [''binding'']
      | Some b \<Rightarrow>
          (case cx_node cx of None \<Rightarrow> []
           | Some n \<Rightarrow> opt_issue (en_binding_id n \<noteq> bd_binding_id b) ''node_binding_id''
               @ opt_issue (en_cell_id n \<noteq> bd_cell_id b) ''binding_cell_id''
               @ opt_issue (en_formula_version n \<noteq> bd_formula_version b) ''binding_formula_version'')
        @ opt_issue (rt_implementation_id t \<noteq> Some (bd_implementation_id b)) ''implementation_id''
        @ opt_issue (rt_service_id t \<noteq> Some (bd_service_id b)) ''service_id''
        @ opt_issue (rt_runtime t \<noteq> Some (bd_runtime b)) ''runtime'')"

definition validate_execution_trace_context :: "trace \<Rightarrow> 'w exec_context \<Rightarrow> unit res" where
  "validate_execution_trace_context t cx =
     (let ms = context_trace_mismatches t cx in
      if ms \<noteq> [] then raise ExecutionTraceMismatchError (msg [''trace '', rt_span_id t,
        '' does not match execution context: '', join '', '' (sorted_set ms)])
      else Inr ())"

subsection \<open>The world an executor runs in\<close>

text \<open>
  What the code relies on from its environment: time does not go back (\<open>perf_counter\<close> is
  monotonic) and \<open>uuid4\<close> never repeats an id. \<open>le w w'\<close> says that \<open>w'\<close> is reached from \<open>w\<close>,
  \<open>used w\<close> are the ids drawn so far.
\<close>

locale world =
  fixes E :: "'w env" and le :: "'w \<Rightarrow> 'w \<Rightarrow> bool" and used :: "'w \<Rightarrow> string set"
  assumes le_refl: "le w w"
    and le_trans: "le w1 w2 \<Longrightarrow> le w2 w3 \<Longrightarrow> le w1 w3"
    and now_le: "le w (snd (env_now E w))"
    and perf_le: "le w (snd (env_perf E w))"
    and uuid_le: "le w (snd (env_uuid E w))"
    and perf_mono: "le w w' \<Longrightarrow> fst (env_perf E w) \<le> fst (env_perf E w')"
    and used_mono: "le w w' \<Longrightarrow> used w \<subseteq> used w'"
    and uuid_fresh: "fst (env_uuid E w) \<notin> used w"
    and uuid_used: "fst (env_uuid E w) \<in> used (snd (env_uuid E w))"

text \<open>Cells and cancellation signals only move the world on.\<close>

definition cell_steps :: "('w \<Rightarrow> 'w \<Rightarrow> bool) \<Rightarrow> 'w cell \<Rightarrow> bool" where
  "cell_steps le c \<longleftrightarrow> (\<forall>rq ch w. le w (snd (cl_analyze c rq ch w)))
     \<and> (\<forall>b ch w. le w (snd (cl_analyze_inputs c b ch w)))"

definition signal_steps :: "('w \<Rightarrow> 'w \<Rightarrow> bool) \<Rightarrow> 'w exec_context \<Rightarrow> bool" where
  "signal_steps le cx \<longleftrightarrow> (\<forall>f. cx_cancellation_signal cx = Some f \<longrightarrow> (\<forall>w. le w (snd (f w))))"

text \<open>
  The contract of an executor: an outcome it returns satisfies the constructor's invariant, its
  traces are valid, and their span ids were not used before the call.
\<close>

definition good_outcome :: "('w \<Rightarrow> string set) \<Rightarrow> 'w \<Rightarrow> 'w \<Rightarrow> outcome \<Rightarrow> bool" where
  "good_outcome used w w' oc \<longleftrightarrow> outcome_ok oc \<and> (\<forall>t \<in> set (runtime_traces oc). trace_ok t)
     \<and> set (map rt_span_id (runtime_traces oc)) \<subseteq> used w' - used w"

definition executor_ok ::
  "('w \<Rightarrow> 'w \<Rightarrow> bool) \<Rightarrow> ('w \<Rightarrow> string set) \<Rightarrow> 'w execute_fn \<Rightarrow> bool" where
  "executor_ok le used f \<longleftrightarrow> (\<forall>c rq cx ch w r w'.
     cell_steps le c \<longrightarrow> signal_steps le cx \<longrightarrow> f c rq cx ch w = (r, w') \<longrightarrow>
     le w w' \<and> (\<forall>oc. r = ExOutcome oc \<longrightarrow> good_outcome used w w' oc))"

context world
begin

lemma step_now: "le w0 w \<Longrightarrow> env_now E w = (x, w') \<Longrightarrow> le w0 w'"
  using le_trans now_le[of w] by (metis snd_conv)

lemma step_perf: "le w0 w \<Longrightarrow> env_perf E w = (x, w') \<Longrightarrow> le w0 w'"
  using le_trans perf_le[of w] by (metis snd_conv)

lemma step_uuid: "le w0 w \<Longrightarrow> env_uuid E w = (x, w') \<Longrightarrow> le w0 w'"
  using le_trans uuid_le[of w] by (metis snd_conv)

lemma elapsed_ok:
  assumes "env_perf E w1 = (s, w2)" "le w2 w3" "env_perf E w3 = (f, w4)"
  shows "fnonneg (elapsed_ms s f)"
proof -
  have "le w1 w3" using step_perf[OF le_refl assms(1)] assms(2) le_trans by blast
  then have "s \<le> f" using perf_mono[of w1 w3] assms(1,3) by simp
  then show ?thesis by (rule elapsed_ms_nonneg)
qed

lemma fresh_uuid:
  assumes "le w0 w" "env_uuid E w = (u, w')" "le w' w''"
  shows "u \<in> used w'' - used w0"
  using uuid_fresh[of w] uuid_used[of w] used_mono[OF assms(1)] used_mono[OF assms(3)] assms(2) by auto

lemma good_outcome_le:
  "good_outcome used w1 w2 oc \<Longrightarrow> le w0 w1 \<Longrightarrow> le w2 w3 \<Longrightarrow> good_outcome used w0 w3 oc"
  using used_mono[of w0 w1] used_mono[of w2 w3] by (auto simp: good_outcome_def)

text \<open>\<open>_runtime_trace\<close> succeeds when the duration is not negative, with a fresh span id.\<close>

lemma runtime_trace_ok:
  assumes "runtime_trace E cx actual cell_id fv status started d md err w = (r, w')" "fnonneg d"
  shows "le w w'"
    and "\<exists>t. r = Inr t \<and> trace_ok t \<and> rt_span_id t \<in> used w' - used w \<and> rt_status t = status
      \<and> rt_cell_id t = cell_id \<and> rt_formula_version t = fv \<and> actual_identity t = binding_identity actual
      \<and> rt_run_id t = cx_run_id cx \<and> rt_trace_id t = cx_trace_id cx \<and> rt_plan_id t = cx_plan_id cx
      \<and> rt_node_id t = context_node_id cx cell_id \<and> rt_error t = err \<and> rt_metadata t = md"
proof -
  obtain span w1 where u: "env_uuid E w = (span, w1)" by (cases "env_uuid E w")
  obtain fin w2 where n: "env_now E w1 = (fin, w2)" by (cases "env_now E w1")
  have w': "w' = w2" using assms(1) by (simp add: runtime_trace_def u n)
  have le12: "le w1 w2" by (rule step_now[OF le_refl n])
  show "le w w'" using le_trans[OF step_uuid[OF le_refl u] le12] w' by simp
  have "span \<in> used w2 - used w" by (rule fresh_uuid[OF le_refl u le12])
  then show "\<exists>t. r = Inr t \<and> trace_ok t \<and> rt_span_id t \<in> used w' - used w \<and> rt_status t = status
      \<and> rt_cell_id t = cell_id \<and> rt_formula_version t = fv \<and> actual_identity t = binding_identity actual
      \<and> rt_run_id t = cx_run_id cx \<and> rt_trace_id t = cx_trace_id cx \<and> rt_plan_id t = cx_plan_id cx
      \<and> rt_node_id t = context_node_id cx cell_id \<and> rt_error t = err \<and> rt_metadata t = md"
    using assms(1) fnonneg_not_flt[OF assms(2)]
    by (auto simp: runtime_trace_def u n mk_trace_Inr mk_trace_def trace_ok_def w'
        actual_identity_def binding_identity_def)
qed

lemma call_cell_le:
  assumes "cell_steps le c" "call_cell actual c rq cx ch w = (r, w')"
  shows "le w w'"
proof (cases "validate_local_execution_context (mf_cell_id (cl_manifest c)) (mf_formula_version (cl_manifest c))
          (mf_required_input_kinds (cl_manifest c)) actual rq cx")
  case (Inl e)
  with assms(2) show ?thesis by (simp add: call_cell_def le_refl)
next
  case (Inr u)
  have 1: "le w (snd (cl_analyze c rq ch w))" "le w (snd (cl_analyze_inputs c b ch w))" for b
    using assms(1) by (simp_all add: cell_steps_def)
  show ?thesis
  proof (cases "cx_input_bundle cx")
    case None
    with Inr assms(2) 1(1) show ?thesis by (auto simp: call_cell_def split: prod.splits)
  next
    case (Some b)
    with Inr assms(2) 1(2)[of b] show ?thesis by (auto simp: call_cell_def split: prod.splits)
  qed
qed

text \<open>The local executor keeps the contract; its trace tells what was run and how it ended.\<close>

lemma local_execute_outcome:
  assumes c: "cell_steps le c" and b: "build_local_service_binding (cl_manifest c) sid = Inr actual"
    and ex: "local_execute E sid c rq cx ch w = (r, w')"
  shows "le w w'" "\<exists>oc ran w1 w2. r = ExOutcome oc \<and> good_outcome used w w' oc \<and> oc_prior_traces oc = []
     \<and> call_cell actual c rq cx ch w1 = (ran, w2) \<and> oc_result oc = (case ran of Inr x \<Rightarrow> Some x | Inl _ \<Rightarrow> None)
     \<and> oc_error oc = (case ran of Inl e \<Rightarrow> Some e | Inr _ \<Rightarrow> None)
     \<and> actual_identity (oc_trace oc) = binding_identity actual
     \<and> rt_cell_id (oc_trace oc) = mf_cell_id (cl_manifest c)
     \<and> rt_formula_version (oc_trace oc) = mf_formula_version (cl_manifest c)
     \<and> rt_run_id (oc_trace oc) = cx_run_id cx \<and> rt_trace_id (oc_trace oc) = cx_trace_id cx
     \<and> rt_plan_id (oc_trace oc) = cx_plan_id cx
     \<and> rt_node_id (oc_trace oc) = context_node_id cx (mf_cell_id (cl_manifest c))
     \<and> rt_metadata (oc_trace oc) = trace_metadata ''local_python_executor_v0.1'' cx"
proof -
  obtain st w1 where n: "env_now E w = (st, w1)" by (cases "env_now E w")
  obtain p1 w2 where p1: "env_perf E w1 = (p1, w2)" by (cases "env_perf E w1")
  obtain res w3 where cc: "call_cell actual c rq cx ch w2 = (res, w3)" by (cases "call_cell actual c rq cx ch w2")
  obtain p2 w4 where p2: "env_perf E w3 = (p2, w4)" by (cases "env_perf E w3")
  define status where "status = (case res of Inl e \<Rightarrow> TFailed | Inr _ \<Rightarrow> TSucceeded)"
  define err where "err = (case res of Inl e \<Rightarrow> Some (ex_msg e) | Inr _ \<Rightarrow> None)"
  have pair: "(case res of Inl e \<Rightarrow> (TFailed, Some (ex_msg e)) | Inr _ \<Rightarrow> (TSucceeded, None)) = (status, err)"
    by (auto simp: status_def err_def split: sum.splits)
  obtain tr w5 where tr: "runtime_trace E cx actual (mf_cell_id (cl_manifest c))
      (mf_formula_version (cl_manifest c)) status st (elapsed_ms p1 p2)
      (trace_metadata ''local_python_executor_v0.1'' cx) err w4 = (tr, w5)"
    by (meson surj_pair)
  have le: "le w w1" "le w1 w2" "le w2 w3" "le w3 w4"
    using step_now[OF le_refl n] step_perf[OF le_refl p1] call_cell_le[OF c cc] step_perf[OF le_refl p2] by auto
  have le4: "le w w4" using le le_trans by blast
  from runtime_trace_ok[OF tr elapsed_ok[OF p1 le(3) p2]] obtain t where le45: "le w4 w5" and t: "tr = Inr t"
    "trace_ok t" "rt_span_id t \<in> used w5 - used w4" "rt_status t = status"
    and f: "rt_cell_id t = mf_cell_id (cl_manifest c)" "rt_formula_version t = mf_formula_version (cl_manifest c)"
      "actual_identity t = binding_identity actual" "rt_run_id t = cx_run_id cx" "rt_trace_id t = cx_trace_id cx"
      "rt_plan_id t = cx_plan_id cx" "rt_node_id t = context_node_id cx (mf_cell_id (cl_manifest c))"
      "rt_metadata t = trace_metadata ''local_python_executor_v0.1'' cx"
    by blast
  define oc where "oc = \<lparr>oc_trace = t, oc_result = (case res of Inl _ \<Rightarrow> None | Inr r \<Rightarrow> Some r),
                 oc_error = (case res of Inl e \<Rightarrow> Some e | Inr _ \<Rightarrow> None),
                 oc_prior_traces = [], oc_control_record = None\<rparr>"
  have ok: "outcome_ok oc" using t(4) by (auto simp: oc_def outcome_ok_def runtime_traces_def status_def split: sum.splits)
  have r: "r = of_outcome (bind_res tr (\<lambda>t. mk_outcome
      \<lparr>oc_trace = t, oc_result = (case res of Inl _ \<Rightarrow> None | Inr r \<Rightarrow> Some r),
       oc_error = (case res of Inl e \<Rightarrow> Some e | Inr _ \<Rightarrow> None),
       oc_prior_traces = [], oc_control_record = None\<rparr>))" "w' = w5"
    using ex by (simp_all add: local_execute_def b n p1 cc p2 pair tr)
  have mk: "mk_outcome oc = Inr oc" using ok by (simp add: mk_outcome_Inr)
  have r': "r = ExOutcome oc" using r(1) t(1) mk by (simp add: oc_def)
  show "le w w'" using le_trans[OF le4 le45] r(2) by simp
  have "rt_span_id t \<in> used w' - used w" using t(3) used_mono[OF le4] r(2) by auto
  then have good: "good_outcome used w w' oc"
    using ok t(2) by (simp add: good_outcome_def runtime_traces_def oc_def)
  have flds: "oc_trace oc = t" "oc_prior_traces oc = []" "oc_result oc = (case res of Inr x \<Rightarrow> Some x | Inl _ \<Rightarrow> None)"
    "oc_error oc = (case res of Inl e \<Rightarrow> Some e | Inr _ \<Rightarrow> None)" by (auto simp: oc_def)
  show "\<exists>oc ran w1 w2. r = ExOutcome oc \<and> good_outcome used w w' oc \<and> oc_prior_traces oc = []
     \<and> call_cell actual c rq cx ch w1 = (ran, w2) \<and> oc_result oc = (case ran of Inr x \<Rightarrow> Some x | Inl _ \<Rightarrow> None)
     \<and> oc_error oc = (case ran of Inl e \<Rightarrow> Some e | Inr _ \<Rightarrow> None)
     \<and> actual_identity (oc_trace oc) = binding_identity actual
     \<and> rt_cell_id (oc_trace oc) = mf_cell_id (cl_manifest c)
     \<and> rt_formula_version (oc_trace oc) = mf_formula_version (cl_manifest c)
     \<and> rt_run_id (oc_trace oc) = cx_run_id cx \<and> rt_trace_id (oc_trace oc) = cx_trace_id cx
     \<and> rt_plan_id (oc_trace oc) = cx_plan_id cx
     \<and> rt_node_id (oc_trace oc) = context_node_id cx (mf_cell_id (cl_manifest c))
     \<and> rt_metadata (oc_trace oc) = trace_metadata ''local_python_executor_v0.1'' cx"
    using r' good cc f unfolding flds[symmetric] by (metis flds)
qed

lemma local_executor_ok: "executor_ok le used (local_execute E sid)"
  unfolding executor_ok_def
proof (intro allI impI)
  fix c :: "'w cell" and rq cx ch w r w'
  assume c: "cell_steps le c" and ex: "local_execute E sid c rq cx ch w = (r, w')"
  show "le w w' \<and> (\<forall>oc. r = ExOutcome oc \<longrightarrow> good_outcome used w w' oc)"
  proof (cases "build_local_service_binding (cl_manifest c) sid")
    case (Inl e)
    with ex show ?thesis by (auto simp: local_execute_def le_refl)
  next
    case (Inr actual)
    from local_execute_outcome[OF c Inr ex] show ?thesis by auto
  qed
qed

end

subsection \<open>A concrete world\<close>

text \<open>
  A deterministic clock and id source, for concrete runs: the world is the number of calls made,
  the time is that number of seconds and an id is its decimal text.
\<close>

definition tick_env :: "nat env" where
  "tick_env = \<lparr>env_now = (\<lambda>t. (''t'' @ show_nat t, Suc t)), env_perf = (\<lambda>t. (of_nat t, Suc t)),
     env_uuid = (\<lambda>t. (show_nat t, Suc t))\<rparr>"

definition tick_used :: "nat \<Rightarrow> string set" where
  "tick_used t = show_nat ` {..<t}"

lemma show_nat_inj: "show_nat m = show_nat n \<longleftrightarrow> m = n"
  by (metis digits_value_show)

interpretation tick: world tick_env "(\<le>)" tick_used
proof unfold_locales
  show "tick_used w \<subseteq> tick_used w'" if "w \<le> w'" for w w'
    using that by (auto simp: tick_used_def)
  show "fst (env_uuid tick_env w) \<notin> tick_used w" for w
    by (auto simp: tick_env_def tick_used_def show_nat_inj)
qed (auto simp: tick_env_def tick_used_def)

text \<open>A Cell whose analysis fails, its plan node and binding, and a context for it.\<close>

definition sample_manifest :: manifest where
  "sample_manifest = \<lparr>mf_cell_id = ''cell'', mf_name = ''Cell'', mf_category = ''risk'', mf_description = [],
     mf_inputs = [], mf_outputs = [], mf_formula_version = ''v1'',
     mf_required_input_kinds = [''analysis_request''], mf_risk_dimensions = [], mf_status = ''experimental''\<rparr>"

definition sample_cell :: "nat cell" where
  "sample_cell = \<lparr>cl_manifest = sample_manifest,
     cl_analyze = (\<lambda>rq ch t. (CellRaised (mk_exc PyValueError ''no data''), Suc t)),
     cl_analyze_inputs = (\<lambda>ib ch t. (CellRaised (mk_exc PyValueError ''no data''), Suc t))\<rparr>"

definition sample_hints :: resource_hints where
  "sample_hints = default_resource_hints\<lparr>rh_max_retries := 1\<rparr>"

definition sample_binding :: binding where
  "sample_binding = \<lparr>bd_implementation_id = ''python-local:cell:v1'', bd_cell_id = ''cell'',
      bd_service_id = ''python-local'', bd_runtime = ''python_local'', bd_language = ''python'',
      bd_formula_version = ''v1'', bd_endpoint = None, bd_task_queue = None, bd_priority = 100,
      bd_capabilities = [], bd_supports_batch = False, bd_max_concurrency = Some 1,
      bd_resource_hints = sample_hints, bd_binding_id = ''binding:python-local:python-local:cell:v1''\<rparr>"

definition sample_node :: exec_node where
  "sample_node = \<lparr>en_node_id = ''node'', en_cell_id = ''cell'', en_formula_version = ''v1'',
     en_execution_role = Root, en_binding_id = bd_binding_id sample_binding, en_fallback_binding_ids = [],
     en_dependencies = [], en_input_reference_ids = [''input''],
     en_required_input_kinds = [''analysis_request''], en_input_keys = [], en_output_keys = [],
     en_resource_hints = sample_hints, en_metadata = []\<rparr>"

definition sample_context :: "nat exec_context" where
  "sample_context = \<lparr>cx_run_id = ''run'', cx_trace_id = ''trace'', cx_plan_id = Some ''plan'',
     cx_node = Some sample_node, cx_binding = Some sample_binding, cx_input_bundle = None,
     cx_fallback_bindings = [], cx_idempotency_key = None, cx_attempt_id = None, cx_attempt_number = 0,
     cx_timeout_ms = None, cx_cancellation_signal = None\<rparr>"

lemma sample_steps:
  "cell_steps (\<le>) sample_cell" "signal_steps (\<le>) sample_context"
  by (simp_all add: cell_steps_def sample_cell_def signal_steps_def sample_context_def)

subsection \<open>Properties\<close>

text \<open>
  C34: The local executor never fails itself. In a world with monotonic time and fresh ids it
  returns an outcome for every Cell it can bind: a fresh valid trace that names the actual binding
  and the run's context, with the Cell's checked result if \<open>call_cell\<close> returned one, and else with
  the exception.
\<close>

theorem local_execute_total:
  assumes "world E le used" and "cell_steps le c"
    and "build_local_service_binding (cl_manifest c) sid = Inr actual"
  shows "\<exists>oc ran w1 w2 w'. local_execute E sid c rq cx ch w = (ExOutcome oc, w') \<and> good_outcome used w w' oc
     \<and> call_cell actual c rq cx ch w1 = (ran, w2)
     \<and> (case ran of Inr x \<Rightarrow> oc_result oc = Some x \<and> oc_error oc = None \<and> rt_status (oc_trace oc) = TSucceeded
        | Inl e \<Rightarrow> oc_result oc = None \<and> oc_error oc = Some e \<and> rt_status (oc_trace oc) = TFailed)
     \<and> actual_identity (oc_trace oc) = binding_identity actual
     \<and> rt_run_id (oc_trace oc) = cx_run_id cx \<and> rt_plan_id (oc_trace oc) = cx_plan_id cx"
proof -
  obtain r w' where ex: "local_execute E sid c rq cx ch w = (r, w')" by (meson surj_pair)
  from world.local_execute_outcome(2)[OF assms(1,2,3) ex] obtain oc ran w1 w2 where
    f: "r = ExOutcome oc" "good_outcome used w w' oc" "call_cell actual c rq cx ch w1 = (ran, w2)"
    "oc_result oc = (case ran of Inr x \<Rightarrow> Some x | Inl _ \<Rightarrow> None)"
    "oc_error oc = (case ran of Inl e \<Rightarrow> Some e | Inr _ \<Rightarrow> None)"
    "actual_identity (oc_trace oc) = binding_identity actual"
    "rt_run_id (oc_trace oc) = cx_run_id cx" "rt_plan_id (oc_trace oc) = cx_plan_id cx"
    by (elim exE conjE) (rule that; assumption)
  from f(2) have "outcome_ok oc" by (simp add: good_outcome_def)
  with f(4,5) have "case ran of Inr x \<Rightarrow> oc_result oc = Some x \<and> oc_error oc = None \<and> rt_status (oc_trace oc) = TSucceeded
        | Inl e \<Rightarrow> oc_result oc = None \<and> oc_error oc = Some e \<and> rt_status (oc_trace oc) = TFailed"
    by (auto simp: outcome_ok_def split: sum.splits)
  with ex f show ?thesis by blast
qed

lemma sample_binding_built:
  "\<exists>actual. build_local_service_binding (cl_manifest sample_cell) ''python-local'' = Inr actual"
  by (simp add: build_local_service_binding_def sample_cell_def sample_manifest_def mk_binding_def
      default_resource_hints_def mk_resource_hints_def implementation_id_def service_binding_id_def
      msg_def py_space_def Let_def blank_iff)

text \<open>The sample Cell in the local executor.\<close>

theorem local_execute_total_witness:
  "\<exists>oc w'. local_execute tick_env ''python-local'' sample_cell sample_request sample_context None 0
     = (ExOutcome oc, w') \<and> rt_run_id (oc_trace oc) = ''run''"
proof -
  obtain actual where a: "build_local_service_binding (cl_manifest sample_cell) ''python-local'' = Inr actual"
    using sample_binding_built by blast
  have r: "cx_run_id sample_context = ''run''" by (simp add: sample_context_def)
  from local_execute_total[OF tick.world_axioms sample_steps(1) a, of sample_request sample_context None 0]
  show ?thesis unfolding r by blast
qed

end
