(* ===== verification/Control.thy ===== *)
theory Control
  imports Executor
begin

section \<open>Failure control: retry, fallback, deadlines, admission and cancellation\<close>

text \<open>
  Models \<open>execution/control.py\<close>. The admission controller, the delegate executor and the failure
  classifier are interfaces; \<open>InMemoryConcurrencyAdmissionController\<close> and
  \<open>DefaultFailureClassifier\<close> are modelled as well. The two nested loops of
  \<open>FailureControlledExecutor.execute\<close> are two recursive functions over the remaining attempts and
  the remaining bindings, so they terminate by construction.
\<close>

subsection \<open>Failure classification\<close>

record classification =
  cls_kind :: failure_kind
  cls_retryable :: bool
  cls_allows_fallback :: bool

definition classify_as :: "failure_kind \<Rightarrow> bool \<Rightarrow> bool \<Rightarrow> classification" where
  "classify_as k r f = \<lparr>cls_kind = k, cls_retryable = r, cls_allows_fallback = f\<rparr>"

definition default_classify :: "exc \<Rightarrow> classification" where
  "default_classify e =
     (if isinstance_exc e ExecutorRouteNotFoundError then classify_as FRouting False True
      else if isinstance_exc e ExecutorDispatchError then classify_as FDispatch True True
      else if isinstance_exc e CellExecutionTimeoutError then classify_as FTimeout True True
      else if isinstance_exc e CellExecutionBackpressureError then classify_as FBackpressure False True
      else if isinstance_exc e CellExecutionCanceledError then classify_as FCanceled False False
      else if isinstance_exc e CellExecutionBindingError \<or> isinstance_exc e CellResultContractError
          \<or> isinstance_exc e ExecutionTraceMismatchError then classify_as FContract False False
      else classify_as FExecution False False)"

text \<open>\<open>repeat_is_safe\<close>: a stateless binding, or one that declares idempotent execution.\<close>

definition repeat_is_safe :: "binding \<Rightarrow> bool" where
  "repeat_is_safe b \<longleftrightarrow> \<not> rh_stateful (bd_resource_hints b)
     \<or> ''idempotent_execution'' \<in> set (bd_capabilities b)"

definition effective_classification :: "classification \<Rightarrow> binding \<Rightarrow> classification" where
  "effective_classification c b =
     (if repeat_is_safe b \<or> cls_kind c \<notin> {FDispatch, FTimeout} then c
      else classify_as (cls_kind c) False False)"

subsection \<open>Admission control\<close>

text \<open>
  A lease is a no-op or a reference to a \<open>_ConcurrencyAdmissionLease\<close> object, which holds its
  binding and whether it has been released; the objects are listed in order of creation.
\<close>

datatype lease = NoopLease | ConcurrencyLease nat

record admission_state =
  as_active_by_binding :: "(string \<times> int) list"
  as_leases :: "(string \<times> bool) list"

definition empty_admission :: admission_state where
  "empty_admission = \<lparr>as_active_by_binding = [], as_leases = []\<rparr>"

definition active_count :: "admission_state \<Rightarrow> string \<Rightarrow> int" where
  "active_count s i = (case map_of (as_active_by_binding s) i of None \<Rightarrow> 0 | Some n \<Rightarrow> n)"

definition try_acquire :: "binding \<Rightarrow> admission_state \<Rightarrow> lease option \<times> admission_state" where
  "try_acquire b s =
     (case bd_max_concurrency b of
        None \<Rightarrow> (Some NoopLease, s)
      | Some m \<Rightarrow>
         (let active = active_count s (bd_binding_id b) in
          if active \<ge> m then (None, s)
          else (Some (ConcurrencyLease (length (as_leases s))),
            \<lparr>as_active_by_binding = AList.update (bd_binding_id b) (active + 1) (as_active_by_binding s),
             as_leases = as_leases s @ [(bd_binding_id b, False)]\<rparr>)))"

definition release_binding :: "string \<Rightarrow> admission_state \<Rightarrow> admission_state" where
  "release_binding i s =
     (let active = active_count s i in
      if active \<le> 1 then s\<lparr>as_active_by_binding := AList.delete i (as_active_by_binding s)\<rparr>
      else s\<lparr>as_active_by_binding := AList.update i (active - 1) (as_active_by_binding s)\<rparr>)"

text \<open>
  \<open>_ConcurrencyAdmissionLease.release\<close> reads \<open>_released\<close>, sets it, and calls \<open>_release\<close>; only the
  last is under the controller's lock. \<open>release_lease\<close> is a call that no other thread interrupts;
  theory \<open>Admission\<close> interleaves the three steps.
\<close>

definition lease_released :: "nat \<Rightarrow> admission_state \<Rightarrow> bool" where
  "lease_released n s = snd (as_leases s ! n)"

definition lease_binding :: "nat \<Rightarrow> admission_state \<Rightarrow> string" where
  "lease_binding n s = fst (as_leases s ! n)"

definition mark_released :: "nat \<Rightarrow> admission_state \<Rightarrow> admission_state" where
  "mark_released n s = s\<lparr>as_leases := (as_leases s)[n := (lease_binding n s, True)]\<rparr>"

fun release_lease :: "lease \<Rightarrow> admission_state \<Rightarrow> admission_state" where
  "release_lease NoopLease s = s"
| "release_lease (ConcurrencyLease n) s =
     (if lease_released n s then s else release_binding (lease_binding n s) (mark_released n s))"

text \<open>The interface: acquiring and releasing may raise.\<close>

record ('w, 'l) admission =
  ad_name :: string
  ad_try_acquire :: "binding \<Rightarrow> 'w \<Rightarrow> 'l option res \<times> 'w"
  ad_release :: "'l \<Rightarrow> 'w \<Rightarrow> exc option \<times> 'w"

definition unlimited_admission :: "('w, unit) admission" where
  "unlimited_admission = \<lparr>ad_name = ''unlimited_admission_controller_v0.1'',
     ad_try_acquire = (\<lambda>b w. (Inr (Some ()), w)), ad_release = (\<lambda>l w. (None, w))\<rparr>"

text \<open>The in-memory controller as part of a world.\<close>

definition in_memory_admission ::
  "('w \<Rightarrow> admission_state) \<Rightarrow> (admission_state \<Rightarrow> 'w \<Rightarrow> 'w) \<Rightarrow> ('w, lease) admission" where
  "in_memory_admission getw putw = \<lparr>ad_name = ''in_memory_concurrency_admission_controller_v0.1'',
     ad_try_acquire = (\<lambda>b w. let (l, s) = try_acquire b (getw w) in (Inr l, putw s w)),
     ad_release = (\<lambda>l w. (None, putw (release_lease l (getw w)) w))\<rparr>"

subsection \<open>Identities\<close>

definition idempotency_payload :: "string \<Rightarrow> string \<Rightarrow> string \<Rightarrow> meta" where
  "idempotency_payload run_id plan_id node_id =
     [(''schema_version'', PStr ''execution_idempotency.v1''), (''run_id'', PStr run_id),
      (''plan_id'', PStr plan_id), (''node_id'', PStr node_id)]"

definition execution_idempotency_key :: "stdlib \<Rightarrow> 'w exec_context \<Rightarrow> string res" where
  "execution_idempotency_key L cx =
     (case (cx_plan_id cx, cx_node cx) of
        (Some p, Some n) \<Rightarrow> Inr (stable_json_hash L (idempotency_payload (cx_run_id cx) p (en_node_id n)))
      | _ \<Rightarrow> raise PyValueError ''execution idempotency requires plan_id and node'')"

definition attempt_payload :: "string \<Rightarrow> string \<Rightarrow> int \<Rightarrow> meta" where
  "attempt_payload key binding_id n =
     [(''schema_version'', PStr ''execution_attempt_identity.v1''), (''idempotency_key'', PStr key),
      (''binding_id'', PStr binding_id), (''attempt_number'', PInt n)]"

definition execution_attempt_id :: "stdlib \<Rightarrow> string \<Rightarrow> string \<Rightarrow> int \<Rightarrow> string res" where
  "execution_attempt_id L key binding_id n =
     (if n < 1 then raise PyValueError ''attempt_number must be at least 1''
      else Inr (stable_json_hash L (attempt_payload key binding_id n)))"

definition execution_control_id :: "stdlib \<Rightarrow> string \<Rightarrow> string" where
  "execution_control_id L key = stable_json_hash L
     [(''schema_version'', PStr ''execution_control_identity.v1''), (''idempotency_key'', PStr key)]"

text \<open>\<open>context.idempotency_key or execution_idempotency_key(context)\<close>.\<close>

definition context_key :: "stdlib \<Rightarrow> 'w exec_context \<Rightarrow> string res" where
  "context_key L cx = (if or_empty (cx_idempotency_key cx) = [] then execution_idempotency_key L cx
     else Inr (or_empty (cx_idempotency_key cx)))"

subsection \<open>Building outcomes at the boundary\<close>

definition is_canceled :: "'w exec_context \<Rightarrow> 'w \<Rightarrow> bool \<times> 'w" where
  "is_canceled cx w = (case cx_cancellation_signal cx of None \<Rightarrow> (False, w) | Some f \<Rightarrow> f w)"

definition opt_binding :: "(binding \<Rightarrow> string) \<Rightarrow> 'w exec_context \<Rightarrow> pyval" where
  "opt_binding f cx = opt_str (map_option f (cx_binding cx))"

definition boundary_failure ::
  "'w env \<Rightarrow> 'w cell \<Rightarrow> 'w exec_context \<Rightarrow> exc \<Rightarrow> string \<Rightarrow> meta \<Rightarrow> 'w \<Rightarrow> outcome res \<times> 'w" where
  "boundary_failure E c cx e phase metadata w =
     (let (timestamp, w1) = env_now E w;
          (span, w2) = env_uuid E w1;
          tr = mk_trace \<lparr>rt_trace_id = cx_trace_id cx, rt_span_id = span, rt_run_id = cx_run_id cx,
            rt_node_id = context_node_id cx (cl_cell_id c), rt_cell_id = mf_cell_id (cl_manifest c),
            rt_formula_version = mf_formula_version (cl_manifest c), rt_status = TFailed,
            rt_started_at = timestamp, rt_finished_at = timestamp, rt_duration_ms = Fin 0,
            rt_schema_version = ''cell_runtime_trace.v1'', rt_plan_id = cx_plan_id cx,
            rt_implementation_id = None, rt_service_id = None, rt_runtime = None, rt_retry_count = 0,
            rt_error = Some (ex_msg e), rt_parent_span_id = None,
            rt_metadata = dict_merge (dict_merge
              [(''executor'', PStr ''failure_controlled_executor_v0.1''), (''execution_phase'', PStr phase),
               (''planned_binding_id'', opt_binding bd_binding_id cx),
               (''planned_implementation_id'', opt_binding bd_implementation_id cx),
               (''planned_service_id'', opt_binding bd_service_id cx),
               (''planned_runtime'', opt_binding bd_runtime cx)]
              (cell_input_trace_metadata cx)) metadata\<rparr>
      in (bind_res tr (\<lambda>t. mk_outcome \<lparr>oc_trace = t, oc_result = None, oc_error = Some e,
            oc_prior_traces = [], oc_control_record = None\<rparr>), w2))"

definition replace_outcome_error :: "outcome \<Rightarrow> exc \<Rightarrow> meta \<Rightarrow> outcome res" where
  "replace_outcome_error c e metadata =
     bind_res (mk_trace ((oc_trace c)\<lparr>rt_status := TFailed, rt_error := Some (ex_msg e),
         rt_metadata := dict_merge (rt_metadata (oc_trace c)) metadata\<rparr>))
       (\<lambda>t. mk_outcome \<lparr>oc_trace = t, oc_result = None, oc_error = Some e,
         oc_prior_traces = oc_prior_traces c, oc_control_record = None\<rparr>)"

subsection \<open>One attempt\<close>

record ('w, 'l) control_executor =
  fx_env :: "'w env"
  fx_lib :: stdlib
  fx_delegate :: "'w executor"
  fx_admission :: "('w, 'l) admission"
  fx_classify :: "exc \<Rightarrow> classification"
  fx_classifier_name :: string

text \<open>The delegate's call, inside the inner \<open>try\<close>.\<close>

definition dispatch ::
  "('w, 'l) control_executor \<Rightarrow> 'w cell \<Rightarrow> request \<Rightarrow> 'w exec_context \<Rightarrow> cell_result list option
   \<Rightarrow> 'w \<Rightarrow> outcome res \<times> 'w" where
  "dispatch X c rq cx children w =
     (let (ret, w1) = ex_execute (fx_delegate X) c rq cx children w;
          fail = (\<lambda>cause e. boundary_failure (fx_env X) c cx e ''dispatch''
            [(''cause_type'', PStr (exc_name (ex_class cause)))] w1);
          raised = (\<lambda>e. mk_exc ExecutorDispatchError (msg [''executor '', ex_name (fx_delegate X),
            '' raised before returning an outcome: '', ex_msg e]))
      in case ret of
           ExOutcome oc \<Rightarrow> (Inr oc, w1)
         | ExRaised e \<Rightarrow>
             if isinstance_exc e CellExecutionError then fail e e else fail e (raised e)
         | ExOther t \<Rightarrow>
             let e = mk_exc PyTypeError (msg [''executor '', ex_name (fx_delegate X), '' returned '', t,
               '', expected CellExecutionOutcome'']) in fail e (raised e))"

definition effective_duration :: "pyfloat \<Rightarrow> outcome \<Rightarrow> pyfloat" where
  "effective_duration observed oc = foldl fmax observed (map rt_duration_ms (runtime_traces oc))"

definition after_release :: "exc option \<Rightarrow> outcome \<Rightarrow> outcome res" where
  "after_release release_error oc =
     (case release_error of
        None \<Rightarrow> Inr oc
      | Some e \<Rightarrow> replace_outcome_error oc
          (mk_exc CellExecutionControlError (msg [''admission lease release failed: '', ex_msg e]))
          [(''admission_release_status'', PStr ''failed''),
           (''cause_type'', PStr (exc_name (ex_class e))),
           (''delegate_error'', opt_str (rt_error (oc_trace oc)))])"

text \<open>The deadline, and only if it is met the second look at the cancellation signal.\<close>

definition after_deadline ::
  "stdlib \<Rightarrow> 'w exec_context \<Rightarrow> pyfloat \<Rightarrow> outcome \<Rightarrow> 'w \<Rightarrow> outcome res \<times> 'w" where
  "after_deadline L cx duration oc w =
     (let timeout = the (cx_timeout_ms cx) in
      if flt (Fin (of_int timeout)) duration then
        (replace_outcome_error oc
          (mk_exc CellExecutionTimeoutError (msg [''binding '', bd_binding_id (the (cx_binding cx)),
            '' exceeded timeout '', show_int timeout, ''ms with '', sl_float_repr L duration, ''ms'']))
          [(''deadline_status'', PStr ''expired''), (''timeout_ms'', PInt timeout),
           (''observed_duration_ms'', PFloat duration)], w)
      else
        (let (canceled, w1) = is_canceled cx w in
         if canceled \<and> oc_error oc = None then
           (replace_outcome_error oc
              (mk_exc CellExecutionCanceledError (msg [''node '', en_node_id (the (cx_node cx)),
                '' was canceled during attempt'']))
              [(''cancellation_status'', PStr ''observed_after_attempt'')], w1)
         else (Inr oc, w1)))"

text \<open>\<open>_execute_attempt\<close>: the outcome and the observed duration.\<close>

definition execute_attempt ::
  "('w, 'l) control_executor \<Rightarrow> 'w cell \<Rightarrow> request \<Rightarrow> 'w exec_context \<Rightarrow> cell_result list option
   \<Rightarrow> 'w \<Rightarrow> (outcome \<times> pyfloat) res \<times> 'w" where
  "execute_attempt X c rq cx children w =
     (let E = fx_env X; A = fx_admission X; b = the (cx_binding cx);
          boundary = (\<lambda>e phase metadata w.
            let (r, w') = boundary_failure E c cx e phase metadata w
            in (bind_res r (\<lambda>oc. Inr (oc, Fin 0)), w'));
          (canceled, w1) = is_canceled cx w
      in
      if canceled then
        boundary (mk_exc CellExecutionCanceledError
          (msg [''node '', en_node_id (the (cx_node cx)), '' was canceled before attempt'']))
          ''cancellation'' [] w1
      else case ad_try_acquire A b w1 of
        (Inl e, w2) \<Rightarrow> boundary (mk_exc CellExecutionControlError
            (msg [''admission controller '', ad_name A, '' failed: '', ex_msg e]))
            ''admission_control'' [(''cause_type'', PStr (exc_name (ex_class e)))] w2
      | (Inr None, w2) \<Rightarrow> boundary (mk_exc CellExecutionBackpressureError
            (msg [''binding '', bd_binding_id b, '' reached max_concurrency'']))
            ''admission'' [(''admission_controller'', PStr (ad_name A))] w2
      | (Inr (Some l), w2) \<Rightarrow>
          (let (started, w3) = env_perf E w2;
               (dispatched, w4) = dispatch X c rq cx children w3;
               (release_error, w5) = ad_release A l w4
           in case dispatched of
                Inl e \<Rightarrow> (Inl e, w5)
              | Inr oc \<Rightarrow>
                 (let (finished, w6) = env_perf E w5;
                      duration = effective_duration (elapsed_ms started finished) oc
                  in case after_release release_error oc of
                       Inl e \<Rightarrow> (Inl e, w6)
                     | Inr oc' \<Rightarrow>
                        (let (final, w7) = after_deadline (fx_lib X) cx duration oc' w6
                         in (bind_res final (\<lambda>oc''. Inr (oc'', duration)), w7)))))"

subsection \<open>Recording the attempt\<close>

definition control_metadata ::
  "string \<Rightarrow> string \<Rightarrow> int \<Rightarrow> int \<Rightarrow> int \<Rightarrow> int \<Rightarrow> classification option \<Rightarrow> meta" where
  "control_metadata attempt_id key n bn i timeout cls =
     [(''attempt_id'', PStr attempt_id), (''idempotency_key'', PStr key), (''attempt_number'', PInt n),
      (''binding_attempt_number'', PInt bn), (''fallback_index'', PInt i), (''timeout_ms'', PInt timeout),
      (''failure_kind'', opt_str (map_option (show_failure_kind o cls_kind) cls)),
      (''placement_eligible'', PBool (case cls of None \<Rightarrow> True | Some k \<Rightarrow> cls_kind k \<noteq> FCanceled))]"

definition annotate_attempt_outcome ::
  "outcome \<Rightarrow> string \<Rightarrow> string \<Rightarrow> int \<Rightarrow> int \<Rightarrow> int \<Rightarrow> int \<Rightarrow> bool \<Rightarrow> classification option \<Rightarrow> outcome res" where
  "annotate_attempt_outcome oc attempt_id key n bn i timeout is_retry cls =
     bind_res (mk_trace ((oc_trace oc)\<lparr>rt_retry_count := (if is_retry then 1 else 0),
         rt_metadata := dict_merge (rt_metadata (oc_trace oc))
           [(''execution_control'', PDict (control_metadata attempt_id key n bn i timeout cls))]\<rparr>))
       (\<lambda>t. mk_outcome \<lparr>oc_trace = t, oc_result = oc_result oc, oc_error = oc_error oc,
         oc_prior_traces = oc_prior_traces oc, oc_control_record = None\<rparr>)"

definition attempt_record ::
  "outcome \<Rightarrow> binding \<Rightarrow> string \<Rightarrow> string \<Rightarrow> int \<Rightarrow> int \<Rightarrow> int \<Rightarrow> pyfloat \<Rightarrow> classification option \<Rightarrow> int
   \<Rightarrow> attempt res" where
  "attempt_record oc b attempt_id key n bn i duration cls timeout = mk_attempt
     \<lparr>ca_attempt_id = attempt_id, ca_idempotency_key = key, ca_attempt_number = n,
      ca_binding_attempt_number = bn, ca_fallback_index = i, ca_binding_id = bd_binding_id b,
      ca_is_retry = (bn > 1), ca_status = status_of_kind (map_option cls_kind cls),
      ca_failure_kind = map_option cls_kind cls,
      ca_retryable = (case cls of None \<Rightarrow> False | Some k \<Rightarrow> cls_retryable k),
      ca_started_at = rt_started_at (oc_trace oc), ca_finished_at = rt_finished_at (oc_trace oc),
      ca_duration_ms = duration, ca_trace_span_id = Some (rt_span_id (oc_trace oc)),
      ca_actual_implementation_id = rt_implementation_id (oc_trace oc),
      ca_actual_service_id = rt_service_id (oc_trace oc), ca_actual_runtime = rt_runtime (oc_trace oc),
      ca_error = map_option ex_msg (oc_error oc),
      ca_metadata = [(''timeout_ms'', PInt timeout), (''stateful'', PBool (rh_stateful (bd_resource_hints b))),
        (''idempotent_execution'', PBool (''idempotent_execution'' \<in> set (bd_capabilities b))),
        (''allows_fallback'', PBool (case cls of None \<Rightarrow> False | Some k \<Rightarrow> cls_allows_fallback k))]\<rparr>"

subsection \<open>The loops\<close>

record loop_state =
  ls_attempts :: "attempt list"
  ls_traces :: "trace list"
  ls_final :: "outcome option"

definition attempt_context ::
  "'w exec_context \<Rightarrow> binding \<Rightarrow> string \<Rightarrow> string \<Rightarrow> int \<Rightarrow> int \<Rightarrow> 'w exec_context" where
  "attempt_context cx b key attempt_id n timeout =
     cx\<lparr>cx_node := map_option (\<lambda>nd. nd\<lparr>en_binding_id := bd_binding_id b\<rparr>) (cx_node cx),
        cx_binding := Some b, cx_fallback_bindings := [], cx_idempotency_key := Some key,
        cx_attempt_id := Some attempt_id, cx_attempt_number := n, cx_timeout_ms := Some timeout\<rparr>"

text \<open>The body of the inner loop: one attempt, classified, annotated and recorded.\<close>

definition attempt_once ::
  "('w, 'l) control_executor \<Rightarrow> 'w cell \<Rightarrow> request \<Rightarrow> 'w exec_context \<Rightarrow> cell_result list option \<Rightarrow> string
   \<Rightarrow> int \<Rightarrow> binding \<Rightarrow> int \<Rightarrow> int \<Rightarrow> loop_state \<Rightarrow> 'w \<Rightarrow> (loop_state \<times> classification option) res \<times> 'w" where
  "attempt_once X c rq cx children key i b timeout bn st w =
     (let n = int (length (ls_attempts st)) + 1 in
      case execution_attempt_id (fx_lib X) key (bd_binding_id b) n of
        Inl e \<Rightarrow> (Inl e, w)
      | Inr attempt_id \<Rightarrow>
         (case execute_attempt X c rq (attempt_context cx b key attempt_id n timeout) children w of
            (Inl e, w1) \<Rightarrow> (Inl e, w1)
          | (Inr (oc, duration), w1) \<Rightarrow>
             (let cls = map_option (\<lambda>e. effective_classification (fx_classify X e) b) (oc_error oc) in
              (bind_res (annotate_attempt_outcome oc attempt_id key n bn i timeout (bn > 1) cls) (\<lambda>oc'.
                 bind_res (attempt_record oc' b attempt_id key n bn i duration cls timeout) (\<lambda>a.
                   Inr (\<lparr>ls_attempts = ls_attempts st @ [a], ls_traces = ls_traces st @ runtime_traces oc',
                         ls_final = Some oc'\<rparr>, cls))), w1))))"

text \<open>\<open>k\<close> attempts of this binding are left; \<open>bn\<close> is the number of the next one.\<close>

fun binding_loop ::
  "('w, 'l) control_executor \<Rightarrow> 'w cell \<Rightarrow> request \<Rightarrow> 'w exec_context \<Rightarrow> cell_result list option \<Rightarrow> string
   \<Rightarrow> int \<Rightarrow> binding \<Rightarrow> int \<Rightarrow> nat \<Rightarrow> int \<Rightarrow> loop_state \<Rightarrow> 'w \<Rightarrow> loop_state res \<times> 'w" where
  "binding_loop X c rq cx children key i b timeout 0 bn st w = (Inr st, w)"
| "binding_loop X c rq cx children key i b timeout (Suc k) bn st w =
     (case attempt_once X c rq cx children key i b timeout bn st w of
        (Inl e, w1) \<Rightarrow> (Inl e, w1)
      | (Inr (st', cls), w1) \<Rightarrow>
         (if (case cls of None \<Rightarrow> False | Some q \<Rightarrow> cls_retryable q)
          then binding_loop X c rq cx children key i b timeout k (bn + 1) st' w1
          else (Inr st', w1)))"

definition binding_timeout :: "exec_node \<Rightarrow> binding \<Rightarrow> int" where
  "binding_timeout n b = min (rh_expected_timeout_ms (en_resource_hints n))
     (rh_expected_timeout_ms (bd_resource_hints b))"

definition binding_max_attempts :: "exec_node \<Rightarrow> binding \<Rightarrow> int" where
  "binding_max_attempts n b =
     min (rh_max_retries (en_resource_hints n)) (rh_max_retries (bd_resource_hints b)) + 1"

text \<open>Whether the outer loop goes on after the last outcome on binding \<open>b\<close>.\<close>

definition falls_back :: "('w, 'l) control_executor \<Rightarrow> binding \<Rightarrow> loop_state \<Rightarrow> bool" where
  "falls_back X b st = (case ls_final st of None \<Rightarrow> False
     | Some oc \<Rightarrow> (case oc_error oc of None \<Rightarrow> False
         | Some e \<Rightarrow> cls_allows_fallback (effective_classification (fx_classify X e) b)))"

fun fallback_loop ::
  "('w, 'l) control_executor \<Rightarrow> 'w cell \<Rightarrow> request \<Rightarrow> 'w exec_context \<Rightarrow> exec_node \<Rightarrow> cell_result list option
   \<Rightarrow> string \<Rightarrow> int \<Rightarrow> binding list \<Rightarrow> loop_state \<Rightarrow> 'w \<Rightarrow> loop_state res \<times> 'w" where
  "fallback_loop X c rq cx n children key i [] st w = (Inr st, w)"
| "fallback_loop X c rq cx n children key i (b # bs) st w =
     (case binding_loop X c rq cx children key i b (binding_timeout n b)
         (nat (binding_max_attempts n b)) 1 st w of
        (Inl e, w1) \<Rightarrow> (Inl e, w1)
      | (Inr st', w1) \<Rightarrow>
         (if falls_back X b st' then fallback_loop X c rq cx n children key (i + 1) bs st' w1
          else (Inr st', w1)))"

subsection \<open>The control record and the final outcome\<close>

definition control_record_of ::
  "('w, 'l) control_executor \<Rightarrow> 'w exec_context \<Rightarrow> string \<Rightarrow> attempt list \<Rightarrow> string \<Rightarrow> 'w
   \<Rightarrow> control_record res \<times> 'w" where
  "control_record_of X cx key as started_at w =
     (let (finished_at, w1) = env_now (fx_env X) w in
      (mk_control_record
        \<lparr>ec_control_id = execution_control_id (fx_lib X) key, ec_idempotency_key = key,
         ec_run_id = cx_run_id cx, ec_plan_id = or_empty (cx_plan_id cx),
         ec_node_id = (case cx_node cx of None \<Rightarrow> [] | Some n \<Rightarrow> en_node_id n),
         ec_primary_binding_id = (case cx_binding cx of None \<Rightarrow> [] | Some b \<Rightarrow> bd_binding_id b),
         ec_fallback_binding_ids = map bd_binding_id (cx_fallback_bindings cx),
         ec_status = final_status (ca_status (last as)), ec_attempts = as,
         ec_retry_count = int (length (filter ca_is_retry as)),
         ec_fallback_count = Max (set (map ca_fallback_index as)),
         ec_final_binding_id = ca_binding_id (last as), ec_final_failure_kind = ca_failure_kind (last as),
         ec_started_at = started_at, ec_finished_at = finished_at,
         ec_schema_version = ''execution_control_record.v1'',
         ec_metadata = [(''executor'', PStr ''failure_controlled_executor_v0.1''),
           (''delegate_executor'', PStr (ex_name (fx_delegate X))),
           (''admission_controller'', PStr (ad_name (fx_admission X))),
           (''failure_classifier'', PStr (fx_classifier_name X))]\<rparr>, w1))"

definition finalize_outcome :: "outcome \<Rightarrow> trace list \<Rightarrow> control_record \<Rightarrow> outcome res" where
  "finalize_outcome oc traces r =
     (if traces = [] then raise CellExecutionControlError ''execution control completed without traces''
      else mk_outcome \<lparr>oc_trace = last traces, oc_result = oc_result oc, oc_error = oc_error oc,
        oc_prior_traces = butlast traces, oc_control_record = Some r\<rparr>)"

definition control_execute :: "('w, 'l) control_executor \<Rightarrow> 'w execute_fn" where
  "control_execute X c rq cx children w =
     (case (cx_plan_id cx, cx_node cx, cx_binding cx) of
        (Some p, Some n, Some b) \<Rightarrow>
         (if map bd_binding_id (cx_fallback_bindings cx) \<noteq> en_fallback_binding_ids n then
            (ExRaised (mk_exc CellExecutionControlError
              (msg [''node '', en_node_id n, '' fallback bindings do not match the plan''])), w)
          else
           (let (started_at, w1) = env_now (fx_env X) w in
            case context_key (fx_lib X) cx of
              Inl e \<Rightarrow> (ExRaised e, w1)
            | Inr key \<Rightarrow>
               (case fallback_loop X c rq cx n children key 0 (b # cx_fallback_bindings cx)
                   \<lparr>ls_attempts = [], ls_traces = [], ls_final = None\<rparr> w1 of
                  (Inl e, w2) \<Rightarrow> (ExRaised e, w2)
                | (Inr st, w2) \<Rightarrow>
                   (case ls_final st of
                      None \<Rightarrow> (ExRaised (mk_exc CellExecutionControlError
                        ''failure control completed without an attempt''), w2)
                    | Some oc \<Rightarrow>
                       (let (r, w3) = control_record_of X cx key (ls_attempts st) started_at w2 in
                        (of_outcome (bind_res r (finalize_outcome oc (ls_traces st))), w3))))))
      | _ \<Rightarrow> (ExRaised (mk_exc CellExecutionControlError
          ''failure control requires plan_id, execution node, and service binding''), w))"

definition control_as_executor :: "('w, 'l) control_executor \<Rightarrow> 'w executor" where
  "control_as_executor X = \<lparr>ex_name = ''failure_controlled_executor_v0.1'',
     ex_execute = control_execute X\<rparr>"

subsection \<open>Checking a record against its context\<close>

definition attempt_identity_ok :: "stdlib \<Rightarrow> string \<Rightarrow> trace list \<Rightarrow> attempt \<Rightarrow> bool" where
  "attempt_identity_ok L key traces a \<longleftrightarrow>
     (case ca_trace_span_id a of None \<Rightarrow> False
      | Some sid \<Rightarrow> sid \<in> set (map rt_span_id traces)
          \<and> execution_attempt_id L key (ca_binding_id a) (ca_attempt_number a) = Inr (ca_attempt_id a))"

definition control_mismatches ::
  "stdlib \<Rightarrow> control_record \<Rightarrow> 'w exec_context \<Rightarrow> string \<Rightarrow> string \<Rightarrow> exec_node \<Rightarrow> binding \<Rightarrow> trace list \<Rightarrow> string list" where
  "control_mismatches L r cx key p n b traces =
     opt_issue (ec_control_id r \<noteq> execution_control_id L key) ''control_id''
   @ opt_issue (ec_idempotency_key r \<noteq> key) ''idempotency_key''
   @ opt_issue (ec_run_id r \<noteq> cx_run_id cx) ''run_id''
   @ opt_issue (ec_plan_id r \<noteq> p) ''plan_id''
   @ opt_issue (ec_node_id r \<noteq> en_node_id n) ''node_id''
   @ opt_issue (ec_primary_binding_id r \<noteq> bd_binding_id b) ''primary_binding_id''
   @ opt_issue (ec_fallback_binding_ids r \<noteq> map bd_binding_id (cx_fallback_bindings cx)) ''fallback_binding_ids''
   @ opt_issue (\<not> (\<forall>a \<in> set (ec_attempts r). attempt_identity_ok L key traces a)) ''attempt_identity''
   @ opt_issue (traces = [] \<or> ca_trace_span_id (last (ec_attempts r)) \<noteq> Some (rt_span_id (last traces)))
       ''final_trace''"

definition validate_execution_control_record ::
  "stdlib \<Rightarrow> control_record \<Rightarrow> 'w exec_context \<Rightarrow> trace list \<Rightarrow> unit res" where
  "validate_execution_control_record L r cx traces =
     (case (cx_plan_id cx, cx_node cx, cx_binding cx) of
        (Some p, Some n, Some b) \<Rightarrow> bind_res (context_key L cx) (\<lambda>key.
          let ms = control_mismatches L r cx key p n b traces in
          if ms \<noteq> [] then raise ExecutionControlMismatchError
            (msg [''execution control record for '', ec_node_id r, '' does not match context: '',
              join '', '' (sorted_set ms)])
          else Inr ())
      | _ \<Rightarrow> raise ExecutionControlMismatchError ''execution control validation requires planned context'')"

end
