(* ===== verification/Control_Correct.thy ===== *)
theory Control_Correct
  imports Control
begin

section \<open>Correctness of failure control\<close>

text \<open>
  The invariant of the two loops of \<open>FailureControlledExecutor.execute\<close>, and what follows from
  it: under the contract of its delegate (\<open>executor_ok\<close>) the executor always returns an outcome,
  the outcome keeps that contract, and its control record is accepted by the record's
  constructor and by \<open>validate_execution_control_record\<close>.
\<close>

subsection \<open>One attempt\<close>

lemma good_replace_error:
  assumes "good_outcome used w w' oc"
  shows "\<exists>oc'. replace_outcome_error oc e md = Inr oc' \<and> good_outcome used w w' oc' \<and> oc_error oc' = Some e"
proof -
  let ?t = "(oc_trace oc)\<lparr>rt_status := TFailed, rt_error := Some (ex_msg e),
         rt_metadata := dict_merge (rt_metadata (oc_trace oc)) md\<rparr>"
  let ?oc = "\<lparr>oc_trace = ?t, oc_result = None, oc_error = Some e,
         oc_prior_traces = oc_prior_traces oc, oc_control_record = None\<rparr>"
  have "trace_ok ?t" using assms by (simp add: good_outcome_def runtime_traces_def trace_ok_def)
  moreover have "outcome_ok ?oc" using assms by (simp add: good_outcome_def outcome_ok_def runtime_traces_def)
  ultimately have "replace_outcome_error oc e md = Inr ?oc"
    by (simp add: replace_outcome_error_def bind_res_eq_Inr mk_trace_Inr mk_outcome_Inr)
  moreover have "good_outcome used w w' ?oc"
    using assms \<open>outcome_ok ?oc\<close> \<open>trace_ok ?t\<close> by (simp add: good_outcome_def runtime_traces_def)
  ultimately show ?thesis by auto
qed

lemma good_annotate:
  assumes "good_outcome used w w' oc"
  shows "\<exists>oc'. annotate_attempt_outcome oc aid key n bn i timeout is_retry cls = Inr oc'
    \<and> good_outcome used w w' oc' \<and> oc_error oc' = oc_error oc \<and> oc_result oc' = oc_result oc"
proof -
  let ?t = "(oc_trace oc)\<lparr>rt_retry_count := (if is_retry then 1 else 0),
         rt_metadata := dict_merge (rt_metadata (oc_trace oc))
           [(''execution_control'', PDict (control_metadata aid key n bn i timeout cls))]\<rparr>"
  let ?oc = "\<lparr>oc_trace = ?t, oc_result = oc_result oc, oc_error = oc_error oc,
         oc_prior_traces = oc_prior_traces oc, oc_control_record = None\<rparr>"
  have "trace_ok ?t" using assms by (simp add: good_outcome_def runtime_traces_def trace_ok_def)
  moreover have "outcome_ok ?oc" using assms by (simp add: good_outcome_def outcome_ok_def runtime_traces_def)
  ultimately have "annotate_attempt_outcome oc aid key n bn i timeout is_retry cls = Inr ?oc"
    by (simp add: annotate_attempt_outcome_def bind_res_eq_Inr mk_trace_Inr mk_outcome_Inr)
  moreover have "good_outcome used w w' ?oc"
    using assms \<open>outcome_ok ?oc\<close> \<open>trace_ok ?t\<close> by (simp add: good_outcome_def runtime_traces_def)
  ultimately show ?thesis by auto
qed

lemma fmax_nonneg: "fnonneg a \<Longrightarrow> fnonneg (fmax a b)"
  by (cases a; cases b) (auto simp: fmax_def fnonneg_def)

lemma effective_duration_nonneg: "fnonneg d \<Longrightarrow> fnonneg (effective_duration d oc)"
proof -
  have "fnonneg d \<Longrightarrow> fnonneg (foldl fmax d ds)" for ds
    by (induction ds arbitrary: d) (simp_all add: fmax_nonneg)
  then show "fnonneg d \<Longrightarrow> fnonneg (effective_duration d oc)" by (simp add: effective_duration_def)
qed

lemma after_deadline_cases:
  "after_deadline L cx d oc w = (r, w') \<Longrightarrow> r = Inr oc \<or> (\<exists>e md. r = replace_outcome_error oc e md)"
  unfolding after_deadline_def Let_def by (simp split: if_splits prod.splits) blast+

text \<open>The controller moves the world on.\<close>

definition admission_steps :: "('w \<Rightarrow> 'w \<Rightarrow> bool) \<Rightarrow> ('w, 'l) admission \<Rightarrow> bool" where
  "admission_steps le A \<longleftrightarrow> (\<forall>b w. le w (snd (ad_try_acquire A b w))) \<and> (\<forall>l w. le w (snd (ad_release A l w)))"

lemma signal_steps_attempt [simp]:
  "signal_steps le (attempt_context cx b key aid n timeout) = signal_steps le cx"
  by (simp add: signal_steps_def attempt_context_def)

context world
begin

lemma step_canceled:
  "signal_steps le cx \<Longrightarrow> le w0 w \<Longrightarrow> is_canceled cx w = (x, w') \<Longrightarrow> le w0 w'"
  using le_trans le_refl
  by (auto simp: signal_steps_def is_canceled_def split: option.splits) (metis snd_conv)

lemma step_acquire:
  "admission_steps le A \<Longrightarrow> le w0 w \<Longrightarrow> ad_try_acquire A b w = (x, w') \<Longrightarrow> le w0 w'"
  using le_trans unfolding admission_steps_def by (metis snd_conv)

lemma step_release:
  "admission_steps le A \<Longrightarrow> le w0 w \<Longrightarrow> ad_release A l w = (x, w') \<Longrightarrow> le w0 w'"
  using le_trans unfolding admission_steps_def by (metis snd_conv)

lemma boundary_failure_ok:
  assumes "boundary_failure E c cx e phase md w = (r, w')"
  shows "le w w'" "\<exists>oc. r = Inr oc \<and> good_outcome used w w' oc \<and> oc_error oc = Some e"
proof -
  obtain ts w1 where n: "env_now E w = (ts, w1)" by (cases "env_now E w")
  obtain u w2 where u: "env_uuid E w1 = (u, w2)" by (cases "env_uuid E w1")
  have w': "w' = w2" using assms by (simp add: boundary_failure_def n u)
  have "u \<in> used w2 - used w" by (rule fresh_uuid[OF step_now[OF le_refl n] u le_refl])
  obtain t where t: "r = bind_res (mk_trace t) (\<lambda>t. mk_outcome \<lparr>oc_trace = t, oc_result = None,
      oc_error = Some e, oc_prior_traces = [], oc_control_record = None\<rparr>)"
      "rt_span_id t = u" "rt_status t = TFailed" "rt_duration_ms t = Fin 0" "rt_retry_count t = 0"
  proof
    show "r = bind_res (mk_trace \<lparr>rt_trace_id = cx_trace_id cx, rt_span_id = u, rt_run_id = cx_run_id cx,
            rt_node_id = context_node_id cx (cl_cell_id c), rt_cell_id = mf_cell_id (cl_manifest c),
            rt_formula_version = mf_formula_version (cl_manifest c), rt_status = TFailed,
            rt_started_at = ts, rt_finished_at = ts, rt_duration_ms = Fin 0,
            rt_schema_version = ''cell_runtime_trace.v1'', rt_plan_id = cx_plan_id cx,
            rt_implementation_id = None, rt_service_id = None, rt_runtime = None, rt_retry_count = 0,
            rt_error = Some (ex_msg e), rt_parent_span_id = None,
            rt_metadata = dict_merge (dict_merge
              [(''executor'', PStr ''failure_controlled_executor_v0.1''), (''execution_phase'', PStr phase),
               (''planned_binding_id'', opt_binding bd_binding_id cx),
               (''planned_implementation_id'', opt_binding bd_implementation_id cx),
               (''planned_service_id'', opt_binding bd_service_id cx),
               (''planned_runtime'', opt_binding bd_runtime cx)]
              (cell_input_trace_metadata cx)) md\<rparr>) (\<lambda>t. mk_outcome \<lparr>oc_trace = t, oc_result = None,
      oc_error = Some e, oc_prior_traces = [], oc_control_record = None\<rparr>)"
      using assms unfolding boundary_failure_def n u Let_def prod.case by (rule prod.inject[THEN iffD1, THEN conjunct1, symmetric])
  qed simp_all
  let ?oc = "\<lparr>oc_trace = t, oc_result = None, oc_error = Some e, oc_prior_traces = [], oc_control_record = None\<rparr>"
  have tok: "trace_ok t" using t by (simp add: trace_ok_def)
  have ok: "outcome_ok ?oc" using t by (simp add: outcome_ok_def runtime_traces_def)
  have "r = Inr ?oc" using t(1) tok ok by (simp add: bind_res_eq_Inr mk_trace_Inr mk_outcome_Inr)
  moreover have "good_outcome used w w' ?oc"
    using \<open>u \<in> used w2 - used w\<close> tok ok t(2) w' by (simp add: good_outcome_def runtime_traces_def)
  ultimately show "\<exists>oc. r = Inr oc \<and> good_outcome used w w' oc \<and> oc_error oc = Some e" by auto
  show "le w w'" using step_uuid[OF step_now[OF le_refl n] u] w' by simp
qed

lemma dispatch_ok:
  assumes X: "fx_env X = E" "executor_ok le used (ex_execute (fx_delegate X))"
    and steps: "cell_steps le c" "signal_steps le cx"
    and d: "dispatch X c rq cx ch w = (r, w')"
  shows "le w w'" "\<exists>oc. r = Inr oc \<and> good_outcome used w w' oc"
proof -
  obtain ret w1 where ex: "ex_execute (fx_delegate X) c rq cx ch w = (ret, w1)"
    by (cases "ex_execute (fx_delegate X) c rq cx ch w")
  from X(2) steps ex have le1: "le w w1"
    and good: "\<And>oc. ret = ExOutcome oc \<Longrightarrow> good_outcome used w w1 oc"
    unfolding executor_ok_def by blast+
  have fail: "le w w' \<and> (\<exists>oc. r = Inr oc \<and> good_outcome used w w' oc)"
    if "boundary_failure E c cx e ph md w1 = (r, w')" for e ph md
    using boundary_failure_ok[OF that] good_outcome_le[OF _ le1 le_refl] le_trans[OF le1] by blast
  have "le w w' \<and> (\<exists>oc. r = Inr oc \<and> good_outcome used w w' oc)"
  proof (cases ret)
    case (ExRaised e)
    show ?thesis
    proof (cases "isinstance_exc e CellExecutionError")
      case True
      with ExRaised d ex X(1) show ?thesis by (intro fail) (simp add: dispatch_def Let_def)
    next
      case False
      with ExRaised d ex X(1) show ?thesis by (intro fail) (simp add: dispatch_def Let_def)
    qed
  next
    case (ExOutcome oc)
    with d ex good le1 show ?thesis by (auto simp: dispatch_def)
  next
    case (ExOther t)
    with d ex X(1) show ?thesis by (intro fail) (auto simp: dispatch_def Let_def)
  qed
  then show "le w w'" "\<exists>oc. r = Inr oc \<and> good_outcome used w w' oc" by blast+
qed

lemma step_deadline:
  assumes "signal_steps le cx" "after_deadline L cx d oc w = (r, w')"
  shows "le w w'"
proof -
  obtain x wc where xc: "is_canceled cx w = (x, wc)" by (cases "is_canceled cx w")
  have "le w wc" by (rule step_canceled[OF assms(1) le_refl xc])
  with assms(2) xc le_refl show ?thesis
    by (auto simp: after_deadline_def Let_def split: if_splits)
qed

lemma execute_attempt_ok:
  assumes X: "fx_env X = E" "executor_ok le used (ex_execute (fx_delegate X))"
      "admission_steps le (fx_admission X)"
    and steps: "cell_steps le c" "signal_steps le cx"
    and ex: "execute_attempt X c rq cx ch w = (r, w')"
  shows "le w w'" "\<exists>oc d. r = Inr (oc, d) \<and> good_outcome used w w' oc \<and> fnonneg d"
proof -
  let ?goal = "le w w' \<and> (\<exists>oc d. r = Inr (oc, d) \<and> good_outcome used w w' oc \<and> fnonneg d)"
  obtain can w1 where can: "is_canceled cx w = (can, w1)" by (cases "is_canceled cx w")
  have le1: "le w w1" by (rule step_canceled[OF steps(2) le_refl can])
  have boundary: ?goal
    if "(let (r, w') = boundary_failure E c cx e ph md wx in (bind_res r (\<lambda>oc. Inr (oc, Fin 0)), w')) = (r, w')"
      "le w wx" for e ph md wx
  proof -
    obtain rb wb where b: "boundary_failure E c cx e ph md wx = (rb, wb)"
      by (cases "boundary_failure E c cx e ph md wx")
    from boundary_failure_ok[OF b] obtain oc where "rb = Inr oc" "good_outcome used wx wb oc" "le wx wb" by blast
    moreover from this have "good_outcome used w wb oc" "le w wb"
      using good_outcome_le[OF _ that(2) le_refl] le_trans[OF that(2)] by blast+
    ultimately show ?thesis using that(1) b by (auto simp: fnonneg_def)
  qed
  have ?goal
  proof (cases can)
    case True
    with ex can X(1) show ?thesis by (intro boundary[OF _ le1]) (simp add: execute_attempt_def)
  next
    case False
    obtain acq w2 where acq: "ad_try_acquire (fx_admission X) (the (cx_binding cx)) w1 = (acq, w2)"
      by (cases "ad_try_acquire (fx_admission X) (the (cx_binding cx)) w1")
    have le2: "le w w2" by (rule step_acquire[OF X(3) le1 acq])
    show ?thesis
    proof (cases acq)
      case (Inl e)
      with False ex can acq X(1) show ?thesis by (intro boundary[OF _ le2]) (simp add: execute_attempt_def)
    next
      case (Inr lo)
      show ?thesis
      proof (cases lo)
        case None
        with Inr False ex can acq X(1) show ?thesis
          by (intro boundary[OF _ le2]) (simp add: execute_attempt_def)
      next
        case (Some l)
        obtain p1 w3 where p1: "env_perf E w2 = (p1, w3)" by (cases "env_perf E w2")
        obtain disp w4 where disp: "dispatch X c rq cx ch w3 = (disp, w4)" by (cases "dispatch X c rq cx ch w3")
        obtain rel w5 where rel: "ad_release (fx_admission X) l w4 = (rel, w5)"
          by (cases "ad_release (fx_admission X) l w4")
        obtain p2 w6 where p2: "env_perf E w5 = (p2, w6)" by (cases "env_perf E w5")
        have le3: "le w w3" by (rule step_perf[OF le2 p1])
        from dispatch_ok[OF X(1,2) steps disp] obtain oc where le34: "le w3 w4"
          and oc: "disp = Inr oc" "good_outcome used w3 w4 oc" by blast
        have le45: "le w4 w5" by (rule step_release[OF X(3) le_refl rel])
        have le36: "le w3 w6" by (rule step_perf[OF le_trans[OF le34 le45] p2])
        have le46: "le w4 w6" by (rule step_perf[OF le45 p2])
        have dur: "fnonneg (effective_duration (elapsed_ms p1 p2) oc)" (is "fnonneg ?d")
          by (intro effective_duration_nonneg elapsed_ok[OF p1 le_trans[OF le34 le45] p2])
        have g6: "good_outcome used w w6 oc" by (rule good_outcome_le[OF oc(2) le3 le46])
        obtain oc' where oc': "after_release rel oc = Inr oc'" "good_outcome used w w6 oc'"
          using good_replace_error[OF g6] g6 by (cases rel) (auto simp: after_release_def)
        obtain fin w7 where fin: "after_deadline (fx_lib X) cx ?d oc' w6 = (fin, w7)"
          by (cases "after_deadline (fx_lib X) cx ?d oc' w6")
        have le67: "le w6 w7" by (rule step_deadline[OF steps(2) fin])
        obtain oc'' where oc'': "fin = Inr oc''" "good_outcome used w w6 oc''"
          using after_deadline_cases[OF fin] good_replace_error[OF oc'(2)] oc'(2) by metis
        have "(r, w') = (Inr (oc'', ?d), w7)"
          using ex can False acq Inr Some p1 disp rel p2 oc(1) oc'(1) fin oc''(1)
          by (simp add: execute_attempt_def X(1) Let_def)
        then show ?thesis
          using dur good_outcome_le[OF oc''(2) le_refl le67] le_trans[OF le_trans[OF le3 le36] le67] by simp
      qed
    qed
  qed
  then show "le w w'" "\<exists>oc d. r = Inr (oc, d) \<and> good_outcome used w w' oc \<and> fnonneg d" by blast+
qed

end

subsection \<open>The invariant of the loops\<close>

definition allows :: "attempt \<Rightarrow> bool" where
  "allows a \<longleftrightarrow> map_of (ca_metadata a) ''allows_fallback'' = Some (PBool True)"

text \<open>When an attempt is followed by another one.\<close>

definition continues :: "attempt \<Rightarrow> attempt \<Rightarrow> bool" where
  "continues a a' \<longleftrightarrow> ca_failure_kind a \<noteq> None \<and>
     (if ca_fallback_index a' = ca_fallback_index a then ca_retryable a else allows a)"

text \<open>The next attempt is number \<open>bn\<close> on binding \<open>i\<close>, and the last attempt calls for it.\<close>

definition next_is :: "attempt list \<Rightarrow> int \<Rightarrow> int \<Rightarrow> bool" where
  "next_is as i bn \<longleftrightarrow> (if as = [] then i = 0 \<and> bn = 1 else
     ca_failure_kind (last as) \<noteq> None \<and>
     (ca_fallback_index (last as) = i \<and> bn = ca_binding_attempt_number (last as) + 1 \<and> ca_retryable (last as)
      \<or> ca_fallback_index (last as) = i - 1 \<and> bn = 1 \<and> allows (last as)))"

text \<open>How attempt \<open>a\<close> on binding \<open>b\<close> failed, if it did: the classification it records.\<close>

definition classified :: "(exc \<Rightarrow> classification) \<Rightarrow> binding \<Rightarrow> attempt \<Rightarrow> bool" where
  "classified classify b a \<longleftrightarrow> (case ca_failure_kind a of None \<Rightarrow> True
     | Some k \<Rightarrow> (\<exists>e. effective_classification (classify e) b
         = \<lparr>cls_kind = k, cls_retryable = ca_retryable a, cls_allows_fallback = allows a\<rparr>))"

definition attempt_for :: "('w, 'l) control_executor \<Rightarrow> string \<Rightarrow> exec_node \<Rightarrow> binding list \<Rightarrow> attempt \<Rightarrow> bool" where
  "attempt_for X key n bs a \<longleftrightarrow> attempt_ok a \<and> ca_idempotency_key a = key
     \<and> ca_attempt_id a = stable_json_hash (fx_lib X) (attempt_payload key (ca_binding_id a) (ca_attempt_number a))
     \<and> ca_binding_attempt_number a \<le> binding_max_attempts n (bs ! nat (ca_fallback_index a))
     \<and> classified (fx_classify X) (bs ! nat (ca_fallback_index a)) a"

definition attempts_inv :: "('w, 'l) control_executor \<Rightarrow> string \<Rightarrow> exec_node \<Rightarrow> binding list \<Rightarrow> attempt list \<Rightarrow> bool" where
  "attempts_inv X key n bs as \<longleftrightarrow> map ca_attempt_number as = map int [1..<length as + 1]
     \<and> (\<forall>a \<in> set as. attempt_for X key n bs a) \<and> follows (map bd_binding_id bs) 0 0 as
     \<and> successively continues as \<and> (as \<noteq> [] \<longrightarrow> ca_fallback_index (hd as) = 0)"

definition traces_inv :: "('w \<Rightarrow> string set) \<Rightarrow> 'w \<Rightarrow> 'w \<Rightarrow> loop_state \<Rightarrow> bool" where
  "traces_inv used w0 w st \<longleftrightarrow>
     (\<forall>t \<in> set (ls_traces st). trace_ok t) \<and> distinct (map rt_span_id (ls_traces st))
     \<and> set (map rt_span_id (ls_traces st)) \<subseteq> used w - used w0
     \<and> (\<forall>a \<in> set (ls_attempts st). \<exists>s \<in> set (map rt_span_id (ls_traces st)). ca_trace_span_id a = Some s)
     \<and> (ls_attempts st \<noteq> [] \<longrightarrow> (\<exists>oc. ls_final st = Some oc \<and> outcome_ok oc \<and> ls_traces st \<noteq> []
          \<and> last (ls_traces st) = oc_trace oc
          \<and> ca_trace_span_id (last (ls_attempts st)) = Some (rt_span_id (oc_trace oc))
          \<and> (ca_failure_kind (last (ls_attempts st)) = None \<longleftrightarrow> oc_error oc = None)))"

lemma traces_inv_last:
  "traces_inv used w0 w st \<Longrightarrow> ls_attempts st \<noteq> [] \<Longrightarrow>
   \<exists>oc. ls_final st = Some oc \<and> outcome_ok oc \<and> ls_traces st \<noteq> []
     \<and> last (ls_traces st) = oc_trace oc
     \<and> ca_trace_span_id (last (ls_attempts st)) = Some (rt_span_id (oc_trace oc))
     \<and> (ca_failure_kind (last (ls_attempts st)) = None \<longleftrightarrow> oc_error oc = None)"
  by (simp add: traces_inv_def)

lemma traces_inv_spans:
  "traces_inv used w0 w st \<Longrightarrow> a \<in> set (ls_attempts st) \<Longrightarrow>
   \<exists>s \<in> set (map rt_span_id (ls_traces st)). ca_trace_span_id a = Some s"
  unfolding traces_inv_def by (elim conjE) (erule bspec)

lemma attempts_inv_snoc:
  assumes inv: "attempts_inv X key n bs as"
    and nxt: "next_is as i bn" "0 \<le> i" "i < int (length bs)"
    and a: "attempt_for X key n bs a" "ca_attempt_number a = int (length as) + 1" "ca_fallback_index a = i"
      "ca_binding_attempt_number a = bn" "ca_binding_id a = bd_binding_id (bs ! nat i)"
  shows "attempts_inv X key n bs (as @ [a])"
proof -
  have "map ca_attempt_number (as @ [a]) = map int [1..<length (as @ [a]) + 1]"
    using inv a(2) by (simp add: attempts_inv_def del: upt_Suc) (simp add: upt_Suc_append)
  moreover have "\<forall>x \<in> set (as @ [a]). attempt_for X key n bs x"
    using inv a(1) by (auto simp: attempts_inv_def)
  moreover have "follows (map bd_binding_id bs) 0 0 (as @ [a])"
    using inv nxt a(3-5) by (auto simp: attempts_inv_def follows_snoc next_is_def nth_map)
  moreover have "successively continues (as @ [a])"
    using inv nxt(1) a(3) by (auto simp: attempts_inv_def successively_append_iff next_is_def continues_def)
  moreover have "ca_fallback_index (hd (as @ [a])) = 0"
    using inv nxt(1) a(3) by (cases as) (auto simp: attempts_inv_def next_is_def)
  ultimately show ?thesis unfolding attempts_inv_def by blast
qed

text \<open>What one round of the inner loop adds.\<close>

lemma attempt_record_ok:
  assumes "outcome_ok oc" "fnonneg d" "1 \<le> n" "1 \<le> bn" "0 \<le> i" "cls = None \<longleftrightarrow> oc_error oc = None"
  shows "\<exists>a. attempt_record oc b aid key n bn i d cls timeout = Inr a \<and> attempt_ok a
    \<and> ca_attempt_id a = aid \<and> ca_idempotency_key a = key \<and> ca_attempt_number a = n
    \<and> ca_binding_attempt_number a = bn \<and> ca_fallback_index a = i \<and> ca_binding_id a = bd_binding_id b
    \<and> ca_failure_kind a = map_option cls_kind cls
    \<and> ca_retryable a = (case cls of None \<Rightarrow> False | Some k \<Rightarrow> cls_retryable k)
    \<and> allows a = (case cls of None \<Rightarrow> False | Some k \<Rightarrow> cls_allows_fallback k)
    \<and> ca_trace_span_id a = Some (rt_span_id (oc_trace oc))"
  using assms fnonneg_not_flt[OF assms(2)]
  by (auto simp: attempt_record_def mk_attempt_Inr attempt_ok_def allows_def)

text \<open>A well-formed failure-control executor in a world, and the number of attempts it may make.\<close>

definition control_ok :: "'w env \<Rightarrow> ('w \<Rightarrow> 'w \<Rightarrow> bool) \<Rightarrow> ('w \<Rightarrow> string set) \<Rightarrow> ('w, 'l) control_executor \<Rightarrow> bool" where
  "control_ok E le used X \<longleftrightarrow> fx_env X = E \<and> world E le used
     \<and> executor_ok le used (ex_execute (fx_delegate X)) \<and> admission_steps le (fx_admission X)"

lemma control_ok_world: "control_ok E le used X \<Longrightarrow> world E le used"
  by (simp add: control_ok_def)

definition attempt_bound :: "exec_node \<Rightarrow> binding list \<Rightarrow> nat" where
  "attempt_bound n bs = sum_list (map (\<lambda>b. nat (binding_max_attempts n b)) bs)"

context world
begin

lemma traces_inv_snoc:
  assumes inv: "traces_inv used w0 w st" and le: "le w0 w"
    and good: "good_outcome used w w' oc" and le': "le w w'"
    and a: "ca_trace_span_id a = Some (rt_span_id (oc_trace oc))"
      "ca_failure_kind a = None \<longleftrightarrow> oc_error oc = None"
  shows "traces_inv used w0 w' \<lparr>ls_attempts = ls_attempts st @ [a],
     ls_traces = ls_traces st @ runtime_traces oc, ls_final = Some oc\<rparr>"
proof -
  have mono: "used w0 \<subseteq> used w" "used w \<subseteq> used w'" using used_mono le le' by blast+
  have new: "set (map rt_span_id (runtime_traces oc)) \<subseteq> used w' - used w" "outcome_ok oc"
    "\<forall>t \<in> set (runtime_traces oc). trace_ok t"
    using good by (simp_all add: good_outcome_def)
  have old: "set (map rt_span_id (ls_traces st)) \<subseteq> used w - used w0" using inv by (simp add: traces_inv_def)
  have dist: "distinct (map rt_span_id (ls_traces st @ runtime_traces oc))"
    using inv old new(1,2) unfolding traces_inv_def outcome_ok_def by (simp add: distinct_append) blast
  have sub: "set (map rt_span_id (ls_traces st @ runtime_traces oc)) \<subseteq> used w' - used w0"
    using old new(1) mono by auto
  have last: "last (ls_traces st @ runtime_traces oc) = oc_trace oc" "oc_trace oc \<in> set (runtime_traces oc)"
    by (simp_all add: runtime_traces_def)
  show ?thesis
    using inv new(2,3) dist sub last a unfolding traces_inv_def by (auto simp: runtime_traces_def)
qed

lemma attempt_once_ok:
  assumes X: "control_ok E le used X" and steps: "cell_steps le c" "signal_steps le cx"
    and inv: "attempts_inv X key n bs (ls_attempts st)" "traces_inv used w0 w st" "le w0 w"
    and nxt: "next_is (ls_attempts st) i bn" "0 \<le> i" "i < int (length bs)" "b = bs ! nat i"
      "1 \<le> bn" "bn \<le> binding_max_attempts n b"
    and once: "attempt_once X c rq cx ch key i b timeout bn st w = (r, w')"
  shows "\<exists>st' cls. r = Inr (st', cls) \<and> le w w'
     \<and> attempts_inv X key n bs (ls_attempts st') \<and> traces_inv used w0 w' st'
     \<and> length (ls_attempts st') = length (ls_attempts st) + 1
     \<and> ca_fallback_index (last (ls_attempts st')) = i \<and> ca_binding_attempt_number (last (ls_attempts st')) = bn
     \<and> ca_retryable (last (ls_attempts st')) = (case cls of None \<Rightarrow> False | Some k \<Rightarrow> cls_retryable k)
     \<and> (ca_failure_kind (last (ls_attempts st')) = None \<longleftrightarrow> cls = None)
     \<and> falls_back X b st' = allows (last (ls_attempts st'))
     \<and> (allows (last (ls_attempts st')) \<longrightarrow> cls \<noteq> None)"
proof -
  let ?m = "int (length (ls_attempts st)) + 1"
  let ?aid = "stable_json_hash (fx_lib X) (attempt_payload key (bd_binding_id b) ?m)"
  have aid: "execution_attempt_id (fx_lib X) key (bd_binding_id b) ?m = Inr ?aid"
    by (simp add: execution_attempt_id_def)
  obtain re w1 where ex: "execute_attempt X c rq (attempt_context cx b key ?aid ?m timeout) ch w = (re, w1)"
    by (cases "execute_attempt X c rq (attempt_context cx b key ?aid ?m timeout) ch w")
  have X': "fx_env X = E" "executor_ok le used (ex_execute (fx_delegate X))" "admission_steps le (fx_admission X)"
    using X by (simp_all add: control_ok_def)
  have sig: "signal_steps le (attempt_context cx b key ?aid ?m timeout)" using steps(2) by simp
  from execute_attempt_ok[OF X' steps(1) sig ex] obtain oc d where le1: "le w w1"
    and re: "re = Inr (oc, d)" and oc: "good_outcome used w w1 oc" "fnonneg d" by blast
  define cls where "cls = map_option (\<lambda>e. effective_classification (fx_classify X e) b) (oc_error oc)"
  obtain oc' where oc': "annotate_attempt_outcome oc ?aid key ?m bn i timeout (bn > 1) cls = Inr oc'"
    "good_outcome used w w1 oc'" "oc_error oc' = oc_error oc"
    using good_annotate[OF oc(1)] by metis
  have cls: "cls = None \<longleftrightarrow> oc_error oc' = None" by (simp add: cls_def oc'(3))
  have ok': "outcome_ok oc'" using oc'(2) by (simp add: good_outcome_def)
  from attempt_record_ok[OF ok' oc(2) _ nxt(5,2) cls, of ?m b ?aid key timeout] obtain a where
    a: "attempt_record oc' b ?aid key ?m bn i d cls timeout = Inr a" "attempt_ok a" "ca_attempt_id a = ?aid"
      "ca_idempotency_key a = key" "ca_attempt_number a = ?m" "ca_binding_attempt_number a = bn"
      "ca_fallback_index a = i" "ca_binding_id a = bd_binding_id b" "ca_failure_kind a = map_option cls_kind cls"
      "ca_retryable a = (case cls of None \<Rightarrow> False | Some k \<Rightarrow> cls_retryable k)"
      "allows a = (case cls of None \<Rightarrow> False | Some k \<Rightarrow> cls_allows_fallback k)"
      "ca_trace_span_id a = Some (rt_span_id (oc_trace oc'))"
    by auto
  let ?st = "\<lparr>ls_attempts = ls_attempts st @ [a], ls_traces = ls_traces st @ runtime_traces oc', ls_final = Some oc'\<rparr>"
  have res: "r = Inr (?st, cls)" "w' = w1"
    using once by (simp_all add: attempt_once_def aid ex re cls_def[symmetric] oc'(1) a(1) Let_def)
  have "classified (fx_classify X) b a"
  proof (cases "oc_error oc")
    case (Some e)
    then have "cls = Some (effective_classification (fx_classify X e) b)" by (simp add: cls_def)
    with a(9-11) show ?thesis by (auto simp: classified_def intro!: exI[of _ e])
  qed (use a(9) in \<open>simp add: classified_def cls_def\<close>)
  then have "attempt_for X key n bs a"
    using a nxt by (simp add: attempt_for_def)
  from attempts_inv_snoc[OF inv(1) nxt(1-3) this a(5,7,6)] have 1: "attempts_inv X key n bs (ls_attempts ?st)"
    using a(8) nxt(4) by simp
  have kind: "ca_failure_kind a = None \<longleftrightarrow> oc_error oc' = None" using a(9) cls by simp
  have 2: "traces_inv used w0 w' ?st"
    using traces_inv_snoc[OF inv(2,3) oc'(2) le1 a(12) kind] res(2) by simp
  have 3: "falls_back X b ?st = allows a"
    using a(11) by (auto simp: falls_back_def cls_def oc'(3) split: option.splits)
  show ?thesis
    using res le1 1 2 3 a(6,7,9,10,11)
    by (intro exI[of _ ?st] exI[of _ cls]) (auto split: option.splits)
qed

text \<open>The inner loop: at most \<open>k\<close> further attempts on binding \<open>i\<close>.\<close>

lemma binding_loop_ok:
  assumes X: "control_ok E le used X" and steps: "cell_steps le c" "signal_steps le cx"
    and pos: "0 \<le> i" "i < int (length bs)" "b = bs ! nat i"
  shows "\<lbrakk>attempts_inv X key n bs (ls_attempts st); traces_inv used w0 w st; le w0 w;
      next_is (ls_attempts st) i bn; 1 \<le> bn; bn + int k \<le> binding_max_attempts n b;
      binding_loop X c rq cx ch key i b timeout (Suc k) bn st w = (r, w')\<rbrakk> \<Longrightarrow>
    \<exists>st'. r = Inr st' \<and> le w w' \<and> attempts_inv X key n bs (ls_attempts st')
      \<and> traces_inv used w0 w' st' \<and> ls_attempts st' \<noteq> []
      \<and> length (ls_attempts st') \<le> length (ls_attempts st) + Suc k
      \<and> ca_fallback_index (last (ls_attempts st')) = i
      \<and> falls_back X b st' = allows (last (ls_attempts st'))
      \<and> (allows (last (ls_attempts st')) \<longrightarrow> ca_failure_kind (last (ls_attempts st')) \<noteq> None)"
proof (induction k arbitrary: bn st w)
  case 0
  obtain ro w1 where once: "attempt_once X c rq cx ch key i b timeout bn st w = (ro, w1)"
    by (cases "attempt_once X c rq cx ch key i b timeout bn st w")
  from attempt_once_ok[OF X steps 0(1-4) pos 0(5) _ once] 0(6) obtain st' cls where
    ro: "ro = Inr (st', cls)" and le1: "le w w1" and st': "attempts_inv X key n bs (ls_attempts st')"
      "traces_inv used w0 w1 st'" "length (ls_attempts st') = length (ls_attempts st) + 1"
      "ca_fallback_index (last (ls_attempts st')) = i"
      "falls_back X b st' = allows (last (ls_attempts st'))"
      "ca_failure_kind (last (ls_attempts st')) = None \<longleftrightarrow> cls = None"
      "allows (last (ls_attempts st')) \<longrightarrow> cls \<noteq> None"
    by auto
  have "(r, w') = (Inr st', w1)" using 0(7) once ro by (simp split: if_splits)
  moreover have "ls_attempts st' \<noteq> []" using st'(3) by auto
  ultimately show ?case using le1 st' by auto
next
  case (Suc k)
  obtain ro w1 where once: "attempt_once X c rq cx ch key i b timeout bn st w = (ro, w1)"
    by (cases "attempt_once X c rq cx ch key i b timeout bn st w")
  from attempt_once_ok[OF X steps Suc.prems(1-4) pos Suc.prems(5) _ once] Suc.prems(6) obtain st' cls where
    ro: "ro = Inr (st', cls)" and le1: "le w w1" and st': "attempts_inv X key n bs (ls_attempts st')"
      "traces_inv used w0 w1 st'" "length (ls_attempts st') = length (ls_attempts st) + 1"
      "ca_fallback_index (last (ls_attempts st')) = i" "ca_binding_attempt_number (last (ls_attempts st')) = bn"
      "ca_retryable (last (ls_attempts st')) = (case cls of None \<Rightarrow> False | Some k \<Rightarrow> cls_retryable k)"
      "ca_failure_kind (last (ls_attempts st')) = None \<longleftrightarrow> cls = None"
      "falls_back X b st' = allows (last (ls_attempts st'))"
      "allows (last (ls_attempts st')) \<longrightarrow> cls \<noteq> None"
    by auto
  have ne: "ls_attempts st' \<noteq> []" using st'(3) by auto
  show ?case
  proof (cases "case cls of None \<Rightarrow> False | Some q \<Rightarrow> cls_retryable q")
    case False
    then have "(r, w') = (Inr st', w1)" using Suc.prems(7) once ro by simp
    then show ?thesis using le1 st' ne by auto
  next
    case True
    then have loop: "binding_loop X c rq cx ch key i b timeout (Suc k) (bn + 1) st' w1 = (r, w')"
      using Suc.prems(7) once ro by simp
    have "cls \<noteq> None" using True by (cases cls) auto
    then have nxt: "next_is (ls_attempts st') i (bn + 1)"
      using True st'(4-7) ne by (simp add: next_is_def)
    have bound: "1 \<le> bn + 1" "bn + 1 + int k \<le> binding_max_attempts n b" using Suc.prems(5,6) by auto
    from Suc.IH[OF st'(1,2) le_trans[OF Suc.prems(3) le1] nxt bound loop] obtain st'' where
      "r = Inr st''" "le w1 w'" "attempts_inv X key n bs (ls_attempts st'')"
      "traces_inv used w0 w' st''" "ls_attempts st'' \<noteq> []"
      "length (ls_attempts st'') \<le> length (ls_attempts st') + Suc k"
      "ca_fallback_index (last (ls_attempts st'')) = i"
      "falls_back X b st'' = allows (last (ls_attempts st''))"
      "allows (last (ls_attempts st'')) \<longrightarrow> ca_failure_kind (last (ls_attempts st'')) \<noteq> None"
      by blast
    then show ?thesis using le_trans[OF le1] st'(3) by auto
  qed
qed

text \<open>The outer loop, over the bindings that are left.\<close>

lemma fallback_loop_ok:
  assumes X: "control_ok E le used X" and steps: "cell_steps le c" "signal_steps le cx"
    and hints: "\<forall>b \<in> set bs. 1 \<le> binding_max_attempts n b"
  shows "\<lbrakk>bs = pre @ rest; i = int (length pre); rest \<noteq> [] \<or> ls_attempts st \<noteq> [];
      attempts_inv X key n bs (ls_attempts st); traces_inv used w0 w st; le w0 w;
      rest \<noteq> [] \<longrightarrow> next_is (ls_attempts st) i 1;
      fallback_loop X c rq cx n ch key i rest st w = (r, w')\<rbrakk> \<Longrightarrow>
    \<exists>st'. r = Inr st' \<and> le w w' \<and> attempts_inv X key n bs (ls_attempts st')
      \<and> traces_inv used w0 w' st' \<and> ls_attempts st' \<noteq> []
      \<and> length (ls_attempts st') \<le> length (ls_attempts st) + attempt_bound n rest"
proof (induction rest arbitrary: pre i st w)
  case Nil
  then show ?case by (auto simp: le_refl)
next
  case (Cons b rest)
  obtain rb w1 where loop: "binding_loop X c rq cx ch key i b (binding_timeout n b)
      (nat (binding_max_attempts n b)) 1 st w = (rb, w1)"
    by (meson surj_pair)
  have pos: "0 \<le> i" "i < int (length bs)" "b = bs ! nat i" using Cons.prems(1,2) by auto
  have max1: "1 \<le> binding_max_attempts n b" using hints Cons.prems(1) by auto
  then obtain k where k: "nat (binding_max_attempts n b) = Suc k" by (cases "nat (binding_max_attempts n b)") auto
  then have kb: "1 + int k \<le> binding_max_attempts n b" by linarith
  have nxt: "next_is (ls_attempts st) i 1" using Cons.prems(7) by simp
  from binding_loop_ok[OF X steps pos Cons.prems(4-6) nxt _ kb loop[unfolded k]] obtain st' where
    rb: "rb = Inr st'" and le1: "le w w1" and st': "attempts_inv X key n bs (ls_attempts st')"
      "traces_inv used w0 w1 st'" "ls_attempts st' \<noteq> []"
      "length (ls_attempts st') \<le> length (ls_attempts st) + Suc k"
      "ca_fallback_index (last (ls_attempts st')) = i"
      "falls_back X b st' = allows (last (ls_attempts st'))"
      "allows (last (ls_attempts st')) \<longrightarrow> ca_failure_kind (last (ls_attempts st')) \<noteq> None"
    by auto
  have len: "length (ls_attempts st') \<le> length (ls_attempts st) + nat (binding_max_attempts n b)"
    using st'(4) k by simp
  show ?case
  proof (cases "falls_back X b st'")
    case False
    then have "(r, w') = (Inr st', w1)" using Cons.prems(8) loop rb by simp
    then show ?thesis using le1 st' len by (auto simp: attempt_bound_def)
  next
    case True
    then have rest: "fallback_loop X c rq cx n ch key (i + 1) rest st' w1 = (r, w')"
      using Cons.prems(8) loop rb by simp
    have nxt': "next_is (ls_attempts st') (i + 1) 1" using True st' by (simp add: next_is_def)
    from Cons.IH[of "pre @ [b]" "i + 1", OF _ _ _ st'(1,2) le_trans[OF Cons.prems(6) le1] _ rest]
      Cons.prems(1,2) st'(3) nxt' obtain st'' where
      "r = Inr st''" "le w1 w'" "attempts_inv X key n bs (ls_attempts st'')"
      "traces_inv used w0 w' st''" "ls_attempts st'' \<noteq> []"
      "length (ls_attempts st'') \<le> length (ls_attempts st') + attempt_bound n rest"
      by auto
    then show ?thesis using le_trans[OF le1] len by (auto simp: attempt_bound_def)
  qed
qed

end

subsection \<open>The record and the outcome\<close>

lemma follows_in_range:
  "follows ids k j as \<Longrightarrow> 0 \<le> k \<Longrightarrow> a \<in> set as \<Longrightarrow>
   0 \<le> ca_fallback_index a \<and> ca_fallback_index a < int (length ids) \<and> ca_binding_id a \<in> set ids"
proof (induction as arbitrary: k j)
  case (Cons x as)
  then have x: "0 \<le> ca_fallback_index x" "ca_fallback_index x < int (length ids)"
    "ca_binding_id x = ids ! nat (ca_fallback_index x)"
    "follows ids (ca_fallback_index x) (ca_binding_attempt_number x) as" by auto
  show ?case
  proof (cases "a = x")
    case True
    with x show ?thesis by simp
  next
    case False
    with Cons.prems(3) have "a \<in> set as" by simp
    from Cons.IH[OF x(4,1) this] show ?thesis .
  qed
qed simp

text \<open>
  No two attempts of one execution may collide under SHA-256: the ids of the attempts \<open>1..N\<close> on
  the bindings \<open>ids\<close> under one key.
\<close>

definition attempt_ids_injective :: "stdlib \<Rightarrow> string \<Rightarrow> string list \<Rightarrow> nat \<Rightarrow> bool" where
  "attempt_ids_injective L key ids N \<longleftrightarrow>
     inj_on (\<lambda>(b, n). stable_json_hash L (attempt_payload key b n)) (set ids \<times> {1..int N})"

lemma attempt_ids_distinct:
  assumes inv: "attempts_inv X key n bs as" and len: "length as \<le> N"
    and inj: "attempt_ids_injective (fx_lib X) key (map bd_binding_id bs) N"
  shows "distinct (map ca_attempt_id as)"
proof -
  let ?h = "\<lambda>(b, n). stable_json_hash (fx_lib X) (attempt_payload key b n)"
  let ?p = "\<lambda>a. (ca_binding_id a, ca_attempt_number a)"
  have eq: "map ca_attempt_id as = map ?h (map ?p as)"
    using inv by (auto simp: attempts_inv_def attempt_for_def)
  have dist: "distinct (map ?p as)"
  proof -
    have "map snd (map ?p as) = map int [1..<length as + 1]"
      using inv by (simp add: attempts_inv_def comp_def del: upt_Suc)
    then have "distinct (map snd (map ?p as))" by (simp add: distinct_map del: upt_Suc)
    then show ?thesis unfolding distinct_map by blast
  qed
  have sub: "set (map ?p as) \<subseteq> set (map bd_binding_id bs) \<times> {1..int N}"
  proof
    fix x assume "x \<in> set (map ?p as)"
    then obtain a where a: "a \<in> set as" "x = ?p a" by auto
    have "follows (map bd_binding_id bs) 0 0 as" using inv by (simp add: attempts_inv_def)
    from follows_in_range[OF this _ a(1)] have bid: "ca_binding_id a \<in> set (map bd_binding_id bs)" by simp
    have "ca_attempt_number a \<in> set (map ca_attempt_number as)" using a(1) by simp
    moreover have "map ca_attempt_number as = map int [1..<length as + 1]"
      using inv by (simp add: attempts_inv_def del: upt_Suc)
    ultimately have "ca_attempt_number a \<in> set (map int [1..<length as + 1])" by (simp only:)
    then have "ca_attempt_number a \<in> {1..int N}" using len by auto
    then show "x \<in> set (map bd_binding_id bs) \<times> {1..int N}" using a(2) bid by simp
  qed
  have "inj_on ?h (set (map ?p as))"
    by (rule inj_on_subset[OF inj[unfolded attempt_ids_injective_def] sub])
  with dist show ?thesis unfolding eq by (simp only: distinct_map[of ?h])
qed

lemma attempts_inv_start:
  assumes "attempts_inv X key n bs as" "as \<noteq> []"
  shows "ca_fallback_index (hd as) = 0 \<and> Max (set (map ca_fallback_index as)) = ca_fallback_index (last as)"
proof -
  have f: "follows (map bd_binding_id bs) 0 0 as" and z: "ca_fallback_index (hd as) = 0"
    using assms by (auto simp: attempts_inv_def)
  have "sorted (map ca_fallback_index as)" using follows_sorted[OF f] by simp
  then have "Max (set (map ca_fallback_index as)) = last (map ca_fallback_index as)"
    using assms(2) by (intro sorted_Max_last) auto
  then show ?thesis using z assms(2) by (simp add: last_map)
qed

text \<open>A context in which the executor can run: the checks at its start pass.\<close>

definition planned_context :: "'w exec_context \<Rightarrow> string \<Rightarrow> exec_node \<Rightarrow> binding \<Rightarrow> bool" where
  "planned_context cx p n b \<longleftrightarrow> cx_plan_id cx = Some p \<and> cx_node cx = Some n \<and> cx_binding cx = Some b
     \<and> map bd_binding_id (cx_fallback_bindings cx) = en_fallback_binding_ids n
     \<and> distinct (map bd_binding_id (b # cx_fallback_bindings cx))
     \<and> (\<forall>x \<in> set (b # cx_fallback_bindings cx). 1 \<le> binding_max_attempts n x)"

lemma control_record_accepted:
  assumes inv: "attempts_inv X key n bs as" "as \<noteq> []" "length as \<le> N"
    and inj: "attempt_ids_injective (fx_lib X) key (map bd_binding_id bs) N"
    and cx: "planned_context cx p n b" "bs = b # cx_fallback_bindings cx"
    and rec: "control_record_of X cx key as started w = (r, w')"
  shows "\<exists>rec. r = Inr rec \<and> control_record_ok rec \<and> ec_attempts rec = as \<and> ec_idempotency_key rec = key
     \<and> ec_control_id rec = execution_control_id (fx_lib X) key \<and> ec_run_id rec = cx_run_id cx
     \<and> ec_plan_id rec = p \<and> ec_node_id rec = en_node_id n \<and> ec_primary_binding_id rec = bd_binding_id b
     \<and> ec_fallback_binding_ids rec = map bd_binding_id (cx_fallback_bindings cx)"
proof -
  obtain fin w1 where now: "env_now (fx_env X) w = (fin, w1)" by (cases "env_now (fx_env X) w")
  define rec where "rec =
        \<lparr>ec_control_id = execution_control_id (fx_lib X) key, ec_idempotency_key = key,
         ec_run_id = cx_run_id cx, ec_plan_id = or_empty (cx_plan_id cx),
         ec_node_id = (case cx_node cx of None \<Rightarrow> [] | Some n \<Rightarrow> en_node_id n),
         ec_primary_binding_id = (case cx_binding cx of None \<Rightarrow> [] | Some b \<Rightarrow> bd_binding_id b),
         ec_fallback_binding_ids = map bd_binding_id (cx_fallback_bindings cx),
         ec_status = final_status (ca_status (last as)), ec_attempts = as,
         ec_retry_count = int (length (filter ca_is_retry as)),
         ec_fallback_count = Max (set (map ca_fallback_index as)),
         ec_final_binding_id = ca_binding_id (last as), ec_final_failure_kind = ca_failure_kind (last as),
         ec_started_at = started, ec_finished_at = fin,
         ec_schema_version = ''execution_control_record.v1'',
         ec_metadata = [(''executor'', PStr ''failure_controlled_executor_v0.1''),
           (''delegate_executor'', PStr (ex_name (fx_delegate X))),
           (''admission_controller'', PStr (ad_name (fx_admission X))),
           (''failure_classifier'', PStr (fx_classifier_name X))]\<rparr>"
  have r: "r = mk_control_record rec"
    using rec unfolding control_record_of_def now Let_def prod.case rec_def prod.inject by simp
  have c: "cx_plan_id cx = Some p" "cx_node cx = Some n" "cx_binding cx = Some b"
    "distinct (map bd_binding_id bs)" using cx unfolding planned_context_def by blast+
  have "control_record_ok rec"
    using inv(1,2) attempt_ids_distinct[OF inv(1,3) inj] attempts_inv_start[OF inv(1,2)] c cx(2)
    by (auto simp: control_record_ok_def rec_def attempts_inv_def attempt_for_def Let_def simp del: upt_Suc)
  moreover have "r = Inr rec" using r calculation by (simp add: mk_control_record_Inr)
  moreover have "ec_attempts rec = as \<and> ec_idempotency_key rec = key
     \<and> ec_control_id rec = execution_control_id (fx_lib X) key \<and> ec_run_id rec = cx_run_id cx
     \<and> ec_plan_id rec = p \<and> ec_node_id rec = en_node_id n \<and> ec_primary_binding_id rec = bd_binding_id b
     \<and> ec_fallback_binding_ids rec = map bd_binding_id (cx_fallback_bindings cx)"
    using c by (simp add: rec_def or_empty_def)
  ultimately show ?thesis by blast
qed

context world
begin

text \<open>The whole of \<open>execute\<close> in a planned context.\<close>

lemma control_execute_ok:
  assumes X: "control_ok E le used X" and steps: "cell_steps le c" "signal_steps le cx"
    and cx: "planned_context cx p n b" and key: "context_key (fx_lib X) cx = Inr key"
    and bs: "bs = b # cx_fallback_bindings cx"
    and inj: "attempt_ids_injective (fx_lib X) key (map bd_binding_id bs) (attempt_bound n bs)"
    and ex: "control_execute X c rq cx ch w = (ret, w')"
  shows "\<exists>oc rec. ret = ExOutcome oc \<and> le w w' \<and> good_outcome used w w' oc
     \<and> oc_control_record oc = Some rec \<and> control_record_ok rec
     \<and> validate_execution_control_record (fx_lib X) rec cx (runtime_traces oc) = Inr ()
     \<and> attempts_inv X key n bs (ec_attempts rec)
     \<and> length (ec_attempts rec) \<le> attempt_bound n bs
     \<and> (ec_status rec = CSucceeded \<longleftrightarrow> oc_error oc = None)"
proof -
  have c: "cx_plan_id cx = Some p" "cx_node cx = Some n" "cx_binding cx = Some b"
    "map bd_binding_id (cx_fallback_bindings cx) = en_fallback_binding_ids n"
    "\<forall>x \<in> set bs. 1 \<le> binding_max_attempts n x"
    using cx bs by (simp_all add: planned_context_def)
  let ?st0 = "\<lparr>ls_attempts = [], ls_traces = [], ls_final = None\<rparr>"
  have E: "fx_env X = E" using X by (simp add: control_ok_def)
  obtain started w1 where now: "env_now E w = (started, w1)" by (cases "env_now E w")
  obtain lr w2 where loop: "fallback_loop X c rq cx n ch key 0 bs ?st0 w1 = (lr, w2)"
    by (meson surj_pair)
  have le1: "le w w1" by (rule step_now[OF le_refl now])
  have start: "attempts_inv X key n bs (ls_attempts ?st0)" "traces_inv used w w1 ?st0"
    "next_is (ls_attempts ?st0) 0 1"
    by (simp_all add: attempts_inv_def traces_inv_def next_is_def)
  from fallback_loop_ok[OF X steps c(5), of "[]" bs 0 ?st0 key w w1, OF _ _ _ start(1,2) le1 _ loop]
    start(3) bs obtain st where lr: "lr = Inr st" and le2: "le w1 w2"
    and inv: "attempts_inv X key n bs (ls_attempts st)" "traces_inv used w w2 st" "ls_attempts st \<noteq> []"
      "length (ls_attempts st) \<le> attempt_bound n bs"
    by auto
  from traces_inv_last[OF inv(2,3)] obtain oc where oc: "ls_final st = Some oc" "outcome_ok oc" "ls_traces st \<noteq> []"
    "last (ls_traces st) = oc_trace oc"
    "ca_trace_span_id (last (ls_attempts st)) = Some (rt_span_id (oc_trace oc))"
    "ca_failure_kind (last (ls_attempts st)) = None \<longleftrightarrow> oc_error oc = None"
    by (elim exE conjE) (rule that; assumption)
  obtain rr w3 where rec: "control_record_of X cx key (ls_attempts st) started w2 = (rr, w3)"
    by (meson surj_pair)
  have le3: "le w2 w3"
    using rec E now_le[of w2] by (auto simp: control_record_of_def Let_def split: prod.splits)
  from control_record_accepted[OF inv(1,3,4) inj cx bs rec] obtain rec where
    rr: "rr = Inr rec" "control_record_ok rec" "ec_attempts rec = ls_attempts st" "ec_idempotency_key rec = key"
      "ec_control_id rec = execution_control_id (fx_lib X) key" "ec_run_id rec = cx_run_id cx"
      "ec_plan_id rec = p" "ec_node_id rec = en_node_id n" "ec_primary_binding_id rec = bd_binding_id b"
      "ec_fallback_binding_ids rec = map bd_binding_id (cx_fallback_bindings cx)"
    by blast
  define oc' where "oc' = \<lparr>oc_trace = last (ls_traces st), oc_result = oc_result oc, oc_error = oc_error oc,
        oc_prior_traces = butlast (ls_traces st), oc_control_record = Some rec\<rparr>"
  have traces: "runtime_traces oc' = ls_traces st"
    using oc(3) by (simp add: runtime_traces_def oc'_def)
  have ok: "outcome_ok oc'"
    using oc(2,4) inv(2) traces by (simp add: outcome_ok_def oc'_def traces_inv_def)
  have fin: "finalize_outcome oc (ls_traces st) rec = Inr oc'"
    using oc(3) ok by (simp add: finalize_outcome_def mk_outcome_Inr oc'_def)
  have loop': "fallback_loop X c rq cx n ch key 0 (b # cx_fallback_bindings cx) ?st0 w1 = (Inr st, w2)"
    using loop lr bs by simp
  have ret: "ret = ExOutcome oc'" "w' = w3"
    using ex unfolding control_execute_def c(1-3) E now loop' prod.case Let_def option.case key sum.case
      oc(1) rec rr(1) bind_res_simps fin of_outcome.simps
    using c(4) by simp_all
  have good: "good_outcome used w w' oc'"
    using ok inv(2) traces used_mono[OF le3] ret(2) by (auto simp: good_outcome_def traces_inv_def)
  have ident: "\<forall>a \<in> set (ls_attempts st). attempt_identity_ok (fx_lib X) key (ls_traces st) a"
  proof
    fix a assume a: "a \<in> set (ls_attempts st)"
    from traces_inv_spans[OF inv(2) a] obtain s where
      "s \<in> set (map rt_span_id (ls_traces st))" "ca_trace_span_id a = Some s" ..
    moreover from inv(1) a have "attempt_for X key n bs a" by (simp add: attempts_inv_def)
    ultimately show "attempt_identity_ok (fx_lib X) key (ls_traces st) a"
      by (simp add: attempt_identity_ok_def attempt_for_def attempt_ok_def execution_attempt_id_def)
  qed
  have "control_mismatches (fx_lib X) rec cx key p n b (ls_traces st) = []"
    using rr ident oc(3-5) by (simp add: control_mismatches_def opt_issue_Nil)
  then have valid: "validate_execution_control_record (fx_lib X) rec cx (runtime_traces oc') = Inr ()"
    by (simp add: validate_execution_control_record_def c(1-3) key traces)
  have lo: "attempt_ok (last (ls_attempts st))"
    using inv(1,3) by (auto simp: attempts_inv_def attempt_for_def)
  have status: "ec_status rec = CSucceeded \<longleftrightarrow> oc_error oc' = None"
    using rr(2,3) oc(6) lo
    by (cases "ca_failure_kind (last (ls_attempts st))" rule: status_of_kind.cases)
      (auto simp: control_record_ok_def Let_def final_status_def attempt_ok_def oc'_def)
  show ?thesis
    using ret(1) good valid status rr(2,3) inv(1,4) le_trans[OF le_trans[OF le1 le2] le3] ret(2)
    by (intro exI[of _ oc'] exI[of _ rec]) (simp add: oc'_def)
qed

end

subsection \<open>The default policy\<close>

lemma default_policy:
  assumes "effective_classification (default_classify e) b = \<lparr>cls_kind = k, cls_retryable = r, cls_allows_fallback = f\<rparr>"
  shows "(r \<longrightarrow> k \<in> {FDispatch, FTimeout} \<and> repeat_is_safe b)
    \<and> (f \<longrightarrow> k \<in> {FRouting, FDispatch, FTimeout, FBackpressure}
         \<and> (k \<in> {FDispatch, FTimeout} \<longrightarrow> repeat_is_safe b))"
  using assms
  by (auto simp: effective_classification_def default_classify_def classify_as_def split: if_splits)

text \<open>What a further attempt presupposes of the attempt before it.\<close>

definition repeat_allowed :: "binding list \<Rightarrow> attempt \<Rightarrow> attempt \<Rightarrow> bool" where
  "repeat_allowed bs a a' \<longleftrightarrow>
     (let b = bs ! nat (ca_fallback_index a); k = ca_failure_kind a in
      (if ca_fallback_index a' = ca_fallback_index a then k \<in> {Some FDispatch, Some FTimeout}
       else k \<in> {Some FRouting, Some FDispatch, Some FTimeout, Some FBackpressure})
      \<and> (k \<in> {Some FDispatch, Some FTimeout} \<longrightarrow> repeat_is_safe b))"

lemma classified_default:
  assumes "classified default_classify (bs ! nat (ca_fallback_index a)) a" "continues a a'"
  shows "repeat_allowed bs a a'"
proof -
  from assms(2) obtain k where k: "ca_failure_kind a = Some k" by (auto simp: continues_def)
  with assms(1) obtain e where e: "effective_classification (default_classify e) (bs ! nat (ca_fallback_index a))
      = \<lparr>cls_kind = k, cls_retryable = ca_retryable a, cls_allows_fallback = allows a\<rparr>"
    by (auto simp: classified_def)
  from default_policy[OF e] assms(2) k show ?thesis
    by (auto simp: continues_def repeat_allowed_def Let_def)
qed

lemma successively_mono_set:
  "successively P as \<Longrightarrow> (\<And>a a'. a \<in> set as \<Longrightarrow> P a a' \<Longrightarrow> Q a a') \<Longrightarrow> successively Q as"
  by (induction as rule: induct_list012) auto

lemma attempts_inv_discipline:
  assumes "attempts_inv X key n bs as" "fx_classify X = default_classify"
  shows "successively (repeat_allowed bs) as"
proof (rule successively_mono_set)
  show "successively continues as" using assms(1) by (simp add: attempts_inv_def)
  fix a a' assume "a \<in> set as" "continues a a'"
  with assms show "repeat_allowed bs a a'"
    by (intro classified_default) (auto simp: attempts_inv_def attempt_for_def)
qed

text \<open>The texts hashed for attempt ids differ whenever key, binding or number differ.\<close>

lemma attempt_payload_inj:
  "dumps L (PDict (attempt_payload key b n)) = dumps L (PDict (attempt_payload key' b' n'))
   \<longleftrightarrow> key = key' \<and> b = b' \<and> n = n'"
proof
  assume eq: "dumps L (PDict (attempt_payload key b n)) = dumps L (PDict (attempt_payload key' b' n'))"
  have "attempt_payload key b n = attempt_payload key' b' n'"
    by (rule dumps_dict_inj[OF _ refl _ _ _ eq]) (simp_all add: attempt_payload_def)
  then show "key = key' \<and> b = b' \<and> n = n'" by (simp add: attempt_payload_def)
qed simp

subsection \<open>A concrete run\<close>

text \<open>A library whose digest is the text itself, so that ids never collide.\<close>

definition text_lib :: stdlib where
  "text_lib = echo_lib\<lparr>sl_sha256_hex := (\<lambda>s. s)\<rparr>"

lemma text_lib_attempt_ids: "attempt_ids_injective text_lib key ids N"
  by (auto simp: attempt_ids_injective_def inj_on_def stable_json_hash_def text_lib_def attempt_payload_inj
      simp del: dumps.simps)

definition sample_control :: "(nat, unit) control_executor" where
  "sample_control = \<lparr>fx_env = tick_env, fx_lib = text_lib,
     fx_delegate = \<lparr>ex_name = ''local_python_executor_v0.1'', ex_execute = local_execute tick_env ''python-local''\<rparr>,
     fx_admission = unlimited_admission, fx_classify = default_classify,
     fx_classifier_name = ''DefaultFailureClassifier''\<rparr>"

lemma sample_run:
  "control_ok tick_env (\<le>) tick_used sample_control" "cell_steps (\<le>) sample_cell" "signal_steps (\<le>) sample_context"
  "planned_context sample_context ''plan'' sample_node sample_binding"
  "\<exists>key. context_key (fx_lib sample_control) sample_context = Inr key"
  "fx_lib sample_control = text_lib" "fx_classify sample_control = default_classify"
  using tick.world_axioms tick.local_executor_ok[of "''python-local''"]
  by (simp_all add: control_ok_def sample_control_def admission_steps_def unlimited_admission_def
      cell_steps_def sample_cell_def signal_steps_def sample_context_def planned_context_def sample_node_def
      binding_max_attempts_def sample_hints_def default_resource_hints_def sample_binding_def
      context_key_def or_empty_def execution_idempotency_key_def)

subsection \<open>Properties\<close>

text \<open>
  C13: Failure control always returns. In a planned context, with a delegate that keeps the executor
  contract and no SHA-256 collision among the attempts of this execution, \<open>execute\<close> returns an
  outcome that keeps the contract, with a control record that satisfies every rule of its
  constructor, passes \<open>validate_execution_control_record\<close> against the context and the traces,
  and is marked succeeded exactly when the outcome has no error.
\<close>

theorem failure_control_total:
  assumes "control_ok E le used X"
    and "cell_steps le c" and "signal_steps le cx" and "planned_context cx p n b"
    and "context_key (fx_lib X) cx = Inr key"
    and "attempt_ids_injective (fx_lib X) key (map bd_binding_id (b # cx_fallback_bindings cx))
      (attempt_bound n (b # cx_fallback_bindings cx))"
  shows "\<exists>oc rec w'. control_execute X c rq cx ch w = (ExOutcome oc, w') \<and> good_outcome used w w' oc
     \<and> oc_control_record oc = Some rec \<and> control_record_ok rec
     \<and> validate_execution_control_record (fx_lib X) rec cx (runtime_traces oc) = Inr ()
     \<and> (ec_status rec = CSucceeded \<longleftrightarrow> oc_error oc = None)"
proof -
  obtain ret w' where ex: "control_execute X c rq cx ch w = (ret, w')" by (meson surj_pair)
  from world.control_execute_ok[OF control_ok_world[OF assms(1)] assms(1-5) refl assms(6) ex] ex show ?thesis by auto
qed

theorem failure_control_total_witness:
  "\<exists>oc rec w'. control_execute sample_control sample_cell sample_request sample_context None 0 = (ExOutcome oc, w')
     \<and> oc_control_record oc = Some rec \<and> control_record_ok rec"
proof -
  obtain key where key: "context_key (fx_lib sample_control) sample_context = Inr key"
    using sample_run(5) by blast
  from failure_control_total[OF sample_run(1-4) key, unfolded sample_run(6), OF text_lib_attempt_ids]
  show ?thesis by blast
qed

text \<open>
  C14: Failure control is bounded: the record of an execution has at most the sum over the bindings
  of \<open>min(node, binding) max_retries + 1\<close> attempts, and no attempt's number on its binding exceeds
  that binding's share.
\<close>

theorem failure_control_bounded:
  assumes "control_ok E le used X"
    and "cell_steps le c" and "signal_steps le cx" and "planned_context cx p n b"
    and "context_key (fx_lib X) cx = Inr key"
    and "attempt_ids_injective (fx_lib X) key (map bd_binding_id (b # cx_fallback_bindings cx))
      (attempt_bound n (b # cx_fallback_bindings cx))"
  shows "\<exists>oc rec. fst (control_execute X c rq cx ch w) = ExOutcome oc \<and> oc_control_record oc = Some rec
     \<and> length (ec_attempts rec) \<le> attempt_bound n (b # cx_fallback_bindings cx)
     \<and> (\<forall>a \<in> set (ec_attempts rec). ca_binding_attempt_number a
          \<le> binding_max_attempts n ((b # cx_fallback_bindings cx) ! nat (ca_fallback_index a)))"
proof -
  obtain ret w' where ex: "control_execute X c rq cx ch w = (ret, w')" by (meson surj_pair)
  from world.control_execute_ok[OF control_ok_world[OF assms(1)] assms(1-5) refl assms(6) ex] obtain oc rec where
    "ret = ExOutcome oc" "oc_control_record oc = Some rec"
    "length (ec_attempts rec) \<le> attempt_bound n (b # cx_fallback_bindings cx)"
    and inv: "attempts_inv X key n (b # cx_fallback_bindings cx) (ec_attempts rec)" by blast
  moreover from inv have "\<forall>a \<in> set (ec_attempts rec). ca_binding_attempt_number a
          \<le> binding_max_attempts n ((b # cx_fallback_bindings cx) ! nat (ca_fallback_index a))"
    by (simp add: attempts_inv_def attempt_for_def)
  ultimately show ?thesis using ex by simp
qed

theorem failure_control_bounded_witness:
  "\<exists>oc rec. fst (control_execute sample_control sample_cell sample_request sample_context None 0) = ExOutcome oc
     \<and> oc_control_record oc = Some rec \<and> length (ec_attempts rec) \<le> 2"
proof -
  obtain key where key: "context_key (fx_lib sample_control) sample_context = Inr key"
    using sample_run(5) by blast
  have "attempt_bound sample_node [sample_binding] = 2"
    by (simp add: attempt_bound_def binding_max_attempts_def sample_node_def sample_binding_def sample_hints_def
        default_resource_hints_def)
  moreover have "cx_fallback_bindings sample_context = []" by (simp add: sample_context_def)
  moreover note failure_control_bounded[OF sample_run(1-4) key, unfolded sample_run(6),
      OF text_lib_attempt_ids, of sample_request None 0]
  ultimately show ?thesis by auto
qed

text \<open>
  C10: No unsafe repetition. With the default classifier, an attempt is followed by another one on
  the same binding only after a dispatch error or a timeout, and by one on the next binding only
  after a routing, dispatch, timeout or backpressure failure; after a dispatch error or a timeout
  in either case only if the binding is stateless or idempotent. In particular nothing follows a
  success, a cancellation, a contract violation or an error of the Cell itself.
\<close>

theorem no_unsafe_repetition:
  assumes "control_ok E le used X" and "fx_classify X = default_classify"
    and "cell_steps le c" and "signal_steps le cx" and "planned_context cx p n b"
    and "context_key (fx_lib X) cx = Inr key"
    and "attempt_ids_injective (fx_lib X) key (map bd_binding_id (b # cx_fallback_bindings cx))
      (attempt_bound n (b # cx_fallback_bindings cx))"
  shows "\<exists>oc rec. fst (control_execute X c rq cx ch w) = ExOutcome oc \<and> oc_control_record oc = Some rec
     \<and> successively (repeat_allowed (b # cx_fallback_bindings cx)) (ec_attempts rec)"
proof -
  obtain ret w' where ex: "control_execute X c rq cx ch w = (ret, w')" by (meson surj_pair)
  from world.control_execute_ok[OF control_ok_world[OF assms(1)] assms(1,3-6) refl assms(7) ex] obtain oc rec where
    "ret = ExOutcome oc" "oc_control_record oc = Some rec"
    and inv: "attempts_inv X key n (b # cx_fallback_bindings cx) (ec_attempts rec)" by blast
  with attempts_inv_discipline[OF inv assms(2)] ex show ?thesis by simp
qed

theorem no_unsafe_repetition_witness:
  "\<exists>oc rec. fst (control_execute sample_control sample_cell sample_request sample_context None 0) = ExOutcome oc
     \<and> oc_control_record oc = Some rec
     \<and> successively (repeat_allowed (sample_binding # cx_fallback_bindings sample_context)) (ec_attempts rec)"
proof -
  obtain key where key: "context_key (fx_lib sample_control) sample_context = Inr key"
    using sample_run(5) by blast
  from no_unsafe_repetition[OF sample_run(1,7,2-4) key, unfolded sample_run(6), OF text_lib_attempt_ids]
  show ?thesis .
qed

end
