(* ===== verification/Admission.thy ===== *)
theory Admission
  imports Control
begin

section \<open>Concurrency admission\<close>

text \<open>
  The promise of an admission controller to the executor that calls it, as a locale met by
  \<open>InMemoryConcurrencyAdmissionController\<close>; and the states the controller reaches when any number
  of threads acquire and release. The test and the setting of \<open>_released\<close> are not under the lock,
  so two threads that release one lease at the same time may both decrement the count.
\<close>

subsection \<open>The contract\<close>

locale admission_contract =
  fixes inv :: "'s \<Rightarrow> bool" and active :: "'s \<Rightarrow> string \<Rightarrow> int"
    and live :: "'l \<Rightarrow> 's \<Rightarrow> bool" and spent :: "'l \<Rightarrow> 's \<Rightarrow> bool" and slot :: "'l \<Rightarrow> 's \<Rightarrow> string"
    and acquire :: "binding \<Rightarrow> 's \<Rightarrow> 'l option \<times> 's" and release :: "'l \<Rightarrow> 's \<Rightarrow> 's"
  assumes acquire_inv: "inv s \<Longrightarrow> acquire b s = (r, s') \<Longrightarrow> inv s'"
    and release_inv: "inv s \<Longrightarrow> live l s \<Longrightarrow> inv (release l s)"
    and granted: "inv s \<Longrightarrow> bd_max_concurrency b = Some m \<Longrightarrow> acquire b s = (Some l, s') \<Longrightarrow>
      live l s' \<and> slot l s' = bd_binding_id b \<and> active s (bd_binding_id b) < m
      \<and> (\<forall>i. active s' i = active s i + (if i = bd_binding_id b then 1 else 0))"
    and refused: "inv s \<Longrightarrow> acquire b s = (None, s') \<Longrightarrow>
      s' = s \<and> (\<exists>m. bd_max_concurrency b = Some m \<and> m \<le> active s (bd_binding_id b))"
    and unlimited: "bd_max_concurrency b = None \<Longrightarrow> acquire b s = (Some l, s') \<Longrightarrow> s' = s \<and> spent l s'"
    and released: "inv s \<Longrightarrow> live l s \<Longrightarrow> spent l (release l s)
      \<and> (\<forall>i. active (release l s) i = active s i - (if i = slot l s then 1 else 0))"
    and release_spent: "spent l s \<Longrightarrow> release l s = s"
begin

text \<open>A granted lease, released any positive number of times, leaves the counts as they were.\<close>

lemma acquire_release:
  assumes "inv s" "acquire b s = (Some l, s')"
  shows "(\<forall>i. active ((release l ^^ Suc k) s') i = active s i) \<and> inv ((release l ^^ Suc k) s')"
proof (cases "bd_max_concurrency b")
  case None
  with assms have s': "s' = s" "spent l s'" using unlimited by blast+
  then have "(release l ^^ n) s' = s" for n
    by (induction n) (simp_all add: release_spent)
  with assms(1) show ?thesis by metis
next
  case (Some m)
  from granted[OF assms(1) Some assms(2)] have g: "live l s'" "slot l s' = bd_binding_id b"
    "\<And>i. active s' i = active s i + (if i = bd_binding_id b then 1 else 0)" by blast+
  have i': "inv s'" by (rule acquire_inv[OF assms])
  from released[OF i' g(1)] have r: "spent l (release l s')"
    "\<And>i. active (release l s') i = active s' i - (if i = slot l s' then 1 else 0)" by blast+
  have "(release l ^^ Suc n) s' = release l s'" for n
    by (induction n) (simp_all add: release_spent[OF r(1)])
  with r(2) g release_inv[OF i' g(1)] show ?thesis by (metis add_diff_cancel diff_0_right add_0_right)
qed

text \<open>A free slot is granted, a full binding is refused and nothing changes.\<close>

lemma acquire_decides:
  assumes "inv s" "bd_max_concurrency b = Some m" "acquire b s = (r, s')"
  shows "(r \<noteq> None \<longleftrightarrow> active s (bd_binding_id b) < m) \<and> (r = None \<longrightarrow> s' = s)"
  using assms granted[OF assms(1,2)] refused[OF assms(1)] by (cases r) fastforce+

end

subsection \<open>The in-memory controller meets it\<close>

definition outstanding :: "admission_state \<Rightarrow> string \<Rightarrow> int" where
  "outstanding s i = int (count_list (as_leases s) (i, False))"

text \<open>The count of every binding is the number of its unreleased leases.\<close>

definition admission_inv :: "admission_state \<Rightarrow> bool" where
  "admission_inv s \<longleftrightarrow> distinct (map fst (as_active_by_binding s)) \<and> (\<forall>i. active_count s i = outstanding s i)"

fun lease_live :: "lease \<Rightarrow> admission_state \<Rightarrow> bool" where
  "lease_live NoopLease s = False"
| "lease_live (ConcurrencyLease n) s = (n < length (as_leases s) \<and> \<not> snd (as_leases s ! n))"

fun lease_spent :: "lease \<Rightarrow> admission_state \<Rightarrow> bool" where
  "lease_spent NoopLease s = True"
| "lease_spent (ConcurrencyLease n) s = (n < length (as_leases s) \<and> snd (as_leases s ! n))"

fun lease_slot :: "lease \<Rightarrow> admission_state \<Rightarrow> string" where
  "lease_slot NoopLease s = []"
| "lease_slot (ConcurrencyLease n) s = fst (as_leases s ! n)"

lemma active_count_update:
  "active_count \<lparr>as_active_by_binding = AList.update i n d, as_leases = ls\<rparr> j
   = (if j = i then n else active_count \<lparr>as_active_by_binding = d, as_leases = ls\<rparr> j)"
  by (simp add: active_count_def update_conv')

lemma active_count_leases:
  "active_count \<lparr>as_active_by_binding = as_active_by_binding s, as_leases = ls\<rparr> j = active_count s j"
  by (simp add: active_count_def)

lemma outstanding_snoc:
  "outstanding \<lparr>as_active_by_binding = d, as_leases = as_leases s @ [(i, False)]\<rparr> j
   = outstanding s j + (if j = i then 1 else 0)"
  by (simp add: outstanding_def)

lemma count_list_update:
  "n < length xs \<Longrightarrow> count_list (xs[n := y]) x + (if xs ! n = x then 1 else 0)
     = count_list xs x + (if y = x then 1 else (0::nat))"
proof (induction xs arbitrary: n)
  case (Cons z xs)
  show ?case
  proof (cases n)
    case (Suc k)
    with Cons.prems Cons.IH[of k] show ?thesis by (simp split: if_splits)
  qed simp
qed simp

lemma outstanding_release:
  assumes "n < length (as_leases s)" "as_leases s ! n = (i, False)"
  shows "outstanding \<lparr>as_active_by_binding = d, as_leases = (as_leases s)[n := (i, True)]\<rparr> j
    = outstanding s j - (if j = i then 1 else 0)"
  using count_list_update[OF assms(1), of "(i, True)" "(j, False)"] assms(2)
  by (auto simp: outstanding_def split: if_splits)

lemma release_binding_count:
  assumes "\<forall>j. 0 \<le> active_count s j" "distinct (map fst (as_active_by_binding s))" "1 \<le> active_count s i"
  shows "active_count (release_binding i s) j = active_count s j - (if j = i then 1 else 0)"
    and "distinct (map fst (as_active_by_binding (release_binding i s)))"
    and "as_leases (release_binding i s) = as_leases s"
  using assms
  by (auto simp: release_binding_def Let_def active_count_def update_conv' delete_conv' distinct_update
      distinct_delete split: option.splits)

lemma outstanding_nonneg: "0 \<le> outstanding s i"
  by (simp add: outstanding_def)

lemma live_outstanding:
  "lease_live (ConcurrencyLease n) s \<Longrightarrow> 1 \<le> outstanding s (fst (as_leases s ! n))"
proof -
  assume l: "lease_live (ConcurrencyLease n) s"
  then have "as_leases s ! n = (fst (as_leases s ! n), False)" by (simp add: prod_eq_iff)
  with l have "(fst (as_leases s ! n), False) \<in> set (as_leases s)" by (metis lease_live.simps(2) nth_mem)
  then have "count_list (as_leases s) (fst (as_leases s ! n), False) \<noteq> 0" by (simp add: count_list_0_iff)
  then show ?thesis by (simp add: outstanding_def)
qed

lemma try_acquire_inv:
  assumes "admission_inv s" "try_acquire b s = (r, s')"
  shows "admission_inv s'"
proof (cases "r = None \<or> bd_max_concurrency b = None")
  case True
  with assms show ?thesis by (auto simp: try_acquire_def Let_def split: option.splits if_splits)
next
  case False
  with assms(2) have "s' = \<lparr>as_active_by_binding = AList.update (bd_binding_id b)
      (active_count s (bd_binding_id b) + 1) (as_active_by_binding s),
      as_leases = as_leases s @ [(bd_binding_id b, False)]\<rparr>"
    by (auto simp: try_acquire_def Let_def split: option.splits if_splits)
  with assms(1) show ?thesis
    by (simp add: admission_inv_def distinct_update active_count_update active_count_leases outstanding_snoc)
qed

lemma release_lease_live:
  assumes "admission_inv s" "lease_live l s"
  shows "admission_inv (release_lease l s)" and "lease_spent l (release_lease l s)"
    and "active_count (release_lease l s) i = active_count s i - (if i = lease_slot l s then 1 else 0)"
proof -
  from assms(2) obtain n j where l: "l = ConcurrencyLease n" "n < length (as_leases s)"
    "as_leases s ! n = (j, False)" by (cases l) (auto simp: prod_eq_iff)
  let ?u = "\<lparr>as_active_by_binding = as_active_by_binding s, as_leases = (as_leases s)[n := (j, True)]\<rparr>"
  have r: "release_lease l s = release_binding j ?u"
    using l by (cases s) (simp add: lease_released_def lease_binding_def mark_released_def)
  have u: "active_count ?u i = outstanding s i" for i
    using assms(1) by (simp add: active_count_leases admission_inv_def)
  have ge: "1 \<le> active_count ?u j" using live_outstanding[of n s] assms(2) l u by simp
  have "\<forall>i. 0 \<le> active_count ?u i" "distinct (map fst (as_active_by_binding ?u))"
    using u outstanding_nonneg assms(1) by (simp_all add: admission_inv_def)
  note rb = release_binding_count[OF this ge]
  have ct: "active_count (release_lease l s) i = outstanding s i - (if i = j then 1 else 0)" for i
    using rb(1) u r by simp
  have ls: "as_leases (release_lease l s) = (as_leases s)[n := (j, True)]" using rb(3) r by simp
  have "outstanding (release_lease l s) i = outstanding s i - (if i = j then 1 else 0)" for i
    using outstanding_release[OF l(2,3), of "[]" i] ls by (simp add: outstanding_def)
  with ct rb(2) r show "admission_inv (release_lease l s)" by (simp add: admission_inv_def)
  show "lease_spent l (release_lease l s)" using l ls by simp
  show "active_count (release_lease l s) i = active_count s i - (if i = lease_slot l s then 1 else 0)"
    using ct assms(1) l by (simp add: admission_inv_def)
qed

interpretation mem: admission_contract admission_inv active_count lease_live lease_spent lease_slot
  try_acquire release_lease
proof unfold_locales
  fix s s' b r and l :: lease
  show "admission_inv s \<Longrightarrow> try_acquire b s = (r, s') \<Longrightarrow> admission_inv s'" by (rule try_acquire_inv)
  show "admission_inv s \<Longrightarrow> lease_live l s \<Longrightarrow> admission_inv (release_lease l s)" by (rule release_lease_live)
  show "lease_spent l s \<Longrightarrow> release_lease l s = s" by (cases l) (auto simp: lease_released_def)
  show "bd_max_concurrency b = None \<Longrightarrow> try_acquire b s = (Some l, s') \<Longrightarrow> s' = s \<and> lease_spent l s'"
    by (auto simp: try_acquire_def)
  show "admission_inv s \<Longrightarrow> lease_live l s \<Longrightarrow> lease_spent l (release_lease l s)
      \<and> (\<forall>i. active_count (release_lease l s) i = active_count s i - (if i = lease_slot l s then 1 else 0))"
    by (intro conjI allI release_lease_live)
  show "admission_inv s \<Longrightarrow> try_acquire b s = (None, s') \<Longrightarrow>
      s' = s \<and> (\<exists>m. bd_max_concurrency b = Some m \<and> m \<le> active_count s (bd_binding_id b))"
    by (auto simp: try_acquire_def Let_def split: option.splits if_splits)
  show "lease_live l s' \<and> lease_slot l s' = bd_binding_id b \<and> active_count s (bd_binding_id b) < m
      \<and> (\<forall>i. active_count s' i = active_count s i + (if i = bd_binding_id b then 1 else 0))"
    if "admission_inv s" "bd_max_concurrency b = Some m" "try_acquire b s = (Some l, s')" for m
    using that(2,3)
    by (auto simp: try_acquire_def Let_def active_count_update active_count_leases split: if_splits)
qed

subsection \<open>One caller at a time\<close>

text \<open>
  Calls that do not overlap, where the bindings with one id agree on \<open>max_concurrency\<close> and a lease
  may be released again and again.
\<close>

inductive admitted :: "(string \<Rightarrow> int option) \<Rightarrow> admission_state \<Rightarrow> bool" for cap where
  start: "admitted cap empty_admission"
| acquire: "admitted cap s \<Longrightarrow> bd_max_concurrency b = cap (bd_binding_id b) \<Longrightarrow>
    try_acquire b s = (r, s') \<Longrightarrow> admitted cap s'"
| release: "admitted cap s \<Longrightarrow> lease_live l s \<or> lease_spent l s \<Longrightarrow> admitted cap (release_lease l s)"

inductive_cases admittedE: "admitted cap s"

lemma admitted_inv: "admitted cap s \<Longrightarrow> admission_inv s"
proof (induction rule: admitted.induct)
  case start
  then show ?case by (simp add: empty_admission_def admission_inv_def active_count_def outstanding_def)
next
  case (release s l)
  then show ?case using mem.release_inv mem.release_spent by metis
qed (rule mem.acquire_inv)

definition one_slot :: binding where
  "one_slot = \<lparr>bd_implementation_id = ''i'', bd_cell_id = ''c'', bd_service_id = ''s'', bd_runtime = ''r'',
     bd_language = ''l'', bd_formula_version = ''v'', bd_endpoint = None, bd_task_queue = None,
     bd_priority = 1, bd_capabilities = [], bd_supports_batch = False, bd_max_concurrency = Some 1,
     bd_resource_hints = default_resource_hints, bd_binding_id = ''b''\<rparr>"

text \<open>
  Acquiring and releasing cancel out: from any reachable state, a granted lease released one
  or more times leaves every binding's count as it was before the acquisition, and a binding with a
  limit is granted a lease exactly when its count is below the limit.
\<close>

theorem acquire_release_cancel:
  assumes "admitted cap s" and "try_acquire b s = (r, s')"
  shows "(\<forall>l k i. r = Some l \<longrightarrow> active_count ((release_lease l ^^ Suc k) s') i = active_count s i)
     \<and> (\<forall>m. bd_max_concurrency b = Some m \<longrightarrow> (r \<noteq> None) = (active_count s (bd_binding_id b) < m))"
  using mem.acquire_release[OF admitted_inv[OF assms(1)]] mem.acquire_decides[OF admitted_inv[OF assms(1)]] assms(2)
  by blast

theorem acquire_release_cancel_witness:
  "active_count ((release_lease (ConcurrencyLease 0) ^^ 2) (snd (try_acquire one_slot empty_admission))) ''b'' = 0
   \<and> fst (try_acquire one_slot empty_admission) = Some (ConcurrencyLease 0)"
proof -
  have f: "fst (try_acquire one_slot empty_admission) = Some (ConcurrencyLease 0)" by code_simp
  have z: "active_count empty_admission ''b'' = 0" by code_simp
  from acquire_release_cancel[OF admitted.start prod.collapse[symmetric], of one_slot] f
  have "active_count ((release_lease (ConcurrencyLease 0) ^^ Suc 1) (snd (try_acquire one_slot empty_admission))) ''b'' = 0"
    using z by (metis (no_types))
  with f show ?thesis by (simp add: numeral_2_eq_2)
qed

subsection \<open>Any number of threads\<close>

text \<open>
  The controller and the calls of \<open>release\<close> under way. A thread that has read \<open>_released\<close> as false
  is listed in \<open>ct_tested\<close>, one that has set it and is about to take the lock in \<open>ct_marked\<close>, each
  under the lease it releases. Two auxiliary fields record the history: \<open>ct_calls\<close> has an entry for
  every call that found its lease unreleased, \<open>ct_extra\<close> one for every call that set the flag of a
  lease that had been set in between.
\<close>

record contention =
  ct_state :: admission_state
  ct_tested :: "nat list"
  ct_marked :: "nat list"
  ct_calls :: "nat list"
  ct_extra :: "nat list"

definition idle :: contention where
  "idle = \<lparr>ct_state = empty_admission, ct_tested = [], ct_marked = [], ct_calls = [], ct_extra = []\<rparr>"

text \<open>The steps of \<open>release\<close>: the test that fails, the assignment, and the call under the lock.\<close>

definition test_step :: "nat \<Rightarrow> contention \<Rightarrow> contention" where
  "test_step n c = c\<lparr>ct_tested := n # ct_tested c, ct_calls := n # ct_calls c\<rparr>"

definition mark_step :: "nat \<Rightarrow> contention \<Rightarrow> contention" where
  "mark_step n c = c\<lparr>ct_state := mark_released n (ct_state c), ct_tested := remove1 n (ct_tested c),
     ct_marked := n # ct_marked c,
     ct_extra := (if lease_released n (ct_state c) then n # ct_extra c else ct_extra c)\<rparr>"

definition unlock_step :: "nat \<Rightarrow> contention \<Rightarrow> contention" where
  "unlock_step n c = c\<lparr>ct_state := release_binding (lease_binding n (ct_state c)) (ct_state c),
     ct_marked := remove1 n (ct_marked c)\<rparr>"

text \<open>
  The reachable configurations. A test that reads true ends the call and changes nothing.
\<close>

inductive contended :: "(string \<Rightarrow> int option) \<Rightarrow> contention \<Rightarrow> bool" for cap where
  start: "contended cap idle"
| acquire: "contended cap c \<Longrightarrow> bd_max_concurrency b = cap (bd_binding_id b) \<Longrightarrow>
    try_acquire b (ct_state c) = (r, s) \<Longrightarrow> contended cap (c\<lparr>ct_state := s\<rparr>)"
| test: "contended cap c \<Longrightarrow> n < length (as_leases (ct_state c)) \<Longrightarrow> \<not> lease_released n (ct_state c) \<Longrightarrow>
    contended cap (test_step n c)"
| mark: "contended cap c \<Longrightarrow> n \<in> set (ct_tested c) \<Longrightarrow> contended cap (mark_step n c)"
| unlock: "contended cap c \<Longrightarrow> n \<in> set (ct_marked c) \<Longrightarrow> contended cap (unlock_step n c)"

text \<open>How many of the leases in a list belong to a binding.\<close>

definition leases_of :: "contention \<Rightarrow> nat list \<Rightarrow> string \<Rightarrow> int" where
  "leases_of c ns i = int (length (filter (\<lambda>n. lease_binding n (ct_state c) = i) ns))"

definition releasing :: "contention \<Rightarrow> string \<Rightarrow> int" where
  "releasing c i = leases_of c (ct_marked c) i"

definition doubled :: "contention \<Rightarrow> string \<Rightarrow> int" where
  "doubled c i = leases_of c (ct_extra c) i"

text \<open>
  The invariant: unreleased leases and decrements to come are covered by the count, up to the
  decrements made twice; and a lease is marked twice only after two calls tested it.
\<close>

definition contention_inv :: "contention \<Rightarrow> bool" where
  "contention_inv c \<longleftrightarrow> distinct (map fst (as_active_by_binding (ct_state c)))
     \<and> list_all (\<lambda>n. n < length (as_leases (ct_state c))) (ct_tested c @ ct_marked c @ ct_extra c)
     \<and> (\<forall>i. 0 \<le> active_count (ct_state c) i
          \<and> outstanding (ct_state c) i + releasing c i \<le> active_count (ct_state c) i + doubled c i
          \<and> (doubled c i = 0 \<longrightarrow> active_count (ct_state c) i = outstanding (ct_state c) i + releasing c i))
     \<and> (\<forall>n < length (as_leases (ct_state c)). count_list (ct_tested c) n
          + (if lease_released n (ct_state c) then 1 else 0) \<le> count_list (ct_calls c) n)
     \<and> (\<forall>n \<in> set (ct_extra c). 2 \<le> count_list (ct_calls c) n)"

lemma release_binding_cut:
  assumes "distinct (map fst (as_active_by_binding s))" "0 \<le> active_count s i"
  shows "active_count (release_binding i s) j = (if j = i then max (active_count s i - 1) 0 else active_count s j)"
    and "distinct (map fst (as_active_by_binding (release_binding i s)))"
    and "as_leases (release_binding i s) = as_leases s"
  using assms
  by (auto simp: release_binding_def Let_def active_count_def update_conv' delete_conv' distinct_update
      distinct_delete split: option.splits)

lemma binding_after: "as_leases t = as_leases s \<Longrightarrow> lease_binding n t = lease_binding n s"
  by (simp add: lease_binding_def)

lemma distinct_count: "distinct xs \<Longrightarrow> count_list xs x \<le> 1"
  by (induction xs) auto

lemma filter_remove1_length:
  "n \<in> set ns \<Longrightarrow> int (length (filter P (remove1 n ns))) = int (length (filter P ns)) - (if P n then 1 else 0)"
  by (induction ns) auto

lemma leases_of_same:
  assumes "\<And>n. n \<in> set ns \<Longrightarrow> lease_binding n (ct_state d) = lease_binding n (ct_state c)"
  shows "leases_of d ns i = leases_of c ns i"
  using assms by (simp add: leases_of_def cong: filter_cong)

lemma leases_of_Cons: "leases_of c (n # ns) i = leases_of c ns i + (if lease_binding n (ct_state c) = i then 1 else 0)"
  by (simp add: leases_of_def)

lemma leases_of_nonneg: "0 \<le> leases_of c ns i"
  by (simp add: leases_of_def)

lemma count_list_remove1: "n \<in> set xs \<Longrightarrow> count_list (remove1 n xs) m + (if m = n then 1 else 0) = count_list xs m"
  by (induction xs) auto

lemma marked_bindings:
  "lease_binding m (mark_released n s) = lease_binding m s"
  by (cases "m = n"; cases "n < length (as_leases s)")
    (simp_all add: lease_binding_def mark_released_def list_update_beyond)

text \<open>The three steps in a row are a call that nothing interrupts.\<close>

lemma release_in_steps:
  "\<not> lease_released n (ct_state c) \<Longrightarrow> ct_state (unlock_step n (mark_step n (test_step n c)))
     = release_lease (ConcurrencyLease n) (ct_state c)"
  by (simp add: unlock_step_def mark_step_def test_step_def marked_bindings)

lemma marked_counts:
  assumes "n < length (as_leases s)"
  shows "outstanding (mark_released n s) i
    = outstanding s i - (if \<not> lease_released n s \<and> lease_binding n s = i then 1 else 0)"
  using count_list_update[OF assms, of "(lease_binding n s, True)" "(i, False)"]
  by (cases "as_leases s ! n")
    (auto simp: outstanding_def mark_released_def lease_binding_def lease_released_def split: if_splits)

lemma contention_inv_acquire:
  assumes inv: "contention_inv c" and run: "try_acquire b (ct_state c) = (r, s)"
  shows "contention_inv (c\<lparr>ct_state := s\<rparr>)"
proof (cases "r = None \<or> bd_max_concurrency b = None")
  case True
  with run have "s = ct_state c" by (auto simp: try_acquire_def Let_def split: option.splits if_splits)
  with inv show ?thesis by simp
next
  case False
  let ?c = "ct_state c"
  let ?n = "length (as_leases ?c)"
  have s: "s = \<lparr>as_active_by_binding = AList.update (bd_binding_id b)
      (active_count ?c (bd_binding_id b) + 1) (as_active_by_binding ?c),
      as_leases = as_leases ?c @ [(bd_binding_id b, False)]\<rparr>"
    using run False by (auto simp: try_acquire_def Let_def split: option.splits if_splits)
  have lb: "lease_binding n s = lease_binding n ?c" "lease_released n s = lease_released n ?c" if "n < ?n" for n
    using that by (simp_all add: s lease_binding_def lease_released_def nth_append)
  have bound: "n < ?n" if "n \<in> set (ct_tested c) \<union> set (ct_marked c) \<union> set (ct_extra c)" for n
    using inv that by (auto simp: contention_inv_def list_all_iff)
  have same: "releasing (c\<lparr>ct_state := s\<rparr>) i = releasing c i" "doubled (c\<lparr>ct_state := s\<rparr>) i = doubled c i" for i
    unfolding releasing_def doubled_def using lb bound by (auto intro!: leases_of_same)
  have cnt: "active_count s i = active_count ?c i + (if i = bd_binding_id b then 1 else 0)"
    "outstanding s i = outstanding ?c i + (if i = bd_binding_id b then 1 else 0)" for i
    by (simp_all add: s active_count_update active_count_leases outstanding_snoc)
  have new: "count_list (ct_tested c) ?n = 0" "\<not> lease_released ?n s"
    using bound[of ?n] by (auto simp: count_list_0_iff s lease_released_def)
  have "count_list (ct_tested c) n + (if lease_released n s then 1 else 0) \<le> count_list (ct_calls c) n"
    if "n < length (as_leases s)" for n
  proof (cases "n = ?n")
    case False
    then have "n < ?n" using that by (simp add: s)
    then show ?thesis using inv lb(2) by (simp add: contention_inv_def)
  qed (use new in simp)
  moreover have "list_all (\<lambda>n. n < length (as_leases s)) (ct_tested c @ ct_marked c @ ct_extra c)"
    using bound by (auto simp: list_all_iff s intro: less_SucI)
  moreover have "distinct (map fst (as_active_by_binding s))"
    using inv by (simp add: contention_inv_def s distinct_update)
  ultimately show ?thesis
    using inv by (simp add: contention_inv_def same cnt)
qed

lemma contention_inv_mark:
  assumes inv: "contention_inv c" and n: "n \<in> set (ct_tested c)"
  shows "contention_inv (mark_step n c)"
proof -
  let ?c = "ct_state c"
  have len: "n < length (as_leases ?c)" using inv n by (simp add: contention_inv_def list_all_iff)
  have st: "ct_state (mark_step n c) = mark_released n ?c" "ct_tested (mark_step n c) = remove1 n (ct_tested c)"
    "ct_marked (mark_step n c) = n # ct_marked c" "ct_calls (mark_step n c) = ct_calls c"
    "ct_extra (mark_step n c) = (if lease_released n ?c then n # ct_extra c else ct_extra c)"
    by (simp_all add: mark_step_def)
  have lo: "leases_of (mark_step n c) ns i = leases_of c ns i" for ns i
    by (rule leases_of_same) (simp add: st marked_bindings)
  have rel: "releasing (mark_step n c) i = releasing c i + (if lease_binding n ?c = i then 1 else 0)"
    "doubled (mark_step n c) i = doubled c i + (if lease_released n ?c \<and> lease_binding n ?c = i then 1 else 0)" for i
    unfolding releasing_def doubled_def lo st by (simp_all add: leases_of_Cons)
  have act: "active_count (mark_released n ?c) i = active_count ?c i" for i
    by (simp add: active_count_def mark_released_def)
  have lr: "lease_released m (mark_released n ?c) = (m = n \<or> lease_released m ?c)" if "m < length (as_leases ?c)" for m
    using that len by (cases "m = n") (simp_all add: lease_released_def mark_released_def)
  note I = inv[unfolded contention_inv_def]
  have tests: "count_list (remove1 n (ct_tested c)) m + (if lease_released m (mark_released n ?c) then 1 else 0)
      \<le> count_list (ct_calls c) m" if "m < length (as_leases ?c)" for m
    using I that lr[OF that] count_list_remove1[OF n, of m] by (cases "m = n") (auto split: if_splits)
  have two: "2 \<le> count_list (ct_calls c) n" if "lease_released n ?c"
  proof -
    have "0 < count_list (ct_tested c) n" using n by (metis count_list_0_iff neq0_conv)
    moreover have "count_list (ct_tested c) n + 1 \<le> count_list (ct_calls c) n" using I len that by auto
    ultimately show ?thesis by simp
  qed
  have bal: "outstanding (mark_released n ?c) i + releasing (mark_step n c) i \<le> active_count ?c i + doubled (mark_step n c) i"
    "doubled (mark_step n c) i = 0 \<longrightarrow> active_count ?c i = outstanding (mark_released n ?c) i + releasing (mark_step n c) i" for i
  proof -
    have base: "outstanding ?c i + releasing c i \<le> active_count ?c i + doubled c i"
      "doubled c i = 0 \<longrightarrow> active_count ?c i = outstanding ?c i + releasing c i" "0 \<le> doubled c i"
      using I by (simp_all add: doubled_def leases_of_nonneg)
    from base show "outstanding (mark_released n ?c) i + releasing (mark_step n c) i \<le> active_count ?c i + doubled (mark_step n c) i"
      by (auto simp: rel marked_counts[OF len])
    from base show "doubled (mark_step n c) i = 0 \<longrightarrow>
        active_count ?c i = outstanding (mark_released n ?c) i + releasing (mark_step n c) i"
      by (auto simp: rel marked_counts[OF len])
  qed
  have "list_all (\<lambda>m. m < length (as_leases (mark_released n ?c)))
      (remove1 n (ct_tested c) @ (n # ct_marked c) @ (if lease_released n ?c then n # ct_extra c else ct_extra c))"
    using I len by (auto simp: list_all_iff mark_released_def dest: set_remove1_subset[THEN subsetD])
  moreover have "distinct (map fst (as_active_by_binding (mark_released n ?c)))"
    "length (as_leases (mark_released n ?c)) = length (as_leases ?c)"
    using I by (simp_all add: mark_released_def)
  moreover have "\<forall>i. 0 \<le> active_count ?c i" using I by blast
  moreover have "\<forall>m \<in> set (if lease_released n ?c then n # ct_extra c else ct_extra c). 2 \<le> count_list (ct_calls c) m"
    using I two by auto
  ultimately show ?thesis using bal tests unfolding contention_inv_def st act by simp
qed

lemma contention_inv_unlock:
  assumes inv: "contention_inv c" and n: "n \<in> set (ct_marked c)"
  shows "contention_inv (unlock_step n c)"
proof -
  let ?c = "ct_state c"
  let ?i = "lease_binding n ?c"
  note I = inv[unfolded contention_inv_def]
  have "distinct (map fst (as_active_by_binding ?c))" "0 \<le> active_count ?c ?i" using I by blast+
  note rb = release_binding_cut[OF this]
  have st: "ct_state (unlock_step n c) = release_binding ?i ?c" "ct_tested (unlock_step n c) = ct_tested c"
    "ct_marked (unlock_step n c) = remove1 n (ct_marked c)" "ct_calls (unlock_step n c) = ct_calls c"
    "ct_extra (unlock_step n c) = ct_extra c"
    by (simp_all add: unlock_step_def)
  have lo: "leases_of (unlock_step n c) ns i = leases_of c ns i" for ns i
    by (rule leases_of_same) (simp only: st binding_after[OF rb(3)])
  have rel: "releasing (unlock_step n c) i = releasing c i - (if ?i = i then 1 else 0)"
    "doubled (unlock_step n c) i = doubled c i" for i
    using filter_remove1_length[OF n, of "\<lambda>n. lease_binding n ?c = i"]
    by (simp_all add: releasing_def doubled_def st lo) (simp add: leases_of_def)
  have out: "outstanding (release_binding ?i ?c) i = outstanding ?c i"
    "lease_released m (release_binding ?i ?c) = lease_released m ?c" for i m
    by (simp_all add: outstanding_def lease_released_def rb(3))
  have one: "1 \<le> releasing c ?i"
  proof -
    have "filter (\<lambda>m. lease_binding m ?c = ?i) (ct_marked c) \<noteq> []" using n by (auto simp: filter_empty_conv)
    then have "1 \<le> length (filter (\<lambda>m. lease_binding m ?c = ?i) (ct_marked c))" by (simp add: Suc_le_eq)
    then show ?thesis by (simp add: releasing_def leases_of_def)
  qed
  have bal: "0 \<le> active_count (release_binding ?i ?c) i
    \<and> outstanding ?c i + releasing (unlock_step n c) i \<le> active_count (release_binding ?i ?c) i + doubled c i
    \<and> (doubled c i = 0 \<longrightarrow> active_count (release_binding ?i ?c) i = outstanding ?c i + releasing (unlock_step n c) i)" for i
  proof (cases "i = ?i")
    case True
    have "outstanding ?c i + releasing c i \<le> active_count ?c i + doubled c i"
      "doubled c i = 0 \<longrightarrow> active_count ?c i = outstanding ?c i + releasing c i" "0 \<le> outstanding ?c i"
      using I outstanding_nonneg by blast+
    then show ?thesis using True one by (auto simp: rb(1) rel)
  next
    case False
    then show ?thesis using I by (simp add: rb(1) rel)
  qed
  have "list_all (\<lambda>m. m < length (as_leases ?c)) (ct_tested c @ remove1 n (ct_marked c) @ ct_extra c)"
    using I by (auto simp: list_all_iff dest: set_remove1_subset[THEN subsetD])
  then show ?thesis using bal I unfolding contention_inv_def st out rel(2) rb(3) by (simp add: rb(2))
qed

lemma contended_inv: "contended cap c \<Longrightarrow> contention_inv c"
proof (induction rule: contended.induct)
  case start
  then show ?case by (simp add: contention_inv_def idle_def empty_admission_def active_count_def outstanding_def
        releasing_def doubled_def leases_of_def)
next
  case (acquire c b r s)
  then show ?case by (blast intro: contention_inv_acquire)
next
  case (test c n)
  have "leases_of (test_step n c) ns i = leases_of c ns i" for ns i
    by (rule leases_of_same) (simp add: test_step_def)
  then show ?case using test
    by (auto simp: contention_inv_def test_step_def releasing_def doubled_def)
qed (blast intro: contention_inv_mark contention_inv_unlock)+

text \<open>The count itself never passes the limit.\<close>

lemma contended_count:
  assumes "contended cap c" "cap i = Some m" "0 \<le> m"
  shows "active_count (ct_state c) i \<le> m"
  using assms(1)
proof (induction rule: contended.induct)
  case start
  then show ?case using assms(3) by (simp add: idle_def empty_admission_def active_count_def)
next
  case (acquire c b r s)
  then show ?case using assms(2)
    by (auto simp: try_acquire_def Let_def active_count_update active_count_leases split: option.splits if_splits)
next
  case (unlock c n)
  have "distinct (map fst (as_active_by_binding (ct_state c)))" "0 \<le> active_count (ct_state c) j" for j
    using contended_inv[OF unlock.hyps(1)] by (simp_all add: contention_inv_def)
  from release_binding_cut(1)[OF this] show ?case
    using unlock.IH assms(3) by (auto simp: unlock_step_def)
qed (simp_all add: test_step_def mark_step_def mark_released_def active_count_def)

lemma single_calls:
  assumes "contention_inv c" "distinct (ct_calls c)"
  shows "doubled c i = 0"
proof -
  have "ct_extra c = []"
  proof (rule ccontr)
    assume "ct_extra c \<noteq> []"
    then obtain n where "n \<in> set (ct_extra c)" by (cases "ct_extra c") auto
    then have "2 \<le> count_list (ct_calls c) n" using assms(1) by (simp add: contention_inv_def)
    moreover have "count_list (ct_calls c) n \<le> 1" using assms(2) by (rule distinct_count)
    ultimately show False by simp
  qed
  then show ?thesis by (simp add: doubled_def leases_of_def)
qed

text \<open>
  C19: The limit under any number of threads, whatever the interleaving of acquisitions and of the
  three steps of each release. While every lease is released by one call at a time, the count kept
  for a binding is exactly the number of its unreleased leases and of the decrements under way, and
  it never exceeds \<open>max_concurrency\<close>. In general the unreleased leases exceed the limit by at most the
  number of times that two overlapping calls both released one lease, each of which gives a slot away.
\<close>

theorem admission_never_exceeds:
  assumes "contended cap c" and "cap i = Some m" and "0 \<le> m"
  shows "(distinct (ct_calls c) \<longrightarrow> active_count (ct_state c) i = outstanding (ct_state c) i + releasing c i
        \<and> outstanding (ct_state c) i + releasing c i \<le> m)
    \<and> outstanding (ct_state c) i + releasing c i \<le> m + doubled c i"
proof -
  note inv = contended_inv[OF assms(1)]
  have "outstanding (ct_state c) i + releasing c i \<le> active_count (ct_state c) i + doubled c i"
    "doubled c i = 0 \<longrightarrow> active_count (ct_state c) i = outstanding (ct_state c) i + releasing c i"
    using inv unfolding contention_inv_def by blast+
  then show ?thesis using contended_count[OF assms] single_calls[OF inv] by fastforce
qed

text \<open>
  One slot. Two threads release its lease at once: both read \<open>_released\<close> before either sets it. The
  slot is granted again after the first decrement, and the second frees it for a third lease.
\<close>

definition raced :: "binding \<Rightarrow> contention" where
  "raced b = (let
     take = (\<lambda>c. c\<lparr>ct_state := snd (try_acquire b (ct_state c))\<rparr>);
     both = mark_step 0 (mark_step 0 (test_step 0 (test_step 0 (take idle))))
   in take (unlock_step 0 (take (unlock_step 0 both))))"

lemma raced_reachable: "contended (\<lambda>_. Some 1) (raced one_slot)"
proof -
  define take where "take = (\<lambda>c :: contention. c\<lparr>ct_state := snd (try_acquire one_slot (ct_state c))\<rparr>)"
  have take: "contended (\<lambda>_. Some 1) (take c)" if "contended (\<lambda>_. Some 1) c" for c
    unfolding take_def by (rule contended.acquire[OF that, of one_slot "fst (try_acquire one_slot (ct_state c))"])
      (simp_all add: one_slot_def)
  have 1: "contended (\<lambda>_. Some 1) (test_step 0 (take idle))"
    by (rule contended.test[OF take[OF contended.start]])
      (simp_all add: take_def idle_def empty_admission_def try_acquire_def one_slot_def active_count_def lease_released_def)
  have 2: "contended (\<lambda>_. Some 1) (test_step 0 (test_step 0 (take idle)))"
    by (rule contended.test[OF 1])
      (simp_all add: test_step_def take_def idle_def empty_admission_def try_acquire_def one_slot_def active_count_def lease_released_def)
  have 3: "contended (\<lambda>_. Some 1) (mark_step 0 (mark_step 0 (test_step 0 (test_step 0 (take idle)))))"
    by (rule contended.mark[OF contended.mark[OF 2]]) (simp_all add: test_step_def mark_step_def)
  have 4: "contended (\<lambda>_. Some 1) (unlock_step 0 (mark_step 0 (mark_step 0 (test_step 0 (test_step 0 (take idle))))))"
    by (rule contended.unlock[OF 3]) (simp add: mark_step_def)
  show ?thesis unfolding raced_def Let_def take_def[symmetric]
    by (rule take, rule contended.unlock[OF take[OF 4]]) (simp add: take_def unlock_step_def mark_step_def)
qed

theorem admission_never_exceeds_witness:
  "contended (\<lambda>_. Some 1) (raced one_slot) \<and> outstanding (ct_state (raced one_slot)) ''b'' = 2
   \<and> doubled (raced one_slot) ''b'' = 1
   \<and> outstanding (ct_state (raced one_slot)) ''b'' + releasing (raced one_slot) ''b'' \<le> 1 + doubled (raced one_slot) ''b''"
proof (intro conjI)
  show "contended (\<lambda>_. Some 1) (raced one_slot)" by (rule raced_reachable)
  show "outstanding (ct_state (raced one_slot)) ''b'' = 2" "doubled (raced one_slot) ''b'' = 1" by code_simp+
  show "outstanding (ct_state (raced one_slot)) ''b'' + releasing (raced one_slot) ''b'' \<le> 1 + doubled (raced one_slot) ''b''"
    using admission_never_exceeds[OF raced_reachable, where i = "''b''" and m = 1] by simp
qed

end
