(* ===== verification/Plan_Validation.thy ===== *)
theory Plan_Validation
  imports Exec_Models
begin

section \<open>Validation of execution plans\<close>

text \<open>
  Models \<open>execution/plan_validation.py\<close>: every issue the validator reports, in its order, and
  the declarative specification \<open>plan_ok\<close> it decides.
\<close>

datatype plan_code =
    P_duplicate_node_id | P_duplicate_binding_id | P_duplicate_input_reference_id
  | P_input_reference_scope_mismatch | P_missing_root | P_invalid_root_role | P_unexpected_root_role
  | P_missing_dependency | P_duplicate_dependency | P_self_dependency | P_leaf_has_dependencies
  | P_missing_binding | P_binding_cell_mismatch | P_binding_formula_mismatch
  | P_duplicate_fallback_binding | P_primary_binding_in_fallback | P_missing_fallback_binding
  | P_fallback_binding_cell_mismatch | P_fallback_binding_formula_mismatch | P_unused_binding
  | P_missing_node_input_reference | P_duplicate_node_input_reference | P_missing_input_reference
  | P_duplicate_required_input_kind | P_missing_required_input_kind | P_unexpected_input_kind
  | P_unused_input_reference | P_cycle_detected | P_unreachable_node

record plan_issue =
  pi_code :: plan_code
  pi_message :: string
  pi_node_id :: "string option"
  pi_binding_id :: "string option"
  pi_reference_id :: "string option"
  pi_dependency_id :: "string option"

definition plan_issue ::
  "plan_code \<Rightarrow> string list \<Rightarrow> string option \<Rightarrow> string option \<Rightarrow> string option \<Rightarrow> string option \<Rightarrow> plan_issue" where
  "plan_issue code message node binding ref dep = \<lparr>pi_code = code, pi_message = msg message,
     pi_node_id = node, pi_binding_id = binding, pi_reference_id = ref, pi_dependency_id = dep\<rparr>"

type_synonym plan_nodes = "(string \<times> exec_node) list"
type_synonym plan_bindings = "(string \<times> binding) list"
type_synonym plan_references = "(string \<times> reference) list"

subsection \<open>The validation passes\<close>

definition unique_plan_nodes :: "exec_plan \<Rightarrow> plan_nodes \<times> plan_issue list" where
  "unique_plan_nodes p = unique_by en_node_id
     (\<lambda>n. plan_issue P_duplicate_node_id [''node_id '', en_node_id n, '' appears more than once'']
        (Some (en_node_id n)) None None None) (ep_nodes p)"

definition unique_bindings :: "exec_plan \<Rightarrow> plan_bindings \<times> plan_issue list" where
  "unique_bindings p = unique_by bd_binding_id
     (\<lambda>b. plan_issue P_duplicate_binding_id [''binding_id '', bd_binding_id b, '' appears more than once'']
        None (Some (bd_binding_id b)) None None) (ep_service_bindings p)"

definition unique_input_references :: "exec_plan \<Rightarrow> plan_references \<times> plan_issue list" where
  "unique_input_references p = unique_by rf_reference_id
     (\<lambda>r. plan_issue P_duplicate_input_reference_id
        [''input reference '', rf_reference_id r, '' appears more than once'']
        None None (Some (rf_reference_id r)) None) (ep_input_references p)"

definition reference_scope_issues :: "exec_plan \<Rightarrow> plan_issue list" where
  "reference_scope_issues p = concat (map (\<lambda>r.
     opt_issue (\<not> (rf_target r = ep_target p \<and> rf_horizon r = ep_horizon p))
       (plan_issue P_input_reference_scope_mismatch
          [''input reference '', rf_reference_id r, '' has scope '', rf_target r, ''/'', rf_horizon r,
           '', expected '', ep_target p, ''/'', ep_horizon p] None None (Some (rf_reference_id r)) None))
     (ep_input_references p))"

definition plan_root_issues :: "exec_plan \<Rightarrow> plan_nodes \<Rightarrow> plan_issue list" where
  "plan_root_issues p d =
     (case map_of d (ep_root_node_id p) of
        None \<Rightarrow> [plan_issue P_missing_root [''root_node_id '', ep_root_node_id p, '' does not exist'']
          (Some (ep_root_node_id p)) None None None]
      | Some rt \<Rightarrow> opt_issue (en_execution_role rt \<noteq> Root)
          (plan_issue P_invalid_root_role
            [''root node '', en_node_id rt, '' has role '', show_role (en_execution_role rt)]
            (Some (en_node_id rt)) None None None))
     @ concat (map (\<lambda>n. opt_issue (en_execution_role n = Root \<and> en_node_id n \<noteq> ep_root_node_id p)
          (plan_issue P_unexpected_root_role
            [''node '', en_node_id n, '' is root but is not root_node_id'']
            (Some (en_node_id n)) None None None)) (ep_nodes p))"

text \<open>The references of a node that exist, in the node's order.\<close>

definition referenced :: "plan_references \<Rightarrow> exec_node \<Rightarrow> reference list" where
  "referenced d n = List.map_filter (map_of d) (en_input_reference_ids n)"

definition input_kind_issues :: "plan_references \<Rightarrow> exec_node \<Rightarrow> plan_issue list" where
  "input_kind_issues d n =
     (let required = en_required_input_kinds n; kinds = map rf_input_kind (referenced d n);
          matching = (\<lambda>k. filter (\<lambda>r. rf_input_kind r = k) (referenced d n)) in
      opt_issue (length required \<noteq> card (set required))
        (plan_issue P_duplicate_required_input_kind
          [''node '', en_node_id n, '' repeats a required input kind''] (Some (en_node_id n)) None None None)
    @ opt_issue (''analysis_request'' \<notin> set required)
        (plan_issue P_missing_required_input_kind
          [''node '', en_node_id n, '' must declare analysis_request as a required input kind'']
          (Some (en_node_id n)) None None None)
    @ map (\<lambda>k. plan_issue P_missing_required_input_kind
          [''node '', en_node_id n, '' is missing required input kind '', k]
          (Some (en_node_id n)) None None None)
        (sort (filter (\<lambda>k. k \<notin> set kinds) (remdups required)))
    @ map (\<lambda>k. plan_issue P_unexpected_input_kind
          [''node '', en_node_id n, '' references undeclared input kind '', k]
          (Some (en_node_id n)) None (Some (rf_reference_id (hd (matching k)))) None)
        (sort (filter (\<lambda>k. k \<notin> set required) (remdups kinds)))
    @ concat (map (\<lambda>k. opt_issue (\<not> length (matching k) \<le> 1)
        (plan_issue P_unexpected_input_kind
          [''node '', en_node_id n, '' references input kind '', k, '' more than once'']
          (Some (en_node_id n)) None (Some (rf_reference_id (matching k ! 1))) None))
        (sort (remdups kinds)))
    @ opt_issue (length required = card (set required) \<and> length kinds = card (set kinds)
          \<and> set required = set kinds \<and> required \<noteq> kinds)
        (plan_issue P_unexpected_input_kind
          [''node '', en_node_id n, '' input kind order does not match its required input declaration'']
          (Some (en_node_id n)) None
          (Some (en_input_reference_ids n ! length (takeWhile (\<lambda>(a, b). a = b) (zip required kinds)))) None))"

definition plan_dependency_issues :: "plan_nodes \<Rightarrow> exec_node \<Rightarrow> string \<Rightarrow> plan_issue list" where
  "plan_dependency_issues d n dep =
     (if dep = en_node_id n then
        [plan_issue P_self_dependency [''node '', en_node_id n, '' depends on itself'']
          (Some (en_node_id n)) None None (Some dep)]
      else opt_issue (dep \<notin> fst ` set d)
        (plan_issue P_missing_dependency [''node '', en_node_id n, '' depends on missing node '', dep]
          (Some (en_node_id n)) None None (Some dep)))"

definition binding_issue :: "plan_code \<Rightarrow> exec_node \<Rightarrow> binding \<Rightarrow> plan_issue" where
  "binding_issue code n b = plan_issue code
     [''node '', en_node_id n, '' is incompatible with binding '', bd_binding_id b]
     (Some (en_node_id n)) (Some (bd_binding_id b)) None None"

definition node_binding_issues :: "plan_bindings \<Rightarrow> exec_node \<Rightarrow> bool \<Rightarrow> string \<Rightarrow> plan_issue list" where
  "node_binding_issues d n fallback i =
     (case map_of d i of
        None \<Rightarrow> [plan_issue (if fallback then P_missing_fallback_binding else P_missing_binding)
          [''node '', en_node_id n, '' references missing '', if fallback then ''fallback '' else [],
           ''binding '', i] (Some (en_node_id n)) (Some i) None None]
      | Some b \<Rightarrow>
          opt_issue (en_cell_id n \<noteq> bd_cell_id b)
            (binding_issue (if fallback then P_fallback_binding_cell_mismatch else P_binding_cell_mismatch) n b)
        @ opt_issue (en_formula_version n \<noteq> bd_formula_version b)
            (binding_issue (if fallback then P_fallback_binding_formula_mismatch
               else P_binding_formula_mismatch) n b))"

definition plan_node_issues ::
  "plan_nodes \<Rightarrow> plan_bindings \<Rightarrow> plan_references \<Rightarrow> exec_node \<Rightarrow> plan_issue list" where
  "plan_node_issues dn db dr n =
     opt_issue (en_execution_role n = Leaf \<and> en_dependencies n \<noteq> [])
       (plan_issue P_leaf_has_dependencies [''leaf node '', en_node_id n, '' has dependencies'']
          (Some (en_node_id n)) None None None)
   @ opt_issue (length (en_dependencies n) \<noteq> card (set (en_dependencies n)))
       (plan_issue P_duplicate_dependency [''node '', en_node_id n, '' repeats a dependency'']
          (Some (en_node_id n)) None None None)
   @ opt_issue (en_input_reference_ids n = [])
       (plan_issue P_missing_node_input_reference [''node '', en_node_id n, '' has no input reference'']
          (Some (en_node_id n)) None None None)
   @ opt_issue (length (en_input_reference_ids n) \<noteq> card (set (en_input_reference_ids n)))
       (plan_issue P_duplicate_node_input_reference [''node '', en_node_id n, '' repeats an input reference'']
          (Some (en_node_id n)) None None None)
   @ concat (map (\<lambda>i. opt_issue (i \<notin> fst ` set dr)
       (plan_issue P_missing_input_reference [''node '', en_node_id n, '' references missing input '', i]
          (Some (en_node_id n)) None (Some i) None)) (en_input_reference_ids n))
   @ input_kind_issues dr n
   @ concat (map (plan_dependency_issues dn n) (en_dependencies n))
   @ opt_issue (length (en_fallback_binding_ids n) \<noteq> card (set (en_fallback_binding_ids n)))
       (plan_issue P_duplicate_fallback_binding [''node '', en_node_id n, '' repeats a fallback binding'']
          (Some (en_node_id n)) None None None)
   @ opt_issue (en_binding_id n \<in> set (en_fallback_binding_ids n))
       (plan_issue P_primary_binding_in_fallback
          [''node '', en_node_id n, '' repeats primary binding '', en_binding_id n, '' as fallback'']
          (Some (en_node_id n)) (Some (en_binding_id n)) None None)
   @ node_binding_issues db n False (en_binding_id n)
   @ concat (map (node_binding_issues db n True) (en_fallback_binding_ids n))"

definition binding_usage_issues :: "exec_plan \<Rightarrow> plan_issue list" where
  "binding_usage_issues p =
     (let used = set (concat (map (\<lambda>n. en_binding_id n # en_fallback_binding_ids n) (ep_nodes p))) in
      concat (map (\<lambda>b. opt_issue (bd_binding_id b \<notin> used)
        (plan_issue P_unused_binding [''binding '', bd_binding_id b, '' is not used by any node'']
           None (Some (bd_binding_id b)) None None)) (ep_service_bindings p)))"

definition reference_usage_issues :: "exec_plan \<Rightarrow> plan_issue list" where
  "reference_usage_issues p =
     (let used = set (concat (map en_input_reference_ids (ep_nodes p))) in
      concat (map (\<lambda>r. opt_issue (rf_reference_id r \<notin> used)
        (plan_issue P_unused_input_reference
           [''input reference '', rf_reference_id r, '' is not used by any node'']
           None None (Some (rf_reference_id r)) None)) (ep_input_references p)))"

definition plan_reachability_issues :: "exec_plan \<Rightarrow> plan_nodes \<Rightarrow> plan_issue list" where
  "plan_reachability_issues p d =
     (if ep_root_node_id p \<notin> fst ` set d then []
      else let reachable = dependency_closure [ep_root_node_id p] (dep_map en_dependencies d)
        in map (\<lambda>i. plan_issue P_unreachable_node
            [''node '', i, '' is not reachable from root '', ep_root_node_id p] (Some i) None None None)
          (sort (filter (\<lambda>i. i \<notin> reachable) (map fst d))))"

record validated_plan =
  vp_plan :: exec_plan
  vp_topological_levels :: "string list list"

text \<open>\<open>Inl\<close> is the raised \<open>ExecutionPlanValidationError\<close> with its issues.\<close>

definition validate_execution_plan :: "exec_plan \<Rightarrow> plan_issue list + validated_plan" where
  "validate_execution_plan p =
     (let (dn, node_dups) = unique_plan_nodes p;
          (db, binding_dups) = unique_bindings p;
          (dr, reference_dups) = unique_input_references p;
          (levels, cyclic) = stable_topological_levels (dep_map en_dependencies dn);
          issues = node_dups @ binding_dups @ reference_dups @ reference_scope_issues p
            @ plan_root_issues p dn
            @ concat (map (plan_node_issues dn db dr) (ep_nodes p))
            @ binding_usage_issues p @ reference_usage_issues p
            @ opt_issue (cyclic \<noteq> []) (plan_issue P_cycle_detected
                [''cycle or cycle-blocked nodes: '', join '', '' cyclic] None None None None)
            @ plan_reachability_issues p dn
      in if issues \<noteq> [] then Inl issues else Inr \<lparr>vp_plan = p, vp_topological_levels = levels\<rparr>)"

subsection \<open>The specification of a well-formed plan\<close>

definition plan_deps :: "exec_node list \<Rightarrow> string depmap" where
  "plan_deps ns = map (\<lambda>n. (en_node_id n, en_dependencies n)) ns"

definition plan_ids :: "exec_plan \<Rightarrow> string set" where
  "plan_ids p = en_node_id ` set (ep_nodes p)"

definition node_dependencies_ok :: "exec_plan \<Rightarrow> exec_node \<Rightarrow> bool" where
  "node_dependencies_ok p n \<longleftrightarrow> distinct (en_dependencies n)
     \<and> set (en_dependencies n) \<subseteq> plan_ids p - {en_node_id n}
     \<and> (en_execution_role n = Leaf \<longrightarrow> en_dependencies n = [])"

text \<open>
  The inputs of a node: existing references, one for each kind it requires, in the order of its
  declaration, with the analysis request among them.
\<close>

definition node_inputs_ok :: "exec_plan \<Rightarrow> exec_node \<Rightarrow> bool" where
  "node_inputs_ok p n \<longleftrightarrow> distinct (en_input_reference_ids n) \<and> distinct (en_required_input_kinds n)
     \<and> ''analysis_request'' \<in> set (en_required_input_kinds n)
     \<and> (\<exists>rs. set rs \<subseteq> set (ep_input_references p) \<and> map rf_reference_id rs = en_input_reference_ids n
          \<and> map rf_input_kind rs = en_required_input_kinds n)"

text \<open>Its bindings exist, differ, and implement its Cell in its formula version.\<close>

definition node_bindings_ok :: "exec_plan \<Rightarrow> exec_node \<Rightarrow> bool" where
  "node_bindings_ok p n \<longleftrightarrow> distinct (en_binding_id n # en_fallback_binding_ids n)
     \<and> (\<forall>i \<in> set (en_binding_id n # en_fallback_binding_ids n). \<exists>b \<in> set (ep_service_bindings p).
          bd_binding_id b = i \<and> bd_cell_id b = en_cell_id n \<and> bd_formula_version b = en_formula_version n)"

definition plan_ok :: "exec_plan \<Rightarrow> bool" where
  "plan_ok p \<longleftrightarrow> distinct (map en_node_id (ep_nodes p))
     \<and> distinct (map bd_binding_id (ep_service_bindings p))
     \<and> distinct (map rf_reference_id (ep_input_references p))
     \<and> (\<forall>r \<in> set (ep_input_references p). rf_target r = ep_target p \<and> rf_horizon r = ep_horizon p)
     \<and> (\<exists>rt \<in> set (ep_nodes p). en_node_id rt = ep_root_node_id p \<and> en_execution_role rt = Root)
     \<and> (\<forall>n \<in> set (ep_nodes p). en_execution_role n = Root \<longrightarrow> en_node_id n = ep_root_node_id p)
     \<and> (\<forall>n \<in> set (ep_nodes p). node_dependencies_ok p n \<and> node_inputs_ok p n \<and> node_bindings_ok p n)
     \<and> (\<forall>b \<in> set (ep_service_bindings p). \<exists>n \<in> set (ep_nodes p).
          bd_binding_id b \<in> set (en_binding_id n # en_fallback_binding_ids n))
     \<and> (\<forall>r \<in> set (ep_input_references p). \<exists>n \<in> set (ep_nodes p). rf_reference_id r \<in> set (en_input_reference_ids n))
     \<and> acyclic (dep_rel (plan_deps (ep_nodes p)))
     \<and> plan_ids p \<subseteq> reachable_from (plan_deps (ep_nodes p)) [ep_root_node_id p]"

subsection \<open>The validator decides it\<close>

definition nodes_dict :: "exec_plan \<Rightarrow> plan_nodes" where
  "nodes_dict p = map (\<lambda>n. (en_node_id n, n)) (ep_nodes p)"

definition bindings_dict :: "exec_plan \<Rightarrow> plan_bindings" where
  "bindings_dict p = map (\<lambda>b. (bd_binding_id b, b)) (ep_service_bindings p)"

definition references_dict :: "exec_plan \<Rightarrow> plan_references" where
  "references_dict p = map (\<lambda>r. (rf_reference_id r, r)) (ep_input_references p)"

lemma nodes_dict_keys [simp]: "fst ` set (nodes_dict p) = plan_ids p"
  by (simp add: nodes_dict_def plan_ids_def image_image)

lemma nodes_dict_deps [simp]: "dep_map en_dependencies (nodes_dict p) = plan_deps (ep_nodes p)"
  by (simp add: nodes_dict_def dep_map_def plan_deps_def)

lemma map_fst_plan_deps [simp]: "map fst (plan_deps ns) = map en_node_id ns"
  by (simp add: plan_deps_def)

lemma nodes_plan_deps [simp]: "nodes (plan_deps ns) = en_node_id ` set ns"
  by (simp add: nodes_def)

lemma plan_root_issues_Nil:
  assumes "distinct (map en_node_id (ep_nodes p))"
  shows "plan_root_issues p (nodes_dict p) = [] \<longleftrightarrow>
    (\<exists>rt \<in> set (ep_nodes p). en_node_id rt = ep_root_node_id p \<and> en_execution_role rt = Root)
    \<and> (\<forall>n \<in> set (ep_nodes p). en_execution_role n = Root \<longrightarrow> en_node_id n = ep_root_node_id p)"
proof -
  note check = key_map_check[OF assms, where k = "ep_root_node_id p" and P = "\<lambda>rt. en_execution_role rt = Root"]
  show ?thesis
    unfolding plan_root_issues_def append_is_Nil_conv concat_map_Nil_iff opt_issue_Nil check[symmetric] nodes_dict_def
    by (cases "map_of (map (\<lambda>n. (en_node_id n, n)) (ep_nodes p)) (ep_root_node_id p)") (simp_all add: opt_issue_Nil)
qed

lemma node_binding_issues_Nil:
  assumes "distinct (map bd_binding_id (ep_service_bindings p))"
  shows "node_binding_issues (bindings_dict p) n fb i = [] \<longleftrightarrow> (\<exists>b \<in> set (ep_service_bindings p).
     bd_binding_id b = i \<and> bd_cell_id b = en_cell_id n \<and> bd_formula_version b = en_formula_version n)"
proof -
  have "node_binding_issues (bindings_dict p) n fb i = [] \<longleftrightarrow>
    (case map_of (bindings_dict p) i of None \<Rightarrow> False
     | Some b \<Rightarrow> bd_cell_id b = en_cell_id n \<and> bd_formula_version b = en_formula_version n)"
    by (auto simp: node_binding_issues_def opt_issue_Nil split: option.splits)
  then show ?thesis unfolding bindings_dict_def key_map_check[OF assms] .
qed

text \<open>When every reference of the node exists, its references are those of the specification.\<close>

lemma referenced_all:
  assumes d: "distinct (map rf_reference_id (ep_input_references p))"
    and ids: "set (en_input_reference_ids n) \<subseteq> rf_reference_id ` set (ep_input_references p)"
  shows "set (referenced (references_dict p) n) \<subseteq> set (ep_input_references p)
    \<and> map rf_reference_id (referenced (references_dict p) n) = en_input_reference_ids n"
proof -
  have "set (List.map_filter (map_of (references_dict p)) is) \<subseteq> set (ep_input_references p)
      \<and> map rf_reference_id (List.map_filter (map_of (references_dict p)) is) = is"
    if "set is \<subseteq> rf_reference_id ` set (ep_input_references p)" for "is"
    using that
  proof (induction "is")
    case (Cons i "is")
    then obtain r where "r \<in> set (ep_input_references p)" "rf_reference_id r = i" by auto
    moreover from this d have "map_of (references_dict p) i = Some r"
      unfolding references_dict_def by (simp add: key_map_lookup)
    ultimately show ?case using Cons by (simp add: List.map_filter_simps)
  qed (simp add: List.map_filter_simps)
  then show ?thesis using ids unfolding referenced_def by blast
qed

lemma referenced_unique:
  assumes "distinct (map rf_reference_id xs)" "set rs \<subseteq> set xs" "set ss \<subseteq> set xs"
    and "map rf_reference_id rs = map rf_reference_id ss"
  shows "rs = ss"
  using assms(4,2,3)
proof (induction rs ss rule: list_induct2')
  case (4 r rs s ss)
  have "inj_on rf_reference_id (set xs)" using assms(1) by (simp add: distinct_map)
  with 4 show ?case by (auto dest: inj_onD)
qed simp_all

lemma input_kind_issues_Nil:
  "input_kind_issues d n = [] \<longleftrightarrow> distinct (en_required_input_kinds n)
     \<and> ''analysis_request'' \<in> set (en_required_input_kinds n)
     \<and> map rf_input_kind (referenced d n) = en_required_input_kinds n"
proof -
  let ?rs = "referenced d n" and ?req = "en_required_input_kinds n"
  have sub: "sort (filter (\<lambda>k. k \<notin> A) (remdups xs)) = [] \<longleftrightarrow> set xs \<subseteq> A" for A and xs :: "string list"
    using unreached_Nil[of "\<lambda>x. x" A "remdups xs"] by simp
  have multi: "(\<forall>k \<in> set (sort (remdups (map rf_input_kind ?rs))). length (filter (\<lambda>r. rf_input_kind r = k) ?rs) \<le> 1)
      \<longleftrightarrow> distinct (map rf_input_kind ?rs)"
    using distinct_at_most_once[of rf_input_kind ?rs] by simp
  have gen: "distinct req \<and> x \<and> set req \<subseteq> set ks \<and> set ks \<subseteq> set req \<and> distinct ks
      \<and> \<not> (distinct req \<and> distinct ks \<and> set req = set ks \<and> req \<noteq> ks) \<longleftrightarrow> distinct req \<and> x \<and> ks = req"
    for req ks :: "string list" and x by auto
  show ?thesis
    unfolding input_kind_issues_def Let_def append_is_Nil_conv opt_issue_Nil map_is_Nil_conv sub
      concat_map_Nil_iff not_not multi length_set_distinct
    by (rule gen)
qed

lemma node_inputs_Nil:
  assumes d: "distinct (map rf_reference_id (ep_input_references p))"
  shows "distinct (en_input_reference_ids n) \<and> en_input_reference_ids n \<noteq> []
      \<and> set (en_input_reference_ids n) \<subseteq> rf_reference_id ` set (ep_input_references p)
      \<and> input_kind_issues (references_dict p) n = [] \<longleftrightarrow> node_inputs_ok p n" (is "?L \<longleftrightarrow> _")
proof
  assume L: ?L
  with referenced_all[OF d, of n] show "node_inputs_ok p n"
    unfolding node_inputs_ok_def input_kind_issues_Nil by blast
next
  assume "node_inputs_ok p n"
  then obtain rs where n: "distinct (en_input_reference_ids n)" "distinct (en_required_input_kinds n)"
      "''analysis_request'' \<in> set (en_required_input_kinds n)"
    and rs: "set rs \<subseteq> set (ep_input_references p)" "map rf_reference_id rs = en_input_reference_ids n"
      "map rf_input_kind rs = en_required_input_kinds n"
    unfolding node_inputs_ok_def by blast
  have ids: "set (en_input_reference_ids n) \<subseteq> rf_reference_id ` set (ep_input_references p)"
    using rs(1) unfolding rs(2)[symmetric] by auto
  from referenced_all[OF d this] have "referenced (references_dict p) n = rs"
    using rs by (intro referenced_unique[OF d]) auto
  moreover have "en_input_reference_ids n \<noteq> []" using n(3) rs(2,3) by auto
  ultimately show ?L using n ids rs(3) unfolding input_kind_issues_Nil by blast
qed

lemma plan_dependency_issues_Nil:
  "plan_dependency_issues (nodes_dict p) n dep = [] \<longleftrightarrow> dep \<noteq> en_node_id n \<and> dep \<in> plan_ids p"
  by (simp add: plan_dependency_issues_def issue_simps)

lemma plan_node_issues_Nil:
  assumes b: "distinct (map bd_binding_id (ep_service_bindings p))"
    and r: "distinct (map rf_reference_id (ep_input_references p))"
  shows "plan_node_issues (nodes_dict p) (bindings_dict p) (references_dict p) n = [] \<longleftrightarrow>
    node_dependencies_ok p n \<and> node_inputs_ok p n \<and> node_bindings_ok p n"
proof -
  have keys: "fst ` set (references_dict p) = rf_reference_id ` set (ep_input_references p)"
    by (simp add: references_dict_def image_image)
  have deps: "(\<forall>x \<in> set xs. x \<noteq> i \<and> x \<in> A) \<longleftrightarrow> set xs \<subseteq> A - {i}" for xs A and i :: string by auto
  have "node_bindings_ok p n \<longleftrightarrow> distinct (en_fallback_binding_ids n)
      \<and> en_binding_id n \<notin> set (en_fallback_binding_ids n)
      \<and> node_binding_issues (bindings_dict p) n False (en_binding_id n) = []
      \<and> (\<forall>i \<in> set (en_fallback_binding_ids n). node_binding_issues (bindings_dict p) n True i = [])"
    unfolding node_bindings_ok_def node_binding_issues_Nil[OF b] by (simp add: conj_ac)
  moreover have "node_dependencies_ok p n \<longleftrightarrow> \<not> (en_execution_role n = Leaf \<and> en_dependencies n \<noteq> [])
      \<and> distinct (en_dependencies n)
      \<and> (\<forall>x \<in> set (en_dependencies n). plan_dependency_issues (nodes_dict p) n x = [])"
    unfolding node_dependencies_ok_def plan_dependency_issues_Nil deps by blast
  moreover have "node_inputs_ok p n \<longleftrightarrow> en_input_reference_ids n \<noteq> [] \<and> distinct (en_input_reference_ids n)
      \<and> (\<forall>i \<in> set (en_input_reference_ids n). i \<in> fst ` set (references_dict p))
      \<and> input_kind_issues (references_dict p) n = []"
    unfolding node_inputs_Nil[OF r, symmetric] keys by blast
  ultimately show ?thesis
    unfolding plan_node_issues_def append_is_Nil_conv opt_issue_Nil concat_map_Nil_iff length_set_distinct not_not
    by blast
qed

lemma plan_usage_Nil:
  "binding_usage_issues p = [] \<longleftrightarrow> (\<forall>b \<in> set (ep_service_bindings p). \<exists>n \<in> set (ep_nodes p).
     bd_binding_id b \<in> set (en_binding_id n # en_fallback_binding_ids n))"
  "reference_usage_issues p = [] \<longleftrightarrow> (\<forall>r \<in> set (ep_input_references p). \<exists>n \<in> set (ep_nodes p).
     rf_reference_id r \<in> set (en_input_reference_ids n))"
  by (simp_all add: binding_usage_issues_def reference_usage_issues_def issue_simps)

lemma plan_reachability_Nil:
  assumes "ep_root_node_id p \<in> plan_ids p"
  shows "plan_reachability_issues p (nodes_dict p) = [] \<longleftrightarrow>
    plan_ids p \<subseteq> reachable_from (plan_deps (ep_nodes p)) [ep_root_node_id p]"
  using assms
  unfolding plan_reachability_issues_def Let_def dependency_closure_reachable nodes_dict_deps
  by (simp only: nodes_dict_keys not_True_eq_False if_False unreached_Nil set_map)

lemma validate_plan_decides:
  "validate_execution_plan p = Inr v \<longleftrightarrow> plan_ok p
     \<and> v = \<lparr>vp_plan = p,
            vp_topological_levels = fst (stable_topological_levels (plan_deps (ep_nodes p)))\<rparr>"
proof (cases "distinct (map en_node_id (ep_nodes p)) \<and> distinct (map bd_binding_id (ep_service_bindings p))
    \<and> distinct (map rf_reference_id (ep_input_references p))")
  case False
  have dup: "snd (unique_plan_nodes p) = [] \<longleftrightarrow> distinct (map en_node_id (ep_nodes p))"
    "snd (unique_bindings p) = [] \<longleftrightarrow> distinct (map bd_binding_id (ep_service_bindings p))"
    "snd (unique_input_references p) = [] \<longleftrightarrow> distinct (map rf_reference_id (ep_input_references p))"
    by (simp_all add: unique_plan_nodes_def unique_bindings_def unique_input_references_def issue_simps)
  have "\<not> plan_ok p" using False unfolding plan_ok_def by blast
  moreover have "validate_execution_plan p \<noteq> Inr v"
    using False unfolding validate_execution_plan_def Let_def split_beta issues_Inr
    unfolding append_is_Nil_conv dup by blast
  ultimately show ?thesis by blast
next
  case True
  then have d: "distinct (map en_node_id (ep_nodes p))" and b: "distinct (map bd_binding_id (ep_service_bindings p))"
    and r: "distinct (map rf_reference_id (ep_input_references p))" by blast+
  obtain levels cyclic where lv: "stable_topological_levels (plan_deps (ep_nodes p)) = (levels, cyclic)"
    by (cases "stable_topological_levels (plan_deps (ep_nodes p))")
  have cyc: "cyclic = [] \<longleftrightarrow> acyclic (dep_rel (plan_deps (ep_nodes p)))"
    using d lv by (intro stable_levels_acyclic) simp_all
  have un: "unique_plan_nodes p = (nodes_dict p, [])" "unique_bindings p = (bindings_dict p, [])"
    "unique_input_references p = (references_dict p, [])"
    using d b r by (simp_all add: prod_eq_iff unique_plan_nodes_def unique_bindings_def
        unique_input_references_def issue_simps unique_by_all nodes_dict_def bindings_dict_def references_dict_def)
  have scope: "reference_scope_issues p = [] \<longleftrightarrow>
      (\<forall>r \<in> set (ep_input_references p). rf_target r = ep_target p \<and> rf_horizon r = ep_horizon p)"
    unfolding reference_scope_issues_def concat_map_Nil_iff opt_issue_Nil not_not ..
  have rt: "ep_root_node_id p \<in> plan_ids p" if "plan_root_issues p (nodes_dict p) = []"
    using that unfolding plan_root_issues_Nil[OF d] plan_ids_def by (metis imageI)
  have ok: "plan_ok p \<longleftrightarrow> reference_scope_issues p = [] \<and> plan_root_issues p (nodes_dict p) = []
      \<and> (\<forall>n \<in> set (ep_nodes p). plan_node_issues (nodes_dict p) (bindings_dict p) (references_dict p) n = [])
      \<and> binding_usage_issues p = [] \<and> reference_usage_issues p = [] \<and> cyclic = []
      \<and> plan_reachability_issues p (nodes_dict p) = []"
  proof (cases "plan_root_issues p (nodes_dict p) = []")
    case True
    from True have "(\<exists>rt \<in> set (ep_nodes p). en_node_id rt = ep_root_node_id p \<and> en_execution_role rt = Root)
      \<and> (\<forall>n \<in> set (ep_nodes p). en_execution_role n = Root \<longrightarrow> en_node_id n = ep_root_node_id p)"
      unfolding plan_root_issues_Nil[OF d] .
    with True d b r show ?thesis
      unfolding plan_ok_def scope plan_node_issues_Nil[OF b r] plan_usage_Nil cyc plan_reachability_Nil[OF rt[OF True]]
      by (simp only: simp_thms) blast
  next
    case False
    then have "\<not> plan_ok p" unfolding plan_ok_def plan_root_issues_Nil[OF d] by blast
    with False show ?thesis by blast
  qed
  show ?thesis
    unfolding validate_execution_plan_def un Let_def prod.case nodes_dict_deps lv issues_Inr fst_conv
    unfolding append_is_Nil_conv concat_map_Nil_iff opt_issue_Nil not_not ok
    by (simp only: simp_thms)
qed

subsection \<open>What a validated plan gives its executor\<close>

lemma validated_plan:
  assumes "validate_execution_plan p = Inr v"
  shows "plan_ok p" "vp_plan v = p"
    and "stable_topological_levels (plan_deps (ep_nodes p)) = (vp_topological_levels v, [])"
proof -
  from assms show ok: "plan_ok p" and "vp_plan v = p" by (simp_all add: validate_plan_decides)
  obtain levels cyc where s: "stable_topological_levels (plan_deps (ep_nodes p)) = (levels, cyc)"
    by (meson surj_pair)
  from ok have "acyclic (dep_rel (plan_deps (ep_nodes p)))" "distinct (map fst (plan_deps (ep_nodes p)))"
    unfolding plan_ok_def map_fst_plan_deps by blast+
  then have "cyc = []" using stable_levels_acyclic s by blast
  with s assms show "stable_topological_levels (plan_deps (ep_nodes p)) = (vp_topological_levels v, [])"
    by (simp add: validate_plan_decides)
qed

lemma plan_node_deps:
  assumes "plan_ok p" "n \<in> set (ep_nodes p)"
  shows "deps_of (plan_deps (ep_nodes p)) (en_node_id n) = en_dependencies n"
    and "set (en_dependencies n) \<subseteq> plan_ids p"
proof -
  from assms have "distinct (map en_node_id (ep_nodes p))" "node_dependencies_ok p n"
    unfolding plan_ok_def by blast+
  then show "set (en_dependencies n) \<subseteq> plan_ids p" by (auto simp: node_dependencies_ok_def)
  have "(en_node_id n, en_dependencies n) \<in> set (plan_deps (ep_nodes p))"
    using assms(2) by (auto simp: plan_deps_def)
  then have "map_of (plan_deps (ep_nodes p)) (en_node_id n) = Some (en_dependencies n)"
    using \<open>distinct (map en_node_id (ep_nodes p))\<close> by (intro map_of_is_SomeI) simp_all
  then show "deps_of (plan_deps (ep_nodes p)) (en_node_id n) = en_dependencies n" by (simp add: deps_of_def)
qed

text \<open>Its levels are an execution order.\<close>

lemma plan_levels:
  assumes "validate_execution_plan p = Inr v"
  shows "mset (concat (vp_topological_levels v)) = mset (map en_node_id (ep_nodes p))"
    and "\<And>i n. i < length (vp_topological_levels v) \<Longrightarrow> n \<in> set (ep_nodes p) \<Longrightarrow>
      en_node_id n \<in> set (vp_topological_levels v ! i) \<Longrightarrow>
      set (en_dependencies n) \<subseteq> set (concat (take i (vp_topological_levels v)))"
    and "vp_topological_levels v \<noteq> []" "last (vp_topological_levels v) = [ep_root_node_id p]"
proof -
  let ?levels = "vp_topological_levels v"
  note ok = validated_plan(1)[OF assms] and s = validated_plan(3)[OF assms]
  have d: "distinct (map fst (plan_deps (ep_nodes p)))" and ids: "distinct (map en_node_id (ep_nodes p))"
    and root: "\<exists>rt \<in> set (ep_nodes p). en_node_id rt = ep_root_node_id p"
    and reach: "plan_ids p \<subseteq> reachable_from (plan_deps (ep_nodes p)) [ep_root_node_id p]"
    using ok unfolding plan_ok_def map_fst_plan_deps by blast+
  note placed = stable_levels_complete[OF d s]
  show "mset (concat ?levels) = mset (map en_node_id (ep_nodes p))"
    by (rule set_eq_iff_mset_eq_distinct[THEN iffD1]) (use placed ids in \<open>simp_all\<close>)
  show "set (en_dependencies n) \<subseteq> set (concat (take i ?levels))"
    if "i < length ?levels" "n \<in> set (ep_nodes p)" "en_node_id n \<in> set (?levels ! i)" for i n
    using placed(3)[OF that(1,3)] plan_node_deps[OF ok that(2)] by (auto simp: plan_ids_def)
  show ne: "?levels \<noteq> []" using placed(1) root by auto
  show "last ?levels = [ep_root_node_id p]"
    using reach by (intro root_placed_last[OF s d _ ne]) (simp add: plan_ids_def)
qed

subsection \<open>Properties\<close>

text \<open>
  C1: The plan validator decides the specification: it accepts exactly the well-formed plans (unique
  nodes, bindings and references in the plan's scope, one root, acyclic dependencies reachable from
  it, for every node an existing input of each required kind in order and existing bindings that
  implement its Cell, nothing unused), and then returns their stable levels.
\<close>

theorem plan_validator_decides:
  "validate_execution_plan p = Inr v \<longleftrightarrow> plan_ok p
     \<and> v = \<lparr>vp_plan = p,
            vp_topological_levels = fst (stable_topological_levels (plan_deps (ep_nodes p)))\<rparr>"
  by (rule validate_plan_decides)

text \<open>
  When a node also names a missing input, the order check reports the wrong reference: it indexes
  the node's whole reference list with a position among the existing references.
\<close>

definition misordered_node :: exec_node where
  "misordered_node = \<lparr>en_node_id = ''n'', en_cell_id = ''c'', en_formula_version = ''v'',
     en_execution_role = Root, en_binding_id = ''b'', en_fallback_binding_ids = [], en_dependencies = [],
     en_input_reference_ids = [''absent'', ''r1'', ''r2''],
     en_required_input_kinds = [''candle_batch'', ''analysis_request''], en_input_keys = [],
     en_output_keys = [], en_resource_hints = default_resource_hints, en_metadata = []\<rparr>"

definition sample_reference :: "string \<Rightarrow> string \<Rightarrow> reference" where
  "sample_reference i k = \<lparr>rf_reference_id = i, rf_snapshot_id = i, rf_input_kind = k, rf_uri = [],
     rf_content_hash = [], rf_data_version = [], rf_source = [], rf_target = ''t'', rf_horizon = ''h'',
     rf_payload_size_bytes = 0, rf_schema_version = [], rf_metadata = []\<rparr>"

lemma order_issue_names_missing_reference:
  "map (\<lambda>i. (pi_code i, pi_reference_id i))
     (input_kind_issues [(''r1'', sample_reference ''r1'' ''analysis_request''),
       (''r2'', sample_reference ''r2'' ''candle_batch'')] misordered_node)
   = [(P_unexpected_input_kind, Some ''absent'')]"
  by code_simp

end
