(* ===== verification/Router.thy ===== *)
theory Router
  imports Executor
begin

section \<open>Routing an execution to the executor of its binding\<close>

text \<open>
  Models \<open>execution/router.py\<close>: validated route tables, the choice of a route for a binding, and
  \<open>ExecutorRouter.execute\<close> with its three failure paths (no plan or route, a delegate that raises
  or returns something else, a trace that does not match the context).
\<close>

datatype route_kind = Service_route | Runtime_route

fun show_route_kind :: "route_kind \<Rightarrow> string" where
  "show_route_kind Service_route = ''service''"
| "show_route_kind Runtime_route = ''runtime''"

record 'w route =
  ro_kind :: route_kind
  ro_key :: string
  ro_executor :: "'w executor"

record 'w router =
  rr_service_routes :: "(string \<times> 'w executor) list"
  rr_runtime_routes :: "(string \<times> 'w executor) list"

definition router_name :: string where
  "router_name = ''executor_router_v0.1''"

subsection \<open>Route tables\<close>

fun add_routes :: "string \<Rightarrow> (string \<times> 'w executor) list \<Rightarrow> (string \<times> 'w executor) list
    \<Rightarrow> (string \<times> 'w executor) list res" where
  "add_routes field normalized [] = Inr normalized"
| "add_routes field normalized ((key, ex) # rest) =
     (let k = strip key in
      if k = [] then raise PyValueError (msg [''executor route '', field, '' must not be empty''])
      else if field = ''runtime'' \<and> k \<notin> set cell_runtimes then
        raise PyValueError (msg [''unsupported executor route runtime: '', k])
      else if k \<in> fst ` set normalized then
        raise PyValueError (msg [''duplicate executor route '', field, '': '', k])
      else add_routes field (AList.update k ex normalized) rest)"

definition validated_routes :: "(string \<times> 'w executor) list \<Rightarrow> string \<Rightarrow> (string \<times> 'w executor) list res" where
  "validated_routes routes field = add_routes field [] routes"

definition mk_router :: "(string \<times> 'w executor) list \<Rightarrow> (string \<times> 'w executor) list \<Rightarrow> 'w router res" where
  "mk_router service_routes runtime_routes =
     bind_res (validated_routes service_routes ''service_id'') (\<lambda>s.
     bind_res (validated_routes runtime_routes ''runtime'') (\<lambda>r.
     Inr \<lparr>rr_service_routes = s, rr_runtime_routes = r\<rparr>))"

definition resolve_route :: "'w router \<Rightarrow> binding \<Rightarrow> 'w route res" where
  "resolve_route R b =
     (case map_of (rr_service_routes R) (bd_service_id b) of
        Some ex \<Rightarrow> Inr \<lparr>ro_kind = Service_route, ro_key = bd_service_id b, ro_executor = ex\<rparr>
      | None \<Rightarrow>
         (case map_of (rr_runtime_routes R) (bd_runtime b) of
            Some ex \<Rightarrow> Inr \<lparr>ro_kind = Runtime_route, ro_key = bd_runtime b, ro_executor = ex\<rparr>
          | None \<Rightarrow> raise ExecutorRouteNotFoundError (msg [''no executor route for binding '',
              bd_binding_id b, '' (service_id='', bd_service_id b, '', runtime='', bd_runtime b, '')''])))"

subsection \<open>Trace metadata\<close>

definition planned_binding_metadata :: "binding \<Rightarrow> meta" where
  "planned_binding_metadata b =
     [(''planned_binding_id'', PStr (bd_binding_id b)),
      (''planned_implementation_id'', PStr (bd_implementation_id b)),
      (''planned_service_id'', PStr (bd_service_id b)), (''planned_runtime'', PStr (bd_runtime b))]"

definition route_metadata :: "binding option \<Rightarrow> 'w route \<Rightarrow> meta" where
  "route_metadata b ro = dict_merge
     [(''executor_router'', PStr router_name), (''route_kind'', PStr (show_route_kind (ro_kind ro))),
      (''route_key'', PStr (ro_key ro)), (''route_status'', PStr ''dispatched''),
      (''routed_executor'', PStr (ex_name (ro_executor ro)))]
     (case b of None \<Rightarrow> [] | Some b \<Rightarrow> planned_binding_metadata b)"

definition failure_metadata :: "'w exec_context \<Rightarrow> 'w route option \<Rightarrow> exc option \<Rightarrow> meta" where
  "failure_metadata cx route cause =
     (let base = dict_merge
            [(''executor'', PStr router_name),
             (''execution_phase'', PStr (if route = None then ''routing'' else ''dispatch'')),
             (''route_status'', PStr ''failed''),
             (''planned_binding'', PBool (cx_binding cx \<noteq> None)),
             (''input_reference_ids'', strs (case cx_node cx of None \<Rightarrow> [] | Some n \<Rightarrow> en_input_reference_ids n))]
            (cell_input_trace_metadata cx);
          planned = (case cx_binding cx of None \<Rightarrow> base
            | Some b \<Rightarrow> dict_merge base (planned_binding_metadata b));
          routed = (case route of None \<Rightarrow> planned
            | Some ro \<Rightarrow> AList.update ''route_status'' (PStr ''dispatch_failed'')
                (dict_merge planned (route_metadata (cx_binding cx) ro)))
      in case cause of None \<Rightarrow> routed
         | Some e \<Rightarrow> AList.update ''cause_type'' (PStr (exc_name (ex_class e))) routed)"

definition routing_failure :: "'w env \<Rightarrow> 'w cell \<Rightarrow> 'w exec_context \<Rightarrow> exc \<Rightarrow> string \<Rightarrow> pyfloat
    \<Rightarrow> 'w route option \<Rightarrow> exc option \<Rightarrow> 'w \<Rightarrow> outcome res \<times> 'w" where
  "routing_failure E c cx e started_at duration route cause w =
     (let (span, w1) = env_uuid E w; (finished_at, w2) = env_now E w1 in
      (bind_res (mk_trace \<lparr>rt_trace_id = cx_trace_id cx, rt_span_id = span, rt_run_id = cx_run_id cx,
         rt_node_id = context_node_id cx (mf_cell_id (cl_manifest c)), rt_cell_id = mf_cell_id (cl_manifest c),
         rt_formula_version = mf_formula_version (cl_manifest c), rt_status = TFailed,
         rt_started_at = started_at, rt_finished_at = finished_at, rt_duration_ms = duration,
         rt_schema_version = ''cell_runtime_trace.v1'', rt_plan_id = cx_plan_id cx,
         rt_implementation_id = None, rt_service_id = None, rt_runtime = None, rt_retry_count = 0,
         rt_error = Some (ex_msg e), rt_parent_span_id = None, rt_metadata = failure_metadata cx route cause\<rparr>)
       (\<lambda>t. mk_outcome \<lparr>oc_trace = t, oc_result = None, oc_error = Some e, oc_prior_traces = [],
          oc_control_record = None\<rparr>), w2))"

subsection \<open>Execution\<close>

text \<open>\<open>_duration_ms(started)\<close>, evaluated before \<open>_routing_failure\<close> is entered.\<close>

definition router_failure :: "'w env \<Rightarrow> 'w cell \<Rightarrow> 'w exec_context \<Rightarrow> exc \<Rightarrow> string \<Rightarrow> rat
    \<Rightarrow> 'w route option \<Rightarrow> exc option \<Rightarrow> 'w \<Rightarrow> exec_return \<times> 'w" where
  "router_failure E c cx e started_at started route cause w =
     (let (now, w1) = env_perf E w;
          (r, w2) = routing_failure E c cx e started_at (elapsed_ms started now) route cause w1
      in (of_outcome r, w2))"

text \<open>What the router does with an outcome of its delegate.\<close>

definition routed_outcome :: "'w exec_context \<Rightarrow> 'w route \<Rightarrow> outcome \<Rightarrow> outcome res" where
  "routed_outcome cx ro oc =
     bind_res (mk_trace ((oc_trace oc)\<lparr>rt_metadata := dict_merge (rt_metadata (oc_trace oc))
         (route_metadata (cx_binding cx) ro)\<rparr>)) (\<lambda>t.
     case validate_execution_trace_context t cx of
       Inr _ \<Rightarrow> mk_outcome \<lparr>oc_trace = t, oc_result = oc_result oc, oc_error = oc_error oc,
         oc_prior_traces = oc_prior_traces oc, oc_control_record = oc_control_record oc\<rparr>
     | Inl e \<Rightarrow>
         bind_res (mk_trace (t\<lparr>rt_status := TFailed, rt_error := Some (ex_msg e),
           rt_metadata := dict_merge (rt_metadata t)
             [(''route_status'', PStr ''trace_rejected''),
              (''delegate_status'', PStr (show_trace_status (rt_status (oc_trace oc)))),
              (''delegate_error'', opt_str (rt_error (oc_trace oc)))]\<rparr>)) (\<lambda>t.
         mk_outcome \<lparr>oc_trace = t, oc_result = None, oc_error = Some e,
           oc_prior_traces = oc_prior_traces oc, oc_control_record = oc_control_record oc\<rparr>))"

definition dispatch_error :: "'w route \<Rightarrow> binding \<Rightarrow> exc \<Rightarrow> exc" where
  "dispatch_error ro b e = mk_exc ExecutorDispatchError (msg [''executor '', ex_name (ro_executor ro),
     '' raised while dispatching binding '', bd_binding_id b, '': '', ex_msg e])"

definition router_execute :: "'w env \<Rightarrow> 'w router \<Rightarrow> 'w execute_fn" where
  "router_execute E R c rq cx children w =
     (let (started_at, w1) = env_now E w; (started, w2) = env_perf E w1;
          fail = (\<lambda>e route cause w. router_failure E c cx e started_at started route cause w) in
      case (cx_plan_id cx, cx_node cx, cx_binding cx) of
        (Some p, Some n, Some b) \<Rightarrow>
          (case resolve_route R b of
             Inl e \<Rightarrow> fail e None None w2
           | Inr ro \<Rightarrow>
               (let (ret, w3) = ex_execute (ro_executor ro) c rq cx children w2 in
                case ret of
                  ExOutcome oc \<Rightarrow> (of_outcome (routed_outcome cx ro oc), w3)
                | ExRaised e \<Rightarrow> fail (dispatch_error ro b e) (Some ro) (Some e) w3
                | ExOther t \<Rightarrow>
                    (let e = mk_exc PyTypeError (msg [''executor '', ex_name (ro_executor ro), '' returned '', t,
                       '', expected CellExecutionOutcome''])
                     in fail (dispatch_error ro b e) (Some ro) (Some e) w3)))
      | _ \<Rightarrow> fail (mk_exc ExecutorRouteNotFoundError
          ''executor router requires plan_id, execution node, and service binding'') None None w2)"

definition router_as_executor :: "'w env \<Rightarrow> 'w router \<Rightarrow> 'w executor" where
  "router_as_executor E R = \<lparr>ex_name = router_name, ex_execute = router_execute E R\<rparr>"

subsection \<open>Route tables hold their keys once\<close>

lemma add_routes_Inr:
  "add_routes field d routes = Inr d' \<Longrightarrow> distinct (map fst d) \<Longrightarrow>
   distinct (map fst d') \<and> d' = d @ map (\<lambda>r. (strip (fst r), snd r)) routes
   \<and> (field = ''runtime'' \<longrightarrow> (\<forall>r \<in> set routes. strip (fst r) \<in> set cell_runtimes))"
proof (induction field d routes rule: add_routes.induct)
  case (2 field d key ex rest)
  from "2.prems"(1) have k: "strip key \<noteq> []" "strip key \<notin> fst ` set d"
    "\<not> (field = ''runtime'' \<and> strip key \<notin> set cell_runtimes)"
    "add_routes field (AList.update (strip key) ex d) rest = Inr d'"
    unfolding add_routes.simps Let_def guard_Inr by blast+
  have "distinct (map fst (AList.update (strip key) ex d))" using "2.prems"(2) by (simp add: distinct_update)
  from "2.IH"[OF refl k(1,3,2,4) this] k(3) show ?case
    unfolding update_append_new[OF k(2)] by (intro conjI; elim conjE) (assumption, simp, simp)
qed simp

subsection \<open>The router keeps the executor contract\<close>

definition router_ok :: "('w \<Rightarrow> 'w \<Rightarrow> bool) \<Rightarrow> ('w \<Rightarrow> string set) \<Rightarrow> 'w router \<Rightarrow> bool" where
  "router_ok le used R \<longleftrightarrow> (\<forall>(k, ex) \<in> set (rr_service_routes R) \<union> set (rr_runtime_routes R).
     executor_ok le used (ex_execute ex))"

lemma resolve_route_ok:
  assumes "router_ok le used R" "resolve_route R b = Inr ro"
  shows "executor_ok le used (ex_execute (ro_executor ro))"
  using assms
  by (auto simp: resolve_route_def router_ok_def dest!: map_of_SomeD split: option.splits)

lemma context_mismatches_metadata:
  "context_trace_mismatches (t\<lparr>rt_metadata := md\<rparr>) cx = context_trace_mismatches t cx"
  by (cases "cx_node cx"; cases "cx_binding cx") (simp_all add: context_trace_mismatches_def)

lemma routed_outcome_ok:
  assumes good: "good_outcome used w w' oc"
  shows "\<exists>oc'. routed_outcome cx ro oc = Inr oc' \<and> good_outcome used w w' oc'
     \<and> (oc_result oc' \<noteq> None \<longrightarrow> oc_result oc' = oc_result oc \<and> context_trace_mismatches (oc_trace oc') cx = [])
     \<and> (oc_result oc' = None \<longrightarrow> oc_result oc = None \<or> context_trace_mismatches (oc_trace oc) cx \<noteq> [])"
proof -
  let ?t = "(oc_trace oc)\<lparr>rt_metadata := dict_merge (rt_metadata (oc_trace oc)) (route_metadata (cx_binding cx) ro)\<rparr>"
  have t: "trace_ok ?t" using good by (simp add: good_outcome_def trace_ok_def runtime_traces_def)
  have same: "context_trace_mismatches ?t cx = context_trace_mismatches (oc_trace oc) cx"
    by (rule context_mismatches_metadata)
  show ?thesis
  proof (cases "validate_execution_trace_context ?t cx")
    case (Inr u)
    then have none: "context_trace_mismatches ?t cx = []"
      unfolding validate_execution_trace_context_def Let_def by (simp split: if_splits)
    let ?oc = "\<lparr>oc_trace = ?t, oc_result = oc_result oc, oc_error = oc_error oc,
         oc_prior_traces = oc_prior_traces oc, oc_control_record = oc_control_record oc\<rparr>"
    have "outcome_ok ?oc" using good by (simp add: good_outcome_def outcome_ok_def runtime_traces_def)
    then have "routed_outcome cx ro oc = Inr ?oc"
      using t Inr by (simp add: routed_outcome_def mk_trace_Inr bind_res_eq_Inr mk_outcome_Inr)
    moreover have "good_outcome used w w' ?oc"
      using good t \<open>outcome_ok ?oc\<close> by (simp add: good_outcome_def runtime_traces_def)
    ultimately show ?thesis using none by auto
  next
    case (Inl e)
    then have some: "context_trace_mismatches (oc_trace oc) cx \<noteq> []"
      unfolding validate_execution_trace_context_def Let_def same by (simp split: if_splits)
    define md where "md = dict_merge (rt_metadata ?t)
             [(''route_status'', PStr ''trace_rejected''),
              (''delegate_status'', PStr (show_trace_status (rt_status (oc_trace oc)))),
              (''delegate_error'', opt_str (rt_error (oc_trace oc)))]"
    let ?u = "?t\<lparr>rt_status := TFailed, rt_error := Some (ex_msg e), rt_metadata := md\<rparr>"
    let ?oc = "\<lparr>oc_trace = ?u, oc_result = None, oc_error = Some e,
         oc_prior_traces = oc_prior_traces oc, oc_control_record = oc_control_record oc\<rparr>"
    have u: "trace_ok ?u" using t by (simp add: trace_ok_def)
    have "outcome_ok ?oc" using good by (simp add: good_outcome_def outcome_ok_def runtime_traces_def)
    then have "routed_outcome cx ro oc = Inr ?oc"
      using t u Inl unfolding routed_outcome_def md_def by (simp add: mk_trace_Inr bind_res_eq_Inr mk_outcome_Inr)
    moreover have "good_outcome used w w' ?oc"
      using good u \<open>outcome_ok ?oc\<close> by (simp add: good_outcome_def runtime_traces_def)
    ultimately show ?thesis using some by auto
  qed
qed

context world
begin

lemma routing_failure_ok:
  assumes "routing_failure E c cx e st d ro cause w = (r, w')" "fnonneg d"
  shows "le w w'" "\<exists>oc. r = Inr oc \<and> good_outcome used w w' oc \<and> oc_result oc = None \<and> oc_error oc = Some e"
proof -
  obtain span w1 where u: "env_uuid E w = (span, w1)" by (cases "env_uuid E w")
  obtain fin w2 where n: "env_now E w1 = (fin, w2)" by (cases "env_now E w1")
  have w': "w' = w2" using assms(1) by (simp add: routing_failure_def u n)
  have le12: "le w1 w2" by (rule step_now[OF le_refl n])
  show "le w w'" using le_trans[OF step_uuid[OF le_refl u] le12] w' by simp
  have span: "span \<in> used w2 - used w" by (rule fresh_uuid[OF le_refl u le12])
  define t where "t = \<lparr>rt_trace_id = cx_trace_id cx, rt_span_id = span, rt_run_id = cx_run_id cx,
         rt_node_id = context_node_id cx (mf_cell_id (cl_manifest c)), rt_cell_id = mf_cell_id (cl_manifest c),
         rt_formula_version = mf_formula_version (cl_manifest c), rt_status = TFailed,
         rt_started_at = st, rt_finished_at = fin, rt_duration_ms = d,
         rt_schema_version = ''cell_runtime_trace.v1'', rt_plan_id = cx_plan_id cx,
         rt_implementation_id = None, rt_service_id = None, rt_runtime = None, rt_retry_count = 0,
         rt_error = Some (ex_msg e), rt_parent_span_id = None, rt_metadata = failure_metadata cx ro cause\<rparr>"
  have t: "trace_ok t" "rt_span_id t = span" "rt_status t = TFailed"
    using fnonneg_not_flt[OF assms(2)] by (simp_all add: t_def trace_ok_def)
  let ?oc = "\<lparr>oc_trace = t, oc_result = None, oc_error = Some e, oc_prior_traces = [], oc_control_record = None\<rparr>"
  have ok: "outcome_ok ?oc" using t by (simp add: outcome_ok_def runtime_traces_def)
  have "mk_trace t = Inr t" "mk_outcome ?oc = Inr ?oc" using t(1) ok by (simp_all add: mk_trace_Inr mk_outcome_Inr)
  then have "r = Inr ?oc"
    using assms(1) unfolding routing_failure_def u n Let_def prod.case t_def[symmetric] by simp
  moreover have "good_outcome used w w' ?oc"
    using span t ok w' by (simp add: good_outcome_def runtime_traces_def)
  ultimately show "\<exists>oc. r = Inr oc \<and> good_outcome used w w' oc \<and> oc_result oc = None \<and> oc_error oc = Some e"
    by auto
qed

text \<open>
  The router always returns an outcome: one of a route's executor whose trace matches the context,
  or a failure.
\<close>

lemma router_execute_outcome:
  assumes R: "router_ok le used R" and steps: "cell_steps le c" "signal_steps le cx"
    and ex: "router_execute E R c rq cx ch w = (r, w')"
  shows "le w w' \<and> (\<exists>oc. r = ExOutcome oc \<and> good_outcome used w w' oc \<and> (oc_result oc = None \<or>
     (\<exists>b ro oc'. cx_binding cx = Some b \<and> resolve_route R b = Inr ro
        \<and> (\<exists>w1 w2. ex_execute (ro_executor ro) c rq cx ch w1 = (ExOutcome oc', w2))
        \<and> oc_result oc = oc_result oc' \<and> context_trace_mismatches (oc_trace oc) cx = [])))"
    (is "?P r w'")
proof -
  obtain st w1 where n: "env_now E w = (st, w1)" by (cases "env_now E w")
  obtain p1 w2 where p1: "env_perf E w1 = (p1, w2)" by (cases "env_perf E w1")
  have le2: "le w w2" by (rule step_perf[OF step_now[OF le_refl n] p1])
  have fail: "?P r w'" if f: "router_failure E c cx e st p1 ro cause w3 = (r, w')" and le3: "le w2 w3"
    for e ro cause w3
  proof -
    obtain p2 w4 where p2: "env_perf E w3 = (p2, w4)" by (cases "env_perf E w3")
    obtain rr w5 where rf: "routing_failure E c cx e st (elapsed_ms p1 p2) ro cause w4 = (rr, w5)" by (meson surj_pair)
    from routing_failure_ok[OF rf elapsed_ok[OF p1 le3 p2]] obtain oc where
      oc: "rr = Inr oc" "good_outcome used w4 w5 oc" "oc_result oc = None" and le5: "le w4 w5" by blast
    have le4: "le w w4" by (rule step_perf[OF le_trans[OF le2 le3] p2])
    have "r = ExOutcome oc" "w' = w5" using f p2 rf oc(1) by (simp_all add: router_failure_def)
    with good_outcome_le[OF oc(2) le4 le_refl] le_trans[OF le4 le5] oc(3) show ?thesis by blast
  qed
  show ?thesis
  proof (cases "cx_plan_id cx = None \<or> cx_node cx = None \<or> cx_binding cx = None")
    case True
    with ex show ?thesis
      by (intro fail[OF _ le_refl]) (auto simp: router_execute_def n p1 Let_def split: option.splits)
  next
    case False
    then obtain p nd b where cx: "cx_plan_id cx = Some p" "cx_node cx = Some nd" "cx_binding cx = Some b" by auto
    show ?thesis
    proof (cases "resolve_route R b")
      case (Inl e)
      with ex cx show ?thesis by (intro fail[OF _ le_refl]) (simp add: router_execute_def n p1 Let_def)
    next
      case (Inr ro)
      obtain ret w3 where ret: "ex_execute (ro_executor ro) c rq cx ch w2 = (ret, w3)"
        by (cases "ex_execute (ro_executor ro) c rq cx ch w2")
      from resolve_route_ok[OF R Inr] steps ret have le3: "le w2 w3"
        and good: "\<And>oc. ret = ExOutcome oc \<Longrightarrow> good_outcome used w2 w3 oc"
        unfolding executor_ok_def by blast+
      show ?thesis
      proof (cases ret)
        case (ExOutcome oc)
        from routed_outcome_ok[OF good[OF ExOutcome], of cx ro] obtain oc' where
          oc': "routed_outcome cx ro oc = Inr oc'" "good_outcome used w2 w3 oc'"
          "oc_result oc' \<noteq> None \<longrightarrow> oc_result oc' = oc_result oc \<and> context_trace_mismatches (oc_trace oc') cx = []"
          by blast
        have "r = ExOutcome oc'" "w' = w3"
          using ex cx Inr ret ExOutcome oc'(1) by (simp_all add: router_execute_def n p1 Let_def)
        with good_outcome_le[OF oc'(2) le2 le_refl] le_trans[OF le2 le3] oc'(3) Inr ret ExOutcome cx(3)
        show ?thesis by (intro conjI exI[of _ oc']) (simp, simp, blast, blast)
      next
        case (ExRaised e)
        with ex cx Inr ret show ?thesis by (intro fail[OF _ le3]) (simp add: router_execute_def n p1 Let_def)
      next
        case (ExOther t)
        with ex cx Inr ret show ?thesis by (intro fail[OF _ le3]) (simp add: router_execute_def n p1 Let_def)
      qed
    qed
  qed
qed

lemma router_executor_ok: "router_ok le used R \<Longrightarrow> executor_ok le used (router_execute E R)"
  unfolding executor_ok_def using router_execute_outcome by (metis exec_return.inject(2))

end

subsection \<open>Properties\<close>

text \<open>
  C21: The router never runs a node anywhere else than its binding says. It always returns an
  outcome with fresh valid traces, and if that outcome carries a result then the result came from
  the executor of the binding's own route (the service route if there is one, else the runtime
  route) and the trace names exactly the planned implementation, service and runtime.
\<close>

theorem router_keeps_binding:
  assumes "world E le used" and "router_ok le used R" and "cell_steps le c" and "signal_steps le cx"
  shows "\<exists>oc w'. router_execute E R c rq cx ch w = (ExOutcome oc, w') \<and> good_outcome used w w' oc
    \<and> (\<forall>x. oc_result oc = Some x \<longrightarrow> (\<exists>b ro oc' w1 w2. cx_binding cx = Some b
        \<and> resolve_route R b = Inr ro \<and> ex_execute (ro_executor ro) c rq cx ch w1 = (ExOutcome oc', w2)
        \<and> oc_result oc' = Some x
        \<and> ro_executor ro = (case map_of (rr_service_routes R) (bd_service_id b) of Some ex \<Rightarrow> ex
            | None \<Rightarrow> the (map_of (rr_runtime_routes R) (bd_runtime b)))
        \<and> rt_implementation_id (oc_trace oc) = Some (bd_implementation_id b)
        \<and> rt_service_id (oc_trace oc) = Some (bd_service_id b)
        \<and> rt_runtime (oc_trace oc) = Some (bd_runtime b)))"
proof -
  obtain r w' where ex: "router_execute E R c rq cx ch w = (r, w')" by (meson surj_pair)
  from world.router_execute_outcome[OF assms ex] obtain oc where r: "r = ExOutcome oc" "good_outcome used w w' oc"
    and oc: "oc_result oc = None \<or> (\<exists>b ro oc'. cx_binding cx = Some b \<and> resolve_route R b = Inr ro
        \<and> (\<exists>w1 w2. ex_execute (ro_executor ro) c rq cx ch w1 = (ExOutcome oc', w2))
        \<and> oc_result oc = oc_result oc' \<and> context_trace_mismatches (oc_trace oc) cx = [])" by blast
  have route: "ro_executor ro = (case map_of (rr_service_routes R) (bd_service_id b) of Some ex \<Rightarrow> ex
            | None \<Rightarrow> the (map_of (rr_runtime_routes R) (bd_runtime b)))" if "resolve_route R b = Inr ro" for b ro
    using that by (auto simp: resolve_route_def split: option.splits)
  have named: "rt_implementation_id t = Some (bd_implementation_id b) \<and> rt_service_id t = Some (bd_service_id b)
      \<and> rt_runtime t = Some (bd_runtime b)" if "context_trace_mismatches t cx = []" "cx_binding cx = Some b" for t b
    using that by (simp add: context_trace_mismatches_def opt_issue_Nil)
  have "\<exists>b ro oc' w1 w2. cx_binding cx = Some b
        \<and> resolve_route R b = Inr ro \<and> ex_execute (ro_executor ro) c rq cx ch w1 = (ExOutcome oc', w2)
        \<and> oc_result oc' = Some x
        \<and> ro_executor ro = (case map_of (rr_service_routes R) (bd_service_id b) of Some ex \<Rightarrow> ex
            | None \<Rightarrow> the (map_of (rr_runtime_routes R) (bd_runtime b)))
        \<and> rt_implementation_id (oc_trace oc) = Some (bd_implementation_id b)
        \<and> rt_service_id (oc_trace oc) = Some (bd_service_id b)
        \<and> rt_runtime (oc_trace oc) = Some (bd_runtime b)" if x: "oc_result oc = Some x" for x
  proof -
    from oc x obtain b ro oc' w1 w2 where "cx_binding cx = Some b" "resolve_route R b = Inr ro"
      "ex_execute (ro_executor ro) c rq cx ch w1 = (ExOutcome oc', w2)" "oc_result oc = oc_result oc'"
      "context_trace_mismatches (oc_trace oc) cx = []" by auto
    with x route named show ?thesis by metis
  qed
  with ex r show ?thesis by blast
qed

text \<open>A router whose only route is a local executor.\<close>

definition sample_router :: "nat router" where
  "sample_router = \<lparr>rr_service_routes = [], rr_runtime_routes = [(''python_local'',
     \<lparr>ex_name = ''local'', ex_execute = local_execute tick_env ''python-local''\<rparr>)]\<rparr>"

lemma sample_router_ok: "router_ok (\<le>) tick_used sample_router"
  using tick.local_executor_ok by (simp add: router_ok_def sample_router_def)

theorem router_keeps_binding_witness:
  "\<exists>oc w'. router_execute tick_env sample_router sample_cell sample_request sample_context None 0 = (ExOutcome oc, w')
     \<and> good_outcome tick_used 0 w' oc"
  using router_keeps_binding[OF tick.world_axioms sample_router_ok sample_steps, of sample_request None 0] by blast

end
