(* ===== verification/Coordinator.thy ===== *)
theory Coordinator
  imports Plan_Validation Control
begin

section \<open>Executing a plan\<close>

text \<open>
  Models \<open>execution/coordinator.py\<close>: the composition of a node's inputs, with the caches of
  resolved snapshots and materialised requests, the execution of one node with every check of its
  outcome, and the loop of \<open>PlanDrivenLocalCoordinator.execute\<close> over the levels of a validated plan.
  The resolver, the executor, the Cells, the handler of completions and the clock act on a world,
  in the order of the calls.
\<close>

subsection \<open>Records\<close>

datatype resolution_status = Res_succeeded | Res_failed

record resolution_record =
  ir_node_id :: string
  ir_reference_id :: string
  ir_input_kind :: string
  ir_resolver :: string
  ir_status :: resolution_status
  ir_cache_hit :: bool
  ir_expected_content_hash :: string
  ir_actual_content_hash :: "string option"
  ir_expected_payload_size_bytes :: int
  ir_actual_payload_size_bytes :: "int option"
  ir_data_version :: string
  ir_source :: string
  ir_resolved_at :: string
  ir_error :: "string option"
  ir_schema_version :: string

record completion =
  nc_node_id :: string
  nc_cell_id :: string
  nc_binding_id :: string
  nc_execution_role :: node_role
  nc_input_reference_ids :: "string list"
  nc_result :: "cell_result option"
  nc_trace :: "trace option"
  nc_control_record :: "control_record option"
  nc_error :: "exc option"

record plan_outcome =
  po_coordinator :: string
  po_plan_id :: string
  po_root_node_id :: string
  po_results_by_node_id :: "(string \<times> cell_result) list"
  po_runtime_traces :: "trace list"
  po_execution_control_records :: "control_record list"
  po_input_resolution_records :: "resolution_record list"
  po_execution_order :: "string list"
  po_root_result :: "cell_result option"
  po_failed_node_id :: "string option"
  po_error :: "exc option"
  po_schema_version :: string

text \<open>\<open>PlanExecutionOutcome.__post_init__\<close>.\<close>

definition mk_plan_outcome :: "plan_outcome \<Rightarrow> plan_outcome res" where
  "mk_plan_outcome o' =
     (if po_error o' = None then
        (if po_root_result o' = None \<or> po_failed_node_id o' \<noteq> None then raise PyValueError
           ''successful plan execution requires a root result and no failed node''
         else if po_root_node_id o' \<notin> fst ` set (po_results_by_node_id o') then raise PyValueError
           ''root result must be stored by root_node_id''
         else Inr o')
      else if po_root_result o' \<noteq> None \<or> po_failed_node_id o' = None then raise PyValueError
        ''failed plan execution requires an error and failed_node_id''
      else Inr o')"

definition plan_succeeded :: "plan_outcome \<Rightarrow> bool" where
  "plan_succeeded o' \<longleftrightarrow> po_root_result o' \<noteq> None \<and> po_error o' = None"

definition plan_unwrap :: "plan_outcome \<Rightarrow> cell_result res" where
  "plan_unwrap o' =
     (case po_error o' of Some e \<Rightarrow> Inl e
      | None \<Rightarrow> (case po_root_result o' of
          None \<Rightarrow> raise PyRuntimeError (msg [''plan '', po_plan_id o', '' completed without root result '',
            po_root_node_id o'])
        | Some r \<Rightarrow> Inr r))"

definition plan_outcome_to_dict :: "plan_outcome \<Rightarrow> meta" where
  "plan_outcome_to_dict o' =
     [(''schema_version'', PStr (po_schema_version o')), (''coordinator'', PStr (po_coordinator o')),
      (''plan_id'', PStr (po_plan_id o')), (''root_node_id'', PStr (po_root_node_id o')),
      (''status'', PStr (if plan_succeeded o' then ''succeeded'' else ''failed'')),
      (''execution_order'', strs (po_execution_order o')),
      (''completed_node_ids'', strs (map fst (po_results_by_node_id o'))),
      (''failed_node_id'', opt_str (po_failed_node_id o')),
      (''error'', opt_str (map_option ex_msg (po_error o')))]"

subsection \<open>State and parameters\<close>

text \<open>\<open>d[k]\<close>; the message is \<open>repr(k)\<close> for a key without quotes or escapes.\<close>

definition dict_get :: "(string \<times> 'v) list \<Rightarrow> string \<Rightarrow> 'v res" where
  "dict_get d k = (case map_of d k of None \<Rightarrow> raise PyKeyError (msg [[CHR 0x27], k, [CHR 0x27]]) | Some v \<Rightarrow> Inr v)"

record 'w input_source =
  is_name :: string
  is_resolve :: "reference \<Rightarrow> 'w \<Rightarrow> snapshot res \<times> 'w"

record 'w coordination =
  cn_lib :: stdlib
  cn_env :: "'w env"
  cn_registry :: "'w cell list"
  cn_executor :: "'w executor"
  cn_source :: "'w input_source"
  cn_run_id :: string
  cn_trace_id :: string
  cn_handler :: "(completion \<Rightarrow> 'w \<Rightarrow> exc option \<times> 'w) option"
  cn_signal :: "('w \<Rightarrow> bool \<times> 'w) option"

record coord_state =
  co_results :: "(string \<times> cell_result) list"
  co_traces :: "trace list"
  co_controls :: "control_record list"
  co_resolutions :: "resolution_record list"
  co_resolved :: "(string \<times> snapshot) list"
  co_requests :: "(string \<times> request) list"
  co_order :: "string list"

definition initial_state :: coord_state where
  "initial_state = \<lparr>co_results = [], co_traces = [], co_controls = [], co_resolutions = [],
     co_resolved = [], co_requests = [], co_order = []\<rparr>"

text \<open>The dictionaries built from the plan, by comprehension.\<close>

definition nodes_by_id :: "exec_plan \<Rightarrow> (string \<times> exec_node) list" where
  "nodes_by_id p = dict_of (map (\<lambda>n. (en_node_id n, n)) (ep_nodes p))"

definition bindings_by_id :: "exec_plan \<Rightarrow> (string \<times> binding) list" where
  "bindings_by_id p = dict_of (map (\<lambda>b. (bd_binding_id b, b)) (ep_service_bindings p))"

definition references_by_id :: "exec_plan \<Rightarrow> (string \<times> reference) list" where
  "references_by_id p = dict_of (map (\<lambda>r. (rf_reference_id r, r)) (ep_input_references p))"

subsection \<open>The inputs of a node\<close>

definition resolution_record_of :: "'w env \<Rightarrow> string \<Rightarrow> reference \<Rightarrow> string \<Rightarrow> resolution_status \<Rightarrow> bool
    \<Rightarrow> string option \<Rightarrow> int option \<Rightarrow> string option \<Rightarrow> 'w \<Rightarrow> resolution_record \<times> 'w" where
  "resolution_record_of E node_id r name status cache_hit hash sz error w =
     (let (now, w1) = env_now E w in
      (\<lparr>ir_node_id = node_id, ir_reference_id = rf_reference_id r, ir_input_kind = rf_input_kind r,
        ir_resolver = name, ir_status = status, ir_cache_hit = cache_hit,
        ir_expected_content_hash = rf_content_hash r, ir_actual_content_hash = hash,
        ir_expected_payload_size_bytes = rf_payload_size_bytes r, ir_actual_payload_size_bytes = sz,
        ir_data_version = rf_data_version r, ir_source = rf_source r, ir_resolved_at = now,
        ir_error = error, ir_schema_version = ''input_resolution_record.v1''\<rparr>, w1))"

text \<open>
  The loop over the node's references: from the cache, or resolved and cached. An
  \<open>InputResolutionError\<close> carries the actual hash and size; for another exception the two
  attributes of the model are \<open>None\<close> anyway, as the code writes.
\<close>

fun resolve_references :: "'w coordination \<Rightarrow> string \<Rightarrow> (string \<times> reference) list \<Rightarrow> string list
    \<Rightarrow> (string \<times> snapshot) list \<Rightarrow> coord_state \<Rightarrow> 'w
    \<Rightarrow> (string \<times> snapshot) list res \<times> coord_state \<times> 'w" where
  "resolve_references C node_id refs [] snaps st w = (Inr snaps, st, w)"
| "resolve_references C node_id refs (i # is) snaps st w =
     (case dict_get refs i of Inl e \<Rightarrow> (Inl e, st, w)
      | Inr r \<Rightarrow>
         (case map_of (co_resolved st) i of
            Some s \<Rightarrow>
              (let (rec, w1) = resolution_record_of (cn_env C) node_id r (is_name (cn_source C)) Res_succeeded True
                     (Some (sn_content_hash s)) (Some (sn_payload_size_bytes s)) None w
               in resolve_references C node_id refs is (AList.update i s snaps)
                    (st\<lparr>co_resolutions := co_resolutions st @ [rec]\<rparr>) w1)
          | None \<Rightarrow>
              (let (x, w1) = is_resolve (cn_source C) r w in
               case x of
                 Inl e \<Rightarrow>
                   (let resolution = isinstance_exc e InputResolutionError;
                        (rec, w2) = resolution_record_of (cn_env C) node_id r (is_name (cn_source C)) Res_failed False
                          (if resolution then ex_actual_content_hash e else None)
                          (if resolution then ex_actual_payload_size_bytes e else None) (Some (ex_msg e)) w1
                    in (Inl e, st\<lparr>co_resolutions := co_resolutions st @ [rec]\<rparr>, w2))
               | Inr s \<Rightarrow>
                   (let (rec, w2) = resolution_record_of (cn_env C) node_id r (is_name (cn_source C)) Res_succeeded False
                          (Some (sn_content_hash s)) (Some (sn_payload_size_bytes s)) None w1
                    in resolve_references C node_id refs is (AList.update i s snaps)
                         (st\<lparr>co_resolved := AList.update i s (co_resolved st),
                             co_resolutions := co_resolutions st @ [rec]\<rparr>) w2))))"

text \<open>The request of the node, materialised once per reference.\<close>

definition materialize :: "stdlib \<Rightarrow> string \<Rightarrow> (string \<times> snapshot) list \<Rightarrow> coord_state \<Rightarrow> request res \<times> coord_state" where
  "materialize L node_id snaps st =
     (let ids = map fst (filter (\<lambda>(i, s). sn_input_kind s = ''analysis_request'') snaps) in
      if length ids \<noteq> 1 then
        (raise InputCompositionError (msg [''node '', node_id, '' requires exactly one analysis_request input, '',
           ''received '', show_nat (length ids)]), st)
      else let i = hd ids in
        case map_of (co_requests st) i of
          Some rq \<Rightarrow> (Inr rq, st)
        | None \<Rightarrow>
           (case bind_res (dict_get snaps i) (to_analysis_request L) of
              Inl e \<Rightarrow> (raise InputCompositionError
                (msg [''node '', node_id, '' could not materialize analysis_request '', i]), st)
            | Inr rq \<Rightarrow> (Inr rq, st\<lparr>co_requests := AList.update i rq (co_requests st)\<rparr>)))"

text \<open>The bundle; only a \<open>ValueError\<close> becomes a composition error.\<close>

definition compose_bundle :: "stdlib \<Rightarrow> exec_node \<Rightarrow> (string \<times> reference) list \<Rightarrow> (string \<times> snapshot) list
    \<Rightarrow> request \<Rightarrow> cell_input_bundle res" where
  "compose_bundle L n refs snaps rq =
     (case bind_res (map_res (\<lambda>i. bind_res (dict_get refs i) (\<lambda>r. bind_res (dict_get snaps i) (\<lambda>s.
              mk_resolved_input r s))) (en_input_reference_ids n))
            (\<lambda>inputs. mk_bundle L (en_node_id n) rq inputs (en_required_input_kinds n)) of
        Inl e \<Rightarrow> if isinstance_exc e PyValueError then raise InputCompositionError
            (msg [''node '', en_node_id n, '' could not compose its typed input bundle: '', ex_msg e])
          else Inl e
      | Inr b \<Rightarrow> Inr b)"

definition compose_cell_inputs :: "'w coordination \<Rightarrow> exec_plan \<Rightarrow> exec_node \<Rightarrow> coord_state \<Rightarrow> 'w
    \<Rightarrow> cell_input_bundle res \<times> coord_state \<times> 'w" where
  "compose_cell_inputs C p n st w =
     (let refs = references_by_id p;
          (x, st1, w1) = resolve_references C (en_node_id n) refs (en_input_reference_ids n) [] st w in
      case x of Inl e \<Rightarrow> (Inl e, st1, w1)
      | Inr snaps \<Rightarrow>
         (let (rq, st2) = materialize (cn_lib C) (en_node_id n) snaps st1 in
          (bind_res rq (compose_bundle (cn_lib C) n refs snaps), st2, w1)))"

subsection \<open>One node\<close>

definition child_results :: "coord_state \<Rightarrow> exec_node \<Rightarrow> cell_result list option res" where
  "child_results st n = (if en_dependencies n = [] then Inr None
     else bind_res (map_res (dict_get (co_results st)) (en_dependencies n)) (\<lambda>rs. Inr (Some rs)))"

definition node_context :: "'w coordination \<Rightarrow> exec_plan \<Rightarrow> exec_node \<Rightarrow> binding \<Rightarrow> cell_input_bundle
    \<Rightarrow> binding list \<Rightarrow> 'w exec_context" where
  "node_context C p n b bundle fallbacks = \<lparr>cx_run_id = cn_run_id C, cx_trace_id = cn_trace_id C,
     cx_plan_id = Some (ep_plan_id p), cx_node = Some n, cx_binding = Some b, cx_input_bundle = Some bundle,
     cx_fallback_bindings = fallbacks, cx_idempotency_key = None, cx_attempt_id = None, cx_attempt_number = 0,
     cx_timeout_ms = None, cx_cancellation_signal = cn_signal C\<rparr>"

text \<open>The checks of an outcome, in order: control record, traces, the result itself.\<close>

definition check_outcome :: "'w coordination \<Rightarrow> exec_plan \<Rightarrow> 'w cell \<Rightarrow> request \<Rightarrow> 'w exec_context \<Rightarrow> outcome
    \<Rightarrow> cell_result res" where
  "check_outcome C p c rq cx oc =
     bind_res (case oc_control_record oc of None \<Rightarrow> Inr ()
       | Some rec \<Rightarrow> validate_execution_control_record (cn_lib C) rec cx (runtime_traces oc)) (\<lambda>_.
     bind_res (map_res (\<lambda>t. validate_execution_trace t (Some p)) (runtime_traces oc)) (\<lambda>_.
     bind_res (unwrap oc) (\<lambda>r.
     bind_res (validate_cell_result c rq r) (\<lambda>_. Inr r))))"

text \<open>The body of the \<open>try\<close>, with the trace and the control record it has got hold of.\<close>

definition run_node :: "'w coordination \<Rightarrow> exec_plan \<Rightarrow> exec_node \<Rightarrow> binding \<Rightarrow> coord_state \<Rightarrow> 'w
    \<Rightarrow> (cell_result res \<times> trace option \<times> control_record option) \<times> coord_state \<times> 'w" where
  "run_node C p n b st w =
     (case registry_resolve (cn_registry C) (en_cell_id n) of
        Inl e \<Rightarrow> ((Inl e, None, None), st, w)
      | Inr c \<Rightarrow>
         (let (bundle, st1, w1) = compose_cell_inputs C p n st w in
          case bind_res bundle (\<lambda>bu. bind_res (child_results st1 n) (\<lambda>ch.
                 bind_res (map_res (dict_get (bindings_by_id p)) (en_fallback_binding_ids n)) (\<lambda>fbs. Inr (bu, ch, fbs)))) of
            Inl e \<Rightarrow> ((Inl e, None, None), st1, w1)
          | Inr (bu, ch, fbs) \<Rightarrow>
             (let rq = ib_analysis_request bu; cx = node_context C p n b bu fbs;
                  (ret, w2) = ex_execute (cn_executor C) c rq cx ch w1 in
              case ret of
                ExRaised e \<Rightarrow> ((Inl e, None, None), st1, w2)
              | ExOther t \<Rightarrow> ((raise (PyOther ''AttributeError'')
                  (msg [[CHR 0x27], t, [CHR 0x27], '' object has no attribute '', [CHR 0x27], ''trace'', [CHR 0x27]]), None, None), st1, w2)
              | ExOutcome oc \<Rightarrow>
                  ((check_outcome C p c rq cx oc, Some (oc_trace oc), oc_control_record oc),
                   st1\<lparr>co_traces := co_traces st1 @ runtime_traces oc,
                       co_controls := co_controls st1 @ (case oc_control_record oc of None \<Rightarrow> [] | Some r \<Rightarrow> [r])\<rparr>,
                   w2))))"

definition completion_of :: "exec_node \<Rightarrow> cell_result option \<Rightarrow> trace option \<Rightarrow> control_record option
    \<Rightarrow> exc option \<Rightarrow> completion" where
  "completion_of n r t c e = \<lparr>nc_node_id = en_node_id n, nc_cell_id = en_cell_id n,
     nc_binding_id = en_binding_id n, nc_execution_role = en_execution_role n,
     nc_input_reference_ids = en_input_reference_ids n, nc_result = r, nc_trace = t,
     nc_control_record = c, nc_error = e\<rparr>"

definition notify :: "'w coordination \<Rightarrow> completion \<Rightarrow> 'w \<Rightarrow> exc option \<times> 'w" where
  "notify C nc w = (case cn_handler C of None \<Rightarrow> (None, w) | Some h \<Rightarrow> h nc w)"

subsection \<open>The plan\<close>

text \<open>
  The loop over the nodes of all levels. \<open>Inl\<close> is an exception that leaves \<open>execute\<close>; \<open>Some (i, e)\<close>
  says that node \<open>i\<close> failed with \<open>e\<close>.
\<close>

fun run_nodes :: "'w coordination \<Rightarrow> exec_plan \<Rightarrow> string list \<Rightarrow> coord_state \<Rightarrow> 'w
    \<Rightarrow> (string \<times> exc) option res \<times> coord_state \<times> 'w" where
  "run_nodes C p [] st w = (Inr None, st, w)"
| "run_nodes C p (i # is) st w =
     (case bind_res (dict_get (nodes_by_id p) i) (\<lambda>n.
             bind_res (dict_get (bindings_by_id p) (en_binding_id n)) (\<lambda>b. Inr (n, b))) of
        Inl e \<Rightarrow> (Inl e, st, w)
      | Inr (n, b) \<Rightarrow>
         (let ((r, t, cr), st1, w1) = run_node C p n b (st\<lparr>co_order := co_order st @ [i]\<rparr>) w in
          case r of
            Inl e \<Rightarrow>
              (let (h, w2) = notify C (completion_of n None t cr (Some e)) w1 in
               (case h of Some x \<Rightarrow> Inl x | None \<Rightarrow> Inr (Some (en_node_id n, e)), st1, w2))
          | Inr result \<Rightarrow>
              (let st2 = st1\<lparr>co_results := AList.update (en_node_id n) result (co_results st1)\<rparr>;
                   (h, w2) = notify C (completion_of n (Some result) t cr None) w1 in
               case h of Some x \<Rightarrow> (Inl x, st2, w2) | None \<Rightarrow> run_nodes C p is st2 w2)))"

definition plan_outcome_of :: "exec_plan \<Rightarrow> coord_state \<Rightarrow> cell_result option \<Rightarrow> string option \<Rightarrow> exc option
    \<Rightarrow> plan_outcome" where
  "plan_outcome_of p st rres failed error =
     \<lparr>po_coordinator = ''plan_driven_local_coordinator_v0.2'', po_plan_id = ep_plan_id p,
      po_root_node_id = ep_root_node_id p, po_results_by_node_id = co_results st,
      po_runtime_traces = co_traces st, po_execution_control_records = co_controls st,
      po_input_resolution_records = co_resolutions st, po_execution_order = co_order st,
      po_root_result = rres, po_failed_node_id = failed, po_error = error,
      po_schema_version = ''plan_execution.v1''\<rparr>"

definition execute_plan :: "'w coordination \<Rightarrow> validated_plan \<Rightarrow> 'w \<Rightarrow> plan_outcome res \<times> 'w" where
  "execute_plan C v w =
     (let p = vp_plan v;
          (x, st, w1) = run_nodes C p (concat (vp_topological_levels v)) initial_state w in
      case x of
        Inl e \<Rightarrow> (Inl e, w1)
      | Inr (Some (i, e)) \<Rightarrow> (mk_plan_outcome (plan_outcome_of p st None (Some i) (Some e)), w1)
      | Inr None \<Rightarrow>
         (case map_of (co_results st) (ep_root_node_id p) of
            None \<Rightarrow> (mk_plan_outcome (plan_outcome_of p st None (Some (ep_root_node_id p))
              (Some (mk_exc PyRuntimeError (msg [''plan '', ep_plan_id p, '' completed without root result '',
                 ep_root_node_id p])))), w1)
          | Some r \<Rightarrow> (mk_plan_outcome (plan_outcome_of p st (Some r) None None), w1)))"

subsection \<open>Look-ups in a validated plan\<close>

lemma dict_get_Inr: "dict_get d k = Inr v \<longleftrightarrow> map_of d k = Some v"
  by (simp add: dict_get_def split: option.splits)

lemma plan_dicts:
  assumes "plan_ok p"
  shows "nodes_by_id p = nodes_dict p" "bindings_by_id p = bindings_dict p" "references_by_id p = references_dict p"
proof -
  have d: "distinct (map en_node_id (ep_nodes p))" "distinct (map bd_binding_id (ep_service_bindings p))"
    "distinct (map rf_reference_id (ep_input_references p))" using assms unfolding plan_ok_def by blast+
  show "nodes_by_id p = nodes_dict p" "bindings_by_id p = bindings_dict p" "references_by_id p = references_dict p"
    by (simp_all add: nodes_by_id_def nodes_dict_def bindings_by_id_def bindings_dict_def references_by_id_def
        references_dict_def dict_of_distinct comp_def d)
qed

lemma references_by_id_lookup:
  "map_of (references_by_id p) i = Some r \<Longrightarrow> r \<in> set (ep_input_references p) \<and> rf_reference_id r = i"
  by (auto simp: references_by_id_def map_of_dict_of dest!: map_of_SomeD)

lemma plan_lookups:
  assumes "plan_ok p" "n \<in> set (ep_nodes p)"
  shows "dict_get (nodes_by_id p) (en_node_id n) = Inr n"
    and "i \<in> set (en_binding_id n # en_fallback_binding_ids n) \<Longrightarrow> \<exists>b. dict_get (bindings_by_id p) i = Inr b
      \<and> b \<in> set (ep_service_bindings p) \<and> bd_binding_id b = i
      \<and> bd_cell_id b = en_cell_id n \<and> bd_formula_version b = en_formula_version n"
proof -
  have d: "distinct (map en_node_id (ep_nodes p))" "distinct (map bd_binding_id (ep_service_bindings p))"
    and b: "node_bindings_ok p n" using assms unfolding plan_ok_def by blast+
  show "dict_get (nodes_by_id p) (en_node_id n) = Inr n"
    using assms(2) d(1) by (simp add: dict_get_Inr plan_dicts[OF assms(1)] nodes_dict_def key_map_lookup)
  assume "i \<in> set (en_binding_id n # en_fallback_binding_ids n)"
  with b obtain b where "b \<in> set (ep_service_bindings p)" "bd_binding_id b = i" "bd_cell_id b = en_cell_id n"
    "bd_formula_version b = en_formula_version n" unfolding node_bindings_ok_def by blast
  moreover from this d(2) have "dict_get (bindings_by_id p) i = Inr b"
    by (simp add: dict_get_Inr plan_dicts[OF assms(1)] bindings_dict_def key_map_lookup)
  ultimately show "\<exists>b. dict_get (bindings_by_id p) i = Inr b \<and> b \<in> set (ep_service_bindings p)
      \<and> bd_binding_id b = i \<and> bd_cell_id b = en_cell_id n \<and> bd_formula_version b = en_formula_version n" by blast
qed

text \<open>In a flattened list of levels, the earlier levels come before.\<close>

lemma earlier_levels_first:
  assumes "distinct (concat ls)" "k < length ls" "i \<in> set (ls ! k)" "concat ls = pre @ i # post"
  shows "set (concat (take k ls)) \<subseteq> set pre"
proof -
  obtain a b where ab: "ls ! k = a @ i # b" using assms(3) by (meson split_list)
  have "concat ls = concat (take k ls) @ ls ! k @ concat (drop (Suc k) ls)"
    using arg_cong[where f = concat, OF id_take_nth_drop[OF assms(2)]] unfolding concat_append concat.simps .
  then have eq: "concat ls = (concat (take k ls) @ a) @ i # (b @ concat (drop (Suc k) ls))" by (simp add: ab)
  have "i \<notin> set (concat (take k ls) @ a)" "i \<notin> set (b @ concat (drop (Suc k) ls))"
    using assms(1) unfolding eq by auto
  from append_Cons_eq_iff[THEN iffD1, OF this trans[OF eq[symmetric] assms(4)]]
  have "concat (take k ls) @ a = pre" ..
  then show ?thesis by auto
qed

lemma plan_order:
  assumes v: "validate_execution_plan p = Inr v" and split: "concat (vp_topological_levels v) = pre @ i # post"
  shows "\<exists>n \<in> set (ep_nodes p). en_node_id n = i \<and> set (en_dependencies n) \<subseteq> set pre" "i \<notin> set pre"
proof -
  note levels = plan_levels[OF v]
  have "distinct (map en_node_id (ep_nodes p))" using validated_plan(1)[OF v] unfolding plan_ok_def by blast
  then have d: "distinct (concat (vp_topological_levels v))"
    using levels(1) by (metis mset_eq_imp_distinct_iff)
  then show "i \<notin> set pre" unfolding split by simp
  have "i \<in> set (map en_node_id (ep_nodes p))" using mset_eq_setD[OF levels(1)] split by auto
  then obtain n where n: "n \<in> set (ep_nodes p)" "en_node_id n = i" by auto
  from split have "i \<in> set (concat (vp_topological_levels v))" by simp
  then obtain k where k: "k < length (vp_topological_levels v)" "i \<in> set (vp_topological_levels v ! k)"
    unfolding in_concat_nth by blast
  from levels(2)[OF k(1) n(1)] k(2) n(2) earlier_levels_first[OF d k split]
  have "set (en_dependencies n) \<subseteq> set pre" by simp
  with n show "\<exists>n \<in> set (ep_nodes p). en_node_id n = i \<and> set (en_dependencies n) \<subseteq> set pre" by blast
qed

lemma child_results_ready:
  assumes "set (en_dependencies n) \<subseteq> fst ` set (co_results st)"
  shows "child_results st n = Inr (if en_dependencies n = [] then None
    else Some (map (\<lambda>d. the (map_of (co_results st) d)) (en_dependencies n)))"
proof -
  have "dict_get (co_results st) d = Inr (the (map_of (co_results st) d))" if "d \<in> set (en_dependencies n)" for d
    using that assms by (cases "map_of (co_results st) d") (auto simp: dict_get_def map_of_eq_None_iff)
  then show ?thesis by (simp add: child_results_def map_res_total)
qed

subsection \<open>What one node does to the state\<close>

text \<open>
  The invariant of the caches: the references that were resolved are those of the fresh successful
  resolution records, in order and once each.
\<close>

definition fresh_resolution :: "resolution_record \<Rightarrow> bool" where
  "fresh_resolution r \<longleftrightarrow> ir_status r = Res_succeeded \<and> \<not> ir_cache_hit r"

definition resolve_inv :: "coord_state \<Rightarrow> bool" where
  "resolve_inv st \<longleftrightarrow> map ir_reference_id (filter fresh_resolution (co_resolutions st)) = map fst (co_resolved st)
     \<and> distinct (map fst (co_resolved st))"

definition same_progress :: "coord_state \<Rightarrow> coord_state \<Rightarrow> bool" where
  "same_progress st st' \<longleftrightarrow> co_results st' = co_results st \<and> co_traces st' = co_traces st
     \<and> co_controls st' = co_controls st \<and> co_order st' = co_order st"

lemma resolution_record_fields:
  "resolution_record_of E nid r nm s hit h z e w = (rec, w') \<Longrightarrow>
   ir_reference_id rec = rf_reference_id r \<and> ir_status rec = s \<and> ir_cache_hit rec = hit"
  by (auto simp: resolution_record_of_def split: prod.splits)

lemma resolve_references_inv:
  assumes refs: "\<And>i r. map_of refs i = Some r \<Longrightarrow> rf_reference_id r = i"
  shows "resolve_references C nid refs is snaps st w = (x, st', w') \<Longrightarrow> resolve_inv st \<Longrightarrow>
    resolve_inv st' \<and> same_progress st st'"
proof (induction "is" arbitrary: snaps st w)
  case Nil
  then show ?case by (simp add: same_progress_def)
next
  case (Cons i "is")
  show ?case
  proof (cases "map_of refs i")
    case None
    with Cons.prems show ?thesis by (auto simp: dict_get_def same_progress_def)
  next
    case (Some r)
    have rid: "rf_reference_id r = i" by (rule refs[OF Some])
    have step: "resolve_inv (st\<lparr>co_resolutions := co_resolutions st @ [rec]\<rparr>)"
      if "\<not> fresh_resolution rec" for rec
      using that Cons.prems(2) by (simp add: resolve_inv_def)
    show ?thesis
    proof (cases "map_of (co_resolved st) i")
      case (Some s)
      obtain rec w1 where rec: "resolution_record_of (cn_env C) nid r (is_name (cn_source C)) Res_succeeded True
          (Some (sn_content_hash s)) (Some (sn_payload_size_bytes s)) None w = (rec, w1)" by (meson surj_pair)
      have "\<not> fresh_resolution rec" using resolution_record_fields[OF rec] by (simp add: fresh_resolution_def)
      from Cons.IH[OF _ step[OF this]] Cons.prems(1) \<open>map_of refs i = Some r\<close> Some rec show ?thesis
        by (simp add: dict_get_def same_progress_def)
    next
      case None
      obtain y w1 where y: "is_resolve (cn_source C) r w = (y, w1)" by (meson surj_pair)
      show ?thesis
      proof (cases y)
        case (Inl e)
        obtain rec w2 where rec: "resolution_record_of (cn_env C) nid r (is_name (cn_source C)) Res_failed False
          (if isinstance_exc e InputResolutionError then ex_actual_content_hash e else None)
          (if isinstance_exc e InputResolutionError then ex_actual_payload_size_bytes e else None)
          (Some (ex_msg e)) w1 = (rec, w2)" by (meson surj_pair)
        have "\<not> fresh_resolution rec" using resolution_record_fields[OF rec] by (simp add: fresh_resolution_def)
        with step[OF this] Cons.prems(1) \<open>map_of refs i = Some r\<close> None y Inl rec show ?thesis
          by (auto simp: dict_get_def same_progress_def Let_def)
      next
        case (Inr s)
        obtain rec w2 where rec: "resolution_record_of (cn_env C) nid r (is_name (cn_source C)) Res_succeeded False
          (Some (sn_content_hash s)) (Some (sn_payload_size_bytes s)) None w1 = (rec, w2)" by (meson surj_pair)
        let ?st = "st\<lparr>co_resolved := AList.update i s (co_resolved st), co_resolutions := co_resolutions st @ [rec]\<rparr>"
        have new: "i \<notin> fst ` set (co_resolved st)" using None by (simp add: map_of_eq_None_iff)
        have "fresh_resolution rec" "ir_reference_id rec = i"
          using resolution_record_fields[OF rec] rid by (simp_all add: fresh_resolution_def)
        then have inv: "resolve_inv ?st" using Cons.prems(2) new by (simp add: resolve_inv_def update_append_new)
        from Cons.prems(1) \<open>map_of refs i = Some r\<close> None y Inr rec
        have "resolve_references C nid refs is (AList.update i s snaps) ?st w2 = (x, st', w')"
          by (simp add: dict_get_def)
        from Cons.IH[OF this inv] show ?thesis by (simp add: same_progress_def)
      qed
    qed
  qed
qed

lemma materialize_progress:
  "materialize L nid snaps st = (x, st') \<Longrightarrow> same_progress st st' \<and> resolve_inv st' = resolve_inv st"
  by (auto simp: materialize_def Let_def same_progress_def resolve_inv_def split: if_splits option.splits sum.splits)

lemma compose_progress:
  assumes "compose_cell_inputs C p n st w = (x, st', w')" "resolve_inv st"
  shows "resolve_inv st' \<and> same_progress st st'"
proof -
  obtain y st1 w1 where r: "resolve_references C (en_node_id n) (references_by_id p) (en_input_reference_ids n) [] st w
      = (y, st1, w1)" by (metis surj_pair)
  from resolve_references_inv[OF _ r assms(2)] references_by_id_lookup
  have 1: "resolve_inv st1 \<and> same_progress st st1" by blast
  show ?thesis
  proof (cases y)
    case (Inl e)
    with assms(1) r 1 show ?thesis by (simp add: compose_cell_inputs_def Let_def)
  next
    case (Inr snaps)
    obtain rq st2 where m: "materialize (cn_lib C) (en_node_id n) snaps st1 = (rq, st2)" by (meson surj_pair)
    from assms(1) r Inr m have "st' = st2" by (simp add: compose_cell_inputs_def Let_def)
    with materialize_progress[OF m] 1 show ?thesis by (simp add: same_progress_def)
  qed
qed

text \<open>A composed bundle is for its node, keeps the bundle's rules and the scope of the plan.\<close>

lemma compose_bundle_scope:
  assumes p: "plan_ok p" and ok: "compose_bundle L n (references_by_id p) snaps rq = Inr b"
  shows "bundle_ok b" "ib_node_id b = en_node_id n" "ib_required_input_kinds b = en_required_input_kinds n"
    and "map (\<lambda>i. rf_reference_id (ri_reference i)) (ib_resolved_inputs b) = en_input_reference_ids n"
    and "rq_target (ib_analysis_request b) = ep_target p" "rq_horizon (ib_analysis_request b) = ep_horizon p"
proof -
  obtain inputs where ins: "list_all2 (\<lambda>i x. bind_res (dict_get (references_by_id p) i) (\<lambda>r.
      bind_res (dict_get snaps i) (\<lambda>s. mk_resolved_input r s)) = Inr x) (en_input_reference_ids n) inputs"
    and mk: "mk_bundle L (en_node_id n) rq inputs (en_required_input_kinds n) = Inr b"
    using ok by (auto simp: compose_bundle_def bind_res_eq_Inr map_res_Inr split: sum.splits if_splits)
  have b: "bundle_ok b" "ib_node_id b = en_node_id n" "ib_required_input_kinds b = en_required_input_kinds n"
    "ib_resolved_inputs b = inputs"
    by (rule mk[unfolded mk_bundle_ok, THEN conjunct2]) (use mk in \<open>simp_all add: mk_bundle_ok\<close>)
  show "bundle_ok b" "ib_node_id b = en_node_id n" "ib_required_input_kinds b = en_required_input_kinds n"
    by (rule b(1), rule b(2), rule b(3))
  have each: "ri_reference x \<in> set (ep_input_references p) \<and> rf_reference_id (ri_reference x) = i
      \<and> resolved_input_mismatches (ri_reference x) (ri_snapshot x) = []"
    if "bind_res (dict_get (references_by_id p) i) (\<lambda>r. bind_res (dict_get snaps i) (\<lambda>s. mk_resolved_input r s)) = Inr x"
    for i x
    using that by (auto simp: bind_res_eq_Inr dict_get_Inr mk_resolved_input_def
        dest!: references_by_id_lookup split: if_splits)
  show "map (\<lambda>i. rf_reference_id (ri_reference i)) (ib_resolved_inputs b) = en_input_reference_ids n"
    unfolding b(4) using ins by (induction rule: list_all2_induct) (use each in \<open>auto\<close>)
  have "inputs \<noteq> []" using b(1,4) by (auto simp: bundle_ok_def)
  then obtain x xs where x: "inputs = x # xs" by (cases inputs) auto
  with ins each have r: "ri_reference x \<in> set (ep_input_references p)"
    "resolved_input_mismatches (ri_reference x) (ri_snapshot x) = []"
    by (auto simp: list_all2_Cons2)
  have "scope_matches (ib_analysis_request b) (ri_snapshot x)" using b(1,4) x by (simp add: bundle_ok_def)
  moreover have "rf_target (ri_reference x) = ep_target p" "rf_horizon (ri_reference x) = ep_horizon p"
    using p r(1) unfolding plan_ok_def by blast+
  ultimately show "rq_target (ib_analysis_request b) = ep_target p" "rq_horizon (ib_analysis_request b) = ep_horizon p"
    using r(2) by (simp_all add: scope_matches_def resolved_input_mismatches_Nil)
qed

text \<open>What a node's result must be, and when its traces belong to the plan.\<close>

definition result_for :: "exec_plan \<Rightarrow> exec_node \<Rightarrow> cell_result \<Rightarrow> bool" where
  "result_for p n r \<longleftrightarrow> cr_cell_id r = en_cell_id n \<and> cr_target r = ep_target p \<and> cr_horizon r = ep_horizon p"

definition trace_in_plan :: "exec_plan \<Rightarrow> trace \<Rightarrow> bool" where
  "trace_in_plan p t \<longleftrightarrow> validate_execution_trace t (Some p) = Inr ()"

lemma check_outcome_Inr:
  assumes "check_outcome C p c rq cx oc = Inr r"
  shows "\<forall>t \<in> set (runtime_traces oc). trace_in_plan p t" "result_mismatches (cl_cell_id c) rq r = []"
proof -
  from assms obtain us where us: "map_res (\<lambda>t. validate_execution_trace t (Some p)) (runtime_traces oc) = Inr us"
    and v: "validate_cell_result c rq r = Inr ()"
    by (auto simp: check_outcome_def bind_res_eq_Inr)
  from us show "\<forall>t \<in> set (runtime_traces oc). trace_in_plan p t"
    by (auto simp: map_res_Inr trace_in_plan_def list_all2_conv_all_nth in_set_conv_nth)
  from v show "result_mismatches (cl_cell_id c) rq r = []"
    by (auto simp: validate_cell_result_def Let_def split: if_splits)
qed

lemma run_node_ok:
  assumes p: "plan_ok p" and run: "run_node C p n b st w = ((r, t, cr), st', w')" and inv: "resolve_inv st"
  shows "resolve_inv st'" "co_results st' = co_results st" "co_order st' = co_order st"
    and "\<And>x. r = Inr x \<Longrightarrow> result_for p n x
      \<and> (\<exists>ts. co_traces st' = co_traces st @ ts \<and> (\<forall>t \<in> set ts. trace_in_plan p t))"
proof -
  have all: "resolve_inv st' \<and> co_results st' = co_results st \<and> co_order st' = co_order st
    \<and> (\<forall>x. r = Inr x \<longrightarrow> result_for p n x
        \<and> (\<exists>ts. co_traces st' = co_traces st @ ts \<and> (\<forall>t \<in> set ts. trace_in_plan p t)))"
  proof (cases "registry_resolve (cn_registry C) (en_cell_id n)")
    case (Inl e)
    with run inv show ?thesis by (auto simp: run_node_def)
  next
    case (Inr c)
    have cid: "cl_cell_id c = en_cell_id n" using registry_resolve_id[OF Inr] by blast
    obtain bun st1 w1 where comp: "compose_cell_inputs C p n st w = (bun, st1, w1)" by (metis surj_pair)
    have st1: "resolve_inv st1" "same_progress st st1" using compose_progress[OF comp inv] by blast+
    define pre where "pre = bind_res bun (\<lambda>bu. bind_res (child_results st1 n) (\<lambda>ch.
                 bind_res (map_res (dict_get (bindings_by_id p)) (en_fallback_binding_ids n)) (\<lambda>fbs. Inr (bu, ch, fbs))))"
    have run': "(case pre of Inl e \<Rightarrow> ((Inl e, None, None), st1, w1)
          | Inr (bu, ch, fbs) \<Rightarrow>
             (let rq = ib_analysis_request bu; cx = node_context C p n b bu fbs;
                  (ret, w2) = ex_execute (cn_executor C) c rq cx ch w1 in
              case ret of
                ExRaised e \<Rightarrow> ((Inl e, None, None), st1, w2)
              | ExOther t \<Rightarrow> ((raise (PyOther ''AttributeError'')
                  (msg [[CHR 0x27], t, [CHR 0x27], '' object has no attribute '', [CHR 0x27], ''trace'', [CHR 0x27]]), None, None), st1, w2)
              | ExOutcome oc \<Rightarrow>
                  ((check_outcome C p c rq cx oc, Some (oc_trace oc), oc_control_record oc),
                   st1\<lparr>co_traces := co_traces st1 @ runtime_traces oc,
                       co_controls := co_controls st1 @ (case oc_control_record oc of None \<Rightarrow> [] | Some r \<Rightarrow> [r])\<rparr>,
                   w2))) = ((r, t, cr), st', w')"
      using run unfolding run_node_def Inr sum.case comp Let_def prod.case pre_def .
    show ?thesis
    proof (cases pre)
      case (Inl e)
      with run' st1 show ?thesis by (auto simp: same_progress_def)
    next
      case (Inr y)
      obtain bu ch fbs where y: "y = (bu, ch, fbs)" by (cases y)
      define cx where "cx = node_context C p n b bu fbs"
      obtain ret w2 where ret: "ex_execute (cn_executor C) c (ib_analysis_request bu) cx ch w1 = (ret, w2)"
        by (meson surj_pair)
      have bu: "bun = Inr bu" using Inr y by (auto simp: pre_def bind_res_eq_Inr)
      have scope: "rq_target (ib_analysis_request bu) = ep_target p \<and> rq_horizon (ib_analysis_request bu) = ep_horizon p"
        using comp bu compose_bundle_scope(5,6)[OF p]
        by (auto simp: compose_cell_inputs_def Let_def bind_res_eq_Inr split: sum.splits prod.splits)
      show ?thesis
      proof (cases ret)
        case (ExOutcome oc)
        define stx where "stx = st1\<lparr>co_traces := co_traces st1 @ runtime_traces oc,
            co_controls := co_controls st1 @ (case oc_control_record oc of None \<Rightarrow> [] | Some r \<Rightarrow> [r])\<rparr>"
        have res: "r = check_outcome C p c (ib_analysis_request bu) cx oc" "st' = stx"
          using run' unfolding Inr y sum.case prod.case Let_def cx_def[symmetric] ret ExOutcome exec_return.case
            stx_def[symmetric] by simp_all
        have "result_for p n x" if "r = Inr x" for x
          using check_outcome_Inr(2)[of C p c _ cx oc x] that res(1) cid scope
          by (auto simp: result_for_def result_mismatches_def opt_issue_Nil)
        moreover have "\<forall>t \<in> set (runtime_traces oc). trace_in_plan p t" if "r = Inr x" for x
          using check_outcome_Inr(1)[of C p c _ cx oc x] that res(1) by metis
        moreover have "co_traces stx = co_traces st @ runtime_traces oc" "resolve_inv stx"
          "co_results stx = co_results st" "co_order stx = co_order st"
          using st1 by (simp_all add: stx_def same_progress_def resolve_inv_def)
        ultimately show ?thesis unfolding res(2) by blast
      next
        case (ExRaised e)
        with run' Inr y ret st1 show ?thesis by (simp add: cx_def[symmetric] same_progress_def) blast
      next
        case (ExOther s)
        with run' Inr y ret st1 show ?thesis by (simp add: cx_def[symmetric] same_progress_def) blast
      qed
    qed
  qed
  then show "resolve_inv st'" "co_results st' = co_results st" "co_order st' = co_order st"
    and "\<And>x. r = Inr x \<Longrightarrow> result_for p n x
      \<and> (\<exists>ts. co_traces st' = co_traces st @ ts \<and> (\<forall>t \<in> set ts. trace_in_plan p t))" by blast+
qed

subsection \<open>The invariant of the loop\<close>

definition results_ok :: "exec_plan \<Rightarrow> (string \<times> cell_result) list \<Rightarrow> bool" where
  "results_ok p rs \<longleftrightarrow> (\<forall>(i, r) \<in> set rs. \<exists>n \<in> set (ep_nodes p). en_node_id n = i \<and> result_for p n r)"

definition coord_inv :: "exec_plan \<Rightarrow> string list \<Rightarrow> coord_state \<Rightarrow> bool" where
  "coord_inv p done' st \<longleftrightarrow> co_order st = done' \<and> map fst (co_results st) = done' \<and> results_ok p (co_results st)
     \<and> (\<forall>t \<in> set (co_traces st). trace_in_plan p t) \<and> resolve_inv st"

definition silent :: "'w coordination \<Rightarrow> bool" where
  "silent C \<longleftrightarrow> (\<forall>h. cn_handler C = Some h \<longrightarrow> (\<forall>nc w. fst (h nc w) = None))"

lemma silent_notify: "silent C \<Longrightarrow> notify C nc w = (h, w') \<Longrightarrow> h = None"
  by (cases "cn_handler C") (simp_all add: silent_def notify_def, metis fst_conv)

text \<open>How the loop ends: after all nodes, or at the first node that fails.\<close>

definition stopped_at :: "exec_plan \<Rightarrow> string list \<Rightarrow> string \<Rightarrow> coord_state \<Rightarrow> bool" where
  "stopped_at p done' i st \<longleftrightarrow> co_order st = done' @ [i] \<and> map fst (co_results st) = done'
     \<and> results_ok p (co_results st) \<and> resolve_inv st"

lemma run_nodes_ok:
  assumes v: "validate_execution_plan p = Inr v" and quiet: "silent C"
  shows "concat (vp_topological_levels v) = done' @ is \<Longrightarrow> coord_inv p done' st \<Longrightarrow>
    run_nodes C p is st w = (x, st', w') \<Longrightarrow>
    (x = Inr None \<and> coord_inv p (done' @ is) st')
    \<or> (\<exists>pre i post e. is = pre @ i # post \<and> x = Inr (Some (i, e)) \<and> stopped_at p (done' @ pre) i st')"
proof (induction "is" arbitrary: done' st w)
  case Nil
  then show ?case by simp
next
  case (Cons i "is")
  note p = validated_plan(1)[OF v]
  from plan_order[OF v Cons.prems(1)] obtain n where n: "n \<in> set (ep_nodes p)" "en_node_id n = i"
    "set (en_dependencies n) \<subseteq> set done'" "i \<notin> set done'" by blast
  obtain b where b: "dict_get (bindings_by_id p) (en_binding_id n) = Inr b"
    using plan_lookups(2)[OF p n(1), of "en_binding_id n"] by auto
  have nd: "dict_get (nodes_by_id p) i = Inr n" using plan_lookups(1)[OF p n(1)] n(2) by simp
  let ?st = "st\<lparr>co_order := co_order st @ [i]\<rparr>"
  have inv: "resolve_inv ?st" using Cons.prems(2) by (simp add: coord_inv_def resolve_inv_def)
  obtain r t cr st1 w1 where run: "run_node C p n b ?st w = ((r, t, cr), st1, w1)" by (metis prod.exhaust)
  note ok = run_node_ok[OF p run inv]
  show ?case
  proof (cases r)
    case (Inl e)
    obtain h w2 where h: "notify C (completion_of n None t cr (Some e)) w1 = (h, w2)" by (meson surj_pair)
    have "h = None" by (rule silent_notify[OF quiet h])
    then have res: "x = Inr (Some (i, e))" "st' = st1"
      using Cons.prems(3) nd b run Inl h n(2) by simp_all
    have "stopped_at p done' i st1"
      using ok(1-3) Cons.prems(2) by (simp add: stopped_at_def coord_inv_def)
    then show ?thesis unfolding res by (intro disjI2 exI[of _ "[]"] exI[of _ i] exI[of _ "is"] exI[of _ e]) simp
  next
    case (Inr y)
    let ?st2 = "st1\<lparr>co_results := AList.update (en_node_id n) y (co_results st1)\<rparr>"
    obtain h w2 where h: "notify C (completion_of n (Some y) t cr None) w1 = (h, w2)" by (meson surj_pair)
    have "h = None" by (rule silent_notify[OF quiet h])
    then have rest: "run_nodes C p is ?st2 w2 = (x, st', w')"
      using Cons.prems(3) nd b run Inr h by (simp add: Let_def)
    have new: "co_results ?st2 = co_results st @ [(i, y)]"
      using ok(2) Cons.prems(2) n(2,4) by (simp add: coord_inv_def update_append_new flip: set_map)
    have "result_for p n y" "\<forall>t \<in> set (co_traces st1). trace_in_plan p t"
      using ok(4)[OF Inr] Cons.prems(2) by (auto simp: coord_inv_def)
    moreover have "results_ok p (co_results st @ [(i, y)])"
      using Cons.prems(2) \<open>result_for p n y\<close> n(1,2) by (auto simp: coord_inv_def results_ok_def)
    ultimately have "coord_inv p (done' @ [i]) ?st2"
      using ok(1,3) Cons.prems(2) unfolding coord_inv_def new by (simp add: resolve_inv_def)
    from Cons.IH[OF _ this rest] Cons.prems(1) consider "x = Inr None" "coord_inv p (done' @ i # is) st'"
      | pre j post e where "is = pre @ j # post" "x = Inr (Some (j, e))" "stopped_at p (done' @ i # pre) j st'"
      by auto
    then show ?thesis
    proof cases
      case (2 pre j post e)
      then have "i # is = (i # pre) @ j # post" by simp
      with 2(2,3) show ?thesis by blast
    qed blast
  qed
qed

lemma root_has_result:
  assumes v: "validate_execution_plan p = Inr v" and inv: "coord_inv p (concat (vp_topological_levels v)) st"
  shows "ep_root_node_id p \<in> fst ` set (co_results st)"
proof -
  have "ep_root_node_id p \<in> set (concat (vp_topological_levels v))"
    using plan_levels(3,4)[OF v] by (metis in_set_conv_decomp last_in_set list.set_intros(1) concat_append
        concat.simps(2) set_append UnI1 UnI2 append.assoc)
  then show ?thesis using inv by (simp add: coord_inv_def flip: set_map)
qed

lemma execute_plan_ok:
  assumes v: "validate_execution_plan p = Inr v" and quiet: "silent C"
  shows "\<exists>oc w' st. execute_plan C v w = (Inr oc, w') \<and> resolve_inv st
    \<and> po_results_by_node_id oc = co_results st \<and> po_runtime_traces oc = co_traces st
    \<and> po_execution_order oc = co_order st \<and> po_input_resolution_records oc = co_resolutions st
    \<and> results_ok p (co_results st)
    \<and> ((po_error oc = None \<and> po_failed_node_id oc = None \<and> coord_inv p (concat (vp_topological_levels v)) st
          \<and> po_root_result oc = map_of (co_results st) (ep_root_node_id p) \<and> po_root_result oc \<noteq> None)
      \<or> (\<exists>pre i post. concat (vp_topological_levels v) = pre @ i # post \<and> po_error oc \<noteq> None
          \<and> po_failed_node_id oc = Some i \<and> po_root_result oc = None \<and> stopped_at p pre i st))"
proof -
  obtain x st w1 where run: "run_nodes C p (concat (vp_topological_levels v)) initial_state w = (x, st, w1)"
    by (metis surj_pair)
  have start: "coord_inv p [] initial_state"
    by (simp add: coord_inv_def initial_state_def results_ok_def resolve_inv_def)
  have vp: "vp_plan v = p" by (rule validated_plan(2)[OF v])
  from run_nodes_ok[OF v quiet, of "[]", OF _ start run]
  consider "x = Inr None" "coord_inv p (concat (vp_topological_levels v)) st"
    | pre i post e where "concat (vp_topological_levels v) = pre @ i # post" "x = Inr (Some (i, e))" "stopped_at p pre i st"
    by auto
  then show ?thesis
  proof cases
    case 1
    have "ep_root_node_id p \<in> fst ` set (co_results st)" by (rule root_has_result[OF v 1(2)])
    then obtain r where r: "map_of (co_results st) (ep_root_node_id p) = Some r"
      by (metis map_of_eq_None_iff not_None_eq)
    let ?oc = "plan_outcome_of p st (Some r) None None"
    have "mk_plan_outcome ?oc = Inr ?oc"
      using \<open>ep_root_node_id p \<in> fst ` set (co_results st)\<close> by (simp add: mk_plan_outcome_def plan_outcome_of_def)
    then have "execute_plan C v w = (Inr ?oc, w1)" using run 1(1) r vp by (simp add: execute_plan_def)
    then show ?thesis using 1(2) r
      by (intro exI[of _ ?oc] exI[of _ w1] exI[of _ st]) (simp add: plan_outcome_of_def coord_inv_def)
  next
    case (2 pre i post e)
    let ?oc = "plan_outcome_of p st None (Some i) (Some e)"
    have "mk_plan_outcome ?oc = Inr ?oc" by (simp add: mk_plan_outcome_def plan_outcome_of_def)
    then have "execute_plan C v w = (Inr ?oc, w1)" using run 2(2) vp by (simp add: execute_plan_def)
    then show ?thesis using 2(1,3)
      by (intro exI[of _ ?oc] exI[of _ w1] exI[of _ st]) (auto simp: plan_outcome_of_def stopped_at_def)
  qed
qed

subsection \<open>A concrete plan\<close>

definition sample_plan :: exec_plan where
  "sample_plan =
     (let r = to_reference sample_snapshot None [] in
      \<lparr>ep_plan_id = ''plan'', ep_target = ''BTCUSDT'', ep_horizon = ''1h'', ep_root_node_id = ''node'',
       ep_nodes = [sample_node\<lparr>en_input_reference_ids := [rf_reference_id r]\<rparr>], ep_input_references = [r],
       ep_service_bindings = [sample_binding], ep_schema_version = ''cell_execution_plan.v1'',
       ep_created_at = [], ep_metadata = []\<rparr>)"

definition sample_coordination :: "nat coordination" where
  "sample_coordination = \<lparr>cn_lib = echo_lib, cn_env = tick_env, cn_registry = [sample_cell],
     cn_executor = \<lparr>ex_name = ''local'', ex_execute = local_execute tick_env ''python-local''\<rparr>,
     cn_source = \<lparr>is_name = ''fixed'', is_resolve = (\<lambda>r w. (Inr sample_snapshot, Suc w))\<rparr>,
     cn_run_id = ''run'', cn_trace_id = ''trace'', cn_handler = None, cn_signal = None\<rparr>"

lemma sample_plan_valid: "\<exists>v. validate_execution_plan sample_plan = Inr v"
proof -
  have "Sum_Type.isl (validate_execution_plan sample_plan) = False" by code_simp
  then show ?thesis by (cases "validate_execution_plan sample_plan") auto
qed

lemma sample_silent: "silent sample_coordination"
  by (simp add: silent_def sample_coordination_def)

subsection \<open>Properties\<close>

text \<open>
  C3: Executing a validated plan always returns an outcome, whatever the resolver, the executor and
  the Cells do, as long as the completion handler does not raise. The nodes run in the order of the
  levels. Either all of them run, each has a result and the root's is the outcome's, or the run
  stops at the first node that fails, and exactly the nodes before it have results.
\<close>

theorem plan_execution_total:
  assumes "validate_execution_plan p = Inr v" and "silent C"
  shows "\<exists>oc w' rest. execute_plan C v w = (Inr oc, w')
    \<and> concat (vp_topological_levels v) = po_execution_order oc @ rest
    \<and> (if po_error oc = None
       then rest = [] \<and> map fst (po_results_by_node_id oc) = po_execution_order oc
         \<and> po_root_result oc \<noteq> None \<and> po_root_result oc = map_of (po_results_by_node_id oc) (ep_root_node_id p)
       else po_root_result oc = None \<and> po_execution_order oc \<noteq> []
         \<and> po_failed_node_id oc = Some (last (po_execution_order oc))
         \<and> map fst (po_results_by_node_id oc) = butlast (po_execution_order oc))"
proof -
  obtain oc w' st where ex: "execute_plan C v w = (Inr oc, w')"
    and oc: "po_results_by_node_id oc = co_results st" "po_execution_order oc = co_order st"
    and how: "(po_error oc = None \<and> po_failed_node_id oc = None \<and> coord_inv p (concat (vp_topological_levels v)) st
          \<and> po_root_result oc = map_of (co_results st) (ep_root_node_id p) \<and> po_root_result oc \<noteq> None)
      \<or> (\<exists>pre i post. concat (vp_topological_levels v) = pre @ i # post \<and> po_error oc \<noteq> None
          \<and> po_failed_node_id oc = Some i \<and> po_root_result oc = None \<and> stopped_at p pre i st)"
    using execute_plan_ok[OF assms] by blast
  from how show ?thesis
  proof (elim disjE exE conjE)
    assume "po_error oc = None" "coord_inv p (concat (vp_topological_levels v)) st"
      "po_root_result oc = map_of (co_results st) (ep_root_node_id p)" "po_root_result oc \<noteq> None"
    with ex oc show ?thesis by (intro exI[of _ oc] exI[of _ w'] exI[of _ "[]"]) (simp add: coord_inv_def)
  next
    fix pre i post
    assume "concat (vp_topological_levels v) = pre @ i # post" "po_error oc \<noteq> None"
      "po_failed_node_id oc = Some i" "po_root_result oc = None" "stopped_at p pre i st"
    with ex oc show ?thesis by (intro exI[of _ oc] exI[of _ w'] exI[of _ post]) (simp add: stopped_at_def)
  qed
qed

theorem plan_execution_total_witness:
  "\<exists>v oc w'. validate_execution_plan sample_plan = Inr v \<and> execute_plan sample_coordination v 0 = (Inr oc, w')"
proof -
  obtain v where v: "validate_execution_plan sample_plan = Inr v" using sample_plan_valid ..
  from plan_execution_total[OF v sample_silent, of 0] v show ?thesis by blast
qed

text \<open>
  C35: No look-up of the coordinator can miss on a validated plan: when the loop reaches a node with
  results for exactly the nodes before it, the node is found, its bindings are found and implement
  its Cell in its formula version, and its children are the results of its dependencies, in order.
\<close>

theorem node_ready_when_reached:
  assumes "validate_execution_plan p = Inr v" and "concat (vp_topological_levels v) = pre @ i # post"
    and "map fst (co_results st) = pre"
  shows "\<exists>n. dict_get (nodes_by_id p) i = Inr n \<and> en_node_id n = i
    \<and> child_results st n = Inr (if en_dependencies n = [] then None
        else Some (map (\<lambda>d. the (map_of (co_results st) d)) (en_dependencies n)))
    \<and> (\<forall>j \<in> set (en_binding_id n # en_fallback_binding_ids n). \<exists>b. dict_get (bindings_by_id p) j = Inr b
        \<and> bd_binding_id b = j \<and> bd_cell_id b = en_cell_id n \<and> bd_formula_version b = en_formula_version n)"
proof -
  note p = validated_plan(1)[OF assms(1)]
  from plan_order(1)[OF assms(1,2)] obtain n where n: "n \<in> set (ep_nodes p)" "en_node_id n = i"
    "set (en_dependencies n) \<subseteq> set pre" by blast
  have "set (en_dependencies n) \<subseteq> fst ` set (co_results st)" using n(3) assms(3) by (simp flip: set_map)
  from child_results_ready[OF this] plan_lookups[OF p n(1)] n(2) show ?thesis by blast
qed

theorem node_ready_when_reached_witness:
  "\<exists>n. dict_get (nodes_by_id sample_plan) ''node'' = Inr n \<and> child_results initial_state n = Inr None"
proof -
  obtain v where v: "validate_execution_plan sample_plan = Inr v" using sample_plan_valid ..
  from plan_levels(1)[OF v] have "mset (concat (vp_topological_levels v)) = {#''node''#}"
    by (simp add: sample_plan_def sample_node_def Let_def)
  then have l: "concat (vp_topological_levels v) = [] @ ''node'' # []" by (simp add: mset_single_iff)
  obtain n where n: "dict_get (nodes_by_id sample_plan) ''node'' = Inr n"
    "child_results initial_state n = Inr (if en_dependencies n = [] then None
        else Some (map (\<lambda>d. the (map_of (co_results initial_state) d)) (en_dependencies n)))"
    using node_ready_when_reached[OF v l, of initial_state] by (auto simp: initial_state_def)
  have "en_dependencies n = []"
    using n(1) by (auto simp: dict_get_Inr nodes_by_id_def dict_of_def sample_plan_def sample_node_def Let_def)
  with n show ?thesis by auto
qed

text \<open>
  C22: Results are for the nodes that carry them: every result of the outcome belongs to a node of
  the plan and names that node's Cell and the plan's target and horizon, and when the plan succeeds
  every trace passes \<open>validate_execution_trace\<close> against the plan.
\<close>

theorem plan_results_belong:
  assumes "validate_execution_plan p = Inr v" and "silent C" and "execute_plan C v w = (Inr oc, w')"
  shows "(\<forall>(i, r) \<in> set (po_results_by_node_id oc). \<exists>n \<in> set (ep_nodes p). en_node_id n = i
       \<and> cr_cell_id r = en_cell_id n \<and> cr_target r = ep_target p \<and> cr_horizon r = ep_horizon p)
    \<and> (po_error oc = None \<longrightarrow> (\<forall>t \<in> set (po_runtime_traces oc). validate_execution_trace t (Some p) = Inr ()))"
  using execute_plan_ok[OF assms(1,2), of w] assms(3)
  by (auto simp: results_ok_def result_for_def coord_inv_def trace_in_plan_def)

theorem plan_results_belong_witness:
  "\<exists>v oc w'. execute_plan sample_coordination v 0 = (Inr oc, w')
     \<and> (\<forall>(i, r) \<in> set (po_results_by_node_id oc). cr_target r = ep_target sample_plan)"
proof -
  obtain v where v: "validate_execution_plan sample_plan = Inr v" using sample_plan_valid ..
  obtain oc w' where ex: "execute_plan sample_coordination v 0 = (Inr oc, w')"
    using execute_plan_ok[OF v sample_silent, of 0] by blast
  from plan_results_belong[OF v sample_silent ex] ex show ?thesis by blast
qed



end
