(* ===== verification/Float_Order.thy ===== *)
theory Float_Order
  imports Binary64
begin

section \<open>The order of the floats\<close>

text \<open>
  \<open>sorted\<close>, \<open>min\<close> and \<open>max\<close> compare floats. The instance below orders them the way the IEEE
  comparisons do and puts NaN above everything: where the code sorts, a NaN would make Python's
  result depend on the algorithm, and this is the one case in which the model may differ. The
  second part shows that rounding to binary64 is monotone, from which the bounds of the
  statistics and scores follow.
\<close>

instantiation pyfloat :: linorder
begin

definition less_eq_pyfloat :: "pyfloat \<Rightarrow> pyfloat \<Rightarrow> bool" where
  "less_eq_pyfloat x y = (y = NaN \<or> fle x y)"

definition less_pyfloat :: "pyfloat \<Rightarrow> pyfloat \<Rightarrow> bool" where
  "less_pyfloat x y = (x \<noteq> NaN \<and> (y = NaN \<or> flt x y))"

instance
proof
  fix x y z :: pyfloat
  show "(x < y) = (x \<le> y \<and> \<not> y \<le> x)"
    by (cases x; cases y) (auto simp: less_pyfloat_def less_eq_pyfloat_def)
  show "x \<le> x"
    by (cases x) (auto simp: less_eq_pyfloat_def)
  show "x \<le> y \<Longrightarrow> y \<le> z \<Longrightarrow> x \<le> z"
    by (cases x; cases y; cases z) (auto simp: less_eq_pyfloat_def)
  show "x \<le> y \<Longrightarrow> y \<le> x \<Longrightarrow> x = y"
    by (cases x; cases y) (auto simp: less_eq_pyfloat_def)
  show "x \<le> y \<or> y \<le> x"
    by (cases x; cases y) (auto simp: less_eq_pyfloat_def)
qed

end

lemma pyfloat_order [simp]:
  "Fin a \<le> Fin b \<longleftrightarrow> a \<le> b" "Fin a \<le> Inf p \<longleftrightarrow> p" "Inf p \<le> Fin a \<longleftrightarrow> \<not> p"
  "Inf p \<le> Inf q \<longleftrightarrow> (p \<longrightarrow> q)" "x \<le> NaN" "NaN \<le> Fin a \<longleftrightarrow> False" "NaN \<le> Inf p \<longleftrightarrow> False"
  by (auto simp: less_eq_pyfloat_def)

lemma pyfloat_less [simp]:
  "Fin a < Fin b \<longleftrightarrow> a < b" "Fin a < Inf p \<longleftrightarrow> p" "Inf p < Fin a \<longleftrightarrow> \<not> p"
  "Inf p < Inf q \<longleftrightarrow> (\<not> p \<and> q)" "NaN < x \<longleftrightarrow> False" "Fin a < NaN" "Inf p < NaN"
  by (auto simp: less_pyfloat_def)

lemma fnonneg_le: "fnonneg x \<Longrightarrow> Fin 0 \<le> x"
  by (simp add: fnonneg_def less_eq_pyfloat_def)

lemma fmax_ge: "a \<le> fmax a b"
  by (cases a; cases b) (auto simp: fmax_def)

lemma fmax_zero: "Fin 0 \<le> fmax a (Fin 0)"
  by (cases a) (auto simp: fmax_def)

subsection \<open>Rounding is monotone\<close>

lemma pow2_add: "pow2 (a + b) = pow2 a * pow2 b"
  by (auto simp: pow2_def power_add[symmetric] nat_add_distrib[symmetric] field_simps)

lemma pow2_0 [simp]: "pow2 0 = 1"
  by (simp add: pow2_def)

lemma pow2_nat: "pow2 (int n) = 2 ^ n"
  by (simp add: pow2_def)

lemma pow2_mono: "a \<le> b \<Longrightarrow> pow2 a \<le> pow2 b"
proof -
  assume "a \<le> b"
  then have "pow2 b = pow2 a * 2 ^ nat (b - a)"
    using pow2_add[of a "b - a"] pow2_nat[of "nat (b - a)"] by simp
  moreover have "pow2 a * 1 \<le> pow2 a * 2 ^ nat (b - a)"
    by (intro mult_left_mono) (auto simp: less_imp_le)
  ultimately show ?thesis by simp
qed

lemma floorlog_pow2:
  assumes "0 < n"
  shows "pow2 (int (floorlog 2 n) - 1) \<le> of_nat n" "of_nat n < pow2 (int (floorlog 2 n))"
proof -
  have *: "2 ^ (floorlog 2 n - 1) \<le> n \<and> n < 2 ^ floorlog 2 n"
    using floorlog_bounds[of n 2] assms by simp
  have pos: "floorlog 2 n > 0"
    using * assms by (cases "floorlog 2 n") auto
  from * have "(of_nat (2 ^ (floorlog 2 n - 1)) :: rat) \<le> of_nat n"
    by (simp only: of_nat_le_iff)
  moreover have "int (floorlog 2 n) - 1 = int (floorlog 2 n - 1)" using pos by simp
  ultimately show "pow2 (int (floorlog 2 n) - 1) \<le> of_nat n"
    by (simp only: pow2_nat of_nat_power of_nat_numeral)
  from * have "(of_nat n :: rat) < of_nat (2 ^ floorlog 2 n)" by (simp only: of_nat_less_iff)
  then show "of_nat n < pow2 (int (floorlog 2 n))" by (simp add: pow2_nat)
qed

lemma ilog2_bounds:
  assumes "0 < x"
  shows "pow2 (ilog2 x) \<le> x" "x < pow2 (ilog2 x + 1)"
proof -
  obtain p q where pq: "quotient_of x = (p, q)" by (cases "quotient_of x")
  have q: "0 < q" using quotient_of_denom_pos[OF pq] .
  have x: "x = of_int p / of_int q" using quotient_of_div[OF pq] .
  have p: "0 < p" using assms q by (simp add: x zero_less_divide_iff)
  define a b where "a = int (floorlog 2 (nat p))" and "b = int (floorlog 2 (nat q))"
  have bp: "pow2 (a - 1) \<le> of_int p" "of_int p < pow2 a"
    using floorlog_pow2[of "nat p"] p by (simp_all add: a_def)
  have bq: "pow2 (b - 1) \<le> of_int q" "of_int q < pow2 b"
    using floorlog_pow2[of "nat q"] q by (simp_all add: b_def)
  have qq: "(0 :: rat) < of_int q" using q by simp
  have up: "x < pow2 (a - b + 1)"
  proof -
    have "of_int p < pow2 (a - b + 1) * pow2 (b - 1)"
      using bp(2) pow2_add[of "a - b + 1" "b - 1"] by simp
    also have "\<dots> \<le> pow2 (a - b + 1) * of_int q"
      using bq(1) by (intro mult_left_mono) (auto simp: less_imp_le)
    finally show ?thesis using qq by (simp add: x field_simps)
  qed
  have lo: "pow2 (a - b - 1) \<le> x"
  proof -
    have "pow2 (a - b - 1) * of_int q \<le> pow2 (a - b - 1) * pow2 b"
      using bq(2) by (intro mult_left_mono) (auto simp: less_imp_le)
    also have "\<dots> \<le> of_int p"
      using bp(1) pow2_add[of "a - b - 1" b] by simp
    finally show ?thesis using qq by (simp add: x field_simps)
  qed
  have e: "ilog2 x = (if pow2 (a - b) \<le> x then a - b else a - b - 1)"
    by (simp add: ilog2_def pq Let_def a_def b_def)
  show "pow2 (ilog2 x) \<le> x" using lo by (simp add: e)
  show "x < pow2 (ilog2 x + 1)" using up by (simp add: e)
qed

text \<open>The value before the overflow test.\<close>

definition b64_round :: "rat \<Rightarrow> rat" where
  "b64_round x = of_int (round_half_even (x / ulp x)) * ulp x"

definition bexp :: "rat \<Rightarrow> int" where
  "bexp x = max (ilog2 x) (- 1022)"

lemma ulp_bexp: "0 < x \<Longrightarrow> ulp x = pow2 (bexp x - 52)"
  by (simp add: ulp_def bexp_def)

lemma of_int_round_le: "x \<le> of_int n \<Longrightarrow> (of_int (round_half_even x) :: rat) \<le> of_int n"
  using round_half_even_le_int[of x n] by simp

lemma of_int_round_ge: "of_int n \<le> x \<Longrightarrow> (of_int n :: rat) \<le> of_int (round_half_even x)"
  using round_half_even_mono[of "of_int n" x] by simp

lemma b64_round_upper: "0 < x \<Longrightarrow> b64_round x \<le> pow2 (bexp x + 1)"
proof -
  assume x: "0 < x"
  let ?u = "pow2 (bexp x - 52)"
  have "x \<le> pow2 (bexp x + 1)"
    using ilog2_bounds(2)[OF x] pow2_mono[of "ilog2 x + 1" "bexp x + 1"] by (simp add: bexp_def)
  also have "\<dots> = of_int (2 ^ 53) * ?u"
    using pow2_add[of 53 "bexp x - 52"] pow2_nat[of 53] by (simp add: algebra_simps)
  finally have "x / ?u \<le> of_int (2 ^ 53)"
    using pow2_pos[of "bexp x - 52"] by (simp add: field_simps)
  then have "of_int (round_half_even (x / ?u)) * ?u \<le> of_int (2 ^ 53) * ?u"
    by (intro mult_right_mono of_int_round_le) (auto simp: less_imp_le)
  also have "\<dots> = pow2 (bexp x + 1)"
    using pow2_add[of 53 "bexp x - 52"] pow2_nat[of 53] by (simp add: algebra_simps)
  finally show ?thesis by (simp add: b64_round_def ulp_bexp[OF x])
qed

lemma b64_round_lower:
  assumes x: "0 < x" and e: "- 1022 < bexp x"
  shows "pow2 (bexp x) \<le> b64_round x"
proof -
  let ?u = "pow2 (bexp x - 52)"
  have be: "bexp x = ilog2 x" using e by (auto simp: bexp_def)
  have eq: "pow2 (bexp x) = of_int (2 ^ 52) * ?u"
    using pow2_add[of 52 "bexp x - 52"] pow2_nat[of 52] by (simp add: algebra_simps)
  have "of_int (2 ^ 52) * ?u \<le> x" using ilog2_bounds(1)[OF x] eq be by simp
  then have "of_int (2 ^ 52) \<le> x / ?u"
    using pow2_pos[of "bexp x - 52"] by (simp add: field_simps)
  then have "of_int (2 ^ 52) * ?u \<le> of_int (round_half_even (x / ?u)) * ?u"
    by (intro mult_right_mono of_int_round_ge) (auto simp: less_imp_le)
  then show ?thesis by (simp add: b64_round_def ulp_bexp[OF x] eq)
qed

lemma bexp_mono:
  assumes "0 < x" "x \<le> y"
  shows "bexp x \<le> bexp y"
proof (rule ccontr)
  assume "\<not> bexp x \<le> bexp y"
  then have lt: "bexp y < bexp x" by simp
  then have "bexp x = ilog2 x" by (auto simp: bexp_def split: if_splits)
  with lt have "ilog2 y + 1 \<le> ilog2 x" by (auto simp: bexp_def)
  then have "pow2 (ilog2 y + 1) \<le> x"
    using ilog2_bounds(1)[OF assms(1)] pow2_mono by (meson order_trans)
  with ilog2_bounds(2)[of y] assms show False by simp
qed

lemma b64_round_mono_pos:
  assumes x: "0 < x" and xy: "x \<le> y"
  shows "b64_round x \<le> b64_round y"
proof (cases "bexp x = bexp y")
  case True
  have u: "ulp x = ulp y" using True ulp_bexp[of x] ulp_bexp[of y] x xy by simp
  have "x / ulp y \<le> y / ulp y" using xy by (simp add: divide_right_mono less_imp_le)
  then show ?thesis
    unfolding b64_round_def u
    by (intro mult_right_mono) (auto simp: round_half_even_mono less_imp_le)
next
  case False
  with bexp_mono[OF x xy] have lt: "bexp x + 1 \<le> bexp y" by simp
  have "- 1022 \<le> bexp x" by (simp add: bexp_def)
  with lt have "pow2 (bexp y) \<le> b64_round y"
    using b64_round_lower[of y] x xy by simp
  then show ?thesis
    using b64_round_upper[OF x] pow2_mono[OF lt] by (meson order_trans)
qed

lemma round_half_even_minus: "round_half_even (- x) = - round_half_even x"
proof (cases "x = of_int \<lfloor>x\<rfloor>")
  case True
  have "round_half_even (- of_int \<lfloor>x\<rfloor>) = - \<lfloor>x\<rfloor>"
    using round_half_even_int[of "- \<lfloor>x\<rfloor>"] by simp
  then show ?thesis using True by (metis round_half_even_int)
next
  case False
  have f: "\<lfloor>- x\<rfloor> = - \<lfloor>x\<rfloor> - 1"
    using False by (intro floor_unique) (auto simp: of_int_floor_le less_le, linarith+)
  show ?thesis by (auto simp: round_half_even_def Let_def f)
qed

lemma ulp_minus [simp]: "ulp (- x) = ulp x"
  by (simp add: ulp_def)

lemma b64_round_minus: "b64_round (- x) = - b64_round x"
  by (simp add: b64_round_def round_half_even_minus)

lemma b64_round_nonneg: "0 \<le> x \<Longrightarrow> 0 \<le> b64_round x"
  by (simp add: b64_round_def round_half_even_nonneg less_imp_le)

lemma b64_round_mono:
  assumes "x \<le> y"
  shows "b64_round x \<le> b64_round y"
proof -
  consider "0 < x" | "x \<le> 0" "0 \<le> y" | "y < 0" by linarith
  then show ?thesis
  proof cases
    case 1
    then show ?thesis using b64_round_mono_pos assms by simp
  next
    case 2
    then have "b64_round x \<le> 0" using b64_round_nonneg[of "- x"] by (simp add: b64_round_minus)
    then show ?thesis using 2 b64_round_nonneg[of y] by simp
  next
    case 3
    then show ?thesis
      using b64_round_mono_pos[of "- y" "- x"] assms by (simp add: b64_round_minus)
  qed
qed

lemma b64_alt:
  "b64 x = (if \<bar>b64_round x\<bar> \<ge> pow2 1024 then Inf (x > 0) else Fin (b64_round x))"
proof (cases "x = 0")
  case True
  then show ?thesis using pow2_pos[of 1024]
    by (auto simp: b64_def b64_round_def round_half_even_def simp del: pow2_pos)
qed (simp add: b64_def b64_round_def Let_def)

theorem b64_mono:
  assumes "x \<le> y"
  shows "b64 x \<le> b64 y"
proof -
  have m: "b64_round x \<le> b64_round y" using b64_round_mono[OF assms] .
  have p: "0 < pow2 1024" by simp
  have sx: "0 < x \<Longrightarrow> 0 \<le> b64_round x" "x \<le> 0 \<Longrightarrow> b64_round x \<le> 0"
    using b64_round_nonneg[of x] b64_round_nonneg[of "- x"] by (auto simp: b64_round_minus)
  have sy: "0 < y \<Longrightarrow> 0 \<le> b64_round y" "y \<le> 0 \<Longrightarrow> b64_round y \<le> 0"
    using b64_round_nonneg[of y] b64_round_nonneg[of "- y"] by (auto simp: b64_round_minus)
  show ?thesis
    unfolding b64_alt using m p sx sy assms
    by (cases "0 < x"; cases "0 < y") (auto simp: abs_if split: if_splits)
qed

lemma b64_not_NaN [simp]: "b64 x \<noteq> NaN"
  by (simp add: b64_alt)

lemma b64_0 [simp]: "b64 0 = Fin 0"
  by (simp add: b64_def)

lemma b64_minus: "b64 (- x) = fneg (b64 x)"
proof (cases "x = 0")
  case True
  then show ?thesis by simp
next
  case False
  then show ?thesis by (auto simp: b64_alt b64_round_minus)
qed

text \<open>A value with at most 53 significant bits is represented exactly.\<close>

lemma b64_exact:
  assumes "0 < n" "n < 2 ^ 53" "- 1074 \<le> k" "k \<le> 971"
  shows "b64 (of_int n * pow2 k) = Fin (of_int n * pow2 k)"
proof -
  let ?x = "of_int n * pow2 k :: rat"
  have x: "0 < ?x" using assms(1) by simp
  have n: "(of_int n :: rat) < 2 ^ 53"
    using assms(2) by (metis of_int_less_iff of_int_numeral of_int_power)
  have lt: "?x < pow2 (53 + k)"
    using n pow2_add[of 53 k] pow2_nat[of 53] by simp
  have "ilog2 ?x < 53 + k"
  proof (rule ccontr)
    assume "\<not> ilog2 ?x < 53 + k"
    then have "pow2 (53 + k) \<le> pow2 (ilog2 ?x)" by (intro pow2_mono) simp
    with ilog2_bounds(1)[OF x] lt show False by simp
  qed
  then have e: "bexp ?x - 52 \<le> k" using assms(3) by (simp add: bexp_def)
  define d where "d = nat (k - (bexp ?x - 52))"
  have k: "pow2 k = 2 ^ d * ulp ?x"
    using pow2_add[of "int d" "bexp ?x - 52"] pow2_nat[of d] e by (simp add: ulp_bexp[OF x] d_def)
  have u: "ulp ?x > 0" by simp
  have div: "?x / ulp ?x = of_int (n * 2 ^ d)"
    by (subst k) (use u in \<open>simp add: less_imp_neq[symmetric]\<close>)
  have "b64_round ?x = of_int (n * 2 ^ d) * ulp ?x"
    unfolding b64_round_def div by (simp only: round_half_even_int)
  also have "\<dots> = ?x" by (subst (2) k) simp
  finally have r: "b64_round ?x = ?x" .
  have "?x < pow2 1024"
    using lt pow2_mono[of "53 + k" 1024] assms(4) by simp
  then show ?thesis using x r by (simp add: b64_alt)
qed

lemma b64_int: "0 \<le> n \<Longrightarrow> n < 2 ^ 53 \<Longrightarrow> b64 (of_int n) = Fin (of_int n)"
  using b64_exact[of n 0] by (cases "n = 0") auto

lemma b64_1 [simp]: "b64 1 = Fin 1"
  using b64_int[of 1] by simp

text \<open>A value between two floats stays between them.\<close>

lemma b64_between:
  assumes "b64 l = Fin l" "b64 h = Fin h" "l \<le> x" "x \<le> h"
  shows "\<exists>y. b64 x = Fin y \<and> l \<le> y \<and> y \<le> h"
proof -
  have "Fin l \<le> b64 x" "b64 x \<le> Fin h"
    using b64_mono[OF assms(3)] b64_mono[OF assms(4)] assms(1,2) by simp_all
  then show ?thesis by (cases "b64 x") (auto simp: less_eq_pyfloat_def)
qed

lemma py_round_between:
  assumes "of_int l \<le> x" "x \<le> of_int h" "b64 (of_int l) = Fin (of_int l)" "b64 (of_int h) = Fin (of_int h)"
  shows "\<exists>y. py_round n (Fin x) = Fin y \<and> of_int l \<le> y \<and> y \<le> of_int h"
proof -
  let ?r = "of_int (round_half_even (x * 10 ^ n)) / 10 ^ n :: rat"
  have "of_int (l * 10 ^ n) \<le> x * 10 ^ n" "x * 10 ^ n \<le> of_int (h * 10 ^ n)"
    using assms(1,2) by (simp_all add: mult_right_mono)
  then have "(of_int (l * 10 ^ n) :: rat) \<le> of_int (round_half_even (x * 10 ^ n))"
    "(of_int (round_half_even (x * 10 ^ n)) :: rat) \<le> of_int (h * 10 ^ n)"
    by (intro of_int_round_ge of_int_round_le; simp)+
  then have "of_int l \<le> ?r" "?r \<le> of_int h" by (simp_all add: field_simps)
  from b64_between[OF assms(3,4) this] show ?thesis by simp
qed

text \<open>\<open>round(k / n, 6)\<close> of a part and a whole is a number between 0 and 1.\<close>

lemma py_round_ratio:
  assumes "0 \<le> k" "k \<le> n" "0 < n"
  shows "\<exists>y. py_round m (int_div k n) = Fin y \<and> 0 \<le> y \<and> y \<le> 1"
proof -
  have "(0 :: rat) \<le> of_int k / of_int n" "(of_int k / of_int n :: rat) \<le> 1" using assms by simp_all
  from b64_between[of 0 1, OF _ _ this] obtain y where "int_div k n = Fin y" "0 \<le> y" "y \<le> 1"
    by (auto simp: int_div_def)
  then show ?thesis using py_round_between[of 0 y 1 m] by simp
qed

lemma fmul_mono:
  assumes "fle (Fin 0) a" "x \<le> y" "0 \<le> x" "fmul a (Fin x) \<noteq> NaN" "fmul a (Fin y) \<noteq> NaN"
  shows "fmul a (Fin x) \<le> fmul a (Fin y)"
  using assms by (cases a) (auto intro!: b64_mono mult_left_mono split: if_splits)

end
