(* ===== verification/Telemetry.thy ===== *)
theory Telemetry
  imports Exec_Models Float_Order "HOL-Library.Product_Lexorder"
begin

section \<open>Runtime summaries of traces\<close>

text \<open>
  Models \<open>execution/telemetry.py\<close>: traces grouped by Cell, formula, implementation, service and
  runtime in a \<open>defaultdict\<close>, one summary per group, sorted with the failing and slow groups
  first. The grouping and the order statistics are shared with \<open>execution/runtime_store.py\<close>.
\<close>

subsection \<open>Grouping\<close>

text \<open>\<open>grouped[key].append(x)\<close> on a \<open>defaultdict(list)\<close>.\<close>

definition group_add :: "'k \<Rightarrow> 'a \<Rightarrow> ('k \<times> 'a list) list \<Rightarrow> ('k \<times> 'a list) list" where
  "group_add k x g = AList.update k ((case map_of g k of None \<Rightarrow> [] | Some xs \<Rightarrow> xs) @ [x]) g"

definition group_by :: "('a \<Rightarrow> 'k) \<Rightarrow> 'a list \<Rightarrow> ('k \<times> 'a list) list" where
  "group_by key xs = foldl (\<lambda>g x. group_add (key x) x g) [] xs"

lemma group_by_snoc: "group_by key (xs @ [x]) = group_add (key x) x (group_by key xs)"
  by (simp add: group_by_def)

lemma distinct_group_by [simp]: "distinct (map fst (group_by key xs))"
  by (induction xs rule: rev_induct) (simp_all add: group_by_snoc group_add_def group_by_def[of _ "[]"] distinct_update)

lemma map_of_group_by:
  "map_of (group_by key xs) k =
   (if k \<in> key ` set xs then Some (filter (\<lambda>x. key x = k) xs) else None)"
proof (induction xs arbitrary: k rule: rev_induct)
  case Nil
  then show ?case by (simp add: group_by_def)
next
  case (snoc x xs)
  have none: "filter (\<lambda>y. key y = key x) xs = []" if "key x \<notin> key ` set xs"
    using that by (metis (mono_tags, lifting) filter_False image_eqI)
  show ?case
    by (auto simp: group_by_snoc group_add_def update_conv' snoc.IH none)
qed

lemma in_group_by:
  "(k, ys) \<in> set (group_by key xs) \<longleftrightarrow> k \<in> key ` set xs \<and> ys = filter (\<lambda>x. key x = k) xs"
proof -
  have "(k, ys) \<in> set (group_by key xs) \<longleftrightarrow> map_of (group_by key xs) k = Some ys"
    by (metis distinct_group_by map_of_eq_Some_iff)
  then show ?thesis by (auto simp: map_of_group_by)
qed

lemma group_by_keys: "fst ` set (group_by key xs) = key ` set xs"
proof -
  have "fst ` set (group_by key xs) = dom (map_of (group_by key xs))"
    by (simp add: dom_map_of_conv_image_fst)
  then show ?thesis by (auto simp: map_of_group_by split: if_splits)
qed

lemma group_by_not_empty: "(k, ys) \<in> set (group_by key xs) \<Longrightarrow> ys \<noteq> []"
  by (auto simp: in_group_by filter_empty_conv)

lemma group_by_lengths: "(\<Sum>(k, ys) \<leftarrow> group_by key xs. length ys) = length xs"
proof (induction xs rule: rev_induct)
  case Nil
  then show ?case by (simp add: group_by_def)
next
  case (snoc x xs)
  have upd: "(\<Sum>(k, ys) \<leftarrow> group_add k x g. length ys) = Suc (\<Sum>(k, ys) \<leftarrow> g. length ys)"
    if "distinct (map fst g)" for k and g :: "('a \<times> 'b list) list"
    using that unfolding group_add_def
  proof (induction g)
    case (Cons p g)
    obtain k' ys where p: "p = (k', ys)" by (cases p)
    show ?case using Cons by (cases "k' = k") (auto simp: p)
  qed simp
  show ?case using snoc upd by (simp add: group_by_snoc)
qed

text \<open>
  What a sorted list of group summaries has in common, for any summary function that keeps the
  key and counts its group.
\<close>

lemma grouped_summaries:
  fixes f :: "'k \<times> 'a list \<Rightarrow> 'e" and rank :: "'e \<Rightarrow> 'r :: linorder"
  assumes ok: "\<And>k g. (k, g) \<in> set (group_by key xs) \<Longrightarrow> P (f (k, g))"
    and key: "\<And>k g. ekey (f (k, g)) = k" and count: "\<And>k g. ecount (f (k, g)) = length g"
  defines "S \<equiv> sort_key rank (map f (group_by key xs))"
  shows "distinct (map ekey S)" "set (map ekey S) = set (map key xs)" "list_all P S"
    "sum_list (map ecount S) = length xs" "sorted (map rank S)"
proof -
  let ?G = "group_by key xs"
  have S: "mset S = mset (map f ?G)" by (simp add: S_def)
  have keys: "map (ekey \<circ> f) ?G = map fst ?G" by (auto simp: key)
  have mk: "mset (map ekey S) = mset (map fst ?G)" by (metis S keys map_map mset_map)
  show "distinct (map ekey S)" using mset_eq_imp_distinct_iff[OF mk] by simp
  show "set (map ekey S) = set (map key xs)"
    using mset_eq_setD[OF mk] by (simp add: group_by_keys)
  show "list_all P S" using mset_eq_setD[OF S] ok by (auto simp: list_all_iff)
  have "sum_list (map ecount S) = sum_list (map (ecount \<circ> f) ?G)"
    by (metis S map_map mset_map sum_mset_sum_list)
  also have "map (ecount \<circ> f) ?G = map (\<lambda>(k, ys). length ys) ?G" by (auto simp: count)
  finally show "sum_list (map ecount S) = length xs" by (simp add: group_by_lengths)
  show "sorted (map rank S)" by (simp add: S_def)
qed

subsection \<open>Order statistics\<close>

text \<open>
  \<open>int(round((len(vals) - 1) * percentile))\<close> cut to the index range. The infinite product of the
  last case would need a list of more than \<open>10 ^ 308\<close> vals.
\<close>

definition percentile_index :: "nat \<Rightarrow> rat \<Rightarrow> nat" where
  "percentile_index n p =
     (case fmul (b64 (of_nat n)) (b64 p) of
        Fin x \<Rightarrow> nat (min (max (round_half_even x) 0) (int n))
      | _ \<Rightarrow> n)"

lemma percentile_index_le: "percentile_index n p \<le> n"
  by (auto simp: percentile_index_def split: pyfloat.splits)

text \<open>
  The index is that of the nearest rank: the product in floats is so close to the exact one that
  rounding it gives an integer at most half a step away, for lists of any size that can occur.
\<close>

lemma b64_grid:
  assumes "0 \<le> x" "x * 2 ^ m < 2 ^ 53 - 1" "m \<le> 1000"
  shows "\<exists>y. b64 x = Fin y \<and> \<bar>y - x\<bar> \<le> 1 / 2 ^ m"
proof -
  let ?n = "\<lfloor>x * 2 ^ m\<rfloor>"
  have exact: "b64 (of_int k / 2 ^ m) = Fin (of_int k / 2 ^ m)" if "0 \<le> k" "k < 2 ^ 53" for k
  proof (cases "k = 0")
    case False
    have "pow2 (- int m) = 1 / 2 ^ m"
      using pow2_add[of "- int m" "int m"] pow2_nat[of m] by (simp add: field_simps)
    then show ?thesis using b64_exact[of k "- int m"] that assms(3) False by simp
  qed simp
  have n: "0 \<le> ?n" "of_int ?n \<le> x * 2 ^ m" "x * 2 ^ m < of_int ?n + 1"
    using assms(1) by (simp_all add: floor_le_iff le_floor_iff) linarith
  have lt: "?n + 1 < 2 ^ 53"
  proof -
    have "(of_int ?n :: rat) < of_int (2 ^ 53 - 1)" using n(2) assms(2) by simp
    then show ?thesis by (simp only: of_int_less_iff)
  qed
  have "of_int ?n / 2 ^ m \<le> x" "x \<le> of_int (?n + 1) / 2 ^ m"
    using n(2,3) by (simp_all add: field_simps)
  from b64_between[OF exact exact this] n(1) lt
  obtain y where y: "b64 x = Fin y" "of_int ?n / 2 ^ m \<le> y" "y \<le> of_int (?n + 1) / 2 ^ m" by auto
  have "of_int (?n + 1) / 2 ^ m = (of_int ?n / 2 ^ m + 1 / 2 ^ m :: rat)" by (simp add: add_divide_distrib)
  with y(2,3) \<open>of_int ?n / 2 ^ m \<le> x\<close> \<open>x \<le> of_int (?n + 1) / 2 ^ m\<close> have "\<bar>y - x\<bar> \<le> 1 / 2 ^ m" by linarith
  with y(1) show ?thesis by blast
qed

lemma round_half_even_near: "\<bar>of_int (round_half_even x) - x\<bar> \<le> 1 / 2"
proof -
  have "of_int \<lfloor>x\<rfloor> \<le> x" "x < of_int \<lfloor>x\<rfloor> + 1" by linarith+
  then show ?thesis by (auto simp: round_half_even_def Let_def abs_le_iff)
qed

lemma percentile_index_near:
  assumes "0 \<le> q" "q \<le> 99" "n \<le> 2 ^ 40"
  shows "\<bar>100 * int (percentile_index n (of_int q / 100)) - q * int n\<bar> \<le> 50"
proof -
  let ?p = "of_int q / 100 :: rat"
  have nb: "b64 (of_nat n) = Fin (of_nat n)" using b64_int[of "int n"] assms(3) by simp
  have p: "0 \<le> ?p" "?p \<le> 99 / 100"
    using assms(1,2) by (simp_all add: divide_right_mono of_int_le_iff[of q 99, where 'a = rat, simplified])
  have "?p * 2 ^ 52 \<le> 99 / 100 * 2 ^ 52" using p(2) by (rule mult_right_mono) simp
  then have "?p * 2 ^ 52 < 2 ^ 53 - 1" by simp
  from b64_grid[OF p(1) this] obtain c where c: "b64 ?p = Fin c" "\<bar>c - ?p\<bar> \<le> 1 / 2 ^ 52" by auto
  have c1: "0 \<le> c" using b64_nonneg[OF p(1)] c(1) by (simp add: fnonneg_def)
  have n: "(of_nat n :: rat) \<le> 2 ^ 40" using assms(3) by (metis of_nat_le_iff of_nat_numeral of_nat_power)
  have cn: "\<bar>of_nat n * c - of_nat n * ?p\<bar> \<le> 1 / 2 ^ 12"
  proof -
    have "\<bar>of_nat n * c - of_nat n * ?p\<bar> = of_nat n * \<bar>c - ?p\<bar>"
      using abs_mult[of "of_nat n" "c - ?p"] unfolding right_diff_distrib by simp
    also have "\<dots> \<le> 2 ^ 40 * (1 / 2 ^ 52)" using n c(2) by (intro mult_mono) simp_all
    finally show ?thesis by simp
  qed
  have x0: "0 \<le> of_nat n * c" using c1 by simp
  have "of_nat n * ?p \<le> of_nat n" using p(2) by (intro mult_left_le) simp_all
  moreover have "of_nat n * c \<le> of_nat n * ?p + 1 / 2 ^ 12" using cn by (simp only: abs_le_iff) linarith
  moreover have "(2 ^ 40 + 1 / 2 ^ 12 :: rat) < 2 ^ 41" by simp
  ultimately have "of_nat n * c < 2 ^ 41" using n by linarith
  then have "of_nat n * c * 2 ^ 8 < 2 ^ 53 - 1" by simp
  from b64_grid[OF x0 this] obtain y where y: "b64 (of_nat n * c) = Fin y" "\<bar>y - of_nat n * c\<bar> \<le> 1 / 2 ^ 8" by auto
  define k where "k = round_half_even y"
  have "\<bar>of_int k - of_nat n * ?p\<bar> \<le> 1 / 2 + 1 / 2 ^ 8 + 1 / 2 ^ 12"
    using round_half_even_near[of y] y(2) cn unfolding k_def by linarith
  moreover have "of_nat n * ?p = of_int q * of_nat n / 100" by simp
  moreover have "(1 / 2 + 1 / 2 ^ 8 + 1 / 2 ^ 12 :: rat) < 51 / 100" by simp
  ultimately have "\<bar>100 * of_int k - of_int q * of_nat n\<bar> < (51 :: rat)" by linarith
  then have "of_int \<bar>100 * k - q * int n\<bar> < (of_int 51 :: rat)" by simp
  then have k: "\<bar>100 * k - q * int n\<bar> \<le> 50" by (simp only: of_int_less_iff)
  have "0 \<le> q * int n" "q * int n \<le> 99 * int n" using assms(1,2) by (simp_all add: mult_right_mono)
  with k have "0 \<le> k" "k \<le> int n" by linarith+
  then have "percentile_index n ?p = nat k" using nb c(1) y(1) by (simp add: percentile_index_def k_def)
  with k \<open>0 \<le> k\<close> show ?thesis by simp
qed

text \<open>The value at the nearest rank to the \<open>q\<close>-th hundredth of the sorted values.\<close>

definition nearest_rank :: "int \<Rightarrow> pyfloat list \<Rightarrow> pyfloat \<Rightarrow> bool" where
  "nearest_rank q xs v \<longleftrightarrow>
     (\<exists>k < length xs. v = sort xs ! k \<and> \<bar>100 * int k - q * int (length xs - 1)\<bar> \<le> 50)"

text \<open>\<open>_percentile\<close> of telemetry.py, with its shortcut for one value.\<close>

definition percentile :: "pyfloat list \<Rightarrow> rat \<Rightarrow> pyfloat" where
  "percentile vals p =
     (if vals = [] then Fin 0
      else if length vals = 1 then vals ! 0
      else vals ! percentile_index (length vals - 1) p)"

definition clamped_durations :: "trace list \<Rightarrow> pyfloat list" where
  "clamped_durations ts = sort (map (\<lambda>t. fmax (rt_duration_ms t) (Fin 0)) ts)"

text \<open>\<open>sum(vals)\<close> from left to right, and a float divided by a positive integer.\<close>

definition fsum :: "pyfloat list \<Rightarrow> pyfloat" where
  "fsum xs = foldl fadd (Fin 0) xs"

fun fdiv_nat :: "pyfloat \<Rightarrow> nat \<Rightarrow> pyfloat" where
  "fdiv_nat (Fin x) n = b64 (x / of_nat n)"
| "fdiv_nat (Inf p) n = Inf p"
| "fdiv_nat NaN n = NaN"

text \<open>\<open>status_counts.get(status, 0)\<close> of a \<open>Counter\<close>, and \<open>sum(1 for ... if trace.error)\<close>.\<close>

definition status_count :: "trace_status \<Rightarrow> trace list \<Rightarrow> nat" where
  "status_count s ts = count_list (map rt_status ts) s"

definition error_count :: "trace list \<Rightarrow> nat" where
  "error_count ts = length (filter (\<lambda>t. or_empty (rt_error t) \<noteq> []) ts)"

definition average_ms :: "pyfloat list \<Rightarrow> pyfloat" where
  "average_ms ds = py_round 6 (fdiv_nat (fsum ds) (length ds))"

subsection \<open>Summaries\<close>

type_synonym trace_key = "string \<times> string \<times> string option \<times> string option \<times> string option"

definition trace_key :: "trace \<Rightarrow> trace_key" where
  "trace_key t = (rt_cell_id t, rt_formula_version t, rt_implementation_id t, rt_service_id t,
     rt_runtime t)"

record runtime_summary =
  rs_cell_id :: string
  rs_formula_version :: string
  rs_implementation_id :: "string option"
  rs_service_id :: "string option"
  rs_runtime :: "string option"
  rs_trace_count :: nat
  rs_succeeded_count :: nat
  rs_failed_count :: nat
  rs_skipped_count :: nat
  rs_average_duration_ms :: pyfloat
  rs_max_duration_ms :: pyfloat
  rs_min_duration_ms :: pyfloat
  rs_p95_duration_ms :: pyfloat
  rs_error_count :: nat
  rs_retry_count :: int
  rs_schema_version :: string

definition summarize_trace_group :: "trace_key \<times> trace list \<Rightarrow> runtime_summary" where
  "summarize_trace_group kg =
     (let ((cell, formula, impl, svc, runtime), ts) = kg; ds = clamped_durations ts in
      \<lparr>rs_cell_id = cell, rs_formula_version = formula, rs_implementation_id = impl,
       rs_service_id = svc, rs_runtime = runtime, rs_trace_count = length ts,
       rs_succeeded_count = status_count TSucceeded ts, rs_failed_count = status_count TFailed ts,
       rs_skipped_count = status_count TSkipped ts,
       rs_average_duration_ms = (if ds \<noteq> [] then average_ms ds else Fin 0),
       rs_max_duration_ms = (if ds \<noteq> [] then last ds else Fin 0),
       rs_min_duration_ms = (if ds \<noteq> [] then hd ds else Fin 0),
       rs_p95_duration_ms = percentile ds (95 / 100),
       rs_error_count = error_count ts, rs_retry_count = sum_list (map rt_retry_count ts),
       rs_schema_version = ''cell_runtime_summary.v1''\<rparr>)"

definition summary_rank ::
  "runtime_summary \<Rightarrow> int \<times> pyfloat \<times> string \<times> string \<times> string \<times> string \<times> string" where
  "summary_rank s = (- int (rs_failed_count s), fneg (rs_p95_duration_ms s), rs_cell_id s,
     rs_formula_version s, or_empty (rs_implementation_id s), or_empty (rs_service_id s),
     or_empty (rs_runtime s))"

definition summarize_runtime_traces :: "trace list \<Rightarrow> runtime_summary list" where
  "summarize_runtime_traces ts =
     sort_key summary_rank (map summarize_trace_group (group_by trace_key ts))"

subsection \<open>What a summary says\<close>

definition summary_key :: "runtime_summary \<Rightarrow> trace_key" where
  "summary_key s = (rs_cell_id s, rs_formula_version s, rs_implementation_id s, rs_service_id s,
     rs_runtime s)"

definition of_key :: "trace_key \<Rightarrow> trace list \<Rightarrow> trace list" where
  "of_key k ts = filter (\<lambda>t. trace_key t = k) ts"

text \<open>
  A summary agrees with the traces of its key: at least one, counted by status and by error, with
  the shortest, the longest, the average and the 95th percentile of the durations, where a negative
  one counts as 0. The percentile is the duration at the nearest rank (the bound on the number of
  traces is that of the float arithmetic on ranks).
\<close>

definition summary_ok :: "trace list \<Rightarrow> runtime_summary \<Rightarrow> bool" where
  "summary_ok ts s =
     (let group = of_key (summary_key s) ts; ds = map (\<lambda>t. fmax (rt_duration_ms t) (Fin 0)) group in
      group \<noteq> [] \<and> rs_trace_count s = length group \<and>
      rs_succeeded_count s = length (filter (\<lambda>t. rt_status t = TSucceeded) group) \<and>
      rs_failed_count s = length (filter (\<lambda>t. rt_status t = TFailed) group) \<and>
      rs_skipped_count s = length (filter (\<lambda>t. rt_status t = TSkipped) group) \<and>
      rs_succeeded_count s + rs_failed_count s + rs_skipped_count s = rs_trace_count s \<and>
      rs_retry_count s = sum_list (map rt_retry_count group) \<and>
      rs_error_count s = length (filter (\<lambda>t. rt_error t \<notin> {None, Some []}) group) \<and>
      rs_min_duration_ms s = Min (set ds) \<and> rs_max_duration_ms s = Max (set ds) \<and> Fin 0 \<le> rs_min_duration_ms s \<and>
      rs_average_duration_ms s = average_ms (sort ds) \<and>
      rs_p95_duration_ms s \<in> set ds \<and> (length ds \<le> 2 ^ 40 \<longrightarrow> nearest_rank 95 ds (rs_p95_duration_ms s)))"

lemma clamped_durations_set:
  "set (clamped_durations ts) = (\<lambda>t. fmax (rt_duration_ms t) (Fin 0)) ` set ts"
  by (simp add: clamped_durations_def)

lemma clamped_durations_length [simp]: "length (clamped_durations ts) = length ts"
  by (simp add: clamped_durations_def)

lemma clamped_durations_Nil [simp]: "clamped_durations ts = [] \<longleftrightarrow> ts = []"
  by (simp flip: length_0_conv)

lemma sorted_clamped [simp]: "sorted (clamped_durations ts)"
  by (simp add: clamped_durations_def)

lemma sorted_hd_Min: "sorted xs \<Longrightarrow> xs \<noteq> [] \<Longrightarrow> hd xs = Min (set xs)"
  by (cases xs) (auto intro!: Min_eqI[symmetric])

lemma sorted_last_Max: "sorted xs \<Longrightarrow> xs \<noteq> [] \<Longrightarrow> last xs = Max (set xs)"
  by (cases xs rule: rev_cases) (auto simp: sorted_append intro!: Max_eqI[symmetric])

lemma percentile_member: "vals \<noteq> [] \<Longrightarrow> percentile vals p \<in> set vals"
proof -
  assume "vals \<noteq> []"
  then have "percentile_index (length vals - 1) p < length vals" "0 < length vals"
    using percentile_index_le[of "length vals - 1" p] by (cases vals; simp)+
  then show ?thesis by (auto simp: percentile_def)
qed

lemma percentile_rank:
  assumes "xs \<noteq> []" "length xs \<le> 2 ^ 40" "0 \<le> q" "q \<le> 99"
  shows "nearest_rank q xs (sort xs ! percentile_index (length xs - 1) (of_int q / 100))"
proof -
  let ?k = "percentile_index (length xs - 1) (of_int q / 100)"
  have "?k \<le> length xs - 1" "0 < length xs" using percentile_index_le assms(1) by simp_all
  then have "?k < length xs" by linarith
  moreover have "\<bar>100 * int ?k - q * int (length xs - 1)\<bar> \<le> 50"
    using assms(2-4) by (intro percentile_index_near) simp_all
  ultimately show ?thesis unfolding nearest_rank_def by blast
qed

lemma percentile_95:
  assumes "ts \<noteq> []" "length ts \<le> 2 ^ 40"
  shows "nearest_rank 95 (map (\<lambda>t. fmax (rt_duration_ms t) (Fin 0)) ts) (percentile (clamped_durations ts) (95 / 100))"
proof (cases "length ts = 1")
  case True
  then obtain t where "ts = [t]" by (cases ts) auto
  then show ?thesis by (auto simp: nearest_rank_def percentile_def clamped_durations_def)
next
  case False
  let ?xs = "map (\<lambda>t. fmax (rt_duration_ms t) (Fin 0)) ts"
  have "percentile (clamped_durations ts) (95 / 100) = sort ?xs ! percentile_index (length ?xs - 1) (of_int 95 / 100)"
    using False assms(1) clamped_durations_Nil[of ts] by (simp add: percentile_def) (simp add: clamped_durations_def)
  then show ?thesis using percentile_rank[of ?xs 95] assms by simp
qed

lemma status_count_filter: "status_count s ts = length (filter (\<lambda>t. rt_status t = s) ts)"
  unfolding status_count_def by (induction ts) auto

lemma status_counts_add:
  "status_count TSucceeded ts + status_count TFailed ts + status_count TSkipped ts = length ts"
  unfolding status_count_def
proof (induction ts)
  case (Cons t ts)
  then show ?case by (cases "rt_status t") auto
qed simp

lemma error_count_filter: "error_count ts = length (filter (\<lambda>t. rt_error t \<notin> {None, Some []}) ts)"
  by (auto simp: error_count_def or_empty_def intro!: arg_cong[where f = length] filter_cong split: option.splits)

lemma summary_fields:
  "summary_key (summarize_trace_group (k, ts)) = k"
  "rs_trace_count (summarize_trace_group (k, ts)) = length ts"
  "rs_succeeded_count (summarize_trace_group (k, ts)) = status_count TSucceeded ts"
  "rs_failed_count (summarize_trace_group (k, ts)) = status_count TFailed ts"
  "rs_skipped_count (summarize_trace_group (k, ts)) = status_count TSkipped ts"
  "rs_retry_count (summarize_trace_group (k, ts)) = sum_list (map rt_retry_count ts)"
  "rs_error_count (summarize_trace_group (k, ts)) = error_count ts"
  "rs_p95_duration_ms (summarize_trace_group (k, ts)) = percentile (clamped_durations ts) (95 / 100)"
  "ts \<noteq> [] \<Longrightarrow> rs_average_duration_ms (summarize_trace_group (k, ts)) = average_ms (clamped_durations ts)"
  "ts \<noteq> [] \<Longrightarrow> rs_min_duration_ms (summarize_trace_group (k, ts)) = hd (clamped_durations ts)"
  "ts \<noteq> [] \<Longrightarrow> rs_max_duration_ms (summarize_trace_group (k, ts)) = last (clamped_durations ts)"
  by (cases k; simp add: summarize_trace_group_def summary_key_def Let_def)+

lemma hd_clamped_nonneg: "ts \<noteq> [] \<Longrightarrow> Fin 0 \<le> hd (clamped_durations ts)"
proof -
  assume "ts \<noteq> []"
  then have "hd (clamped_durations ts) \<in> set (clamped_durations ts)" by simp
  then show ?thesis by (auto simp: clamped_durations_set fmax_zero)
qed

lemma summarize_group_ok:
  assumes "(k, g) \<in> set (group_by trace_key ts)"
  shows "summary_ok ts (summarize_trace_group (k, g))"
proof -
  have g: "g = of_key k ts" using assms by (simp add: in_group_by of_key_def)
  have ne: "g \<noteq> []" using group_by_not_empty[OF assms] .
  have ds: "clamped_durations g \<noteq> []" using ne by simp
  let ?ds = "map (\<lambda>t. fmax (rt_duration_ms t) (Fin 0)) g"
  have set: "set (clamped_durations g) = set ?ds" by (simp add: clamped_durations_set)
  have mem: "percentile (clamped_durations g) (95 / 100) \<in> set ?ds"
    using percentile_member[OF ds] set by simp
  have srt: "clamped_durations g = sort ?ds" by (simp add: clamped_durations_def)
  have rank: "length ?ds \<le> 2 ^ 40 \<longrightarrow> nearest_rank 95 ?ds (percentile (clamped_durations g) (95 / 100))"
    using percentile_95[OF ne] by simp
  have lo: "hd (clamped_durations g) = Min (set ?ds)" "last (clamped_durations g) = Max (set ?ds)"
    using sorted_hd_Min[OF sorted_clamped ds] sorted_last_Max[OF sorted_clamped ds] unfolding set .
  show ?thesis
    unfolding summary_ok_def Let_def summary_fields summary_fields(9-11)[OF ne] g[symmetric]
      status_count_filter[symmetric] error_count_filter[symmetric]
    by (intro conjI ne refl lo hd_clamped_nonneg[OF ne] status_counts_add mem rank arg_cong[where f = average_ms, OF srt])
qed

text \<open>C37: Summarising a list of traces gives exactly one summary for every key that occurs, each
  counting exactly the traces of its key by status and error, with the least, the greatest, the
  average and the 95th percentile (nearest rank) of their durations; the counts add up to the number of traces, and the summaries
  come with more failures first, then slower, then by name.\<close>

theorem summaries_partition_traces:
  fixes ts
  defines "S \<equiv> summarize_runtime_traces ts"
  shows "distinct (map summary_key S) \<and> set (map summary_key S) = set (map trace_key ts) \<and>
    list_all (summary_ok ts) S \<and> sum_list (map rs_trace_count S) = length ts \<and>
    sorted (map summary_rank S)"
proof -
  note F = grouped_summaries[where key = trace_key and xs = ts and P = "summary_ok ts"
      and f = summarize_trace_group and ekey = summary_key and ecount = rs_trace_count
      and rank = summary_rank, OF summarize_group_ok summary_fields(1,2)]
  show ?thesis unfolding S_def summarize_runtime_traces_def using F by blast
qed

end
