(* ===== verification/Runtime_Store.thy ===== *)
theory Runtime_Store
  imports Executor Telemetry
begin

section \<open>The runtime summary store\<close>

text \<open>
  Models \<open>execution/runtime_store.py\<close>: the in-memory trace store, its write records and the
  summary snapshot of a time window. A \<open>datetime\<close> is its wall clock, in microseconds since the
  first instant of year 1, and its offset from UTC, \<open>None\<close> for a naive one. The calendar ends with
  year 9999: arithmetic that leaves it raises \<open>OverflowError\<close>, which is not a \<open>ValueError\<close>. Parsing
  ISO 8601 (\<open>datetime.fromisoformat\<close> after \<open>Z\<close> is rewritten; \<open>None\<close> is \<open>ValueError\<close>), printing a
  UTC time and the clock are the parameters of \<open>datetime_lib\<close>. Object equality of traces is equality
  of their fields. The store on the file system is not modelled.
\<close>

type_synonym datetime = "int \<times> int option"

definition datetime_max :: int where
  "datetime_max = 315537897599999999"

definition in_calendar :: "int \<Rightarrow> bool" where
  "in_calendar i \<longleftrightarrow> 0 \<le> i \<and> i \<le> datetime_max"

definition date_overflow :: exc where
  "date_overflow = mk_exc (PyOther ''OverflowError'') ''date value out of range''"

text \<open>A time from which a duration was taken away.\<close>

definition checked_instant :: "int \<Rightarrow> int res" where
  "checked_instant i = (if in_calendar i then Inr i else Inl date_overflow)"

fun as_utc :: "datetime \<Rightarrow> int res" where
  "as_utc (wall, None) = Inr wall"
| "as_utc (wall, Some offset) = checked_instant (wall - offset)"

record 'w datetime_lib =
  dl_parse :: "string \<Rightarrow> datetime option"
  dl_iso :: "int \<Rightarrow> string"
  dl_now :: "'w \<Rightarrow> int \<times> 'w"

subsection \<open>Write records\<close>

datatype write_status = WDisabled | WSucceeded | WFailed

record write_record =
  wr_store :: string
  wr_status :: write_status
  wr_attempted_trace_count :: nat
  wr_stored_trace_count :: nat
  wr_duplicate_trace_count :: nat
  wr_recorded_at :: string
  wr_error :: "string option"
  wr_schema_version :: string

definition write_disabled :: "'w env \<Rightarrow> nat \<Rightarrow> 'w \<Rightarrow> write_record \<times> 'w" where
  "write_disabled E n w = (let (now, w') = env_now E w in
     (\<lparr>wr_store = ''disabled'', wr_status = WDisabled, wr_attempted_trace_count = n,
       wr_stored_trace_count = 0, wr_duplicate_trace_count = 0, wr_recorded_at = now,
       wr_error = None, wr_schema_version = ''runtime_summary_write.v1''\<rparr>, w'))"

definition write_failed :: "'w env \<Rightarrow> string \<Rightarrow> nat \<Rightarrow> exc \<Rightarrow> 'w \<Rightarrow> write_record \<times> 'w" where
  "write_failed E store n e w = (let (now, w') = env_now E w in
     (\<lparr>wr_store = store, wr_status = WFailed, wr_attempted_trace_count = n,
       wr_stored_trace_count = 0, wr_duplicate_trace_count = 0, wr_recorded_at = now,
       wr_error = Some (ex_msg e), wr_schema_version = ''runtime_summary_write.v1''\<rparr>, w'))"

subsection \<open>The in-memory store\<close>

definition trace_finished_at :: "'w datetime_lib \<Rightarrow> trace \<Rightarrow> int res" where
  "trace_finished_at D t = (case dl_parse D (rt_finished_at t) of
       None \<Rightarrow> raise RuntimeSummaryStoreError
         (msg [''trace '', rt_run_id t, ''/'', rt_span_id t, '' has invalid finished_at''])
     | Some d \<Rightarrow> as_utc d)"

type_synonym trace_id = "string \<times> string"
type_synonym trace_store = "(trace_id \<times> trace) list"

definition trace_id :: "trace \<Rightarrow> trace_id" where
  "trace_id t = (rt_run_id t, rt_span_id t)"

text \<open>The loop of \<open>save_traces\<close>; an exception leaves the traces stored before it in place.\<close>

fun save_loop :: "'w datetime_lib \<Rightarrow> trace list \<Rightarrow> nat \<Rightarrow> nat \<Rightarrow> trace_store
  \<Rightarrow> (nat \<times> nat) res \<times> trace_store" where
  "save_loop D [] stored dup s = (Inr (stored, dup), s)"
| "save_loop D (t # ts) stored dup s =
     (case trace_finished_at D t of
        Inl e \<Rightarrow> (Inl e, s)
      | Inr _ \<Rightarrow>
         (case map_of s (trace_id t) of
            Some old \<Rightarrow>
              (if old \<noteq> t then (raise RuntimeSummaryStoreError
                 (msg [''runtime trace identity collision for '', rt_run_id t, ''/'', rt_span_id t]), s)
               else save_loop D ts stored (Suc dup) s)
          | None \<Rightarrow> save_loop D ts (Suc stored) dup (AList.update (trace_id t) t s)))"

definition memory_store_name :: string where
  "memory_store_name = ''in_memory_runtime_summary_store_v0.1''"

definition save_traces :: "'w env \<Rightarrow> 'w datetime_lib \<Rightarrow> trace list \<Rightarrow> trace_store \<Rightarrow> 'w
  \<Rightarrow> write_record res \<times> trace_store \<times> 'w" where
  "save_traces E D ts s w =
     (case save_loop D ts 0 0 s of
        (Inl e, s') \<Rightarrow> (Inl e, s', w)
      | (Inr (stored, dup), s') \<Rightarrow>
         (let (now, w') = env_now E w in
          (Inr \<lparr>wr_store = memory_store_name, wr_status = WSucceeded,
             wr_attempted_trace_count = length ts, wr_stored_trace_count = stored,
             wr_duplicate_trace_count = dup, wr_recorded_at = now, wr_error = None,
             wr_schema_version = ''runtime_summary_write.v1''\<rparr>, s', w')))"

subsection \<open>Snapshots\<close>

record summary_entry =
  se_cell_id :: string
  se_formula_version :: string
  se_implementation_id :: "string option"
  se_service_id :: "string option"
  se_runtime :: "string option"
  se_trace_count :: nat
  se_run_count :: nat
  se_succeeded_count :: nat
  se_failed_count :: nat
  se_skipped_count :: nat
  se_retried_trace_count :: nat
  se_failure_rate :: pyfloat
  se_retry_rate :: pyfloat
  se_average_duration_ms :: pyfloat
  se_max_duration_ms :: pyfloat
  se_min_duration_ms :: pyfloat
  se_p50_duration_ms :: pyfloat
  se_p95_duration_ms :: pyfloat
  se_p99_duration_ms :: pyfloat
  se_error_count :: nat
  se_retry_count :: int
  se_latest_status :: trace_status
  se_latest_finished_at :: string

record summary_snapshot =
  ss_snapshot_id :: string
  ss_store :: string
  ss_window_started_at :: string
  ss_window_ended_at :: string
  ss_generated_at :: string
  ss_trace_count :: nat
  ss_entries :: "summary_entry list"
  ss_schema_version :: string

definition entry_to_dict :: "summary_entry \<Rightarrow> meta" where
  "entry_to_dict e =
     [(''cell_id'', PStr (se_cell_id e)), (''formula_version'', PStr (se_formula_version e)),
      (''implementation_id'', opt_str (se_implementation_id e)),
      (''service_id'', opt_str (se_service_id e)), (''runtime'', opt_str (se_runtime e)),
      (''trace_count'', PInt (int (se_trace_count e))), (''run_count'', PInt (int (se_run_count e))),
      (''succeeded_count'', PInt (int (se_succeeded_count e))),
      (''failed_count'', PInt (int (se_failed_count e))),
      (''skipped_count'', PInt (int (se_skipped_count e))),
      (''retried_trace_count'', PInt (int (se_retried_trace_count e))),
      (''failure_rate'', PFloat (se_failure_rate e)), (''retry_rate'', PFloat (se_retry_rate e)),
      (''average_duration_ms'', PFloat (se_average_duration_ms e)),
      (''max_duration_ms'', PFloat (se_max_duration_ms e)),
      (''min_duration_ms'', PFloat (se_min_duration_ms e)),
      (''p50_duration_ms'', PFloat (se_p50_duration_ms e)),
      (''p95_duration_ms'', PFloat (se_p95_duration_ms e)),
      (''p99_duration_ms'', PFloat (se_p99_duration_ms e)),
      (''error_count'', PInt (int (se_error_count e))), (''retry_count'', PInt (se_retry_count e)),
      (''latest_status'', PStr (show_trace_status (se_latest_status e))),
      (''latest_finished_at'', PStr (se_latest_finished_at e))]"

definition placement_eligible :: "trace \<Rightarrow> bool" where
  "placement_eligible t = (case map_of (rt_metadata t) ''execution_control'' of
       Some (PDict d) \<Rightarrow> map_of d ''placement_eligible'' \<noteq> Some (PBool False)
     | _ \<Rightarrow> True)"

definition store_percentile :: "pyfloat list \<Rightarrow> rat \<Rightarrow> pyfloat" where
  "store_percentile vals p =
     (if vals = [] then Fin 0 else vals ! percentile_index (length vals - 1) p)"

text \<open>Python's \<open>max(xs, key=...)\<close>: the first of the greatest.\<close>

fun max_by :: "('a \<Rightarrow> 'k :: linorder) \<Rightarrow> 'a \<Rightarrow> 'a list \<Rightarrow> 'a" where
  "max_by key b [] = b"
| "max_by key b (x # xs) = max_by key (if key b < key x then x else b) xs"

text \<open>The key of \<open>latest\<close>; the instant was parsed before, when the traces were selected.\<close>

definition latest_key :: "'w datetime_lib \<Rightarrow> trace \<Rightarrow> int \<times> string \<times> string" where
  "latest_key D t = (case trace_finished_at D t of Inr i \<Rightarrow> i | Inl _ \<Rightarrow> 0,
     rt_run_id t, rt_span_id t)"

definition rate :: "nat \<Rightarrow> nat \<Rightarrow> pyfloat" where
  "rate k n = py_round 6 (int_div (int k) (int n))"

definition runtime_summary_entry :: "'w datetime_lib \<Rightarrow> trace_key \<times> trace list \<Rightarrow> summary_entry" where
  "runtime_summary_entry D kg =
     (let ((cell, formula, impl, svc, runtime), ts) = kg;
          ds = clamped_durations ts;
          latest = max_by (latest_key D) (hd ts) (tl ts);
          failed = status_count TFailed ts;
          retried = length (filter (\<lambda>t. 0 < rt_retry_count t) ts)
      in \<lparr>se_cell_id = cell, se_formula_version = formula, se_implementation_id = impl,
          se_service_id = svc, se_runtime = runtime, se_trace_count = length ts,
          se_run_count = length (remdups (map rt_run_id ts)),
          se_succeeded_count = status_count TSucceeded ts, se_failed_count = failed,
          se_skipped_count = status_count TSkipped ts, se_retried_trace_count = retried,
          se_failure_rate = rate failed (length ts), se_retry_rate = rate retried (length ts),
          se_average_duration_ms = average_ms ds,
          se_max_duration_ms = last ds, se_min_duration_ms = hd ds,
          se_p50_duration_ms = store_percentile ds (50 / 100),
          se_p95_duration_ms = store_percentile ds (95 / 100),
          se_p99_duration_ms = store_percentile ds (99 / 100),
          se_error_count = error_count ts, se_retry_count = sum_list (map rt_retry_count ts),
          se_latest_status = rt_status latest, se_latest_finished_at = rt_finished_at latest\<rparr>)"

definition entry_rank :: "summary_entry \<Rightarrow> string \<times> string \<times> string \<times> string \<times> string" where
  "entry_rank e = (se_cell_id e, se_formula_version e, or_empty (se_implementation_id e),
     or_empty (se_service_id e), or_empty (se_runtime e))"

text \<open>The comprehension that selects the traces of the window; the first bad timestamp raises.\<close>

definition select_traces :: "'w datetime_lib \<Rightarrow> int \<Rightarrow> int \<Rightarrow> trace list \<Rightarrow> trace list res" where
  "select_traces D started ended ts =
     (case map_res (trace_finished_at D) ts of
        Inl e \<Rightarrow> Inl e
      | Inr instants \<Rightarrow> Inr (map fst (filter (\<lambda>(t, i). started \<le> i \<and> i \<le> ended \<and> placement_eligible t)
          (zip ts instants))))"

definition snapshot_payload :: "'w datetime_lib \<Rightarrow> string \<Rightarrow> int \<Rightarrow> int \<Rightarrow> trace list
  \<Rightarrow> summary_entry list \<Rightarrow> meta" where
  "snapshot_payload D store started ended included entries =
     [(''store'', PStr store), (''window_started_at'', PStr (dl_iso D started)),
      (''window_ended_at'', PStr (dl_iso D ended)), (''generated_at'', PStr (dl_iso D ended)),
      (''trace_count'', PInt (int (length included))),
      (''entries'', PList (map (\<lambda>e. PDict (entry_to_dict e)) entries)),
      (''schema_version'', PStr ''runtime_summary_snapshot.v1'')]"

definition snapshot_entries :: "'w datetime_lib \<Rightarrow> trace list \<Rightarrow> summary_entry list" where
  "snapshot_entries D included =
     sort_key entry_rank (map (runtime_summary_entry D) (group_by trace_key included))"

text \<open>The window: its end is \<open>as_of\<close> or now, in UTC.\<close>

definition snapshot_window :: "'w datetime_lib \<Rightarrow> int \<Rightarrow> datetime option \<Rightarrow> 'w \<Rightarrow> (int \<times> int) res \<times> 'w" where
  "snapshot_window D window as_of w =
     (let (ended, w') = (case as_of of Some d \<Rightarrow> (as_utc d, w)
            | None \<Rightarrow> (let (i, w1) = dl_now D w in (Inr i, w1)))
      in (bind_res ended (\<lambda>e. bind_res (checked_instant (e - window)) (\<lambda>b. Inr (b, e))), w'))"

text \<open>Canonical JSON refuses a statistic that is not a finite number.\<close>

definition build_summary_snapshot :: "stdlib \<Rightarrow> 'w datetime_lib \<Rightarrow> trace list \<Rightarrow> int \<Rightarrow> datetime option
  \<Rightarrow> string \<Rightarrow> 'w \<Rightarrow> summary_snapshot res \<times> 'w" where
  "build_summary_snapshot L D ts window as_of store w =
     (if window \<le> 0 then (raise PyValueError ''runtime summary window must be positive'', w)
      else
        let (bounds, w') = snapshot_window D window as_of w
        in (bind_res bounds (\<lambda>(started, ended). bind_res (select_traces D started ended ts) (\<lambda>included.
              (let entries = snapshot_entries D included;
                   payload = snapshot_payload D store started ended included entries
               in case canonical_json_hash_and_size L (PDict payload) of
                   None \<Rightarrow> raise PyValueError ''Out of range float values are not JSON compliant''
                 | Some (h, _) \<Rightarrow>
                    Inr \<lparr>ss_snapshot_id = h, ss_store = store,
                      ss_window_started_at = dl_iso D started, ss_window_ended_at = dl_iso D ended,
                      ss_generated_at = dl_iso D ended, ss_trace_count = length included,
                      ss_entries = entries, ss_schema_version = ''runtime_summary_snapshot.v1''\<rparr>))), w'))"

definition empty_snapshot :: "stdlib \<Rightarrow> 'w datetime_lib \<Rightarrow> int \<Rightarrow> datetime option \<Rightarrow> string \<Rightarrow> 'w
  \<Rightarrow> summary_snapshot res \<times> 'w" where
  "empty_snapshot L D window as_of store w = build_summary_snapshot L D [] window as_of store w"

text \<open>\<open>InMemoryRuntimeSummaryStore.snapshot\<close>.\<close>

definition store_snapshot :: "stdlib \<Rightarrow> 'w datetime_lib \<Rightarrow> trace_store \<Rightarrow> int \<Rightarrow> datetime option \<Rightarrow> 'w
  \<Rightarrow> summary_snapshot res \<times> 'w" where
  "store_snapshot L D s window as_of w =
     build_summary_snapshot L D (map snd s) window as_of memory_store_name w"

definition snapshot_to_meta :: "summary_snapshot \<Rightarrow> meta" where
  "snapshot_to_meta s =
     [(''snapshot_id'', PStr (ss_snapshot_id s)), (''store'', PStr (ss_store s)),
      (''window_started_at'', PStr (ss_window_started_at s)),
      (''window_ended_at'', PStr (ss_window_ended_at s)),
      (''generated_at'', PStr (ss_generated_at s)),
      (''trace_count'', PInt (int (ss_trace_count s))),
      (''entries'', PList (map (\<lambda>e. PDict (entry_to_dict e)) (ss_entries s))),
      (''schema_version'', PStr (ss_schema_version s))]"

subsection \<open>What a trace archive promises\<close>

text \<open>
  The interface of \<open>RuntimeSummaryStore\<close> as the engine uses it. \<open>saved\<close> counts new traces and
  duplicates; a save never removes or replaces what is stored, also when it raises.
\<close>

locale trace_archive =
  fixes ident :: "'t \<Rightarrow> 'i" and valid :: "'t \<Rightarrow> bool" and stored :: "'s \<Rightarrow> 'i \<Rightarrow> 't option"
    and save :: "'t list \<Rightarrow> 's \<Rightarrow> (nat \<times> nat) res \<times> 's"
  assumes kept: "stored s i = Some t \<Longrightarrow> stored (snd (save ts s)) i = Some t"
    and origin: "stored (snd (save ts s)) i = Some t \<Longrightarrow>
      stored s i = Some t \<or> (t \<in> set ts \<and> ident t = i \<and> valid t)"
    and saved: "save ts s = (Inr (n, d), s') \<Longrightarrow> n + d = length ts \<and>
      (\<forall>t \<in> set ts. valid t \<and> stored s' (ident t) = Some t)"
    and refused: "save ts s = (Inl e, s') \<Longrightarrow>
      \<exists>t \<in> set ts. \<not> valid t \<or> (\<exists>u. stored s' (ident t) = Some u \<and> u \<noteq> t)"
    and repeated: "\<forall>t \<in> set ts. valid t \<and> stored s (ident t) = Some t \<Longrightarrow>
      save ts s = (Inr (0, length ts), s)"
begin

definition save_all :: "'t list list \<Rightarrow> 's \<Rightarrow> 's" where
  "save_all batches s = foldl (\<lambda>s ts. snd (save ts s)) s batches"

lemma save_all_kept: "stored s i = Some t \<Longrightarrow> stored (save_all bs s) i = Some t"
  unfolding save_all_def by (induction bs arbitrary: s) (simp_all add: kept)

text \<open>What was accepted stays, whatever is saved later, and saving it again changes nothing.\<close>

lemma saved_stays:
  assumes "save ts s = (Inr (n, d), s')"
  shows "n + d = length ts \<and> (\<forall>t \<in> set ts. stored (save_all bs s') (ident t) = Some t)
    \<and> save ts (save_all bs s') = (Inr (0, length ts), save_all bs s')"
proof -
  note s = saved[OF assms]
  then have "\<forall>t \<in> set ts. valid t \<and> stored (save_all bs s') (ident t) = Some t"
    using save_all_kept by blast
  then show ?thesis using s repeated by blast
qed

text \<open>A batch is accepted exactly when it is valid and agrees with itself and with the archive.\<close>

lemma accepted_iff:
  "(\<exists>n d. fst (save ts s) = Inr (n, d)) \<longleftrightarrow>
   (\<forall>t \<in> set ts. valid t \<and> (\<forall>u \<in> set ts. ident u = ident t \<longrightarrow> u = t)
     \<and> (\<forall>u. stored s (ident t) = Some u \<longrightarrow> u = t))" (is "?L \<longleftrightarrow> ?R")
proof
  assume ?L
  then obtain n d s' where sv: "save ts s = (Inr (n, d), s')" by (metis prod.collapse)
  have all: "\<forall>t \<in> set ts. valid t \<and> stored s' (ident t) = Some t" using saved[OF sv] by blast
  show ?R
  proof (intro ballI conjI allI impI)
    fix t assume t: "t \<in> set ts"
    then show "valid t" using all by blast
    show "u = t" if "u \<in> set ts" "ident u = ident t" for u using all t that by (metis option.inject)
    show "u = t" if "stored s (ident t) = Some u" for u
      using kept[OF that, of ts] all t sv by simp
  qed
next
  assume R: ?R
  show ?L
  proof (cases "fst (save ts s)")
    case (Inl e)
    then have sv: "save ts s = (Inl e, snd (save ts s))" by (metis prod.collapse)
    from refused[OF sv] obtain t where t: "t \<in> set ts"
      "\<not> valid t \<or> (\<exists>u. stored (snd (save ts s)) (ident t) = Some u \<and> u \<noteq> t)" by blast
    with R origin show ?thesis by metis
  qed auto
qed

end

subsection \<open>The in-memory store meets it\<close>

definition trace_valid :: "'w datetime_lib \<Rightarrow> trace \<Rightarrow> bool" where
  "trace_valid D t \<longleftrightarrow> (\<exists>i. trace_finished_at D t = Inr i)"

lemma finished_valid: "trace_finished_at D t = Inr i \<Longrightarrow> trace_valid D t"
  by (auto simp: trace_valid_def)

lemma finished_invalid: "trace_finished_at D t = Inl e \<Longrightarrow> \<not> trace_valid D t"
  by (auto simp: trace_valid_def)

text \<open>What a bad timestamp raises.\<close>

definition bad_timestamp :: "'w datetime_lib \<Rightarrow> trace \<Rightarrow> exc" where
  "bad_timestamp D t = (if dl_parse D (rt_finished_at t) = None then mk_exc RuntimeSummaryStoreError
       (msg [''trace '', rt_run_id t, ''/'', rt_span_id t, '' has invalid finished_at''])
     else date_overflow)"

lemma as_utc_error: "as_utc d = Inl e \<Longrightarrow> e = date_overflow"
  by (cases d rule: as_utc.cases) (auto simp: checked_instant_def split: if_splits)

lemma finished_error: "\<not> trace_valid D t \<Longrightarrow> trace_finished_at D t = Inl (bad_timestamp D t)"
  by (cases "trace_finished_at D t")
    (auto simp: trace_valid_def bad_timestamp_def trace_finished_at_def dest: as_utc_error split: option.splits)

lemma save_loop_kept: "map_of s i = Some t \<Longrightarrow> map_of (snd (save_loop D ts n d s)) i = Some t"
proof (induction ts arbitrary: n d s)
  case (Cons u ts)
  have "map_of (AList.update (trace_id u) u s) i = Some t" if "map_of s (trace_id u) = None"
    using that Cons.prems by (auto simp: update_conv')
  with Cons show ?case by (auto split: sum.splits option.splits)
qed simp

lemma save_loop_origin:
  "map_of (snd (save_loop D ts n d s)) i = Some t \<Longrightarrow>
   map_of s i = Some t \<or> (t \<in> set ts \<and> trace_id t = i \<and> trace_valid D t)"
  by (induction D ts n d s rule: save_loop.induct)
    (auto simp: update_conv' dest: finished_valid split: sum.splits option.splits if_splits)

lemma save_loop_saved:
  "save_loop D ts n d s = (Inr (n', d'), s') \<Longrightarrow> n' + d' = n + d + length ts \<and>
   (\<forall>t \<in> set ts. trace_valid D t \<and> map_of s' (trace_id t) = Some t)"
proof (induction D ts n d s rule: save_loop.induct)
  case (2 D t ts n d s)
  obtain i where i: "trace_finished_at D t = Inr i"
    using "2.prems" by (cases "trace_finished_at D t") auto
  then have v: "trace_valid D t" by (rule finished_valid)
  show ?case
  proof (cases "map_of s (trace_id t)")
    case None
    with "2.prems" i have rec: "save_loop D ts (Suc n) d (AList.update (trace_id t) t s) = (Inr (n', d'), s')"
      by simp
    have "map_of s' (trace_id t) = Some t"
      using save_loop_kept[of "AList.update (trace_id t) t s" "trace_id t" t D ts "Suc n" d] rec
      by (simp add: update_conv')
    with "2.IH"(1)[OF i None rec] v show ?thesis by simp
  next
    case (Some u)
    with "2.prems" i have u: "u = t" by (auto split: if_splits)
    with "2.prems" i Some have rec: "save_loop D ts n (Suc d) s = (Inr (n', d'), s')" by simp
    have "map_of s' (trace_id t) = Some t"
      using save_loop_kept[of s "trace_id t" t D ts n "Suc d"] rec Some u by simp
    with "2.IH"(2)[OF i Some _ rec] u v show ?thesis by simp
  qed
qed simp

lemma save_loop_refused:
  "save_loop D ts n d s = (Inl e, s') \<Longrightarrow>
   \<exists>t \<in> set ts. \<not> trace_valid D t \<or> (\<exists>u. map_of s' (trace_id t) = Some u \<and> u \<noteq> t)"
  by (induction D ts n d s rule: save_loop.induct)
    (auto simp: finished_invalid split: sum.splits option.splits if_splits)

lemma save_loop_repeated:
  "\<forall>t \<in> set ts. trace_valid D t \<and> map_of s (trace_id t) = Some t \<Longrightarrow>
   save_loop D ts n d s = (Inr (n, d + length ts), s)"
  by (induction ts arbitrary: d) (auto simp: trace_valid_def)

interpretation mem_store: trace_archive trace_id "trace_valid D" map_of "\<lambda>ts. save_loop D ts 0 0"
  for D :: "'w datetime_lib"
proof unfold_locales
  fix ts s e s' n d i t
  show "map_of s i = Some t \<Longrightarrow> map_of (snd (save_loop D ts 0 0 s)) i = Some t"
    by (rule save_loop_kept)
  show "map_of (snd (save_loop D ts 0 0 s)) i = Some t \<Longrightarrow>
      map_of s i = Some t \<or> t \<in> set ts \<and> trace_id t = i \<and> trace_valid D t"
    by (rule save_loop_origin)
  show "save_loop D ts 0 0 s = (Inr (n, d), s') \<Longrightarrow> n + d = length ts \<and>
      (\<forall>t\<in>set ts. trace_valid D t \<and> map_of s' (trace_id t) = Some t)"
    using save_loop_saved[of D ts 0 0 s n d s'] by simp
  show "save_loop D ts 0 0 s = (Inl e, s') \<Longrightarrow>
      \<exists>t\<in>set ts. \<not> trace_valid D t \<or> (\<exists>u. map_of s' (trace_id t) = Some u \<and> u \<noteq> t)"
    by (rule save_loop_refused)
  show "\<forall>t\<in>set ts. trace_valid D t \<and> map_of s (trace_id t) = Some t \<Longrightarrow>
      save_loop D ts 0 0 s = (Inr (0, length ts), s)"
    using save_loop_repeated[of ts D s 0 0] by simp
qed

text \<open>The states a store can be in: empty, or after a save, which may have raised.\<close>

inductive store_state :: "'w datetime_lib \<Rightarrow> trace_store \<Rightarrow> bool" for D where
  created: "store_state D []"
| after_save: "store_state D s \<Longrightarrow> store_state D (snd (save_loop D ts 0 0 s))"

definition store_ok :: "'w datetime_lib \<Rightarrow> trace_store \<Rightarrow> bool" where
  "store_ok D s \<longleftrightarrow> distinct (map fst s) \<and> list_all (\<lambda>(i, t). trace_id t = i \<and> trace_valid D t) s"

lemma save_loop_distinct:
  "distinct (map fst s) \<Longrightarrow> distinct (map fst (snd (save_loop D ts n d s)))"
  by (induction D ts n d s rule: save_loop.induct)
    (auto simp: distinct_update split: sum.splits option.splits)

lemma store_state_ok: "store_state D s \<Longrightarrow> store_ok D s"
proof (induction rule: store_state.induct)
  case created
  then show ?case by (simp add: store_ok_def)
next
  case (after_save s ts)
  let ?s = "snd (save_loop D ts 0 0 s)"
  have d: "distinct (map fst s)" "distinct (map fst ?s)"
    using after_save.IH save_loop_distinct by (auto simp: store_ok_def)
  have "trace_id t = i \<and> trace_valid D t" if "(i, t) \<in> set ?s" for i t
    using save_loop_origin[of D ts 0 0 s i t] that d after_save.IH
    by (auto simp: store_ok_def list_all_iff)
  then show ?case using d by (auto simp: store_ok_def list_all_iff)
qed

text \<open>C24: When \<open>save_traces\<close> succeeds, every trace of the batch was counted once, as new or as a
  duplicate, and is stored under its run and span; whatever batches are saved later, also those
  that raise, it stays there, and saving the batch again stores nothing and changes nothing.\<close>

theorem stored_traces_stay:
  fixes D :: "'w datetime_lib" and batches :: "trace list list"
  assumes "save_loop D ts 0 0 s = (Inr (n, d), s1)"
  defines "later \<equiv> foldl (\<lambda>s batch. snd (save_loop D batch 0 0 s)) s1 batches"
  shows "n + d = length ts \<and> list_all (\<lambda>t. map_of later (trace_id t) = Some t) ts
    \<and> save_loop D ts 0 0 later = (Inr (0, length ts), later)"
  using mem_store.saved_stays[OF assms(1), of batches]
  by (simp add: mem_store.save_all_def list_all_iff later_def)

subsection \<open>What a snapshot says\<close>

definition entry_key :: "summary_entry \<Rightarrow> trace_key" where
  "entry_key e = (se_cell_id e, se_formula_version e, se_implementation_id e, se_service_id e,
     se_runtime e)"

text \<open>The traces of the window that placement may learn from.\<close>

definition window_traces :: "'w datetime_lib \<Rightarrow> int \<Rightarrow> int \<Rightarrow> trace list \<Rightarrow> trace list" where
  "window_traces D started ended ts = filter (\<lambda>t. case trace_finished_at D t of
       Inr i \<Rightarrow> started \<le> i \<and> i \<le> ended \<and> placement_eligible t | Inl _ \<Rightarrow> False) ts"

definition is_rate :: "pyfloat \<Rightarrow> bool" where
  "is_rate r = (Fin 0 \<le> r \<and> r \<le> Fin 1)"

text \<open>
  An entry counts the traces of its key, its rates are between 0 and 1, the order statistics are
  ordered durations, and its latest timestamp belongs to a trace that none finishes after.
\<close>

definition entry_ok :: "'w datetime_lib \<Rightarrow> trace list \<Rightarrow> summary_entry \<Rightarrow> bool" where
  "entry_ok D ts e =
     (let group = of_key (entry_key e) ts; ds = map (\<lambda>t. fmax (rt_duration_ms t) (Fin 0)) group in
      group \<noteq> [] \<and> se_trace_count e = length group \<and>
      se_failed_count e = length (filter (\<lambda>t. rt_status t = TFailed) group) \<and>
      se_succeeded_count e + se_failed_count e + se_skipped_count e = se_trace_count e \<and>
      se_run_count e = card (rt_run_id ` set group) \<and>
      is_rate (se_failure_rate e) \<and> is_rate (se_retry_rate e) \<and>
      se_min_duration_ms e = Min (set ds) \<and> se_max_duration_ms e = Max (set ds) \<and>
      {se_p50_duration_ms e, se_p95_duration_ms e, se_p99_duration_ms e} \<subseteq> set ds \<and>
      (length ds \<le> 2 ^ 40 \<longrightarrow> nearest_rank 50 ds (se_p50_duration_ms e)
        \<and> nearest_rank 95 ds (se_p95_duration_ms e) \<and> nearest_rank 99 ds (se_p99_duration_ms e)) \<and>
      se_p50_duration_ms e \<le> se_p95_duration_ms e \<and> se_p95_duration_ms e \<le> se_p99_duration_ms e \<and>
      (\<exists>t \<in> set group. rt_finished_at t = se_latest_finished_at e \<and> rt_status t = se_latest_status e \<and>
        list_all (\<lambda>u. latest_key D u \<le> latest_key D t) group))"

definition entries_ok :: "'w datetime_lib \<Rightarrow> trace list \<Rightarrow> summary_entry list \<Rightarrow> bool" where
  "entries_ok D ts es \<longleftrightarrow> distinct (map entry_key es) \<and> set (map entry_key es) = set (map trace_key ts)
     \<and> list_all (entry_ok D ts) es \<and> sum_list (map se_trace_count es) = length ts
     \<and> sorted (map entry_rank es)"

lemma rate_between:
  assumes "k \<le> n" "0 < n"
  shows "is_rate (rate k n)"
  using py_round_ratio[of "int k" "int n" 6] assms by (auto simp: rate_def is_rate_def)

lemma max_by_mem: "max_by key b xs = b \<or> max_by key b xs \<in> set xs"
proof (induction xs arbitrary: b)
  case (Cons x xs)
  from Cons[of x] Cons[of b] show ?case by auto
qed simp

lemma max_by_greatest:
  "key b \<le> key (max_by key b xs) \<and> (\<forall>x \<in> set xs. key x \<le> key (max_by key b xs))"
proof (induction xs arbitrary: b)
  case (Cons x xs)
  from Cons[of x] Cons[of b] show ?case by auto
qed simp

lemma percentile_index_mono:
  assumes "b64 p = Fin p'" "b64 q = Fin q'" "0 \<le> p'" "p' \<le> q'"
  shows "percentile_index n p \<le> percentile_index n q"
proof (cases "b64 (of_nat n)")
  case (Fin a)
  have a: "0 \<le> a" using b64_nonneg[of "of_nat n"] Fin by (simp add: fnonneg_def)
  have le: "b64 (a * p') \<le> b64 (a * q')" using a assms(4) by (intro b64_mono mult_left_mono)
  show ?thesis
  proof (cases "b64 (a * q')")
    case (Fin y)
    have "fnonneg (b64 (a * p'))" using a assms(3) by (intro b64_nonneg mult_nonneg_nonneg)
    with le Fin obtain x where x: "b64 (a * p') = Fin x" "x \<le> y"
      by (cases "b64 (a * p')") (auto simp: fnonneg_def)
    have "nat (min (max (round_half_even x) 0) (int n)) \<le> nat (min (max (round_half_even y) 0) (int n))"
      using round_half_even_mono[OF x(2)] by (intro nat_mono min.mono max.mono) simp_all
    then show ?thesis using Fin x \<open>b64 (of_nat n) = Fin a\<close> assms(1,2)
      by (simp add: percentile_index_def)
  qed (use percentile_index_le[of n p] \<open>b64 (of_nat n) = Fin a\<close> assms(1,2) in
      \<open>auto simp: percentile_index_def\<close>)
next
  case (Inf s)
  then have "percentile_index n q = n" using assms
    by (auto simp: percentile_index_def split: pyfloat.splits)
  then show ?thesis using percentile_index_le[of n p] by simp
qed simp

lemma store_percentile_member: "vals \<noteq> [] \<Longrightarrow> store_percentile vals p \<in> set vals"
proof -
  assume "vals \<noteq> []"
  then have "percentile_index (length vals - 1) p < length vals"
    using percentile_index_le[of "length vals - 1" p] by (cases vals) auto
  then show ?thesis by (auto simp: store_percentile_def)
qed

lemma store_percentile_mono:
  assumes "sorted vals" "b64 p = Fin p'" "b64 q = Fin q'" "0 \<le> p'" "p' \<le> q'"
  shows "store_percentile vals p \<le> store_percentile vals q"
proof (cases "vals = []")
  case False
  then have "percentile_index (length vals - 1) q < length vals"
    using percentile_index_le[of "length vals - 1" q] by (cases vals) auto
  then show ?thesis
    using sorted_nth_mono[OF assms(1) percentile_index_mono[OF assms(2-5)]] False
    by (simp add: store_percentile_def)
qed (simp add: store_percentile_def)

lemma percents:
  "\<exists>p q r. b64 (50 / 100) = Fin p \<and> b64 (95 / 100) = Fin q \<and> b64 (99 / 100) = Fin r
    \<and> 0 \<le> p \<and> p \<le> q \<and> q \<le> r"
proof -
  obtain p where p: "b64 (50 / 100) = Fin p" "0 \<le> p" using b64_between[of 0 1 "50 / 100"] by auto
  obtain q where q: "b64 (95 / 100) = Fin q" using b64_between[of 0 1 "95 / 100"] by auto
  obtain r where r: "b64 (99 / 100) = Fin r" using b64_between[of 0 1 "99 / 100"] by auto
  have "b64 (50 / 100) \<le> b64 (95 / 100)" "b64 (95 / 100) \<le> b64 (99 / 100)"
    by (intro b64_mono; simp)+
  with p q r show ?thesis by auto
qed

lemma percentiles_ordered:
  assumes "sorted vals"
  shows "store_percentile vals (50 / 100) \<le> store_percentile vals (95 / 100)"
    and "store_percentile vals (95 / 100) \<le> store_percentile vals (99 / 100)"
  using percents store_percentile_mono[OF assms] by (blast, metis order_trans)

lemma store_percentile_rank:
  assumes "ts \<noteq> []" "length ts \<le> 2 ^ 40" "0 \<le> q" "q \<le> 99"
  shows "nearest_rank q (map (\<lambda>t. fmax (rt_duration_ms t) (Fin 0)) ts)
    (store_percentile (clamped_durations ts) (of_int q / 100))"
proof -
  let ?xs = "map (\<lambda>t. fmax (rt_duration_ms t) (Fin 0)) ts"
  have "store_percentile (clamped_durations ts) (of_int q / 100)
      = sort ?xs ! percentile_index (length ?xs - 1) (of_int q / 100)"
    using assms(1) clamped_durations_Nil[of ts] by (simp add: store_percentile_def) (simp add: clamped_durations_def)
  then show ?thesis using percentile_rank[of ?xs q] assms by simp
qed

lemma store_percentile_ranks:
  assumes "ts \<noteq> []" "length ts \<le> 2 ^ 40"
  defines "ds \<equiv> map (\<lambda>t. fmax (rt_duration_ms t) (Fin 0)) ts"
  shows "nearest_rank 50 ds (store_percentile (clamped_durations ts) (50 / 100))
    \<and> nearest_rank 95 ds (store_percentile (clamped_durations ts) (95 / 100))
    \<and> nearest_rank 99 ds (store_percentile (clamped_durations ts) (99 / 100))"
  using store_percentile_rank[OF assms(1,2), of 50] store_percentile_rank[OF assms(1,2), of 95]
    store_percentile_rank[OF assms(1,2), of 99] unfolding ds_def by simp

lemma entry_fields:
  fixes D ts k
  defines "e \<equiv> runtime_summary_entry D (k, ts)"
  shows "entry_key e = k" "se_trace_count e = length ts" "se_failed_count e = status_count TFailed ts"
    "se_succeeded_count e = status_count TSucceeded ts" "se_skipped_count e = status_count TSkipped ts"
    "se_run_count e = card (rt_run_id ` set ts)"
    "se_failure_rate e = rate (status_count TFailed ts) (length ts)"
    "se_retry_rate e = rate (length (filter (\<lambda>t. 0 < rt_retry_count t) ts)) (length ts)"
    "se_min_duration_ms e = hd (clamped_durations ts)" "se_max_duration_ms e = last (clamped_durations ts)"
    "se_p50_duration_ms e = store_percentile (clamped_durations ts) (50 / 100)"
    "se_p95_duration_ms e = store_percentile (clamped_durations ts) (95 / 100)"
    "se_p99_duration_ms e = store_percentile (clamped_durations ts) (99 / 100)"
    "se_latest_status e = rt_status (max_by (latest_key D) (hd ts) (tl ts))"
    "se_latest_finished_at e = rt_finished_at (max_by (latest_key D) (hd ts) (tl ts))"
  unfolding e_def
  by (cases k; simp add: runtime_summary_entry_def entry_key_def Let_def length_remdups_card_conv)+

lemma latest_of_group:
  fixes D :: "'w datetime_lib"
  assumes "ts \<noteq> []"
  defines "t \<equiv> max_by (latest_key D) (hd ts) (tl ts)"
  shows "t \<in> set ts \<and> list_all (\<lambda>u. latest_key D u \<le> latest_key D t) ts"
proof (cases ts)
  case (Cons x xs)
  show ?thesis
    using max_by_mem[of "latest_key D" x xs] max_by_greatest[of "latest_key D" x xs]
    by (auto simp: t_def Cons list_all_iff)
qed (use assms(1) in simp)

lemma runtime_entry_ok:
  assumes "(k, g) \<in> set (group_by trace_key ts)"
  shows "entry_ok D ts (runtime_summary_entry D (k, g))"
proof -
  have g: "g = of_key k ts" using assms by (simp add: in_group_by of_key_def)
  have ne: "g \<noteq> []" using group_by_not_empty[OF assms] .
  have ds: "clamped_durations g \<noteq> []" using ne by simp
  have r1: "is_rate (rate (status_count TFailed g) (length g))"
    using ne status_counts_add[of g] by (intro rate_between) auto
  have r2: "is_rate (rate (length (filter (\<lambda>t. 0 < rt_retry_count t) g)) (length g))"
    using ne by (intro rate_between) auto
  let ?ds = "map (\<lambda>t. fmax (rt_duration_ms t) (Fin 0)) g"
  have set: "set (clamped_durations g) = set ?ds" by (simp add: clamped_durations_set)
  have mem: "store_percentile (clamped_durations g) p \<in> set ?ds" for p
    using store_percentile_member[OF ds] unfolding set .
  have lo: "hd (clamped_durations g) = Min (set ?ds)" "last (clamped_durations g) = Max (set ?ds)"
    using sorted_hd_Min[OF sorted_clamped ds] sorted_last_Max[OF sorted_clamped ds] unfolding set .
  have rank: "length ?ds \<le> 2 ^ 40 \<longrightarrow> nearest_rank 50 ?ds (store_percentile (clamped_durations g) (50 / 100))
    \<and> nearest_rank 95 ?ds (store_percentile (clamped_durations g) (95 / 100))
    \<and> nearest_rank 99 ?ds (store_percentile (clamped_durations g) (99 / 100))"
    using store_percentile_ranks[OF ne] by simp
  have last: "\<exists>t \<in> set g. rt_finished_at t = rt_finished_at (max_by (latest_key D) (hd g) (tl g))
      \<and> rt_status t = rt_status (max_by (latest_key D) (hd g) (tl g)) \<and> list_all (\<lambda>u. latest_key D u \<le> latest_key D t) g"
    using latest_of_group[OF ne, of D] by blast
  have members: "{store_percentile (clamped_durations g) (50 / 100), store_percentile (clamped_durations g) (95 / 100),
      store_percentile (clamped_durations g) (99 / 100)} \<subseteq> set ?ds" using mem by blast
  show ?thesis
    unfolding entry_ok_def Let_def entry_fields g[symmetric] status_count_filter[symmetric]
    by (intro conjI ne refl lo status_counts_add r1 r2 rank last members percentiles_ordered[OF sorted_clamped])
qed

lemma snapshot_entries_ok: "entries_ok D ts (snapshot_entries D ts)"
proof -
  note F = grouped_summaries[where key = trace_key and xs = ts and P = "entry_ok D ts"
      and f = "runtime_summary_entry D" and ekey = entry_key and ecount = se_trace_count
      and rank = entry_rank, OF runtime_entry_ok entry_fields(1,2)]
  show ?thesis unfolding entries_ok_def snapshot_entries_def using F by blast
qed

lemma select_traces_cases:
  "select_traces D started ended ts =
   (case find (\<lambda>t. \<not> trace_valid D t) ts of
      None \<Rightarrow> Inr (window_traces D started ended ts)
    | Some t \<Rightarrow> Inl (bad_timestamp D t))"
proof (induction ts)
  case Nil
  then show ?case by (simp add: select_traces_def window_traces_def)
next
  case (Cons t ts)
  show ?case
  proof (cases "trace_finished_at D t")
    case (Inl e)
    then show ?thesis using finished_invalid[OF Inl] finished_error[of D t] by (simp add: select_traces_def)
  next
    case (Inr i)
    with Cons.IH finished_valid[OF Inr] show ?thesis
      by (cases "map_res (trace_finished_at D) ts")
        (auto simp: select_traces_def window_traces_def split: option.splits)
  qed
qed

definition entry_finite :: "summary_entry \<Rightarrow> bool" where
  "entry_finite e \<longleftrightarrow> json_ok (PDict (entry_to_dict e))"

lemma payload_json:
  "json_ok (PDict (snapshot_payload D store started ended ts es)) \<longleftrightarrow> list_all entry_finite es"
  by (auto simp: snapshot_payload_def entry_finite_def list_all_iff)

lemma payload_hash:
  "canonical_json_hash_and_size L (PDict (snapshot_payload D store started ended ts es)) =
   (if list_all entry_finite es
    then Some (sl_sha256_hex L (dumps L (PDict (snapshot_payload D store started ended ts es))),
      utf8_size (dumps L (PDict (snapshot_payload D store started ended ts es)))) else None)"
  by (simp only: canonical_json_hash_and_size_def payload_json)

text \<open>The end of the window, and when the window lies in the calendar.\<close>

definition window_end :: "'w datetime_lib \<Rightarrow> datetime option \<Rightarrow> 'w \<Rightarrow> int res" where
  "window_end D as_of w = (case as_of of Some d \<Rightarrow> as_utc d | None \<Rightarrow> Inr (fst (dl_now D w)))"

definition window_exists :: "int \<Rightarrow> int res \<Rightarrow> bool" where
  "window_exists window ended \<longleftrightarrow> (\<exists>i. ended = Inr i \<and> in_calendar (i - window))"

lemma snapshot_window_result:
  "fst (snapshot_window D window as_of w) =
   (case window_end D as_of w of
      Inr i \<Rightarrow> if in_calendar (i - window) then Inr (i - window, i) else Inl date_overflow
    | Inl e \<Rightarrow> Inl date_overflow)"
  by (auto simp: snapshot_window_def window_end_def checked_instant_def split: option.splits sum.splits prod.splits
      dest: as_utc_error)

text \<open>What each outcome of a snapshot says about its input.\<close>

fun snapshot_outcome_ok :: "'w datetime_lib \<Rightarrow> trace list \<Rightarrow> int \<Rightarrow> int res \<Rightarrow> summary_snapshot res \<Rightarrow> bool" where
  "snapshot_outcome_ok D ts window ended (Inl e) =
     (if window \<le> 0 then e = mk_exc PyValueError ''runtime summary window must be positive''
      else if \<not> window_exists window ended then e = date_overflow
      else case find (\<lambda>t. \<not> trace_valid D t) ts of
          Some t \<Rightarrow> e = bad_timestamp D t
        | None \<Rightarrow> e = mk_exc PyValueError ''Out of range float values are not JSON compliant''
            \<and> (\<exists>i. ended = Inr i
                 \<and> \<not> list_all entry_finite (snapshot_entries D (window_traces D (i - window) i ts))))"
| "snapshot_outcome_ok D ts window ended (Inr s) =
     (0 < window \<and> list_all (trace_valid D) ts
      \<and> (\<exists>i. ended = Inr i \<and> in_calendar (i - window)
           \<and> ss_trace_count s = length (window_traces D (i - window) i ts)
           \<and> ss_window_started_at s = dl_iso D (i - window) \<and> ss_window_ended_at s = dl_iso D i
           \<and> entries_ok D (window_traces D (i - window) i ts) (ss_entries s)
           \<and> list_all entry_finite (ss_entries s)))"

text \<open>C38: A snapshot is refused exactly for a window that is not positive, for one whose end or start
  leaves the calendar, for the first trace whose timestamp cannot be parsed or leaves the calendar,
  or for a statistic that is not a finite number, each with its own exception; otherwise its entries
  partition the eligible traces of the window by key, with rates between 0 and 1, the percentiles at
  their nearest ranks and the latest trace of each group.\<close>

theorem snapshot_decides:
  "snapshot_outcome_ok D ts window (window_end D as_of w) (fst (build_summary_snapshot L D ts window as_of store w))"
proof (cases "window \<le> 0")
  case True
  then show ?thesis by (simp add: build_summary_snapshot_def)
next
  case False
  let ?out = "fst (build_summary_snapshot L D ts window as_of store w)"
  obtain bounds w' where sw: "snapshot_window D window as_of w = (bounds, w')" by fastforce
  note b = snapshot_window_result[of D window as_of w, unfolded sw fst_conv]
  show ?thesis
  proof (cases "\<exists>i. window_end D as_of w = Inr i \<and> in_calendar (i - window)")
    case no: False
    then have "bounds = Inl date_overflow" using b by (auto split: sum.splits if_splits)
    then have "?out = Inl date_overflow" using False by (simp add: build_summary_snapshot_def sw)
    then show ?thesis using False no by (simp add: window_exists_def)
  next
    case True
    then obtain i where i: "window_end D as_of w = Inr i" "in_calendar (i - window)" by blast
    then have bounds: "bounds = Inr (i - window, i)" using b by simp
    show ?thesis
    proof (cases "find (\<lambda>t. \<not> trace_valid D t) ts")
      case (Some t)
      then have "?out = Inl (bad_timestamp D t)"
        using False by (simp add: build_summary_snapshot_def sw bounds select_traces_cases)
      then show ?thesis using False i Some by (simp add: window_exists_def)
    next
      case None
      then have v: "list_all (trace_valid D) ts" by (auto simp: list_all_iff find_None_iff)
      show ?thesis using False None v i
        by (simp add: build_summary_snapshot_def sw bounds select_traces_cases Let_def payload_hash window_exists_def
            snapshot_entries_ok del: dumps.simps)
    qed
  qed
qed

text \<open>C39: In every state the in-memory store can reach, also after saves that raised, no stored trace
  makes a snapshot raise: over a positive window it succeeds, unless the window leaves the calendar
  (\<open>OverflowError\<close>) or a statistic is not a finite number.\<close>

theorem reachable_store_snapshots:
  assumes "store_state D s" "0 < window"
  shows "case fst (store_snapshot L D s window as_of w) of
      Inl e \<Rightarrow> e = date_overflow \<and> \<not> window_exists window (window_end D as_of w)
        \<or> (\<exists>i. ex_class e = PyValueError \<and> window_end D as_of w = Inr i \<and> in_calendar (i - window)
            \<and> \<not> list_all entry_finite (snapshot_entries D (window_traces D (i - window) i (map snd s))))
    | Inr sn \<Rightarrow> \<exists>i. window_end D as_of w = Inr i \<and> in_calendar (i - window)
        \<and> entries_ok D (window_traces D (i - window) i (map snd s)) (ss_entries sn)"
proof -
  have "list_all (trace_valid D) (map snd s)"
    using store_state_ok[OF assms(1)] by (auto simp: store_ok_def list_all_iff)
  then have valid: "find (\<lambda>t. \<not> trace_valid D t) (map snd s) = None"
    by (auto simp: find_None_iff list_all_iff)
  obtain bounds w' where sw: "snapshot_window D window as_of w = (bounds, w')" by fastforce
  note b = snapshot_window_result[of D window as_of w, unfolded sw fst_conv]
  show ?thesis
  proof (cases "\<exists>i. window_end D as_of w = Inr i \<and> in_calendar (i - window)")
    case False
    then have "bounds = Inl date_overflow" using b by (auto split: sum.splits if_splits)
    then show ?thesis using assms(2) False
      by (simp add: store_snapshot_def build_summary_snapshot_def sw window_exists_def)
  next
    case True
    then obtain i where i: "window_end D as_of w = Inr i" "in_calendar (i - window)" by blast
    then have bounds: "bounds = Inr (i - window, i)" using b by simp
    show ?thesis using assms(2) i valid
      by (simp add: store_snapshot_def build_summary_snapshot_def sw bounds select_traces_cases Let_def payload_hash
          snapshot_entries_ok del: dumps.simps)
  qed
qed

subsection \<open>A concrete store\<close>

definition sample_clock :: "nat datetime_lib" where
  "sample_clock = \<lparr>dl_parse = (\<lambda>s. if s = [] then None else Some (int (length s), None)),
     dl_iso = show_int, dl_now = (\<lambda>n. (int n, Suc n))\<rparr>"

definition sample_trace :: "string \<Rightarrow> trace_status \<Rightarrow> trace" where
  "sample_trace sid status = \<lparr>rt_trace_id = ''t'', rt_span_id = sid, rt_run_id = ''r'',
     rt_node_id = ''n'', rt_cell_id = ''c'', rt_formula_version = ''1'', rt_status = status,
     rt_started_at = ''1'', rt_finished_at = ''12'', rt_duration_ms = Fin 3,
     rt_schema_version = ''v'', rt_plan_id = None, rt_implementation_id = None,
     rt_service_id = None, rt_runtime = None, rt_retry_count = 0, rt_error = None,
     rt_parent_span_id = None, rt_metadata = []\<rparr>"

definition sample_batch :: "trace list" where
  "sample_batch = [sample_trace ''a'' TSucceeded, sample_trace ''b'' TFailed, sample_trace ''a'' TSucceeded]"

lemma stored_traces_stay_witness:
  "\<exists>s1. save_loop sample_clock sample_batch 0 0 [] = (Inr (2, 1), s1) \<and>
    save_loop sample_clock sample_batch 0 0
      (foldl (\<lambda>s batch. snd (save_loop sample_clock batch 0 0 s)) s1 [[sample_trace ''a'' TFailed]])
    = (Inr (0, 3), foldl (\<lambda>s batch. snd (save_loop sample_clock batch 0 0 s)) s1
        [[sample_trace ''a'' TFailed]])"
proof -
  obtain s1 where s1: "save_loop sample_clock sample_batch 0 0 [] = (Inr (2, 1), s1)"
    by (simp add: sample_batch_def sample_clock_def sample_trace_def trace_finished_at_def trace_id_def)
  have len: "length sample_batch = 3" by (simp add: sample_batch_def)
  from stored_traces_stay[OF s1, of "[[sample_trace ''a'' TFailed]]"] s1 show ?thesis
    unfolding len by blast
qed

lemma reachable_store_snapshots_witness:
  "case fst (store_snapshot echo_lib sample_clock
      (snd (save_loop sample_clock sample_batch 0 0 [])) 2 (Some (4, Some 1)) 0) of
      Inl e \<Rightarrow> ex_class e = PyValueError
    | Inr sn \<Rightarrow> entries_ok sample_clock (window_traces sample_clock 1 3
        (map snd (snd (save_loop sample_clock sample_batch 0 0 [])))) (ss_entries sn)"
proof -
  have "window_end sample_clock (Some (4, Some 1)) 0 = Inr 3" "in_calendar (3 - 2)" "window_exists 2 (Inr 3)"
    by (simp_all add: window_end_def checked_instant_def in_calendar_def datetime_max_def window_exists_def)
  with reachable_store_snapshots[OF after_save[OF created, of sample_clock sample_batch], where window = 2 and L = echo_lib and as_of = "Some (4, Some 1)" and w = 0]
  show ?thesis by (auto split: sum.splits)
qed

end
