(* ===== verification/Placement.thy ===== *)
theory Placement
  imports Runtime_Store Catalog
begin

section \<open>Placement\<close>

text \<open>
  Models \<open>execution/placement.py\<close>: candidates of a Cell are rated against the runtime history and
  ranked; an unhealthy candidate is used only when every candidate is unhealthy. The contract a
  policy owes the planner is a locale, met by the runtime-aware policy. The two shapes of
  \<open>_selection_rank\<close> are encoded in one tuple type: they differ in the first component, so the
  padding is never compared.
\<close>

subsection \<open>Decisions\<close>

datatype history_status = No_history | Insufficient_history | Healthy | Unhealthy

fun show_history_status :: "history_status \<Rightarrow> string" where
  "show_history_status No_history = ''no_history''"
| "show_history_status Insufficient_history = ''insufficient_history''"
| "show_history_status Healthy = ''healthy''"
| "show_history_status Unhealthy = ''unhealthy''"

record evaluation =
  ev_binding_id :: string
  ev_implementation_id :: string
  ev_service_id :: string
  ev_priority :: int
  ev_trace_count :: nat
  ev_failure_rate :: "pyfloat option"
  ev_p95_duration_ms :: "pyfloat option"
  ev_history_status :: history_status

fun opt_float :: "pyfloat option \<Rightarrow> pyval" where
  "opt_float None = PNone"
| "opt_float (Some f) = PFloat f"

definition evaluation_to_dict :: "evaluation \<Rightarrow> meta" where
  "evaluation_to_dict e =
     [(''binding_id'', PStr (ev_binding_id e)), (''implementation_id'', PStr (ev_implementation_id e)),
      (''service_id'', PStr (ev_service_id e)), (''priority'', PInt (ev_priority e)),
      (''trace_count'', PInt (int (ev_trace_count e))),
      (''failure_rate'', opt_float (ev_failure_rate e)),
      (''p95_duration_ms'', opt_float (ev_p95_duration_ms e)),
      (''history_status'', PStr (show_history_status (ev_history_status e)))]"

record decision =
  pd_cell_id :: string
  pd_formula_version :: string
  pd_selected_binding :: binding
  pd_fallback_bindings :: "binding list"
  pd_policy :: string
  pd_reason_codes :: "string list"
  pd_candidate_evaluations :: "evaluation list"
  pd_schema_version :: string

definition decision_bindings :: "decision \<Rightarrow> binding list" where
  "decision_bindings d = pd_selected_binding d # pd_fallback_bindings d"

definition mk_decision :: "decision \<Rightarrow> decision res" where
  "mk_decision d =
     (let ids = map bd_binding_id (decision_bindings d);
          evaluated = map ev_binding_id (pd_candidate_evaluations d) in
      if length ids \<noteq> card (set ids) then raise PyValueError ''placement decision bindings must be unique''
      else if \<exists>b \<in> set (decision_bindings d). bd_cell_id b \<noteq> pd_cell_id d
          \<or> bd_formula_version b \<noteq> pd_formula_version d
      then raise PyValueError ''placement decision binding is incompatible with the Cell''
      else if pd_candidate_evaluations d = []
      then raise PyValueError ''placement decision requires candidate evaluations''
      else if length evaluated \<noteq> card (set evaluated)
      then raise PyValueError ''placement candidate evaluations must be unique''
      else if \<exists>i \<in> set ids. i \<notin> set evaluated
      then raise PyValueError ''placement binding is missing from candidate evaluations''
      else Inr d)"

definition decision_to_dict :: "decision \<Rightarrow> meta" where
  "decision_to_dict d =
     [(''cell_id'', PStr (pd_cell_id d)), (''formula_version'', PStr (pd_formula_version d)),
      (''selected_binding_id'', PStr (bd_binding_id (pd_selected_binding d))),
      (''selected_implementation_id'', PStr (bd_implementation_id (pd_selected_binding d))),
      (''selected_service_id'', PStr (bd_service_id (pd_selected_binding d))),
      (''fallback_binding_ids'', strs (map bd_binding_id (pd_fallback_bindings d))),
      (''policy'', PStr (pd_policy d)),
      (''candidate_count'', PInt (int (length (pd_candidate_evaluations d)))),
      (''reason_codes'', strs (pd_reason_codes d)),
      (''candidate_evaluations'', PList (map (\<lambda>e. PDict (evaluation_to_dict e)) (pd_candidate_evaluations d))),
      (''schema_version'', PStr (pd_schema_version d))]"

subsection \<open>The runtime-aware policy\<close>

record aware_policy =
  ap_minimum_trace_count :: int
  ap_max_failure_rate :: pyfloat

definition mk_aware_policy :: "int \<Rightarrow> pyfloat \<Rightarrow> aware_policy res" where
  "mk_aware_policy m r =
     (if m < 1 then raise PyValueError ''minimum_trace_count must be at least 1''
      else if \<not> (fle (Fin 0) r \<and> fle r (Fin 1))
      then raise PyValueError ''max_failure_rate must be between 0 and 1''
      else Inr \<lparr>ap_minimum_trace_count = m, ap_max_failure_rate = r\<rparr>)"

definition aware_policy_name :: string where
  "aware_policy_name = ''runtime_aware_priority_v0.2''"

definition history_of :: "binding \<Rightarrow> summary_snapshot option \<Rightarrow> summary_entry option" where
  "history_of b snap = find (\<lambda>e. se_cell_id e = bd_cell_id b
       \<and> se_formula_version e = bd_formula_version b
       \<and> se_implementation_id e = Some (bd_implementation_id b)
       \<and> se_service_id e = Some (bd_service_id b) \<and> se_runtime e = Some (bd_runtime b))
     (case snap of None \<Rightarrow> [] | Some s \<Rightarrow> ss_entries s)"

definition rate_history :: "aware_policy \<Rightarrow> nat \<Rightarrow> pyfloat option \<Rightarrow> history_status" where
  "rate_history P n r =
     (if n = 0 then No_history
      else if int n < ap_minimum_trace_count P then Insufficient_history
      else if (case r of None \<Rightarrow> False | Some x \<Rightarrow> flt (ap_max_failure_rate P) x) then Unhealthy
      else Healthy)"

definition evaluate :: "aware_policy \<Rightarrow> summary_snapshot option \<Rightarrow> binding \<Rightarrow> evaluation" where
  "evaluate P snap b =
     (let h = history_of b snap;
          n = (case h of None \<Rightarrow> 0 | Some e \<Rightarrow> se_trace_count e);
          r = map_option se_failure_rate h
      in \<lparr>ev_binding_id = bd_binding_id b, ev_implementation_id = bd_implementation_id b,
          ev_service_id = bd_service_id b, ev_priority = bd_priority b, ev_trace_count = n,
          ev_failure_rate = r, ev_p95_duration_ms = map_option se_p95_duration_ms h,
          ev_history_status = rate_history P n r\<rparr>)"

type_synonym rank = "int \<times> pyfloat \<times> int \<times> int \<times> pyfloat \<times> string \<times> string"

fun history_rank :: "history_status \<Rightarrow> int" where
  "history_rank Healthy = 0"
| "history_rank Insufficient_history = 1"
| "history_rank No_history = 2"
| "history_rank Unhealthy = 3"

definition selection_rank :: "evaluation \<Rightarrow> rank" where
  "selection_rank e =
     (let p95 = (case ev_p95_duration_ms e of Some p \<Rightarrow> p | None \<Rightarrow> Inf True) in
      if ev_history_status e = Unhealthy
      then (1, case ev_failure_rate e of Some r \<Rightarrow> r | None \<Rightarrow> Fin 1, ev_priority e, 0, p95,
        ev_implementation_id e, ev_service_id e)
      else (0, Fin 0, ev_priority e, history_rank (ev_history_status e), p95,
        ev_implementation_id e, ev_service_id e))"

text \<open>\<open>min\<close> of a list; of an empty one it raises.\<close>

fun py_fmin :: "pyfloat list \<Rightarrow> pyfloat res" where
  "py_fmin [] = raise PyValueError ''min() arg is an empty sequence''"
| "py_fmin (x # xs) = Inr (foldl fmin x xs)"

definition feq :: "pyfloat \<Rightarrow> pyfloat \<Rightarrow> bool" where
  "feq a b = (a \<noteq> NaN \<and> a = b)"

definition same_priority :: "evaluation \<Rightarrow> evaluation list \<Rightarrow> evaluation list" where
  "same_priority sel es =
     filter (\<lambda>e. ev_priority e = ev_priority sel \<and> ev_history_status e = Healthy) es"

fun status_reason :: "history_status \<Rightarrow> string" where
  "status_reason Healthy = ''selected_with_healthy_runtime_history''"
| "status_reason Insufficient_history = ''selected_with_insufficient_runtime_history''"
| "status_reason No_history = ''selected_without_runtime_history''"
| "status_reason Unhealthy = ''selected_with_unhealthy_runtime_history''"

definition latency_reason :: "evaluation \<Rightarrow> evaluation list \<Rightarrow> string list res" where
  "latency_reason sel es =
     (let same = same_priority sel es in
      case ev_p95_duration_ms sel of
        Some p \<Rightarrow>
          (if length same > 1
           then bind_res (py_fmin (List.map_filter ev_p95_duration_ms same))
             (\<lambda>m. Inr (opt_issue (feq p m) ''selected_by_runtime_latency''))
           else Inr [])
      | None \<Rightarrow> Inr [])"

definition reason_codes :: "evaluation \<Rightarrow> evaluation list \<Rightarrow> string list res" where
  "reason_codes sel es =
     (let unhealthy = (\<lambda>e. ev_history_status e = Unhealthy);
          all_unhealthy = list_all unhealthy es;
          first = opt_issue (length es = 1) ''only_compatible_candidate''
            @ opt_issue (list_ex (\<lambda>e. unhealthy e \<and> (ev_implementation_id e, ev_service_id e)
                \<noteq> (ev_implementation_id sel, ev_service_id sel)) es) ''unhealthy_candidates_avoided''
            @ opt_issue all_unhealthy ''all_candidates_unhealthy''
            @ opt_issue (list_ex (\<lambda>e. ev_binding_id e \<noteq> ev_binding_id sel
                \<and> (\<not> unhealthy e \<or> all_unhealthy)) es) ''fallback_candidates_available''
            @ opt_issue (ev_priority sel = Min (ev_priority ` set es)) ''selected_by_priority''
            @ [status_reason (ev_history_status sel)]
      in bind_res (latency_reason sel es) (\<lambda>l. Inr (first @ l)))"

definition compatible :: "manifest \<Rightarrow> binding \<Rightarrow> bool" where
  "compatible m b \<longleftrightarrow> bd_cell_id b = mf_cell_id m \<and> bd_formula_version b = mf_formula_version m"

definition selection_pool :: "evaluation list \<Rightarrow> evaluation list" where
  "selection_pool es =
     (let ok = filter (\<lambda>e. ev_history_status e \<noteq> Unhealthy) es in if ok \<noteq> [] then ok else es)"

definition aware_select :: "aware_policy \<Rightarrow> manifest \<Rightarrow> binding list \<Rightarrow> summary_snapshot option
  \<Rightarrow> decision res" where
  "aware_select P m cands snap =
     (let cs = filter (compatible m) cands in
      if cs = [] then raise PlacementUnavailableError
        (msg [''no compatible implementation for '', mf_cell_id m, ''@'', mf_formula_version m])
      else
        let es = map (evaluate P snap) cs;
            ranked = sort_key selection_rank (selection_pool es);
            by_id = dict_of (map (\<lambda>b. (bd_binding_id b, b)) cs);
            lookup = (\<lambda>e. case map_of by_id (ev_binding_id e) of
                None \<Rightarrow> raise PyKeyError (ev_binding_id e) | Some b \<Rightarrow> Inr b)
        in bind_res (map_res lookup ranked) (\<lambda>bs.
           bind_res (reason_codes (hd ranked) es) (\<lambda>reasons.
             mk_decision \<lparr>pd_cell_id = mf_cell_id m, pd_formula_version = mf_formula_version m,
               pd_selected_binding = hd bs, pd_fallback_bindings = tl bs,
               pd_policy = aware_policy_name, pd_reason_codes = reasons,
               pd_candidate_evaluations = sort_key selection_rank es,
               pd_schema_version = ''cell_placement_decision.v3''\<rparr>)))"

subsection \<open>The contract of a policy\<close>

locale placement_contract =
  fixes select :: "manifest \<Rightarrow> binding list \<Rightarrow> summary_snapshot option \<Rightarrow> decision res"
  assumes unavailable: "filter (compatible m) cs = [] \<Longrightarrow>
      \<exists>e. select m cs snap = Inl e \<and> ex_class e = PlacementUnavailableError"
    and available: "distinct (map bd_binding_id cs) \<Longrightarrow> filter (compatible m) cs \<noteq> [] \<Longrightarrow>
      \<exists>d. select m cs snap = Inr d \<and> pd_cell_id d = mf_cell_id m
        \<and> pd_formula_version d = mf_formula_version m
        \<and> set (decision_bindings d) \<subseteq> set (filter (compatible m) cs)
        \<and> distinct (map bd_binding_id (decision_bindings d))"

subsection \<open>What a placement decision promises\<close>

definition usable :: "aware_policy \<Rightarrow> summary_snapshot option \<Rightarrow> binding \<Rightarrow> bool" where
  "usable P snap b \<longleftrightarrow> ev_history_status (evaluate P snap b) \<noteq> Unhealthy"

definition binding_rank :: "aware_policy \<Rightarrow> summary_snapshot option \<Rightarrow> binding \<Rightarrow> rank" where
  "binding_rank P snap b = selection_rank (evaluate P snap b)"

definition binding_pool :: "aware_policy \<Rightarrow> summary_snapshot option \<Rightarrow> binding list \<Rightarrow> binding list" where
  "binding_pool P snap cs = (if list_ex (usable P snap) cs then filter (usable P snap) cs else cs)"

text \<open>
  The decision uses exactly the usable candidates, or all of them when none is usable, best rank
  first; among usable candidates the selected one has the least priority number.
\<close>

definition placement_ok :: "aware_policy \<Rightarrow> summary_snapshot option \<Rightarrow> manifest \<Rightarrow> binding list
  \<Rightarrow> decision \<Rightarrow> bool" where
  "placement_ok P snap m cs d \<longleftrightarrow>
     pd_cell_id d = mf_cell_id m \<and> pd_formula_version d = mf_formula_version m \<and>
     mset (decision_bindings d) = mset (binding_pool P snap cs) \<and>
     sorted (map (binding_rank P snap) (decision_bindings d)) \<and>
     distinct (map bd_binding_id (decision_bindings d)) \<and>
     list_all (\<lambda>b. \<not> usable P snap b \<or> bd_priority (pd_selected_binding d) \<le> bd_priority b) cs \<and>
     mset (pd_candidate_evaluations d) = mset (map (evaluate P snap) cs)"

lemma insort_key_map: "insort_key f (g x) (map g xs) = map g (insort_key (\<lambda>x. f (g x)) x xs)"
  by (induction xs) auto

lemma sort_key_map: "sort_key f (map g xs) = map g (sort_key (\<lambda>x. f (g x)) xs)"
  unfolding sort_key_def by (induction xs) (simp_all add: insort_key_map)

lemma selection_pool_map:
  "selection_pool (map (evaluate P snap) cs) = map (evaluate P snap) (binding_pool P snap cs)"
  by (auto simp: selection_pool_def binding_pool_def filter_map comp_def usable_def[abs_def] Let_def
      list_ex_iff filter_empty_conv)

lemma binding_pool_sub: "set (binding_pool P snap cs) \<subseteq> set cs"
  by (auto simp: binding_pool_def)

lemma binding_pool_Nil [simp]: "binding_pool P snap cs = [] \<longleftrightarrow> cs = []"
  by (auto simp: binding_pool_def list_ex_iff filter_empty_conv)

lemma binding_pool_distinct:
  "distinct (map bd_binding_id cs) \<Longrightarrow> distinct (map bd_binding_id (binding_pool P snap cs))"
  by (simp add: binding_pool_def distinct_map_filter)

lemma evaluate_id [simp]: "ev_binding_id (evaluate P snap b) = bd_binding_id b"
  by (simp add: evaluate_def Let_def)

lemma evaluate_priority [simp]: "ev_priority (evaluate P snap b) = bd_priority b"
  by (simp add: evaluate_def Let_def)

lemma healthy_has_p95:
  "ev_history_status (evaluate P snap b) = Healthy \<Longrightarrow> ev_p95_duration_ms (evaluate P snap b) \<noteq> None"
  by (auto simp: evaluate_def Let_def rate_history_def split: option.splits if_splits)

lemma py_fmin_ok: "xs \<noteq> [] \<Longrightarrow> \<exists>m. py_fmin xs = Inr m"
  by (cases xs) auto

lemma latency_reason_ok: "\<exists>l. latency_reason sel (map (evaluate P snap) cs) = Inr l"
proof -
  let ?same = "same_priority sel (map (evaluate P snap) cs)"
  have "List.map_filter ev_p95_duration_ms ?same \<noteq> []" if "length ?same > 1"
  proof -
    from that obtain e rest where s: "?same = e # rest" by (cases ?same) auto
    then have "e \<in> set ?same" by simp
    then have "ev_p95_duration_ms e \<noteq> None"
      using healthy_has_p95 by (auto simp: same_priority_def)
    then show ?thesis by (auto simp: s map_filter_simps)
  qed
  with py_fmin_ok show ?thesis
    by (fastforce simp: latency_reason_def Let_def split: option.splits)
qed

lemma reason_codes_ok: "\<exists>r. reason_codes sel (map (evaluate P snap) cs) = Inr r"
  using latency_reason_ok[of sel P snap cs] by (auto simp: reason_codes_def Let_def)

lemma aware_lookup:
  assumes "distinct (map bd_binding_id cs)" "b \<in> set cs"
  shows "map_of (dict_of (map (\<lambda>b. (bd_binding_id b, b)) cs)) (bd_binding_id b) = Some b"
  using assms map_of_key_map[OF assms] by (simp add: dict_of_distinct comp_def)

lemma usable_rank:
  assumes "usable P snap a" "usable P snap b" "binding_rank P snap a \<le> binding_rank P snap b"
  shows "bd_priority a \<le> bd_priority b"
  using assms by (auto simp: usable_def binding_rank_def selection_rank_def Let_def less_eq_prod_def
      split: if_splits)

lemma usable_before_unusable:
  assumes "usable P snap a" "\<not> usable P snap b"
  shows "binding_rank P snap a \<le> binding_rank P snap b"
  using assms by (simp add: usable_def binding_rank_def selection_rank_def Let_def less_eq_prod_def
      less_prod_def)

lemma aware_select_some:
  assumes d: "distinct (map bd_binding_id cands)" and ne: "filter (compatible m) cands \<noteq> []"
  shows "\<exists>dec. aware_select P m cands snap = Inr dec \<and> placement_ok P snap m (filter (compatible m) cands) dec"
proof -
  let ?cs = "filter (compatible m) cands"
  let ?es = "map (evaluate P snap) ?cs"
  define bs where "bs = sort_key (binding_rank P snap) (binding_pool P snap ?cs)"
  have dc: "distinct (map bd_binding_id ?cs)" using d by (simp add: distinct_map_filter)
  have ranked: "sort_key selection_rank (selection_pool ?es) = map (evaluate P snap) bs"
    by (simp add: selection_pool_map sort_key_map bs_def binding_rank_def[abs_def])
  have mb: "mset bs = mset (binding_pool P snap ?cs)" by (simp add: bs_def)
  have sb: "set bs \<subseteq> set ?cs" using mset_eq_setD[OF mb] binding_pool_sub by blast
  have nb: "bs \<noteq> []" using mb ne by (metis binding_pool_Nil mset_zero_iff_right)
  have db: "distinct (map bd_binding_id bs)"
    using mset_eq_imp_distinct_iff[of "map bd_binding_id bs" "map bd_binding_id (binding_pool P snap ?cs)"]
      mb binding_pool_distinct[OF dc, of P snap] by simp
  let ?lookup = "\<lambda>e. case map_of (dict_of (map (\<lambda>b. (bd_binding_id b, b)) ?cs)) (ev_binding_id e) of
      None \<Rightarrow> raise PyKeyError (ev_binding_id e) | Some b \<Rightarrow> Inr b"
  have look: "map_res ?lookup (map (evaluate P snap) bs) = Inr bs"
    unfolding map_res_Inr list_all2_map1
  proof (rule list_all2_same[THEN iffD2], rule ballI)
    fix b assume "b \<in> set bs"
    with sb have "b \<in> set ?cs" by blast
    from aware_lookup[OF dc this] show "?lookup (evaluate P snap b) = Inr b" by simp
  qed
  obtain r where r: "reason_codes (hd (map (evaluate P snap) bs)) ?es = Inr r"
    using reason_codes_ok by blast
  define dec where "dec = \<lparr>pd_cell_id = mf_cell_id m, pd_formula_version = mf_formula_version m,
     pd_selected_binding = hd bs, pd_fallback_bindings = tl bs, pd_policy = aware_policy_name,
     pd_reason_codes = r, pd_candidate_evaluations = sort_key selection_rank ?es,
     pd_schema_version = ''cell_placement_decision.v3''\<rparr>"
  have db_eq: "decision_bindings dec = bs" using nb by (simp add: decision_bindings_def dec_def)
  have evs: "set (map ev_binding_id (pd_candidate_evaluations dec)) = bd_binding_id ` set ?cs"
    by (simp add: dec_def image_image)
  have dist_ev: "distinct (map ev_binding_id (pd_candidate_evaluations dec))"
  proof -
    have "mset (map ev_binding_id (pd_candidate_evaluations dec)) = mset (map ev_binding_id ?es)"
      unfolding dec_def by (simp only: decision.simps mset_map mset_sort)
    moreover have "map ev_binding_id ?es = map bd_binding_id ?cs" by simp
    ultimately show ?thesis using dc mset_eq_imp_distinct_iff by metis
  qed
  have mk: "mk_decision dec = Inr dec"
  proof -
    have "\<not> length (map bd_binding_id bs) \<noteq> card (set (map bd_binding_id bs))"
      using distinct_card[OF db] by simp
    moreover have "\<not> (\<exists>b \<in> set bs. bd_cell_id b \<noteq> pd_cell_id dec \<or> bd_formula_version b \<noteq> pd_formula_version dec)"
      using sb by (auto simp: dec_def compatible_def)
    moreover have "pd_candidate_evaluations dec \<noteq> []"
      using ne unfolding dec_def by simp (metis length_0_conv length_sort length_map)
    moreover have "\<not> length (map ev_binding_id (pd_candidate_evaluations dec))
        \<noteq> card (set (map ev_binding_id (pd_candidate_evaluations dec)))"
      using distinct_card[OF dist_ev] by simp
    moreover have "\<not> (\<exists>i \<in> set (map bd_binding_id bs). i \<notin> set (map ev_binding_id (pd_candidate_evaluations dec)))"
      using sb unfolding evs by auto
    ultimately show ?thesis unfolding mk_decision_def Let_def db_eq by (simp only: if_False)
  qed
  have sel: "aware_select P m cands snap = Inr dec"
    using ne look r mk by (simp add: aware_select_def Let_def ranked dec_def)
  have best: "\<forall>b \<in> set bs. binding_rank P snap (hd bs) \<le> binding_rank P snap b"
  proof -
    have "sorted (map (binding_rank P snap) bs)" by (simp add: bs_def)
    then show ?thesis using nb by (cases bs) auto
  qed
  have prio: "list_all (\<lambda>b. \<not> usable P snap b \<or> bd_priority (hd bs) \<le> bd_priority b) ?cs"
    unfolding list_all_iff
  proof (intro ballI)
    fix b assume b: "b \<in> set ?cs"
    show "\<not> usable P snap b \<or> bd_priority (hd bs) \<le> bd_priority b"
    proof (cases "usable P snap b")
      case True
      with b have ex: "list_ex (usable P snap) ?cs" by (auto simp: list_ex_iff)
      with True b have "b \<in> set bs" "set bs \<subseteq> {b. usable P snap b}"
        using mset_eq_setD[OF mb] by (auto simp: binding_pool_def)
      then show ?thesis using best usable_rank[of P snap "hd bs" b] True nb
        by (metis hd_in_set mem_Collect_eq subsetD)
    qed simp
  qed
  have "placement_ok P snap m ?cs dec"
    unfolding placement_ok_def db_eq using mb db prio by (simp add: dec_def bs_def)
  with sel show ?thesis by blast
qed

interpretation aware: placement_contract "aware_select P" for P
proof unfold_locales
  fix m cs snap
  show "\<exists>e. aware_select P m cs snap = Inl e \<and> ex_class e = PlacementUnavailableError"
    if "filter (compatible m) cs = []"
    using that by (simp add: aware_select_def)
  assume d: "distinct (map bd_binding_id cs)" and ne: "filter (compatible m) cs \<noteq> []"
  from aware_select_some[OF this] obtain dec where dec: "aware_select P m cs snap = Inr dec"
    "placement_ok P snap m (filter (compatible m) cs) dec" by blast
  have "set (decision_bindings dec) \<subseteq> set (filter (compatible m) cs)"
    using dec(2) mset_eq_setD binding_pool_sub unfolding placement_ok_def by metis
  with dec show "\<exists>d. aware_select P m cs snap = Inr d \<and> pd_cell_id d = mf_cell_id m \<and>
      pd_formula_version d = mf_formula_version m \<and>
      set (decision_bindings d) \<subseteq> set (filter (compatible m) cs) \<and>
      distinct (map bd_binding_id (decision_bindings d))"
    unfolding placement_ok_def by blast
qed

text \<open>C23: Given candidates with distinct binding ids, the runtime-aware policy raises
  \<open>PlacementUnavailableError\<close> when no candidate implements the Cell and otherwise always decides:
  it uses exactly the candidates that are not unhealthy, best rank first, or all of them when
  every one is unhealthy, and the selected one has the least priority among the usable ones.\<close>

theorem placement_decides:
  assumes "distinct (map bd_binding_id cands)"
  shows "case aware_select P m cands snap of
      Inl e \<Rightarrow> ex_class e = PlacementUnavailableError \<and> filter (compatible m) cands = []
    | Inr d \<Rightarrow> placement_ok P snap m (filter (compatible m) cands) d"
proof (cases "filter (compatible m) cands = []")
  case True
  then obtain e where "aware_select P m cands snap = Inl e" "ex_class e = PlacementUnavailableError"
    using aware.unavailable by blast
  then show ?thesis using True by simp
next
  case False
  from aware_select_some[OF assms this, of P snap] show ?thesis by (elim exE conjE) simp
qed

lemma placement_decides_witness:
  "case aware_select \<lparr>ap_minimum_trace_count = 5, ap_max_failure_rate = Fin (1 / 5)\<rparr>
      sample_manifest [sample_binding] None of
      Inl e \<Rightarrow> ex_class e = PlacementUnavailableError
        \<and> filter (compatible sample_manifest) [sample_binding] = []
    | Inr d \<Rightarrow> placement_ok \<lparr>ap_minimum_trace_count = 5, ap_max_failure_rate = Fin (1 / 5)\<rparr> None
        sample_manifest (filter (compatible sample_manifest) [sample_binding]) d"
  by (rule placement_decides) simp

end
