(* ===== verification/Planner.thy ===== *)
theory Planner
  imports Placement Plan_Validation Graph_Defaults
begin

section \<open>The execution planner\<close>

text \<open>
  Models \<open>execution/planner.py\<close>: the graph is validated against the registry, every Cell it uses
  is placed on a binding of the catalog, the input references are matched with the kinds each
  Cell requires, and the plan that results is validated again. The two validation errors carry
  their graph or plan, as the exceptions do. A placement policy is any function with a name; what
  it returns is checked.
\<close>

subsection \<open>Failures\<close>

fun show_graph_code :: "graph_code \<Rightarrow> string" where
  "show_graph_code G_duplicate_node_id = ''duplicate_node_id''"
| "show_graph_code G_missing_root = ''missing_root''"
| "show_graph_code G_invalid_root_role = ''invalid_root_role''"
| "show_graph_code G_unexpected_root_role = ''unexpected_root_role''"
| "show_graph_code G_missing_dependency = ''missing_dependency''"
| "show_graph_code G_duplicate_dependency = ''duplicate_dependency''"
| "show_graph_code G_self_dependency = ''self_dependency''"
| "show_graph_code G_leaf_has_dependencies = ''leaf_has_dependencies''"
| "show_graph_code G_cycle_detected = ''cycle_detected''"
| "show_graph_code G_unreachable_node = ''unreachable_node''"
| "show_graph_code G_missing_cell_implementation = ''missing_cell_implementation''"
| "show_graph_code G_duplicate_organ_id = ''duplicate_organ_id''"
| "show_graph_code G_duplicate_organ_node = ''duplicate_organ_node''"
| "show_graph_code G_duplicate_organ_output = ''duplicate_organ_output''"
| "show_graph_code G_organ_has_no_outputs = ''organ_has_no_outputs''"
| "show_graph_code G_missing_organ_node = ''missing_organ_node''"
| "show_graph_code G_organ_output_not_member = ''organ_output_not_member''"
| "show_graph_code G_organ_dependency_outside_subgraph = ''organ_dependency_outside_subgraph''"
| "show_graph_code G_organ_unreachable_node = ''organ_unreachable_node''"

fun show_plan_code :: "plan_code \<Rightarrow> string" where
  "show_plan_code P_duplicate_node_id = ''duplicate_node_id''"
| "show_plan_code P_duplicate_binding_id = ''duplicate_binding_id''"
| "show_plan_code P_duplicate_input_reference_id = ''duplicate_input_reference_id''"
| "show_plan_code P_input_reference_scope_mismatch = ''input_reference_scope_mismatch''"
| "show_plan_code P_missing_root = ''missing_root''"
| "show_plan_code P_invalid_root_role = ''invalid_root_role''"
| "show_plan_code P_unexpected_root_role = ''unexpected_root_role''"
| "show_plan_code P_missing_dependency = ''missing_dependency''"
| "show_plan_code P_duplicate_dependency = ''duplicate_dependency''"
| "show_plan_code P_self_dependency = ''self_dependency''"
| "show_plan_code P_leaf_has_dependencies = ''leaf_has_dependencies''"
| "show_plan_code P_missing_binding = ''missing_binding''"
| "show_plan_code P_binding_cell_mismatch = ''binding_cell_mismatch''"
| "show_plan_code P_binding_formula_mismatch = ''binding_formula_mismatch''"
| "show_plan_code P_duplicate_fallback_binding = ''duplicate_fallback_binding''"
| "show_plan_code P_primary_binding_in_fallback = ''primary_binding_in_fallback''"
| "show_plan_code P_missing_fallback_binding = ''missing_fallback_binding''"
| "show_plan_code P_fallback_binding_cell_mismatch = ''fallback_binding_cell_mismatch''"
| "show_plan_code P_fallback_binding_formula_mismatch = ''fallback_binding_formula_mismatch''"
| "show_plan_code P_unused_binding = ''unused_binding''"
| "show_plan_code P_missing_node_input_reference = ''missing_node_input_reference''"
| "show_plan_code P_duplicate_node_input_reference = ''duplicate_node_input_reference''"
| "show_plan_code P_missing_input_reference = ''missing_input_reference''"
| "show_plan_code P_duplicate_required_input_kind = ''duplicate_required_input_kind''"
| "show_plan_code P_missing_required_input_kind = ''missing_required_input_kind''"
| "show_plan_code P_unexpected_input_kind = ''unexpected_input_kind''"
| "show_plan_code P_unused_input_reference = ''unused_input_reference''"
| "show_plan_code P_cycle_detected = ''cycle_detected''"
| "show_plan_code P_unreachable_node = ''unreachable_node''"

datatype build_error =
    BuildRaised exc
  | GraphInvalid graph "graph_issue list"
  | PlanInvalid exec_plan "plan_issue list"

text \<open>The exception as its handlers see it: the class and \<open>str(exc)\<close>.\<close>

fun build_exc :: "build_error \<Rightarrow> exc" where
  "build_exc (BuildRaised e) = e"
| "build_exc (GraphInvalid g issues) = mk_exc CellGraphValidationErrorC
     (join ''; '' (map (\<lambda>i. msg [show_graph_code (gi_code i), '': '', gi_message i]) issues))"
| "build_exc (PlanInvalid p issues) = mk_exc ExecutionPlanValidationErrorC
     (join ''; '' (map (\<lambda>i. msg [show_plan_code (pi_code i), '': '', pi_message i]) issues))"

definition graph_issue_to_dict :: "graph_issue \<Rightarrow> meta" where
  "graph_issue_to_dict i =
     [(''code'', PStr (show_graph_code (gi_code i))), (''message'', PStr (gi_message i)),
      (''node_id'', opt_str (gi_node_id i)), (''dependency_id'', opt_str (gi_dependency_id i)),
      (''cell_id'', opt_str (gi_cell_id i)), (''organ_id'', opt_str (gi_organ_id i))]"

definition plan_issue_to_dict :: "plan_issue \<Rightarrow> meta" where
  "plan_issue_to_dict i =
     [(''code'', PStr (show_plan_code (pi_code i))), (''message'', PStr (pi_message i)),
      (''node_id'', opt_str (pi_node_id i)), (''binding_id'', opt_str (pi_binding_id i)),
      (''reference_id'', opt_str (pi_reference_id i)),
      (''dependency_id'', opt_str (pi_dependency_id i))]"

definition graph_error_to_dict :: "graph \<Rightarrow> graph_issue list \<Rightarrow> meta" where
  "graph_error_to_dict g issues =
     [(''error_type'', PStr ''cell_graph_validation''), (''graph_id'', PStr (gr_graph_id g)),
      (''graph_version'', PStr (gr_graph_version g)),
      (''issues'', PList (map (\<lambda>i. PDict (graph_issue_to_dict i)) issues)),
      (''schema_version'', PStr ''cell_graph_validation.v1'')]"

definition plan_error_to_dict :: "exec_plan \<Rightarrow> plan_issue list \<Rightarrow> meta" where
  "plan_error_to_dict p issues =
     [(''error_type'', PStr ''execution_plan_validation''), (''plan_id'', PStr (ep_plan_id p)),
      (''issues'', PList (map (\<lambda>i. PDict (plan_issue_to_dict i)) issues)),
      (''schema_version'', PStr ''execution_plan_validation.v1'')]"

subsection \<open>Placing the Cells\<close>

record policy =
  po_name :: string
  po_select :: "manifest \<Rightarrow> binding list \<Rightarrow> summary_snapshot option \<Rightarrow> decision res"

definition aware :: "aware_policy \<Rightarrow> policy" where
  "aware P = \<lparr>po_name = aware_policy_name, po_select = aware_select P\<rparr>"

record planner =
  pl_catalog :: catalog
  pl_policy :: policy
  pl_snapshot :: summary_snapshot

text \<open>The constructor's defaults: the runtime-aware policy, and an empty snapshot of 30 days.\<close>

definition mk_planner :: "stdlib \<Rightarrow> 'w datetime_lib \<Rightarrow> catalog \<Rightarrow> policy option
  \<Rightarrow> summary_snapshot option \<Rightarrow> 'w \<Rightarrow> planner res \<times> 'w" where
  "mk_planner L D c po snap w =
     (let po' = (case po of Some p \<Rightarrow> p
          | None \<Rightarrow> aware \<lparr>ap_minimum_trace_count = 5, ap_max_failure_rate = b64 (2 / 10)\<rparr>);
          (s, w') = (case snap of Some s \<Rightarrow> (Inr s, w)
            | None \<Rightarrow> empty_snapshot L D (30 * 24 * 60 * 60 * 1000000) None ''disabled'' w)
      in (bind_res s (\<lambda>s. Inr \<lparr>pl_catalog = c, pl_policy = po', pl_snapshot = s\<rparr>), w'))"

definition place :: "planner \<Rightarrow> manifest \<Rightarrow> decision res" where
  "place pl m =
     (let candidates = candidates_for (pl_catalog pl) m;
          by_id = dict_of (map (\<lambda>b. (bd_binding_id b, b)) candidates) in
      bind_res (po_select (pl_policy pl) m candidates (Some (pl_snapshot pl))) (\<lambda>d.
        if pd_cell_id d \<noteq> mf_cell_id m \<or> pd_formula_version d \<noteq> mf_formula_version m
          \<or> \<not> distinct (map bd_binding_id (decision_bindings d))
          \<or> list_ex (\<lambda>b. map_of by_id (bd_binding_id b) \<noteq> Some b) (decision_bindings d)
        then raise PlacementUnavailableError
          (msg [''placement policy '', po_name (pl_policy pl),
            '' returned an invalid binding decision for '', mf_cell_id m, ''@'', mf_formula_version m])
        else Inr d))"

definition plan_bindings_of :: "decision list \<Rightarrow> binding list" where
  "plan_bindings_of ds = firsts bd_binding_id {} (concat (map decision_bindings ds))"

subsection \<open>The inputs of a Cell\<close>

definition refs_of_kind :: "reference list \<Rightarrow> string \<Rightarrow> reference list" where
  "refs_of_kind refs k = filter (\<lambda>r. rf_input_kind r = k) refs"

definition references_for_manifest :: "manifest \<Rightarrow> reference list \<Rightarrow> reference list res" where
  "references_for_manifest m refs =
     (let required = mf_required_input_kinds m;
          unsupported = sorted_set (filter (\<lambda>k. k \<notin> set input_kinds) required);
          missing = sort (filter (\<lambda>k. refs_of_kind refs k = []) required);
          duplicate = sort (filter (\<lambda>k. length (refs_of_kind refs k) > 1) required)
      in if \<not> distinct required then raise InputCompositionError
           (msg [''Cell '', mf_cell_id m, '' repeats a required input kind''])
         else if ''analysis_request'' \<notin> set required then raise InputCompositionError
           (msg [''Cell '', mf_cell_id m, '' must require analysis_request''])
         else if unsupported \<noteq> [] then raise InputCompositionError
           (msg [''Cell '', mf_cell_id m, '' requires unsupported input kinds: '', join '', '' unsupported])
         else if missing \<noteq> [] then raise InputCompositionError
           (msg [''Cell '', mf_cell_id m, '' is missing required input kinds: '', join '', '' missing])
         else if duplicate \<noteq> [] then raise InputCompositionError
           (msg [''Cell '', mf_cell_id m, '' received multiple snapshots for input kinds: '',
             join '', '' duplicate])
         else Inr (map (\<lambda>k. hd (refs_of_kind refs k)) required))"

subsection \<open>The plan\<close>

definition node_for_graph_node :: "graph_node \<Rightarrow> manifest \<Rightarrow> string \<Rightarrow> string list \<Rightarrow> resource_hints
  \<Rightarrow> reference list \<Rightarrow> exec_node" where
  "node_for_graph_node gn m bid fallbacks hints refs =
     \<lparr>en_node_id = gn_node_id gn, en_cell_id = mf_cell_id m, en_formula_version = mf_formula_version m,
      en_execution_role = gn_execution_role gn, en_binding_id = bid,
      en_fallback_binding_ids = fallbacks, en_dependencies = gn_dependencies gn,
      en_input_reference_ids = map rf_reference_id refs,
      en_required_input_kinds = mf_required_input_kinds m, en_input_keys = mf_inputs m,
      en_output_keys = mf_outputs m, en_resource_hints = hints, en_metadata = gn_metadata gn\<rparr>"

definition lookup_key :: "(string \<times> 'a) list \<Rightarrow> string \<Rightarrow> 'a res" where
  "lookup_key d k = (case map_of d k of None \<Rightarrow> raise PyKeyError (quote k) | Some x \<Rightarrow> Inr x)"

definition plan_graph_node :: "(string \<times> manifest) list \<Rightarrow> (string \<times> decision) list
  \<Rightarrow> reference list \<Rightarrow> graph_node \<Rightarrow> exec_node res" where
  "plan_graph_node manifest_by_cell decision_by_cell refs gn =
     bind_res (lookup_key manifest_by_cell (gn_cell_id gn)) (\<lambda>m.
     bind_res (lookup_key decision_by_cell (gn_cell_id gn)) (\<lambda>d.
     bind_res (references_for_manifest m refs) (\<lambda>rs.
       Inr (node_for_graph_node gn m (bd_binding_id (pd_selected_binding d))
         (map bd_binding_id (pd_fallback_bindings d))
         (bd_resource_hints (pd_selected_binding d)) rs))))"

definition plan_metadata :: "planner \<Rightarrow> graph \<Rightarrow> reference list \<Rightarrow> manifest list \<Rightarrow> decision list \<Rightarrow> meta" where
  "plan_metadata pl g refs manifests decisions =
     [(''planner'', PStr ''cell_graph_service_placement_v0.7''),
      (''catalog_id'', PStr (cg_catalog_id (pl_catalog pl))),
      (''catalog_schema_version'', PStr (cg_schema_version (pl_catalog pl))),
      (''graph_id'', PStr (gr_graph_id g)), (''graph_version'', PStr (gr_graph_version g)),
      (''graph_schema_version'', PStr (gr_schema_version g)),
      (''organs'', PList (map (\<lambda>o'. PDict [(''organ_id'', PStr (og_organ_id o')),
         (''organ_version'', PStr (og_organ_version o'))]) (gr_organs g))),
      (''placement_policy'', PStr (po_name (pl_policy pl))),
      (''runtime_summary_snapshot'', PDict (snapshot_to_meta (pl_snapshot pl))),
      (''placement_decisions'', PList (map (\<lambda>d. PDict (decision_to_dict d)) decisions)),
      (''candidate_binding_count'', PInt (int (length (cg_bindings (pl_catalog pl))))),
      (''cell_count'', PInt (int (length manifests))),
      (''node_count'', PInt (int (length (gr_nodes g)))),
      (''organ_count'', PInt (int (length (gr_organs g)))),
      (''input_reference_count'', PInt (int (length refs)))]"

text \<open>Everything \<open>build\<close> computes before it draws the plan id.\<close>

definition plan_parts :: "planner \<Rightarrow> manifest list \<Rightarrow> graph \<Rightarrow> reference list
  \<Rightarrow> build_error + (manifest list \<times> decision list \<times> exec_node list)" where
  "plan_parts pl registry g refs =
     (case validate_cell_graph_definition g (Some registry) of
        Inl issues \<Rightarrow> Inl (GraphInvalid g issues)
      | Inr _ \<Rightarrow>
         (let manifest_by_cell = dict_of (map (\<lambda>m. (mf_cell_id m, m)) registry);
              parts = bind_res (map_res (lookup_key manifest_by_cell) (fromkeys (map gn_cell_id (gr_nodes g))))
                (\<lambda>ms. bind_res (map_res (place pl) ms)
                (\<lambda>ds. bind_res (map_res (plan_graph_node manifest_by_cell
                    (dict_of (map (\<lambda>d. (pd_cell_id d, d)) ds)) refs) (gr_nodes g))
                (\<lambda>ns. Inr (ms, ds, ns))))
          in case parts of Inl e \<Rightarrow> Inl (BuildRaised e) | Inr p \<Rightarrow> Inr p))"

definition chosen_graph :: "graph option \<Rightarrow> graph" where
  "chosen_graph go = (case go of Some g \<Rightarrow> g | None \<Rightarrow> default_analysis_graph)"

definition planner_references :: "'w env \<Rightarrow> stdlib \<Rightarrow> request \<Rightarrow> reference list \<Rightarrow> 'w
  \<Rightarrow> reference list res \<times> 'w" where
  "planner_references E L rq refs w =
     (if refs \<noteq> [] then (Inr refs, w)
      else let (now, w1) = env_now E w in
        (bind_res (snapshot_from_request L now rq ''analysis_request.v1'' ''analysis_request'' [])
           (\<lambda>s. Inr [to_reference s None []]), w1))"

definition assemble_plan :: "'w env \<Rightarrow> planner \<Rightarrow> graph \<Rightarrow> request \<Rightarrow> reference list
  \<Rightarrow> manifest list \<times> decision list \<times> exec_node list \<Rightarrow> 'w \<Rightarrow> exec_plan \<times> 'w" where
  "assemble_plan E pl g rq refs parts w =
     (let (ms, ds, ns) = parts; (u, w1) = env_uuid E w; (created, w2) = env_now E w1 in
      (\<lparr>ep_plan_id = u, ep_target = rq_target rq, ep_horizon = rq_horizon rq,
        ep_root_node_id = gr_root_node_id g, ep_nodes = ns, ep_input_references = refs,
        ep_service_bindings = plan_bindings_of ds, ep_schema_version = ''cell_execution_plan.v5'',
        ep_created_at = created, ep_metadata = plan_metadata pl g refs ms ds\<rparr>, w2))"

definition checked_plan :: "exec_plan \<Rightarrow> build_error + exec_plan" where
  "checked_plan p =
     (case validate_execution_plan p of
        Inl issues \<Rightarrow> Inl (PlanInvalid p issues)
      | Inr v \<Rightarrow> Inr (p\<lparr>ep_metadata := dict_merge (ep_metadata p)
          [(''topological_levels'', PList (map strs (vp_topological_levels v)))]\<rparr>))"

definition build_plan :: "'w env \<Rightarrow> stdlib \<Rightarrow> planner \<Rightarrow> 'w cell list \<Rightarrow> request \<Rightarrow> graph option
  \<Rightarrow> reference list \<Rightarrow> 'w \<Rightarrow> (build_error + exec_plan) \<times> 'w" where
  "build_plan E L pl registry rq graph_definition input_references w =
     (let g = chosen_graph graph_definition in
      case planner_references E L rq input_references w of
        (Inl e, w1) \<Rightarrow> (Inl (BuildRaised e), w1)
      | (Inr refs, w1) \<Rightarrow>
         (case plan_parts pl (registry_manifests registry) g refs of
            Inl e \<Rightarrow> (Inl e, w1)
          | Inr parts \<Rightarrow>
             (let (p, w2) = assemble_plan E pl g rq refs parts w1 in (checked_plan p, w2))))"

text \<open>\<open>build_execution_plan\<close> and \<open>build_local_execution_plan\<close>.\<close>

definition build_execution_plan :: "'w env \<Rightarrow> stdlib \<Rightarrow> 'w datetime_lib \<Rightarrow> 'w cell list \<Rightarrow> request
  \<Rightarrow> catalog \<Rightarrow> graph option \<Rightarrow> reference list \<Rightarrow> policy option \<Rightarrow> summary_snapshot option \<Rightarrow> 'w
  \<Rightarrow> (build_error + exec_plan) \<times> 'w" where
  "build_execution_plan E L D registry rq c g refs po snap w =
     (case mk_planner L D c po snap w of
        (Inl e, w1) \<Rightarrow> (Inl (BuildRaised e), w1)
      | (Inr pl, w1) \<Rightarrow> build_plan E L pl registry rq g refs w1)"

definition build_local_execution_plan :: "'w env \<Rightarrow> stdlib \<Rightarrow> 'w datetime_lib \<Rightarrow> 'w cell list \<Rightarrow> request
  \<Rightarrow> string \<Rightarrow> graph option \<Rightarrow> reference list \<Rightarrow> summary_snapshot option \<Rightarrow> 'w
  \<Rightarrow> (build_error + exec_plan) \<times> 'w" where
  "build_local_execution_plan E L D registry rq service_id g refs snap w =
     (case build_local_capability_catalog E registry service_id w of
        (Inl e, w1) \<Rightarrow> (Inl (BuildRaised e), w1)
      | (Inr c, w1) \<Rightarrow> build_execution_plan E L D registry rq c g refs None snap w1)"

subsection \<open>When planning succeeds\<close>

definition inputs_for :: "manifest \<Rightarrow> reference list \<Rightarrow> bool" where
  "inputs_for m refs \<longleftrightarrow> distinct (mf_required_input_kinds m)
     \<and> ''analysis_request'' \<in> set (mf_required_input_kinds m)
     \<and> set (mf_required_input_kinds m) \<subseteq> set input_kinds
     \<and> (\<forall>k \<in> set (mf_required_input_kinds m). length (refs_of_kind refs k) = 1)"

definition chosen_refs :: "manifest \<Rightarrow> reference list \<Rightarrow> reference list" where
  "chosen_refs m refs = map (\<lambda>k. hd (refs_of_kind refs k)) (mf_required_input_kinds m)"

definition used_cells :: "graph \<Rightarrow> string set" where
  "used_cells g = gn_cell_id ` set (gr_nodes g)"

text \<open>
  The conditions of a plan: a well-formed graph over registered Cells, a candidate binding and
  exactly one reference of each required kind for every Cell used, and references with distinct
  ids, in the scope of the request, none without a Cell that requires it.
\<close>

definition plannable :: "catalog \<Rightarrow> manifest list \<Rightarrow> graph \<Rightarrow> request \<Rightarrow> reference list \<Rightarrow> bool" where
  "plannable c registry g rq refs \<longleftrightarrow> graph_ok g (Some registry)
     \<and> (\<forall>m \<in> set registry. mf_cell_id m \<in> used_cells g \<longrightarrow> candidates_for c m \<noteq> [] \<and> inputs_for m refs)
     \<and> distinct (map rf_reference_id refs)
     \<and> (\<forall>r \<in> set refs. rf_target r = rq_target rq \<and> rf_horizon r = rq_horizon rq
         \<and> (\<exists>m \<in> set registry. mf_cell_id m \<in> used_cells g
              \<and> rf_input_kind r \<in> set (mf_required_input_kinds m)))"

lemma sorted_set_Nil [simp]: "sorted_set xs = [] \<longleftrightarrow> xs = []"
  by (simp add: sorted_set_def) (metis length_0_conv length_sort remdups_eq_nil_iff)

lemma sort_filter_Nil: "sort (filter P xs) = [] \<longleftrightarrow> (\<forall>x \<in> set xs. \<not> P x)"
  by (metis filter_empty_conv length_0_conv length_sort)

lemma references_for_manifest_Inr:
  "references_for_manifest m refs = Inr rs \<longleftrightarrow> inputs_for m refs \<and> rs = chosen_refs m refs"
proof -
  have one: "length xs = 1 \<longleftrightarrow> \<not> xs = [] \<and> \<not> length xs > 1" for xs :: "reference list"
    by (cases xs) auto
  show ?thesis
    unfolding references_for_manifest_def Let_def guard_Inr sort_filter_Nil inputs_for_def chosen_refs_def
      one sorted_set_Nil filter_empty_conv
    by blast
qed

lemma refs_of_kind_hd:
  "length (refs_of_kind refs k) = 1 \<Longrightarrow> hd (refs_of_kind refs k) \<in> set refs \<and> rf_input_kind (hd (refs_of_kind refs k)) = k"
proof -
  assume "length (refs_of_kind refs k) = 1"
  then have "hd (refs_of_kind refs k) \<in> set (refs_of_kind refs k)" by (metis hd_in_set length_0_conv zero_neq_one)
  then show ?thesis by (simp add: refs_of_kind_def)
qed

lemma chosen_refs_ok:
  assumes "inputs_for m refs" "distinct (map rf_reference_id refs)"
  shows "set (chosen_refs m refs) \<subseteq> set refs"
    and "map rf_input_kind (chosen_refs m refs) = mf_required_input_kinds m"
    and "distinct (map rf_reference_id (chosen_refs m refs))"
proof -
  have h: "hd (refs_of_kind refs k) \<in> set refs" "rf_input_kind (hd (refs_of_kind refs k)) = k"
    if "k \<in> set (mf_required_input_kinds m)" for k
    using refs_of_kind_hd[of refs k] assms(1) that by (auto simp: inputs_for_def)
  show sub: "set (chosen_refs m refs) \<subseteq> set refs" using h by (auto simp: chosen_refs_def)
  show kinds: "map rf_input_kind (chosen_refs m refs) = mf_required_input_kinds m"
    using h by (auto simp: chosen_refs_def comp_def map_idI)
  have "distinct (map rf_input_kind (chosen_refs m refs))" using assms(1) kinds by (simp add: inputs_for_def)
  then have "distinct (chosen_refs m refs)" by (simp add: distinct_map)
  moreover have "inj_on rf_reference_id (set (chosen_refs m refs))"
    using assms(2) sub unfolding distinct_map by (metis inj_on_subset)
  ultimately show "distinct (map rf_reference_id (chosen_refs m refs))" by (simp add: distinct_map)
qed

lemma chosen_refs_kind:
  assumes "inputs_for m refs" "r \<in> set refs" "rf_input_kind r \<in> set (mf_required_input_kinds m)"
  shows "r \<in> set (chosen_refs m refs)"
proof -
  let ?k = "rf_input_kind r"
  have "length (refs_of_kind refs ?k) = 1" using assms(1,3) by (simp add: inputs_for_def)
  then obtain x where x: "refs_of_kind refs ?k = [x]" by (auto simp: length_Suc_conv)
  have "r \<in> set (refs_of_kind refs ?k)" using assms(2) by (simp add: refs_of_kind_def)
  then have "hd (refs_of_kind refs ?k) = r" using x by simp
  then show ?thesis using assms(3) by (force simp: chosen_refs_def)
qed

lemma place_Inr:
  assumes "place pl m = Inr d"
  shows "pd_cell_id d = mf_cell_id m" "pd_formula_version d = mf_formula_version m"
    "distinct (map bd_binding_id (decision_bindings d))"
    "set (decision_bindings d) \<subseteq> set (candidates_for (pl_catalog pl) m)"
proof -
  from assms show "pd_cell_id d = mf_cell_id m" "pd_formula_version d = mf_formula_version m"
    "distinct (map bd_binding_id (decision_bindings d))"
    by (auto simp: place_def Let_def bind_res_eq_Inr split: if_splits)
  have "map_of (dict_of (map (\<lambda>b. (bd_binding_id b, b)) (candidates_for (pl_catalog pl) m))) (bd_binding_id b)
      = Some b" if "b \<in> set (decision_bindings d)" for b
    using assms that by (auto simp: place_def Let_def bind_res_eq_Inr list_ex_iff split: if_splits)
  then have "b \<in> set (candidates_for (pl_catalog pl) m)" if "b \<in> set (decision_bindings d)" for b
    using map_of_SomeD[of "rev (map (\<lambda>b. (bd_binding_id b, b)) (candidates_for (pl_catalog pl) m))"
        "bd_binding_id b" b] that by (auto simp: map_of_dict_of simp del: set_candidates_for)
  then show "set (decision_bindings d) \<subseteq> set (candidates_for (pl_catalog pl) m)" by blast
qed

lemma place_candidates: "place pl m = Inr d \<Longrightarrow> candidates_for (pl_catalog pl) m \<noteq> []"
  using place_Inr(4)[of pl m d] by (cases "candidates_for (pl_catalog pl) m") (auto simp: decision_bindings_def)

lemma lookup_key_Inr: "lookup_key d k = Inr x \<longleftrightarrow> map_of d k = Some x"
  by (simp add: lookup_key_def split: option.splits)

text \<open>A node of the plan, in terms of the node of the graph it was made from.\<close>

definition planned_node :: "planner \<Rightarrow> manifest list \<Rightarrow> decision list \<Rightarrow> reference list
  \<Rightarrow> graph_node \<Rightarrow> exec_node \<Rightarrow> bool" where
  "planned_node pl registry ds refs gn n \<longleftrightarrow> (\<exists>m \<in> set registry. \<exists>d \<in> set ds.
     mf_cell_id m = gn_cell_id gn \<and> place pl m = Inr d \<and> inputs_for m refs \<and>
     n = node_for_graph_node gn m (bd_binding_id (pd_selected_binding d))
       (map bd_binding_id (pd_fallback_bindings d)) (bd_resource_hints (pd_selected_binding d))
       (chosen_refs m refs))"

definition placed_cells :: "planner \<Rightarrow> manifest list \<Rightarrow> graph \<Rightarrow> decision list \<Rightarrow> bool" where
  "placed_cells pl registry g ds \<longleftrightarrow> distinct (map pd_cell_id ds)
     \<and> (\<forall>d \<in> set ds. \<exists>m \<in> set registry. mf_cell_id m \<in> used_cells g \<and> place pl m = Inr d)"

lemma registry_lookup:
  assumes "distinct (map mf_cell_id registry)"
  shows "map_of (dict_of (map (\<lambda>m. (mf_cell_id m, m)) registry)) k = Some m
    \<longleftrightarrow> m \<in> set registry \<and> mf_cell_id m = k"
  using key_map_lookup[OF assms, of k m] assms by (simp add: dict_of_distinct comp_def)

lemma placed_decisions:
  assumes reg: "distinct (map mf_cell_id registry)"
    and ms: "list_all2 (\<lambda>c m. lookup_key (dict_of (map (\<lambda>m. (mf_cell_id m, m)) registry)) c = Inr m)
      (fromkeys (map gn_cell_id (gr_nodes g))) ms"
    and ds: "list_all2 (\<lambda>m d. place pl m = Inr d) ms ds"
  shows "placed_cells pl registry g ds"
    and "\<And>m. m \<in> set registry \<Longrightarrow> mf_cell_id m \<in> used_cells g \<Longrightarrow> \<exists>d \<in> set ds. place pl m = Inr d"
proof -
  define ids where "ids = fromkeys (map gn_cell_id (gr_nodes g))"
  have "list_all2 (\<lambda>c m. m \<in> set registry \<and> mf_cell_id m = c) ids ms"
    using ms unfolding ids_def[symmetric] lookup_key_Inr registry_lookup[OF reg] .
  then have idm: "map mf_cell_id ms = ids" and mreg: "set ms \<subseteq> set registry"
    by (induction rule: list_all2_induct) auto
  have cells: "map pd_cell_id ds = map mf_cell_id ms"
    using ds by (induction rule: list_all2_induct) (simp_all add: place_Inr(1))
  have d: "distinct (map pd_cell_id ds)" by (simp add: cells idm ids_def)
  have mused: "mf_cell_id ` set ms = used_cells g"
    using arg_cong[OF idm, of set] by (simp add: used_cells_def ids_def)
  have "\<exists>m \<in> set ms. place pl m = Inr d" if "d \<in> set ds" for d
    using ds that by (induction rule: list_all2_induct) auto
  then show "placed_cells pl registry g ds"
    unfolding placed_cells_def using d mreg mused by blast
  show "\<exists>d \<in> set ds. place pl m = Inr d" if "m \<in> set registry" "mf_cell_id m \<in> used_cells g" for m
  proof -
    from that(2) obtain m' where m': "m' \<in> set ms" "mf_cell_id m' = mf_cell_id m"
      unfolding mused[symmetric] by auto
    with mreg that(1) reg have "m' = m" by (metis inj_onD distinct_map subsetD)
    with m'(1) have "m \<in> set ms" by simp
    with ds show ?thesis by (induction rule: list_all2_induct) auto
  qed
qed

lemma planned_nodes:
  assumes reg: "distinct (map mf_cell_id registry)" and placed: "placed_cells pl registry g ds"
    and ns: "list_all2 (\<lambda>gn n. plan_graph_node (dict_of (map (\<lambda>m. (mf_cell_id m, m)) registry))
      (dict_of (map (\<lambda>d. (pd_cell_id d, d)) ds)) refs gn = Inr n) gns ns"
  shows "list_all2 (planned_node pl registry ds refs) gns ns"
  using ns
proof (rule list_all2_mono)
  fix gn n
  assume "plan_graph_node (dict_of (map (\<lambda>m. (mf_cell_id m, m)) registry))
      (dict_of (map (\<lambda>d. (pd_cell_id d, d)) ds)) refs gn = Inr n"
  then obtain m d where m: "m \<in> set registry" "mf_cell_id m = gn_cell_id gn"
    and d: "map_of (dict_of (map (\<lambda>d. (pd_cell_id d, d)) ds)) (gn_cell_id gn) = Some d"
    and i: "inputs_for m refs"
    and n: "n = node_for_graph_node gn m (bd_binding_id (pd_selected_binding d))
       (map bd_binding_id (pd_fallback_bindings d)) (bd_resource_hints (pd_selected_binding d))
       (chosen_refs m refs)"
    unfolding plan_graph_node_def bind_res_eq_Inr lookup_key_Inr registry_lookup[OF reg]
      references_for_manifest_Inr by blast
  have dd: "distinct (map pd_cell_id ds)" using placed by (simp add: placed_cells_def)
  from d have d': "d \<in> set ds" "pd_cell_id d = gn_cell_id gn"
    using key_map_lookup[OF dd] dd by (simp_all add: dict_of_distinct comp_def)
  with placed obtain m' where m': "m' \<in> set registry" "place pl m' = Inr d"
    unfolding placed_cells_def by blast
  with place_Inr(1) d'(2) m reg have "m' = m" by (metis inj_onD distinct_map)
  with m m' d' i n show "planned_node pl registry ds refs gn n"
    unfolding planned_node_def by blast
qed

lemma plan_parts_Inr:
  assumes "plan_parts pl registry g refs = Inr (ms, ds, ns)" "distinct (map mf_cell_id registry)"
  shows "graph_ok g (Some registry)" "placed_cells pl registry g ds"
    "list_all2 (planned_node pl registry ds refs) (gr_nodes g) ns"
    "\<And>m. m \<in> set registry \<Longrightarrow> mf_cell_id m \<in> used_cells g \<Longrightarrow> \<exists>d \<in> set ds. place pl m = Inr d"
proof -
  obtain v where v: "validate_cell_graph_definition g (Some registry) = Inr v"
    using assms(1) by (auto simp: plan_parts_def split: sum.splits)
  then show "graph_ok g (Some registry)" by (simp add: validate_graph_decides)
  have parts: "map_res (lookup_key (dict_of (map (\<lambda>m. (mf_cell_id m, m)) registry)))
        (fromkeys (map gn_cell_id (gr_nodes g))) = Inr ms"
    "map_res (place pl) ms = Inr ds"
    "map_res (plan_graph_node (dict_of (map (\<lambda>m. (mf_cell_id m, m)) registry))
        (dict_of (map (\<lambda>d. (pd_cell_id d, d)) ds)) refs) (gr_nodes g) = Inr ns"
    using assms(1) v by (auto simp: plan_parts_def Let_def bind_res_eq_Inr split: sum.splits)
  note pd = placed_decisions[OF assms(2) parts(1,2)[unfolded map_res_Inr]]
  show "placed_cells pl registry g ds" by (rule pd(1))
  show "list_all2 (planned_node pl registry ds refs) (gr_nodes g) ns"
    by (rule planned_nodes[OF assms(2) pd(1) parts(3)[unfolded map_res_Inr]])
  show "\<exists>d \<in> set ds. place pl m = Inr d" if "m \<in> set registry" "mf_cell_id m \<in> used_cells g" for m
    by (rule pd(2)[OF that])
qed

lemma list_all2_right:
  "list_all2 (\<lambda>c m. P m \<and> f m = c) cs ms \<Longrightarrow> \<forall>m \<in> set ms. P m \<and> f m \<in> set cs"
  by (induction rule: list_all2_induct) auto

lemma plan_parts_total:
  assumes g: "graph_ok g (Some registry)" and reg: "distinct (map mf_cell_id registry)"
    and ok: "\<And>m. m \<in> set registry \<Longrightarrow> mf_cell_id m \<in> used_cells g \<Longrightarrow>
      (\<exists>d. place pl m = Inr d) \<and> inputs_for m refs"
  shows "\<exists>p. plan_parts pl registry g refs = Inr p"
proof -
  let ?M = "dict_of (map (\<lambda>m. (mf_cell_id m, m)) registry)"
  let ?ids = "fromkeys (map gn_cell_id (gr_nodes g))"
  have total: "\<exists>ys. map_res f xs = Inr ys" if "\<And>x. x \<in> set xs \<Longrightarrow> \<exists>y. f x = Inr y"
    for f :: "'x \<Rightarrow> 'y res" and xs
    using that by (induction xs) (auto, metis sum.case(2))
  obtain v where v: "validate_cell_graph_definition g (Some registry) = Inr v"
    using g by (auto simp: validate_graph_decides)
  have used: "used_cells g \<subseteq> mf_cell_id ` set registry"
    using g unfolding graph_ok_def used_cells_def by blast
  have "\<exists>m. lookup_key ?M c = Inr m" if "c \<in> set ?ids" for c
  proof -
    have "c \<in> used_cells g" using that by (simp add: used_cells_def)
    then show ?thesis using used unfolding lookup_key_Inr registry_lookup[OF reg] by auto
  qed
  then obtain ms where ms: "map_res (lookup_key ?M) ?ids = Inr ms" using total by blast
  then have ms2: "list_all2 (\<lambda>c m. m \<in> set registry \<and> mf_cell_id m = c) ?ids ms"
    unfolding map_res_Inr lookup_key_Inr registry_lookup[OF reg] .
  then have ms3: "\<forall>m \<in> set ms. m \<in> set registry \<and> mf_cell_id m \<in> set ?ids"
    by (rule list_all2_right)
  have "\<exists>d. place pl m = Inr d" if "m \<in> set ms" for m
  proof -
    have "mf_cell_id m \<in> used_cells g" using ms3 that by (simp add: used_cells_def)
    then show ?thesis using ok ms3 that by blast
  qed
  then obtain ds where ds: "map_res (place pl) ms = Inr ds" using total by blast
  note pd = placed_decisions[OF reg ms[unfolded map_res_Inr] ds[unfolded map_res_Inr]]
  have dd: "distinct (map pd_cell_id ds)" using pd(1) by (simp add: placed_cells_def)
  have "\<exists>n. plan_graph_node ?M (dict_of (map (\<lambda>d. (pd_cell_id d, d)) ds)) refs gn = Inr n"
    if gn: "gn \<in> set (gr_nodes g)" for gn
  proof -
    have u: "gn_cell_id gn \<in> used_cells g" using gn by (simp add: used_cells_def)
    then obtain m where m: "m \<in> set registry" "mf_cell_id m = gn_cell_id gn"
      using used by (metis image_iff subsetD)
    from pd(2)[OF m(1)] m(2) u obtain d where d: "d \<in> set ds" "place pl m = Inr d" by auto
    have lm: "lookup_key ?M (gn_cell_id gn) = Inr m"
      unfolding lookup_key_Inr registry_lookup[OF reg] using m by blast
    have ld: "lookup_key (dict_of (map (\<lambda>d. (pd_cell_id d, d)) ds)) (gn_cell_id gn) = Inr d"
      unfolding lookup_key_Inr
      using key_map_lookup[OF dd] dd d place_Inr(1)[OF d(2)] m(2) by (simp add: dict_of_distinct comp_def)
    have "references_for_manifest m refs = Inr (chosen_refs m refs)"
      using ok[OF m(1)] m(2) u by (simp add: references_for_manifest_Inr)
    then show ?thesis by (simp add: plan_graph_node_def lm ld)
  qed
  then obtain ns where "map_res (plan_graph_node ?M (dict_of (map (\<lambda>d. (pd_cell_id d, d)) ds)) refs)
      (gr_nodes g) = Inr ns" using total by blast
  with v ms ds show ?thesis by (simp add: plan_parts_def)
qed

text \<open>With a policy that keeps its contract, a Cell with a candidate is placed.\<close>

lemma candidates_compatible: "filter (compatible m) (candidates_for c m) = candidates_for c m"
  by (rule filter_True) (simp add: compatible_def)

context placement_contract
begin

lemma place_total:
  assumes sel: "po_select (pl_policy pl) = select"
    and d: "distinct (map bd_binding_id (cg_bindings (pl_catalog pl)))"
    and ne: "candidates_for (pl_catalog pl) m \<noteq> []"
  shows "\<exists>dec. place pl m = Inr dec"
proof -
  let ?cs = "candidates_for (pl_catalog pl) m"
  have dc: "distinct (map bd_binding_id ?cs)" by (rule candidates_for_distinct[OF d])
  from available[OF dc, of m "Some (pl_snapshot pl)"] ne
  obtain dec where dec: "select m ?cs (Some (pl_snapshot pl)) = Inr dec"
    "pd_cell_id dec = mf_cell_id m" "pd_formula_version dec = mf_formula_version m"
    "set (decision_bindings dec) \<subseteq> set ?cs" "distinct (map bd_binding_id (decision_bindings dec))"
    unfolding candidates_compatible by blast
  have "\<not> list_ex (\<lambda>b. map_of (dict_of (map (\<lambda>b. (bd_binding_id b, b)) ?cs)) (bd_binding_id b) \<noteq> Some b)
      (decision_bindings dec)"
    using aware_lookup[OF dc] dec(4) unfolding list_ex_iff by blast
  then have "place pl m = Inr dec"
    unfolding place_def Let_def sel dec(1) bind_res_simps using dec(2,3,5) by (simp only: simp_thms if_False not_True_eq_False)
  then show ?thesis by blast
qed

end

subsection \<open>The plan is well formed\<close>

lemma planned_deps:
  "list_all2 (planned_node pl registry ds refs) gns ns \<Longrightarrow>
   plan_deps ns = graph_deps gns \<and> map en_node_id ns = map gn_node_id gns
   \<and> map en_cell_id ns = map gn_cell_id gns"
  by (induction rule: list_all2_induct)
    (auto simp: plan_deps_def graph_deps_def planned_node_def node_for_graph_node_def)

lemma list_all2_sets:
  assumes "list_all2 P xs ys"
  shows "y \<in> set ys \<Longrightarrow> \<exists>x \<in> set xs. P x y" and "x \<in> set xs \<Longrightarrow> \<exists>y \<in> set ys. P x y"
  using assms by (induction rule: list_all2_induct) auto

lemma decision_in_catalog:
  assumes "placed_cells pl registry g ds" "d \<in> set ds" "b \<in> set (decision_bindings d)"
  shows "b \<in> set (cg_bindings (pl_catalog pl))" "bd_cell_id b = pd_cell_id d"
    "bd_formula_version b = pd_formula_version d"
proof -
  obtain m where m: "place pl m = Inr d" using assms(1,2) by (auto simp: placed_cells_def)
  from place_Inr[OF m] assms(3) show "b \<in> set (cg_bindings (pl_catalog pl))"
    "bd_cell_id b = pd_cell_id d" "bd_formula_version b = pd_formula_version d" by auto
qed

lemma plan_bindings_lookup:
  assumes placed: "placed_cells pl registry g ds"
    and cat: "distinct (map bd_binding_id (cg_bindings (pl_catalog pl)))"
    and d: "d \<in> set ds" and b: "b \<in> set (decision_bindings d)"
  shows "b \<in> set (plan_bindings_of ds)"
proof -
  let ?all = "concat (map decision_bindings ds)"
  have "bd_binding_id b \<in> bd_binding_id ` set (plan_bindings_of ds)"
    using d b key_firsts[of bd_binding_id "{}" ?all] by (auto simp: plan_bindings_of_def)
  then obtain b' where b': "b' \<in> set (plan_bindings_of ds)" "bd_binding_id b' = bd_binding_id b" by auto
  then have "b' \<in> set ?all" using set_firsts[of bd_binding_id "{}" ?all] by (auto simp: plan_bindings_of_def)
  then have "b' \<in> set (cg_bindings (pl_catalog pl))" using decision_in_catalog(1)[OF placed] by auto
  with decision_in_catalog(1)[OF placed d b] b'(2) cat have "b' = b"
    by (metis inj_onD distinct_map)
  with b'(1) show ?thesis by simp
qed

text \<open>The references of a planned list of nodes are used exactly when a Cell requires their kind.\<close>

lemma planned_ref_used:
  assumes ns: "list_all2 (planned_node pl registry ds refs) (gr_nodes g) ns"
    and reg: "distinct (map mf_cell_id registry)" and refs: "distinct (map rf_reference_id refs)"
    and r: "r \<in> set refs"
  shows "(\<exists>n \<in> set ns. rf_reference_id r \<in> set (en_input_reference_ids n)) \<longleftrightarrow>
    (\<exists>m \<in> set registry. mf_cell_id m \<in> used_cells g \<and> rf_input_kind r \<in> set (mf_required_input_kinds m))"
    (is "?L \<longleftrightarrow> ?R")
proof
  assume ?L
  then obtain n where n: "n \<in> set ns" "rf_reference_id r \<in> set (en_input_reference_ids n)" by blast
  from list_all2_sets(1)[OF ns n(1)] obtain gn m where gn: "gn \<in> set (gr_nodes g)"
    and m: "m \<in> set registry" "mf_cell_id m = gn_cell_id gn" "inputs_for m refs"
    and ids: "en_input_reference_ids n = map rf_reference_id (chosen_refs m refs)"
    by (auto simp: planned_node_def node_for_graph_node_def)
  note c = chosen_refs_ok[OF m(3) refs]
  from n(2) ids obtain r' where r': "r' \<in> set (chosen_refs m refs)" "rf_reference_id r' = rf_reference_id r" by auto
  with c(1) r refs have "r' = r" by (metis inj_onD distinct_map subsetD)
  with r'(1) have "rf_input_kind r \<in> set (mf_required_input_kinds m)"
    unfolding c(2)[symmetric] by simp
  with m gn show ?R by (auto simp: used_cells_def)
next
  assume ?R
  then obtain m where m: "m \<in> set registry" "mf_cell_id m \<in> used_cells g"
    "rf_input_kind r \<in> set (mf_required_input_kinds m)" by blast
  then obtain gn where gn: "gn \<in> set (gr_nodes g)" "gn_cell_id gn = mf_cell_id m" by (auto simp: used_cells_def)
  from list_all2_sets(2)[OF ns gn(1)] obtain n m' where n: "n \<in> set ns"
    and m': "m' \<in> set registry" "mf_cell_id m' = gn_cell_id gn" "inputs_for m' refs"
    and ids: "en_input_reference_ids n = map rf_reference_id (chosen_refs m' refs)"
    by (auto simp: planned_node_def node_for_graph_node_def)
  have "m' = m" using m'(1,2) m(1) gn(2) reg by (metis inj_onD distinct_map)
  with chosen_refs_kind[OF m'(3) r] m(3) have "r \<in> set (chosen_refs m' refs)" by simp
  then have "rf_reference_id r \<in> set (en_input_reference_ids n)" unfolding ids by simp
  with n show ?L by blast
qed

lemma planned_node_ok:
  assumes g: "graph_ok g (Some registry)" and placed: "placed_cells pl registry g ds"
    and cat: "distinct (map bd_binding_id (cg_bindings (pl_catalog pl)))"
    and refs: "distinct (map rf_reference_id refs)"
    and gn: "gn \<in> set (gr_nodes g)" and n: "planned_node pl registry ds refs gn n"
    and p: "plan_ids p = graph_ids g" "ep_service_bindings p = plan_bindings_of ds"
      "ep_input_references p = refs"
  shows "node_dependencies_ok p n \<and> node_inputs_ok p n \<and> node_bindings_ok p n"
proof -
  from n obtain m d where m: "m \<in> set registry" "mf_cell_id m = gn_cell_id gn" "inputs_for m refs"
    and d: "d \<in> set ds" "place pl m = Inr d"
    and n': "n = node_for_graph_node gn m (bd_binding_id (pd_selected_binding d))
       (map bd_binding_id (pd_fallback_bindings d)) (bd_resource_hints (pd_selected_binding d))
       (chosen_refs m refs)" unfolding planned_node_def by blast
  have "node_ok g gn" using g gn unfolding graph_ok_def by blast
  then have deps: "node_dependencies_ok p n"
    unfolding node_ok_def node_dependencies_ok_def p(1) by (simp add: n' node_for_graph_node_def)
  note c = chosen_refs_ok[OF m(3) refs]
  have ins: "node_inputs_ok p n"
    unfolding node_inputs_ok_def p(3) using c m(3)
    by (auto simp: n' node_for_graph_node_def inputs_for_def simp del: c(2))
  have ids: "en_binding_id n # en_fallback_binding_ids n = map bd_binding_id (decision_bindings d)"
    by (simp add: n' node_for_graph_node_def decision_bindings_def)
  have bind: "node_bindings_ok p n"
    unfolding node_bindings_ok_def ids p(2)
  proof (intro conjI ballI)
    show "distinct (map bd_binding_id (decision_bindings d))" by (rule place_Inr(3)[OF d(2)])
    fix i assume "i \<in> set (map bd_binding_id (decision_bindings d))"
    then obtain b where b: "b \<in> set (decision_bindings d)" "bd_binding_id b = i" by auto
    have "b \<in> set (plan_bindings_of ds)" by (rule plan_bindings_lookup[OF placed cat d(1) b(1)])
    moreover have "bd_cell_id b = en_cell_id n" "bd_formula_version b = en_formula_version n"
      using decision_in_catalog(2,3)[OF placed d(1) b(1)] place_Inr(1,2)[OF d(2)]
      by (simp_all add: n' node_for_graph_node_def)
    ultimately show "\<exists>b \<in> set (plan_bindings_of ds). bd_binding_id b = i \<and> bd_cell_id b = en_cell_id n \<and>
        bd_formula_version b = en_formula_version n" using b(2) by blast
  qed
  from deps ins bind show ?thesis by blast
qed

definition assembled :: "planner \<Rightarrow> graph \<Rightarrow> request \<Rightarrow> reference list \<Rightarrow> decision list
  \<Rightarrow> exec_node list \<Rightarrow> exec_plan \<Rightarrow> bool" where
  "assembled pl g rq refs ds ns p \<longleftrightarrow> ep_target p = rq_target rq \<and> ep_horizon p = rq_horizon rq
     \<and> ep_root_node_id p = gr_root_node_id g \<and> ep_nodes p = ns \<and> ep_input_references p = refs
     \<and> ep_service_bindings p = plan_bindings_of ds"

lemma assembled_ok_iff:
  assumes g: "graph_ok g (Some registry)" and placed: "placed_cells pl registry g ds"
    and ns: "list_all2 (planned_node pl registry ds refs) (gr_nodes g) ns"
    and reg: "distinct (map mf_cell_id registry)"
    and cat: "distinct (map bd_binding_id (cg_bindings (pl_catalog pl)))"
    and p: "assembled pl g rq refs ds ns p"
  shows "plan_ok p \<longleftrightarrow> distinct (map rf_reference_id refs)
     \<and> (\<forall>r \<in> set refs. rf_target r = rq_target rq \<and> rf_horizon r = rq_horizon rq
         \<and> (\<exists>m \<in> set registry. mf_cell_id m \<in> used_cells g
              \<and> rf_input_kind r \<in> set (mf_required_input_kinds m)))"
    (is "_ \<longleftrightarrow> ?R")
proof -
  have f: "ep_target p = rq_target rq" "ep_horizon p = rq_horizon rq"
    "ep_root_node_id p = gr_root_node_id g" "ep_nodes p = ns" "ep_input_references p = refs"
    "ep_service_bindings p = plan_bindings_of ds"
    using p by (simp_all add: assembled_def)
  have deps: "plan_deps ns = graph_deps (gr_nodes g)" "map en_node_id ns = map gn_node_id (gr_nodes g)"
    using planned_deps[OF ns] by blast+
  have ids: "plan_ids p = graph_ids g"
    using arg_cong[OF deps(2), of set] by (simp add: plan_ids_def graph_ids_def f)
  have same: "en_node_id n = gn_node_id gn \<and> en_execution_role n = gn_execution_role gn"
    if "planned_node pl registry ds refs gn n" for gn n
    using that by (auto simp: planned_node_def node_for_graph_node_def)
  have c1: "distinct (map en_node_id ns)" using g unfolding deps(2) graph_ok_def by blast
  have c2: "distinct (map bd_binding_id (plan_bindings_of ds))"
    unfolding plan_bindings_of_def by (rule distinct_firsts)
  have c3: "\<exists>rt \<in> set ns. en_node_id rt = gr_root_node_id g \<and> en_execution_role rt = Root"
  proof -
    obtain gn where gn: "gn \<in> set (gr_nodes g)" "gn_node_id gn = gr_root_node_id g" "gn_execution_role gn = Root"
      using g unfolding graph_ok_def by blast
    from list_all2_sets(2)[OF ns gn(1)] same gn show ?thesis by metis
  qed
  have c4: "\<forall>n \<in> set ns. en_execution_role n = Root \<longrightarrow> en_node_id n = gr_root_node_id g"
  proof (intro ballI impI)
    fix n assume n: "n \<in> set ns" "en_execution_role n = Root"
    from list_all2_sets(1)[OF ns n(1)] obtain gn where gn: "gn \<in> set (gr_nodes g)"
      "planned_node pl registry ds refs gn n" by blast
    have "node_ok g gn" using g gn(1) unfolding graph_ok_def by blast
    then show "en_node_id n = gr_root_node_id g" using same[OF gn(2)] n(2) by (simp add: node_ok_def)
  qed
  have c5: "\<forall>n \<in> set ns. node_dependencies_ok p n \<and> node_inputs_ok p n \<and> node_bindings_ok p n"
    if "distinct (map rf_reference_id refs)"
    using list_all2_sets(1)[OF ns] planned_node_ok[OF g placed cat that _ _ ids f(6,5)] by blast
  have c6: "\<forall>b \<in> set (plan_bindings_of ds). \<exists>n \<in> set ns.
      bd_binding_id b \<in> set (en_binding_id n # en_fallback_binding_ids n)"
  proof
    fix b assume "b \<in> set (plan_bindings_of ds)"
    then have "b \<in> set (concat (map decision_bindings ds))"
      using set_firsts[of bd_binding_id "{}" "concat (map decision_bindings ds)"]
      unfolding plan_bindings_of_def by blast
    then obtain d where d: "d \<in> set ds" "b \<in> set (decision_bindings d)" by auto
    from placed d(1) obtain m where m: "m \<in> set registry" "mf_cell_id m \<in> used_cells g" "place pl m = Inr d"
      unfolding placed_cells_def by blast
    then obtain gn where gn: "gn \<in> set (gr_nodes g)" "gn_cell_id gn = mf_cell_id m" by (auto simp: used_cells_def)
    from list_all2_sets(2)[OF ns gn(1)] obtain n m' d' where n: "n \<in> set ns"
      and m': "m' \<in> set registry" "mf_cell_id m' = gn_cell_id gn" "place pl m' = Inr d'"
      and n': "en_binding_id n # en_fallback_binding_ids n = map bd_binding_id (decision_bindings d')"
      by (auto simp: planned_node_def node_for_graph_node_def decision_bindings_def)
    have "m' = m" using m'(1,2) m(1) gn(2) reg by (metis inj_onD distinct_map)
    with m(3) m'(3) have "d' = d" by simp
    with n' d(2) have "bd_binding_id b \<in> set (en_binding_id n # en_fallback_binding_ids n)" by simp
    with n show "\<exists>n \<in> set ns. bd_binding_id b \<in> set (en_binding_id n # en_fallback_binding_ids n)" by blast
  qed
  have c7: "acyclic (dep_rel (plan_deps ns))"
    "plan_ids p \<subseteq> reachable_from (plan_deps ns) [gr_root_node_id g]"
    using g unfolding deps(1) ids graph_ok_def by blast+
  show ?thesis
  proof (cases "distinct (map rf_reference_id refs)")
    case True
    have "plan_ok p \<longleftrightarrow> (\<forall>r \<in> set refs. rf_target r = rq_target rq \<and> rf_horizon r = rq_horizon rq)
      \<and> (\<forall>r \<in> set refs. \<exists>n \<in> set ns. rf_reference_id r \<in> set (en_input_reference_ids n))"
      unfolding plan_ok_def f using c1 c2 c3 c4 c5[OF True] c6 c7 True by blast
    then show ?thesis using planned_ref_used[OF ns reg True] True by blast
  next
    case False
    then show ?thesis unfolding plan_ok_def f by blast
  qed
qed

lemma plan_ok_metadata [simp]: "plan_ok (p\<lparr>ep_metadata := md\<rparr>) = plan_ok p"
  by (simp add: plan_ok_def plan_ids_def node_dependencies_ok_def node_inputs_ok_def node_bindings_ok_def)

lemma checked_plan_Inr:
  "checked_plan p0 = Inr p \<Longrightarrow> plan_ok p0 \<and> (\<exists>md. p = p0\<lparr>ep_metadata := md\<rparr>)"
  by (auto simp: checked_plan_def validate_plan_decides split: sum.splits)

lemma checked_plan_ok: "plan_ok p0 \<Longrightarrow> \<exists>p. checked_plan p0 = Inr p"
  by (auto simp: checked_plan_def validate_plan_decides split: sum.splits)
    (metis validate_plan_decides old.sum.distinct(1))

lemma assemble_plan_assembled:
  "assemble_plan E pl g rq refs (ms, ds, ns) w = (p, w') \<Longrightarrow> assembled pl g rq refs ds ns p"
  by (auto simp: assemble_plan_def assembled_def split_beta Let_def)

lemma build_plan_Inr:
  assumes "fst (build_plan E L pl registry rq go input_refs w) = Inr p"
  obtains refs ms ds ns p0 md where
    "plan_parts pl (registry_manifests registry) (chosen_graph go) refs = Inr (ms, ds, ns)"
    "assembled pl (chosen_graph go) rq refs ds ns p0" "plan_ok p0" "p = p0\<lparr>ep_metadata := md\<rparr>"
    "input_refs = [] \<or> refs = input_refs"
proof -
  obtain r w1 where r: "planner_references E L rq input_refs w = (r, w1)" by (meson surj_pair)
  obtain refs where refs: "r = Inr refs"
    using assms by (cases r) (simp_all add: build_plan_def r Let_def)
  have same: "input_refs = [] \<or> refs = input_refs"
    using r refs by (cases "input_refs = []") (simp_all add: planner_references_def)
  obtain ms ds ns where parts: "plan_parts pl (registry_manifests registry) (chosen_graph go) refs = Inr (ms, ds, ns)"
    using assms by (cases "plan_parts pl (registry_manifests registry) (chosen_graph go) refs")
      (auto simp: build_plan_def r refs Let_def)
  obtain p0 w2 where p0: "assemble_plan E pl (chosen_graph go) rq refs (ms, ds, ns) w1 = (p0, w2)"
    by (meson surj_pair)
  have "checked_plan p0 = Inr p" using assms by (simp add: build_plan_def r refs parts p0 Let_def)
  with checked_plan_Inr[of p0 p] assemble_plan_assembled[OF p0] parts same that show ?thesis by blast
qed

lemma build_plan_succeeds:
  assumes parts: "plan_parts pl (registry_manifests registry) g refs = Inr (ms, ds, ns)"
    and ne: "refs \<noteq> []" and ok: "\<And>p0. assembled pl g rq refs ds ns p0 \<Longrightarrow> plan_ok p0"
  shows "\<exists>p. fst (build_plan E L pl registry rq (Some g) refs w) = Inr p"
proof -
  obtain p0 w2 where p0: "assemble_plan E pl g rq refs (ms, ds, ns) w = (p0, w2)" by (meson surj_pair)
  obtain p where "checked_plan p0 = Inr p"
    using checked_plan_ok[OF ok[OF assemble_plan_assembled[OF p0]]] by blast
  then show ?thesis
    using ne by (simp add: build_plan_def planner_references_def chosen_graph_def parts p0 Let_def)
qed

text \<open>C2: With a registry of distinct Cells, a catalog of distinct bindings and the runtime-aware
  policy, the planner returns a plan exactly when the request can be planned: the graph is well
  formed over registered Cells, every Cell used has a candidate binding and exactly one reference
  of each kind it requires, and every reference is in scope, unique and required by a Cell.\<close>

theorem planner_decides:
  assumes "distinct (map cl_cell_id registry)" "distinct (map bd_binding_id (cg_bindings (pl_catalog pl)))"
    and "pl_policy pl = aware P" "refs \<noteq> []"
  shows "(\<exists>p. fst (build_plan E L pl registry rq (Some g) refs w) = Inr p) \<longleftrightarrow>
    plannable (pl_catalog pl) (registry_manifests registry) g rq refs" (is "?L \<longleftrightarrow> ?R")
proof
  have reg: "distinct (map mf_cell_id (registry_manifests registry))"
    using assms(1) by (simp add: registry_manifests_def comp_def cl_cell_id_def[abs_def])
  show ?R if ?L
  proof -
    from that obtain p where "fst (build_plan E L pl registry rq (Some g) refs w) = Inr p" by blast
    then obtain refs' ms ds ns p0 md where
      parts: "plan_parts pl (registry_manifests registry) (chosen_graph (Some g)) refs' = Inr (ms, ds, ns)"
      and as: "assembled pl (chosen_graph (Some g)) rq refs' ds ns p0" and ok: "plan_ok p0"
      and rr: "refs = [] \<or> refs' = refs" by (rule build_plan_Inr)
    have rr': "refs' = refs" and cg: "chosen_graph (Some g) = g"
      using rr assms(4) by (simp_all add: chosen_graph_def)
    note pp = plan_parts_Inr[OF parts[unfolded cg rr'] reg]
    have "candidates_for (pl_catalog pl) m \<noteq> [] \<and> inputs_for m refs"
      if "m \<in> set (registry_manifests registry)" "mf_cell_id m \<in> used_cells g" for m
    proof -
      from that(2) obtain gn where gn: "gn \<in> set (gr_nodes g)" "gn_cell_id gn = mf_cell_id m" by (auto simp: used_cells_def)
      from list_all2_sets(2)[OF pp(3) gn(1)] obtain m' d where m': "m' \<in> set (registry_manifests registry)"
        "mf_cell_id m' = gn_cell_id gn" "inputs_for m' refs" "place pl m' = Inr d"
        unfolding planned_node_def by blast
      then have "m' = m" using that(1) gn(2) reg by (metis inj_onD distinct_map)
      with m' place_candidates show ?thesis by blast
    qed
    then show ?thesis
      using pp(1) ok assembled_ok_iff[OF pp(1,2,3) reg assms(2) as[unfolded cg rr']]
      unfolding plannable_def by blast
  qed
  show ?L if ?R
  proof -
    have sel: "po_select (pl_policy pl) = aware_select P" by (simp add: assms(3) aware_def)
    have g: "graph_ok g (Some (registry_manifests registry))" using that unfolding plannable_def by blast
    have "(\<exists>d. place pl m = Inr d) \<and> inputs_for m refs"
      if "m \<in> set (registry_manifests registry)" "mf_cell_id m \<in> used_cells g" for m
      using aware.place_total[OF sel assms(2)] \<open>?R\<close> that unfolding plannable_def by blast
    from plan_parts_total[OF g reg this] obtain ms ds ns where
      parts: "plan_parts pl (registry_manifests registry) g refs = Inr (ms, ds, ns)"
      by (metis surj_pair)
    note pp = plan_parts_Inr[OF parts reg]
    have "plan_ok p0" if "assembled pl g rq refs ds ns p0" for p0
      using assembled_ok_iff[OF pp(1,2,3) reg assms(2) that] \<open>?R\<close> unfolding plannable_def by blast
    from build_plan_succeeds[OF parts assms(4) this] show ?thesis .
  qed
qed

lemma built_plan:
  assumes "fst (build_plan E L pl registry rq go refs w) = Inr p"
    and "distinct (map cl_cell_id registry)"
  shows "(\<exists>v. validate_execution_plan p = Inr v \<and> vp_plan v = p) \<and>
    map en_node_id (ep_nodes p) = map gn_node_id (gr_nodes (chosen_graph go)) \<and>
    plan_deps (ep_nodes p) = graph_deps (gr_nodes (chosen_graph go)) \<and>
    ep_target p = rq_target rq \<and> ep_horizon p = rq_horizon rq \<and>
    set (ep_service_bindings p) \<subseteq> set (cg_bindings (pl_catalog pl)) \<and>
    ep_root_node_id p = gr_root_node_id (chosen_graph go) \<and>
    map en_cell_id (ep_nodes p) = map gn_cell_id (gr_nodes (chosen_graph go))"
proof -
  from assms(1) obtain refs' ms ds ns p0 md where
    parts: "plan_parts pl (registry_manifests registry) (chosen_graph go) refs' = Inr (ms, ds, ns)"
    and as: "assembled pl (chosen_graph go) rq refs' ds ns p0" and ok: "plan_ok p0"
    and p: "p = p0\<lparr>ep_metadata := md\<rparr>" by (rule build_plan_Inr)
  have reg: "distinct (map mf_cell_id (registry_manifests registry))"
    using assms(2) by (simp add: registry_manifests_def comp_def cl_cell_id_def[abs_def])
  note pp = plan_parts_Inr[OF parts reg]
  have "plan_ok p" using ok by (simp add: p)
  then have v: "\<exists>v. validate_execution_plan p = Inr v \<and> vp_plan v = p" by (auto simp: validate_plan_decides)
  have "b \<in> set (cg_bindings (pl_catalog pl))" if "b \<in> set (plan_bindings_of ds)" for b
  proof -
    have "b \<in> set (concat (map decision_bindings ds))"
      using set_firsts[of bd_binding_id "{}" "concat (map decision_bindings ds)"] that
      unfolding plan_bindings_of_def by blast
    then show ?thesis using decision_in_catalog(1)[OF pp(2)] by auto
  qed
  with v planned_deps[OF pp(3)] as show ?thesis by (auto simp: p assembled_def)
qed

text \<open>C40: A plan the planner returns is well formed, so validating it again cannot fail; its nodes are
  the nodes of the graph in order, with their dependencies, its scope is the request's, and all its
  bindings come from the catalog.\<close>

theorem planned_plan_sound:
  assumes "fst (build_plan E L pl registry rq go refs w) = Inr p"
    and "distinct (map cl_cell_id registry)"
  shows "(\<exists>v. validate_execution_plan p = Inr v \<and> vp_plan v = p) \<and>
    map en_node_id (ep_nodes p) = map gn_node_id (gr_nodes (chosen_graph go)) \<and>
    plan_deps (ep_nodes p) = graph_deps (gr_nodes (chosen_graph go)) \<and>
    ep_target p = rq_target rq \<and> ep_horizon p = rq_horizon rq \<and>
    set (ep_service_bindings p) \<subseteq> set (cg_bindings (pl_catalog pl))"
  using built_plan[OF assms] by blast

subsection \<open>A concrete planner\<close>

definition sample_graph :: graph where
  "sample_graph = \<lparr>gr_graph_id = ''g'', gr_graph_version = ''1'', gr_name = ''g'',
     gr_root_node_id = ''node'', gr_nodes = [simple_node ''node'' ''cell'' Root []], gr_organs = [],
     gr_description = [], gr_schema_version = ''cell_graph_definition.v1'', gr_metadata = []\<rparr>"

definition sample_planner :: planner where
  "sample_planner = \<lparr>pl_catalog = \<lparr>cg_catalog_id = ''c'', cg_bindings = [sample_binding],
       cg_schema_version = ''v'', cg_generated_at = ''now'', cg_metadata = []\<rparr>,
     pl_policy = aware \<lparr>ap_minimum_trace_count = 5, ap_max_failure_rate = Fin (1 / 5)\<rparr>,
     pl_snapshot = \<lparr>ss_snapshot_id = [], ss_store = ''disabled'', ss_window_started_at = [],
       ss_window_ended_at = [], ss_generated_at = [], ss_trace_count = 0, ss_entries = [],
       ss_schema_version = []\<rparr>\<rparr>"

definition sample_refs :: "reference list" where
  "sample_refs = [to_reference sample_snapshot None []]"

lemma not_isl: "Sum_Type.isl x = False \<Longrightarrow> \<exists>y. x = Inr y"
  by (cases x) auto

lemma sample_planned:
  "\<exists>p. fst (build_plan tick_env echo_lib sample_planner [sample_cell] sample_request
     (Some sample_graph) sample_refs 0) = Inr p"
  by (rule not_isl) code_simp

lemma sample_catalog: "distinct (map bd_binding_id (cg_bindings (pl_catalog sample_planner)))"
  by (simp add: sample_planner_def)

lemma planner_decides_witness:
  "plannable (pl_catalog sample_planner) (registry_manifests [sample_cell]) sample_graph
     sample_request sample_refs"
proof -
  have "pl_policy sample_planner = aware \<lparr>ap_minimum_trace_count = 5, ap_max_failure_rate = Fin (1 / 5)\<rparr>"
    "sample_refs \<noteq> []" "distinct (map cl_cell_id [sample_cell])"
    by (simp_all add: sample_planner_def sample_refs_def)
  from planner_decides[OF this(3) sample_catalog this(1,2), of tick_env echo_lib sample_request
      sample_graph 0] sample_planned
  show ?thesis by blast
qed

lemma planned_plan_sound_witness:
  "\<exists>p v. fst (build_plan tick_env echo_lib sample_planner [sample_cell] sample_request
       (Some sample_graph) sample_refs 0) = Inr p
     \<and> validate_execution_plan p = Inr v \<and> map en_node_id (ep_nodes p) = [''node'']"
proof -
  obtain p where p: "fst (build_plan tick_env echo_lib sample_planner [sample_cell] sample_request
       (Some sample_graph) sample_refs 0) = Inr p" using sample_planned by blast
  have "distinct (map cl_cell_id [sample_cell])" by simp
  from planned_plan_sound[OF p this] p show ?thesis
    by (auto simp: chosen_graph_def sample_graph_def simple_node_def)
qed

end
