(* ===== verification/Runs.thy ===== *)
theory Runs
  imports Coordinator Planner
begin

section \<open>Runs, events and run metadata\<close>

text \<open>
  Models \<open>runs.py\<close>, \<open>events.py\<close> and the \<open>to_dict\<close> conversions that write the records of an
  execution into the metadata of its run. \<open>deepcopy\<close> is the identity on values. The event bus
  appends an event before it calls the handlers of its name and then those of \<open>"*"\<close>; the first
  handler that raises ends the emission, and the event stays. Handlers do not subscribe or emit.
\<close>

subsection \<open>Dictionaries\<close>

fun opt_int :: "int option \<Rightarrow> pyval" where
  "opt_int None = PNone"
| "opt_int (Some i) = PInt i"

definition manifest_dict :: "manifest \<Rightarrow> pyval" where
  "manifest_dict m = PDict
     [(''cell_id'', PStr (mf_cell_id m)), (''name'', PStr (mf_name m)),
      (''category'', PStr (mf_category m)), (''description'', PStr (mf_description m)),
      (''inputs'', strs (mf_inputs m)), (''outputs'', strs (mf_outputs m)),
      (''formula_version'', PStr (mf_formula_version m)),
      (''required_input_kinds'', strs (mf_required_input_kinds m)),
      (''risk_dimensions'', strs (mf_risk_dimensions m)), (''status'', PStr (mf_status m))]"

definition manifests_to_dicts :: "manifest list \<Rightarrow> pyval list" where
  "manifests_to_dicts ms = map manifest_dict ms"

definition formula_versions :: "manifest list \<Rightarrow> (string \<times> string) list" where
  "formula_versions ms = dict_of (map (\<lambda>m. (mf_cell_id m, mf_formula_version m)) ms)"

definition graph_to_dict :: "graph \<Rightarrow> pyval" where
  "graph_to_dict g = PDict
     [(''graph_id'', PStr (gr_graph_id g)), (''graph_version'', PStr (gr_graph_version g)),
      (''name'', PStr (gr_name g)), (''root_node_id'', PStr (gr_root_node_id g)),
      (''nodes'', PList (map (\<lambda>n. PDict
         [(''node_id'', PStr (gn_node_id n)), (''cell_id'', PStr (gn_cell_id n)),
          (''execution_role'', PStr (show_role (gn_execution_role n))),
          (''dependencies'', strs (gn_dependencies n)), (''metadata'', PDict (gn_metadata n))]) (gr_nodes g))),
      (''organs'', PList (map (\<lambda>o'. PDict
         [(''organ_id'', PStr (og_organ_id o')), (''organ_version'', PStr (og_organ_version o')),
          (''name'', PStr (og_name o')), (''node_ids'', strs (og_node_ids o')),
          (''output_node_ids'', strs (og_output_node_ids o')),
          (''description'', PStr (og_description o')), (''metadata'', PDict (og_metadata o'))]) (gr_organs g))),
      (''description'', PStr (gr_description g)), (''schema_version'', PStr (gr_schema_version g)),
      (''metadata'', PDict (gr_metadata g))]"

definition hints_to_dict :: "resource_hints \<Rightarrow> pyval" where
  "hints_to_dict h = PDict
     [(''cpu_weight'', PStr (rh_cpu_weight h)),
      (''latency_sensitivity'', PStr (rh_latency_sensitivity h)),
      (''stateful'', PBool (rh_stateful h)),
      (''expected_timeout_ms'', PInt (rh_expected_timeout_ms h)),
      (''max_retries'', PInt (rh_max_retries h))]"

definition binding_to_dict :: "binding \<Rightarrow> pyval" where
  "binding_to_dict b = PDict
     [(''implementation_id'', PStr (bd_implementation_id b)), (''cell_id'', PStr (bd_cell_id b)),
      (''service_id'', PStr (bd_service_id b)), (''runtime'', PStr (bd_runtime b)),
      (''language'', PStr (bd_language b)), (''formula_version'', PStr (bd_formula_version b)),
      (''endpoint'', opt_str (bd_endpoint b)), (''task_queue'', opt_str (bd_task_queue b)),
      (''priority'', PInt (bd_priority b)), (''capabilities'', strs (bd_capabilities b)),
      (''supports_batch'', PBool (bd_supports_batch b)),
      (''max_concurrency'', opt_int (bd_max_concurrency b)),
      (''resource_hints'', hints_to_dict (bd_resource_hints b)),
      (''binding_id'', PStr (bd_binding_id b))]"

definition node_to_dict :: "exec_node \<Rightarrow> pyval" where
  "node_to_dict n = PDict
     [(''node_id'', PStr (en_node_id n)), (''cell_id'', PStr (en_cell_id n)),
      (''formula_version'', PStr (en_formula_version n)),
      (''execution_role'', PStr (show_role (en_execution_role n))),
      (''binding_id'', PStr (en_binding_id n)),
      (''fallback_binding_ids'', strs (en_fallback_binding_ids n)),
      (''dependencies'', strs (en_dependencies n)),
      (''input_reference_ids'', strs (en_input_reference_ids n)),
      (''required_input_kinds'', strs (en_required_input_kinds n)),
      (''input_keys'', strs (en_input_keys n)), (''output_keys'', strs (en_output_keys n)),
      (''resource_hints'', hints_to_dict (en_resource_hints n)), (''metadata'', PDict (en_metadata n))]"

definition reference_to_dict :: "reference \<Rightarrow> pyval" where
  "reference_to_dict r = PDict
     [(''reference_id'', PStr (rf_reference_id r)), (''snapshot_id'', PStr (rf_snapshot_id r)),
      (''input_kind'', PStr (rf_input_kind r)), (''uri'', PStr (rf_uri r)),
      (''content_hash'', PStr (rf_content_hash r)), (''data_version'', PStr (rf_data_version r)),
      (''source'', PStr (rf_source r)), (''target'', PStr (rf_target r)),
      (''horizon'', PStr (rf_horizon r)), (''payload_size_bytes'', PInt (rf_payload_size_bytes r)),
      (''schema_version'', PStr (rf_schema_version r)), (''metadata'', PDict (rf_metadata r))]"

definition plan_to_dict :: "exec_plan \<Rightarrow> pyval" where
  "plan_to_dict p = PDict
     [(''plan_id'', PStr (ep_plan_id p)), (''target'', PStr (ep_target p)),
      (''horizon'', PStr (ep_horizon p)), (''root_node_id'', PStr (ep_root_node_id p)),
      (''nodes'', PList (map node_to_dict (ep_nodes p))),
      (''input_references'', PList (map reference_to_dict (ep_input_references p))),
      (''service_bindings'', PList (map binding_to_dict (ep_service_bindings p))),
      (''schema_version'', PStr (ep_schema_version p)), (''created_at'', PStr (ep_created_at p)),
      (''metadata'', PDict (ep_metadata p))]"

definition trace_to_dict :: "trace \<Rightarrow> pyval" where
  "trace_to_dict t = PDict
     [(''trace_id'', PStr (rt_trace_id t)), (''span_id'', PStr (rt_span_id t)),
      (''run_id'', PStr (rt_run_id t)), (''node_id'', PStr (rt_node_id t)),
      (''cell_id'', PStr (rt_cell_id t)), (''formula_version'', PStr (rt_formula_version t)),
      (''status'', PStr (show_trace_status (rt_status t))), (''started_at'', PStr (rt_started_at t)),
      (''finished_at'', PStr (rt_finished_at t)), (''duration_ms'', PFloat (rt_duration_ms t)),
      (''schema_version'', PStr (rt_schema_version t)), (''plan_id'', opt_str (rt_plan_id t)),
      (''implementation_id'', opt_str (rt_implementation_id t)),
      (''service_id'', opt_str (rt_service_id t)), (''runtime'', opt_str (rt_runtime t)),
      (''retry_count'', PInt (rt_retry_count t)), (''error'', opt_str (rt_error t)),
      (''parent_span_id'', opt_str (rt_parent_span_id t)), (''metadata'', PDict (rt_metadata t))]"

definition summary_to_dict :: "runtime_summary \<Rightarrow> pyval" where
  "summary_to_dict s = PDict
     [(''cell_id'', PStr (rs_cell_id s)), (''formula_version'', PStr (rs_formula_version s)),
      (''implementation_id'', opt_str (rs_implementation_id s)),
      (''service_id'', opt_str (rs_service_id s)), (''runtime'', opt_str (rs_runtime s)),
      (''trace_count'', PInt (int (rs_trace_count s))),
      (''succeeded_count'', PInt (int (rs_succeeded_count s))),
      (''failed_count'', PInt (int (rs_failed_count s))),
      (''skipped_count'', PInt (int (rs_skipped_count s))),
      (''average_duration_ms'', PFloat (rs_average_duration_ms s)),
      (''max_duration_ms'', PFloat (rs_max_duration_ms s)),
      (''min_duration_ms'', PFloat (rs_min_duration_ms s)),
      (''p95_duration_ms'', PFloat (rs_p95_duration_ms s)),
      (''error_count'', PInt (int (rs_error_count s))), (''retry_count'', PInt (rs_retry_count s)),
      (''schema_version'', PStr (rs_schema_version s))]"

definition resolution_to_dict :: "resolution_record \<Rightarrow> pyval" where
  "resolution_to_dict r = PDict
     [(''node_id'', PStr (ir_node_id r)), (''reference_id'', PStr (ir_reference_id r)),
      (''input_kind'', PStr (ir_input_kind r)), (''resolver'', PStr (ir_resolver r)),
      (''status'', PStr (case ir_status r of Res_succeeded \<Rightarrow> ''succeeded'' | Res_failed \<Rightarrow> ''failed'')),
      (''cache_hit'', PBool (ir_cache_hit r)),
      (''expected_content_hash'', PStr (ir_expected_content_hash r)),
      (''actual_content_hash'', opt_str (ir_actual_content_hash r)),
      (''expected_payload_size_bytes'', PInt (ir_expected_payload_size_bytes r)),
      (''actual_payload_size_bytes'', opt_int (ir_actual_payload_size_bytes r)),
      (''data_version'', PStr (ir_data_version r)), (''source'', PStr (ir_source r)),
      (''resolved_at'', PStr (ir_resolved_at r)), (''error'', opt_str (ir_error r)),
      (''schema_version'', PStr (ir_schema_version r))]"

definition attempt_to_dict :: "attempt \<Rightarrow> pyval" where
  "attempt_to_dict a = PDict
     [(''attempt_id'', PStr (ca_attempt_id a)), (''idempotency_key'', PStr (ca_idempotency_key a)),
      (''attempt_number'', PInt (ca_attempt_number a)),
      (''binding_attempt_number'', PInt (ca_binding_attempt_number a)),
      (''fallback_index'', PInt (ca_fallback_index a)), (''binding_id'', PStr (ca_binding_id a)),
      (''is_retry'', PBool (ca_is_retry a)), (''status'', PStr (show_attempt_status (ca_status a))),
      (''failure_kind'', opt_str (map_option show_failure_kind (ca_failure_kind a))),
      (''retryable'', PBool (ca_retryable a)), (''started_at'', PStr (ca_started_at a)),
      (''finished_at'', PStr (ca_finished_at a)), (''duration_ms'', PFloat (ca_duration_ms a)),
      (''trace_span_id'', opt_str (ca_trace_span_id a)),
      (''actual_implementation_id'', opt_str (ca_actual_implementation_id a)),
      (''actual_service_id'', opt_str (ca_actual_service_id a)),
      (''actual_runtime'', opt_str (ca_actual_runtime a)), (''error'', opt_str (ca_error a)),
      (''metadata'', PDict (ca_metadata a))]"

fun show_control_status :: "control_status \<Rightarrow> string" where
  "show_control_status CSucceeded = ''succeeded''"
| "show_control_status CFailed = ''failed''"
| "show_control_status CCanceled = ''canceled''"

text \<open>\<open>{**asdict(self), "attempts": [...]}\<close>.\<close>

definition control_to_dict :: "control_record \<Rightarrow> pyval" where
  "control_to_dict r = PDict
     [(''control_id'', PStr (ec_control_id r)), (''idempotency_key'', PStr (ec_idempotency_key r)),
      (''run_id'', PStr (ec_run_id r)), (''plan_id'', PStr (ec_plan_id r)),
      (''node_id'', PStr (ec_node_id r)), (''primary_binding_id'', PStr (ec_primary_binding_id r)),
      (''fallback_binding_ids'', strs (ec_fallback_binding_ids r)),
      (''status'', PStr (show_control_status (ec_status r))),
      (''attempts'', PList (map attempt_to_dict (ec_attempts r))),
      (''retry_count'', PInt (ec_retry_count r)), (''fallback_count'', PInt (ec_fallback_count r)),
      (''final_binding_id'', PStr (ec_final_binding_id r)),
      (''final_failure_kind'', opt_str (map_option show_failure_kind (ec_final_failure_kind r))),
      (''started_at'', PStr (ec_started_at r)), (''finished_at'', PStr (ec_finished_at r)),
      (''schema_version'', PStr (ec_schema_version r)), (''metadata'', PDict (ec_metadata r))]"

fun show_write_status :: "write_status \<Rightarrow> string" where
  "show_write_status WDisabled = ''disabled''"
| "show_write_status WSucceeded = ''succeeded''"
| "show_write_status WFailed = ''failed''"

definition write_to_dict :: "write_record \<Rightarrow> pyval" where
  "write_to_dict r = PDict
     [(''store'', PStr (wr_store r)), (''status'', PStr (show_write_status (wr_status r))),
      (''attempted_trace_count'', PInt (int (wr_attempted_trace_count r))),
      (''stored_trace_count'', PInt (int (wr_stored_trace_count r))),
      (''duplicate_trace_count'', PInt (int (wr_duplicate_trace_count r))),
      (''recorded_at'', PStr (wr_recorded_at r)), (''error'', opt_str (wr_error r)),
      (''schema_version'', PStr (wr_schema_version r))]"

subsection \<open>Runs\<close>

datatype run_status = Run_running | Run_succeeded | Run_failed

record run =
  ru_run_id :: string
  ru_target :: string
  ru_horizon :: string
  ru_engine_version :: string
  ru_input_hash :: string
  ru_input_snapshot :: pyval
  ru_input_snapshots :: "pyval list"
  ru_formula_versions :: "(string \<times> string) list"
  ru_cell_manifests :: "pyval list"
  ru_status :: run_status
  ru_started_at :: string
  ru_schema_version :: string
  ru_finished_at :: "string option"
  ru_report_id :: "string option"
  ru_error :: "string option"
  ru_metadata :: meta

definition engine_version :: string where
  "engine_version = ''0.1.0''"

definition run_inputs :: "stdlib \<Rightarrow> string \<Rightarrow> request \<Rightarrow> snapshot option \<Rightarrow> snapshot list option
  \<Rightarrow> snapshot list res" where
  "run_inputs L now rq replay_input replay_inputs =
     (case replay_inputs of
        Some ss \<Rightarrow> Inr ss
      | None \<Rightarrow> (case replay_input of
          Some s \<Rightarrow> Inr [s]
        | None \<Rightarrow> bind_res (snapshot_from_request L now rq ''analysis_request.v1'' ''analysis_request'' [])
            (\<lambda>s. Inr [s])))"

text \<open>The checks of \<open>AnalysisRun.start\<close>, in order, down to the primary input.\<close>

definition check_run_inputs :: "request \<Rightarrow> snapshot list \<Rightarrow> snapshot res" where
  "check_run_inputs rq inputs =
     (let requests = filter (\<lambda>s. sn_input_kind s = ''analysis_request'') inputs;
          primary = hd requests in
      if inputs = [] then raise PyValueError ''AnalysisRun requires at least one input snapshot''
      else if card (set (map sn_snapshot_id inputs)) \<noteq> length inputs
      then raise PyValueError ''AnalysisRun input snapshot ids must be unique''
      else if length (map sn_input_kind inputs) \<noteq> card (set (map sn_input_kind inputs))
      then raise PyValueError ''AnalysisRun input kinds must be unique''
      else if length requests \<noteq> 1
      then raise PyValueError ''AnalysisRun requires exactly one analysis_request input snapshot''
      else if list_ex (\<lambda>s. sn_target s \<noteq> rq_target rq \<or> sn_horizon s \<noteq> rq_horizon rq) inputs
      then raise PyValueError ''AnalysisRun input snapshot does not match the request scope''
      else if sn_payload primary \<noteq> request_dict rq
      then raise PyValueError ''AnalysisRun analysis_request snapshot does not match the request payload''
      else Inr primary)"

definition start_run :: "'w env \<Rightarrow> stdlib \<Rightarrow> request \<Rightarrow> manifest list \<Rightarrow> meta \<Rightarrow> snapshot option
  \<Rightarrow> snapshot list option \<Rightarrow> 'w \<Rightarrow> run res \<times> 'w" where
  "start_run E L rq ms metadata replay_input replay_inputs w =
     (if replay_input \<noteq> None \<and> replay_inputs \<noteq> None
      then (raise PyValueError ''provide replay_input or replay_inputs, not both'', w)
      else
        let (now, w0) = (if replay_input = None \<and> replay_inputs = None then env_now E w else ([], w)) in
        case run_inputs L now rq replay_input replay_inputs of
          Inl e \<Rightarrow> (Inl e, w0)
        | Inr inputs \<Rightarrow>
           (case check_run_inputs rq inputs of
              Inl e \<Rightarrow> (Inl e, w0)
            | Inr primary \<Rightarrow>
               (let (u, w1) = env_uuid E w0; (started, w2) = env_now E w1 in
                (Inr \<lparr>ru_run_id = u, ru_target = rq_target rq, ru_horizon = rq_horizon rq,
                  ru_engine_version = engine_version, ru_input_hash = sn_content_hash primary,
                  ru_input_snapshot = sn_payload primary,
                  ru_input_snapshots = map (\<lambda>s. PDict (snapshot_to_dict s)) inputs,
                  ru_formula_versions = formula_versions ms,
                  ru_cell_manifests = manifests_to_dicts ms, ru_status = Run_running,
                  ru_started_at = started, ru_schema_version = ''analysis_run.v2'',
                  ru_finished_at = None, ru_report_id = None, ru_error = None,
                  ru_metadata = metadata\<rparr>, w2))))"

definition complete_run :: "'w env \<Rightarrow> run \<Rightarrow> string \<Rightarrow> 'w \<Rightarrow> run \<times> 'w" where
  "complete_run E r report_id w = (let (now, w') = env_now E w in
     (r\<lparr>ru_status := Run_succeeded, ru_finished_at := Some now, ru_report_id := Some report_id\<rparr>, w'))"

definition fail_run :: "'w env \<Rightarrow> run \<Rightarrow> string \<Rightarrow> 'w \<Rightarrow> run \<times> 'w" where
  "fail_run E r error w = (let (now, w') = env_now E w in
     (r\<lparr>ru_status := Run_failed, ru_finished_at := Some now, ru_error := Some error\<rparr>, w'))"

definition with_metadata :: "run \<Rightarrow> meta \<Rightarrow> run" where
  "with_metadata r md = r\<lparr>ru_metadata := dict_merge (ru_metadata r) md\<rparr>"

subsection \<open>The event bus\<close>

record event =
  me_name :: string
  me_payload :: meta
  me_created_at :: string

text \<open>
  The world of a run: the events emitted so far, the local input resolver of the run, the admission
  controller of the engine's own executor, and the rest, on which the clock, the Cells, the stores and the handlers act.
\<close>

record 'v eworld =
  ew_events :: "event list"
  ew_resolver :: resolver
  ew_admission :: admission_state
  ew_rest :: 'v

type_synonym 'w handler = "event \<Rightarrow> 'w \<Rightarrow> exc option \<times> 'w"
type_synonym 'w bus = "(string \<times> 'w handler list) list"

definition subscribe :: "string \<Rightarrow> 'w handler \<Rightarrow> 'w bus \<Rightarrow> 'w bus" where
  "subscribe name h b = group_add name h b"

definition handlers_of :: "'w bus \<Rightarrow> string \<Rightarrow> 'w handler list" where
  "handlers_of b name = (case map_of b name of None \<Rightarrow> [] | Some hs \<Rightarrow> hs)"

fun run_handlers :: "'w handler list \<Rightarrow> event \<Rightarrow> 'w \<Rightarrow> exc option \<times> 'w" where
  "run_handlers [] ev w = (None, w)"
| "run_handlers (h # hs) ev w =
     (case h ev w of (Some e, w') \<Rightarrow> (Some e, w') | (None, w') \<Rightarrow> run_handlers hs ev w')"

definition emit :: "'v eworld env \<Rightarrow> 'v eworld bus \<Rightarrow> string \<Rightarrow> meta \<Rightarrow> 'v eworld
  \<Rightarrow> exc option \<times> 'v eworld" where
  "emit E b name payload w =
     (let (now, w1) = env_now E w;
          ev = \<lparr>me_name = name, me_payload = payload, me_created_at = now\<rparr>
      in run_handlers (handlers_of b name @ handlers_of b ''*'') ev
           (w1\<lparr>ew_events := ew_events w1 @ [ev]\<rparr>))"

subsection \<open>What they promise\<close>

text \<open>\<open>with_metadata\<close> keeps every entry the new metadata does not name, and the run's identity.\<close>

lemma with_metadata_lookup:
  "map_of (ru_metadata (with_metadata r md)) k =
   (case map_of (rev md) k of Some v \<Rightarrow> Some v | None \<Rightarrow> map_of (ru_metadata r) k)"
  by (simp add: with_metadata_def map_of_dict_merge map_add_def)

lemma with_metadata_sel [simp]:
  "ru_run_id (with_metadata r md) = ru_run_id r" "ru_status (with_metadata r md) = ru_status r"
  "ru_target (with_metadata r md) = ru_target r" "ru_error (with_metadata r md) = ru_error r"
  "ru_formula_versions (with_metadata r md) = ru_formula_versions r"
  by (simp_all add: with_metadata_def)

lemma complete_run_sel:
  "complete_run E r i w = (r', w') \<Longrightarrow> ru_run_id r' = ru_run_id r \<and> ru_status r' = Run_succeeded
     \<and> ru_report_id r' = Some i \<and> ru_metadata r' = ru_metadata r \<and> ru_finished_at r' \<noteq> None
     \<and> ru_formula_versions r' = ru_formula_versions r \<and> w' = snd (env_now E w)"
  by (auto simp: complete_run_def split_beta Let_def)

lemma fail_run_sel:
  "fail_run E r e w = (r', w') \<Longrightarrow> ru_run_id r' = ru_run_id r \<and> ru_status r' = Run_failed
     \<and> ru_error r' = Some e \<and> ru_metadata r' = ru_metadata r \<and> ru_finished_at r' \<noteq> None
     \<and> w' = snd (env_now E w)"
  by (auto simp: fail_run_def split_beta Let_def)

text \<open>The inputs a run starts from: one request snapshot, in scope, that is the request itself.\<close>

definition run_inputs_ok :: "request \<Rightarrow> snapshot list \<Rightarrow> snapshot \<Rightarrow> bool" where
  "run_inputs_ok rq inputs p \<longleftrightarrow> distinct (map sn_snapshot_id inputs) \<and> distinct (map sn_input_kind inputs)
     \<and> p \<in> set inputs \<and> sn_input_kind p = ''analysis_request'' \<and> sn_payload p = request_dict rq
     \<and> (\<forall>s \<in> set inputs. sn_target s = rq_target rq \<and> sn_horizon s = rq_horizon rq)"

lemma check_run_inputs_decides: "check_run_inputs rq inputs = Inr p \<longleftrightarrow> run_inputs_ok rq inputs p"
proof
  let ?f = "filter (\<lambda>s. sn_input_kind s = ''analysis_request'') inputs"
  assume *: "check_run_inputs rq inputs = Inr p"
  then have c: "card (set (map sn_snapshot_id inputs)) = length inputs"
    "length (map sn_input_kind inputs) = card (set (map sn_input_kind inputs))" "length ?f = 1"
    "\<not> list_ex (\<lambda>s. sn_target s \<noteq> rq_target rq \<or> sn_horizon s \<noteq> rq_horizon rq) inputs"
    and pay: "sn_payload (hd ?f) = request_dict rq" and hd: "p = hd ?f"
    unfolding check_run_inputs_def Let_def guard_Inr not_not sum.inject by blast+
  have "hd ?f \<in> set ?f" using c(3) by (metis hd_in_set length_0_conv zero_neq_one)
  moreover have "distinct (map sn_snapshot_id inputs)" using c(1) by (metis card_distinct length_map)
  moreover have "distinct (map sn_input_kind inputs)" using c(2) by (metis card_distinct)
  ultimately show "run_inputs_ok rq inputs p"
    using c(4) pay hd by (auto simp: run_inputs_ok_def list_ex_iff)
next
  let ?f = "filter (\<lambda>s. sn_input_kind s = ''analysis_request'') inputs"
  assume ok: "run_inputs_ok rq inputs p"
  have p: "p \<in> set inputs" "sn_input_kind p = ''analysis_request''" using ok by (simp_all add: run_inputs_ok_def)
  have d: "distinct (map sn_input_kind ?f)" using ok by (simp add: run_inputs_ok_def distinct_map_filter)
  have "length ?f \<le> 1"
  proof (rule ccontr)
    assume "\<not> length ?f \<le> 1"
    then obtain a b rest where ab: "?f = a # b # rest" by (cases ?f; cases "tl ?f") auto
    then have "a \<in> set ?f" "b \<in> set ?f" by simp_all
    then have "sn_input_kind a = sn_input_kind b" by simp
    with d ab show False by simp
  qed
  moreover have "p \<in> set ?f" using p by simp
  ultimately have f: "?f = [p]" by (cases ?f; cases "tl ?f") auto
  show "check_run_inputs rq inputs = Inr p"
    using ok p f distinct_card[of "map sn_snapshot_id inputs"] distinct_card[of "map sn_input_kind inputs"]
    unfolding check_run_inputs_def Let_def guard_Inr
    by (auto simp: run_inputs_ok_def list_ex_iff simp del: set_map)
qed

end
