(* ===== verification/Scoring.thy ===== *)
theory Scoring
  imports Telemetry Float_Order
begin

section \<open>Scores and market features\<close>

text \<open>
  Models \<open>scoring.py\<close> and \<open>features/market.py\<close>: the arithmetic every Cell shares. Numbers are
  binary64, also where the code mixes in small integers, which are exact. A division is written
  with the guard of the code; \<open>fdiv\<close> is only applied to a divisor that is not zero. Texts that are
  not ASCII, and the \<open>:.2f\<close> conversions, are the fields of a record \<open>wording\<close>.
\<close>

subsection \<open>Arithmetic\<close>

fun fdiv :: "pyfloat \<Rightarrow> pyfloat \<Rightarrow> pyfloat" where
  "fdiv (Fin a) (Fin b) = b64 (a / b)"
| "fdiv NaN _ = NaN"
| "fdiv _ NaN = NaN"
| "fdiv (Inf p) (Inf q) = NaN"
| "fdiv (Inf p) (Fin b) = Inf (p = (b \<ge> 0))"
| "fdiv (Fin a) (Inf q) = Fin 0"

fun fabs :: "pyfloat \<Rightarrow> pyfloat" where
  "fabs (Fin a) = Fin \<bar>a\<bar>"
| "fabs (Inf p) = Inf True"
| "fabs NaN = NaN"

definition fnum :: "nat \<Rightarrow> pyfloat" where
  "fnum n = Fin (of_nat n)"

text \<open>\<open>max\<close> of an iterable, with its \<open>default\<close>, and the truth value of a number.\<close>

fun fmax_list :: "pyfloat \<Rightarrow> pyfloat list \<Rightarrow> pyfloat" where
  "fmax_list d [] = d"
| "fmax_list d (x # xs) = foldl fmax x xs"

definition truthy :: "pyfloat \<Rightarrow> bool" where
  "truthy x \<longleftrightarrow> x \<noteq> Fin 0"

definition clamp :: "pyfloat \<Rightarrow> pyfloat \<Rightarrow> pyfloat \<Rightarrow> pyfloat" where
  "clamp v lo hi = fmax lo (fmin hi v)"

abbreviation clamp100 :: "pyfloat \<Rightarrow> pyfloat" where
  "clamp100 v \<equiv> clamp v (Fin 0) (Fin 100)"

subsection \<open>Scores\<close>

fun direction_value :: "direction \<Rightarrow> pyfloat" where
  "direction_value Bullish = Fin 1"
| "direction_value Bearish = Fin (- 1)"
| "direction_value Neutral = Fin 0"
| "direction_value Conflict = Fin 0"

definition score :: "direction \<Rightarrow> pyfloat \<Rightarrow> pyfloat \<Rightarrow> pyfloat" where
  "score d strength confidence =
     py_round 4 (fdiv (fmul (fmul (direction_value d) (clamp100 strength)) (clamp100 confidence)) (Fin 100))"

definition direction_from_score :: "pyfloat \<Rightarrow> pyfloat \<Rightarrow> pyfloat \<Rightarrow> direction" where
  "direction_from_score v bullish bearish =
     (if fle bullish v then Bullish
      else if fle v bearish then Bearish
      else if flt (fabs v) (Fin 4) then Neutral
      else Conflict)"

text \<open>The loop of \<open>weighted_average\<close>, with the two accumulators.\<close>

definition weight_of :: "(string \<times> pyfloat) list \<Rightarrow> string \<Rightarrow> pyfloat" where
  "weight_of weights cid = (case map_of weights cid of None \<Rightarrow> Fin 1 | Some w \<Rightarrow> w)"

definition weighted_average :: "cell_result list \<Rightarrow> (string \<times> pyfloat) list \<Rightarrow> pyfloat" where
  "weighted_average results weights =
     (let (total, total_weight) = foldl (\<lambda>(t, tw) r. let w = weight_of weights (cr_cell_id r) in
            (fadd t (fmul (cr_score r) w), fadd tw w)) (Fin 0, Fin 0) results
      in if \<not> truthy total_weight then Fin 0 else py_round 4 (fdiv total total_weight))"

subsection \<open>Features\<close>

record features =
  ft_candle_count :: nat
  ft_first_close :: "pyfloat option"
  ft_last_close :: "pyfloat option"
  ft_close_change_pct :: pyfloat
  ft_latest_close_change :: pyfloat
  ft_previous_average_volume :: pyfloat
  ft_latest_volume_ratio :: pyfloat
  ft_average_range_pct :: pyfloat
  ft_latest_range_pct :: pyfloat
  ft_latest_wick_ratio :: pyfloat
  ft_total_move_pct :: pyfloat
  ft_path_distance_pct :: pyfloat
  ft_trend_efficiency :: pyfloat
  ft_feature_version :: string
  ft_source_input_hash :: "string option"
  ft_schema_version :: string

definition feature_version :: string where
  "feature_version = ''market_features_v0.1''"

definition empty_features :: "string option \<Rightarrow> features" where
  "empty_features h = \<lparr>ft_candle_count = 0, ft_first_close = None, ft_last_close = None,
     ft_close_change_pct = Fin 0, ft_latest_close_change = Fin 0, ft_previous_average_volume = Fin 0,
     ft_latest_volume_ratio = Fin 1, ft_average_range_pct = Fin 0, ft_latest_range_pct = Fin 0,
     ft_latest_wick_ratio = Fin 0, ft_total_move_pct = Fin 0, ft_path_distance_pct = Fin 0,
     ft_trend_efficiency = Fin 0, ft_feature_version = feature_version, ft_source_input_hash = h,
     ft_schema_version = ''feature_snapshot.v1''\<rparr>"

text \<open>\<open>x / y * 100\<close>, and the mean of a list.\<close>

definition pct :: "pyfloat \<Rightarrow> pyfloat \<Rightarrow> pyfloat" where
  "pct x y = fmul (fdiv x y) (Fin 100)"

definition range_pct :: "candle \<Rightarrow> pyfloat" where
  "range_pct c = pct (fsub (cd_high c) (cd_low c)) (cd_close c)"

definition mean :: "pyfloat list \<Rightarrow> pyfloat" where
  "mean xs = (if xs = [] then Fin 0 else fdiv_nat (fsum xs) (length xs))"

definition step_moves :: "pyfloat list \<Rightarrow> pyfloat list" where
  "step_moves closes = map (\<lambda>(p, c). fabs (pct (fsub c p) p))
     (filter (\<lambda>(p, c). truthy p) (zip closes (tl closes)))"

definition wick_ratio :: "candle \<Rightarrow> pyfloat" where
  "wick_ratio c =
     (let body = fabs (fsub (cd_close c) (cd_open c)); span' = fsub (cd_high c) (cd_low c);
          wick = fmax (fsub span' body) (Fin 0)
      in if truthy span' then fdiv wick span' else Fin 0)"

definition build_feature_snapshot :: "candle list \<Rightarrow> string option \<Rightarrow> features" where
  "build_feature_snapshot candles h =
     (if candles = [] then empty_features h
      else
        let first' = hd candles; latest = last candles; previous = butlast candles;
            change = (if truthy (cd_close first')
              then pct (fsub (cd_close latest) (cd_close first')) (cd_close first') else Fin 0);
            average_volume = mean (map cd_volume previous);
            path = fsum (step_moves (map cd_close candles))
        in \<lparr>ft_candle_count = length candles, ft_first_close = Some (cd_close first'),
          ft_last_close = Some (cd_close latest), ft_close_change_pct = change,
          ft_latest_close_change = (if length candles \<ge> 2
            then fsub (cd_close latest) (cd_close (candles ! (length candles - 2))) else Fin 0),
          ft_previous_average_volume = average_volume,
          ft_latest_volume_ratio = (if truthy average_volume then fdiv (cd_volume latest) average_volume else Fin 1),
          ft_average_range_pct = mean (map range_pct (filter (\<lambda>c. truthy (cd_close c)) candles)),
          ft_latest_range_pct = (if truthy (cd_close latest) then range_pct latest else Fin 0),
          ft_latest_wick_ratio = wick_ratio latest, ft_total_move_pct = change,
          ft_path_distance_pct = path,
          ft_trend_efficiency = (if truthy path then clamp (fdiv (fabs change) path) (Fin 0) (Fin 1) else Fin 0),
          ft_feature_version = feature_version, ft_source_input_hash = h,
          ft_schema_version = ''feature_snapshot.v1''\<rparr>)"

text \<open>The sign a score must have for its direction.\<close>

fun signed_as :: "direction \<Rightarrow> pyfloat \<Rightarrow> bool" where
  "signed_as Bullish x = fle (Fin 0) x"
| "signed_as Bearish x = fle x (Fin 0)"
| "signed_as _ x = (x = Fin 0)"

subsection \<open>Texts and evidence\<close>

text \<open>
  The texts that are not ASCII are looked up by a key; \<open>wd_fixed n x\<close> is \<open>f"{x:.nf}"\<close> and \<open>wd_str x\<close>
  is \<open>str(x)\<close>.
\<close>

record wording =
  wd_text :: "string \<Rightarrow> string"
  wd_fixed :: "nat \<Rightarrow> pyfloat \<Rightarrow> string"
  wd_str :: "pyfloat \<Rightarrow> string"

definition evidence_of :: "string \<Rightarrow> string \<Rightarrow> evidence" where
  "evidence_of source summary = \<lparr>evd_source = source, evd_summary = summary, evd_weight = Fin 1,
     evd_freshness = Fin 100, evd_reliability = Fin 70\<rparr>"

fun show_direction :: "direction \<Rightarrow> string" where
  "show_direction Bullish = ''bullish''"
| "show_direction Bearish = ''bearish''"
| "show_direction Neutral = ''neutral''"
| "show_direction Conflict = ''conflict''"

subsection \<open>Bounds\<close>

text \<open>A finite number between two bounds.\<close>

fun in_range :: "rat \<Rightarrow> rat \<Rightarrow> pyfloat \<Rightarrow> bool" where
  "in_range l h (Fin x) = (l \<le> x \<and> x \<le> h)"
| "in_range l h _ = False"

named_theorems range_intros

lemma in_rangeE: "in_range l h x \<Longrightarrow> (\<And>q. x = Fin q \<Longrightarrow> l \<le> q \<Longrightarrow> q \<le> h \<Longrightarrow> P) \<Longrightarrow> P"
  by (cases x) auto

lemma in_range_mono: "in_range l h x \<Longrightarrow> l' \<le> l \<Longrightarrow> h \<le> h' \<Longrightarrow> in_range l' h' x"
  by (cases x) auto

lemma clamp_in_range [range_intros]: "l \<le> h \<Longrightarrow> in_range l h (clamp v (Fin l) (Fin h))"
  by (cases v) (auto simp: clamp_def fmax_def fmin_def)

lemma clamp_id: "in_range l h v \<Longrightarrow> clamp v (Fin l) (Fin h) = v"
  by (elim in_rangeE) (auto simp: clamp_def fmax_def fmin_def)

lemma b64_in_range:
  assumes "b64 l = Fin l" "b64 h = Fin h" "l \<le> x" "x \<le> h"
  shows "in_range l h (b64 x)"
  using b64_between[OF assms] by auto

lemma b64_num: "b64 (numeral n) = Fin (numeral n)" if "numeral n < (2 :: int) ^ 53"
  using b64_int[of "numeral n"] that by simp

lemma b64_neg_num: "b64 (- numeral n) = Fin (- numeral n)" if "numeral n < (2 :: int) ^ 53"
  using b64_num[OF that] b64_minus[of "numeral n"] by simp

lemma py_round_in_range:
  "in_range (of_int l) (of_int h) x \<Longrightarrow> b64 (of_int l) = Fin (of_int l) \<Longrightarrow> b64 (of_int h) = Fin (of_int h)
   \<Longrightarrow> in_range (of_int l) (of_int h) (py_round n x)"
  by (elim in_rangeE, drule (3) py_round_between[of l _ h n]) (auto simp del: py_round.simps)

lemma py_round_percent [range_intros]: "in_range 0 100 x \<Longrightarrow> in_range 0 100 (py_round n x)"
  using py_round_in_range[of 0 100 x n] by (simp add: b64_num)

lemma py_round_score [range_intros]: "in_range (- 100) 100 x \<Longrightarrow> in_range (- 100) 100 (py_round n x)"
  using py_round_in_range[of "- 100" 100 x n] by (simp add: b64_num b64_neg_num)

lemma round_half_even_0 [simp]: "round_half_even 0 = 0"
  using round_half_even_int[of 0] by simp

lemma py_round_neg: "in_range (- 100) 0 x \<Longrightarrow> in_range (- 100) 0 (py_round n x)"
  using py_round_in_range[of "- 100" 0 x n] by (simp add: b64_neg_num)

lemma scaled_product:
  assumes "0 \<le> a" "a \<le> 100" "0 \<le> b" "b \<le> 100"
  shows "in_range 0 100 (fdiv (fmul (fmul (Fin 1) (Fin a)) (Fin b)) (Fin 100))"
    and "in_range (- 100) 0 (fdiv (fmul (fmul (Fin (- 1)) (Fin a)) (Fin b)) (Fin 100))"
proof -
  have "in_range 0 100 (b64 a)" using assms by (intro b64_in_range) (auto simp: b64_num)
  then obtain x where x: "b64 a = Fin x" "0 \<le> x" "x \<le> 100" by (auto elim: in_rangeE)
  have "x * b \<le> 100 * 100" using x assms by (intro mult_mono) auto
  then have "in_range 0 10000 (b64 (x * b))" using x assms by (intro b64_in_range) (auto simp: b64_num)
  then obtain y where y: "b64 (x * b) = Fin y" "0 \<le> y" "y \<le> 10000" by (auto elim: in_rangeE)
  have r: "in_range 0 100 (b64 (y / 100))" using y by (intro b64_in_range) (auto simp: b64_num)
  with x y show "in_range 0 100 (fdiv (fmul (fmul (Fin 1) (Fin a)) (Fin b)) (Fin 100))" by simp
  have "b64 (- a) = Fin (- x)" "b64 (- (x * b)) = Fin (- y)" using x y by (simp_all add: b64_minus)
  moreover from r have "in_range (- 100) 0 (b64 (- (y / 100)))" by (auto simp: b64_minus elim: in_rangeE)
  ultimately show "in_range (- 100) 0 (fdiv (fmul (fmul (Fin (- 1)) (Fin a)) (Fin b)) (Fin 100))" by simp
qed

lemma score_signed: "in_range (- 100) 100 (score d s c) \<and> signed_as d (score d s c)"
proof -
  obtain a where a: "clamp100 s = Fin a" "0 \<le> a" "a \<le> 100" using clamp_in_range[of 0 100 s] by (auto elim: in_rangeE)
  obtain b where b: "clamp100 c = Fin b" "0 \<le> b" "b \<le> 100" using clamp_in_range[of 0 100 c] by (auto elim: in_rangeE)
  show ?thesis
  proof (cases d)
    case Bullish
    have "in_range 0 100 (score d s c)" unfolding score_def
      by (intro py_round_percent) (use scaled_product(1)[OF a(2,3) b(2,3)] a(1) b(1) Bullish in simp)
    then show ?thesis using Bullish by (auto elim: in_rangeE)
  next
    case Bearish
    have "in_range (- 100) 0 (score d s c)" unfolding score_def
      by (intro py_round_neg) (use scaled_product(2)[OF a(2,3) b(2,3)] a(1) b(1) Bearish in simp)
    then show ?thesis using Bearish by (auto elim: in_rangeE)
  next
    case Neutral
    then show ?thesis by (simp add: score_def a b)
  next
    case Conflict
    then show ?thesis by (simp add: score_def a b)
  qed
qed

lemmas score_in_range [range_intros] = conjunct1[OF score_signed]

lemma fmax_in_range [range_intros]: "in_range l h a \<Longrightarrow> in_range l h b \<Longrightarrow> in_range l h (fmax a b)"
  by (simp add: fmax_def)

lemma fmax_list_in_range [range_intros]:
  assumes "list_all (in_range l h) xs" "in_range l h d"
  shows "in_range l h (fmax_list d xs)"
proof -
  have "in_range l h (foldl fmax x ys)" if "in_range l h x" "list_all (in_range l h) ys" for x ys
    using that by (induction ys arbitrary: x) (auto intro: fmax_in_range)
  with assms show ?thesis by (cases xs) auto
qed

text \<open>\<open>max\<close> of an iterable is one of its members and none is larger.\<close>

lemma fmax_list_member: "xs \<noteq> [] \<Longrightarrow> fmax_list d xs \<in> set xs"
proof -
  have "foldl fmax x ys \<in> insert x (set ys)" for x ys
  proof (induction ys arbitrary: x)
    case (Cons y ys)
    from Cons.IH[of "fmax x y"] show ?case by (auto simp: fmax_def split: if_splits)
  qed simp
  then show "xs \<noteq> [] \<Longrightarrow> fmax_list d xs \<in> set xs" by (cases xs) auto
qed

lemma fmax_ge_both: "x \<noteq> NaN \<Longrightarrow> y \<noteq> NaN \<Longrightarrow> fle x (fmax x y) \<and> fle y (fmax x y)"
  by (cases x; cases y) (auto simp: fmax_def)

lemma fle_trans: "fle x y \<Longrightarrow> fle y z \<Longrightarrow> fle x z"
  by (cases x; cases y; cases z) auto

lemma fle_refl: "x \<noteq> NaN \<Longrightarrow> fle x x"
  by (cases x) auto

lemma fmax_list_upper:
  assumes "\<forall>x \<in> set xs. x \<noteq> NaN" "y \<in> set xs"
  shows "fle y (fmax_list d xs)"
proof -
  have "x \<noteq> NaN \<Longrightarrow> \<forall>z \<in> set zs. z \<noteq> NaN \<Longrightarrow> foldl fmax x zs \<noteq> NaN \<and> (\<forall>z \<in> insert x (set zs). fle z (foldl fmax x zs))" for x zs
  proof (induction zs arbitrary: x)
    case (Cons z zs)
    have "fmax x z \<noteq> NaN" using Cons.prems by (simp add: fmax_def)
    from Cons.IH[OF this] Cons.prems fmax_ge_both[of x z] show ?case by (auto intro: fle_trans)
  qed (simp add: fle_refl)
  with assms show ?thesis by (cases xs) auto
qed

lemma trend_efficiency_in_range: "in_range 0 1 (ft_trend_efficiency (build_feature_snapshot cs h))"
  using clamp_in_range[of 0 1]
  by (simp add: build_feature_snapshot_def empty_features_def Let_def)

end
