(* ===== verification/Engine.thy ===== *)
theory Engine
  imports Runs Scoring
begin

section \<open>The analysis engine\<close>

text \<open>
  Models \<open>engine.py\<close>: one analysis from the request to the report. The body of the \<open>try\<close> is a
  sequence of steps over what the handler can see (the run, the outcome of the plan, the write
  record) and the world; the handler records the failure, saves the failed run, emits
  \<open>analysis.failed\<close> and raises again. The coordinator, the executor, the stores and the Cells are
  fields of the engine. The constant disclaimer of a report is not modelled, nor is
  \<open>default_registry\<close>: the registry is given.
\<close>

subsection \<open>The engine and its interfaces\<close>

record report =
  rp_target :: string
  rp_horizon :: string
  rp_decision :: cell_result
  rp_summary :: string
  rp_run_id :: "string option"
  rp_report_id :: "string option"
  rp_schema_version :: string
  rp_engine_version :: "string option"
  rp_formula_versions :: "(string \<times> string) list"
  rp_created_at :: "string option"

record 'w report_store =
  rq_save :: "report \<Rightarrow> run \<Rightarrow> 'w \<Rightarrow> string res \<times> 'w"
  rq_save_run :: "run \<Rightarrow> 'w \<Rightarrow> string res \<times> 'w"

record 'w summary_store =
  sy_name :: string
  sy_save_traces :: "trace list \<Rightarrow> 'w \<Rightarrow> write_record res \<times> 'w"
  sy_snapshot :: "int \<Rightarrow> 'w \<Rightarrow> summary_snapshot res \<times> 'w"

record 'w input_store =
  st_source :: "'w input_source"
  st_register :: "snapshot \<Rightarrow> 'w \<Rightarrow> reference res \<times> 'w"

text \<open>\<open>LocalInputResolver\<close>, kept in its slot of the world.\<close>

definition local_input_store :: "stdlib \<Rightarrow> 'v eworld input_store" where
  "local_input_store L = \<lparr>st_source = \<lparr>is_name = ''local_memory_input_resolver_v0.1'',
       is_resolve = (\<lambda>r w. let (s, rs) = resolve L (ew_resolver w) r in (s, w\<lparr>ew_resolver := rs\<rparr>))\<rparr>,
     st_register = (\<lambda>s w. let (r, rs) = register L (ew_resolver w) s in (r, w\<lparr>ew_resolver := rs\<rparr>))\<rparr>"

record 'v engine =
  eg_lib :: stdlib
  eg_env :: "'v eworld env"
  eg_clock :: "'v eworld datetime_lib"
  eg_registry :: "'v eworld cell list"
  eg_bus :: "'v eworld bus"
  eg_report_store :: "'v eworld report_store option"
  eg_run_metadata :: meta
  eg_executor :: "'v eworld executor"
  eg_service_id :: "string option"
  eg_coordinate :: "'v eworld coordination \<Rightarrow> validated_plan \<Rightarrow> 'v eworld \<Rightarrow> plan_outcome res \<times> 'v eworld"
  eg_graph :: graph
  eg_input_store :: "'v eworld input_store option"
  eg_input_source :: string
  eg_input_data_version :: string
  eg_summary_store :: "'v eworld summary_store option"
  eg_summary_window :: int
  eg_catalog :: "catalog option"
  eg_policy :: "policy option"

text \<open>
  The executor the caller gives: one that already controls failures is used as it is, another
  one is wrapped; the second component is the service id of the (delegate) executor. The wrapper has
  the default admission controller, a new one, whose state is its slot of the world.
\<close>

datatype 'w given_executor =
    Controlled "'w executor" "string option"
  | Plain "'w executor" "string option"

definition own_admission :: "('v eworld, lease) admission" where
  "own_admission = in_memory_admission ew_admission (\<lambda>s w. w\<lparr>ew_admission := s\<rparr>)"

fun wrap_executor :: "'v eworld env \<Rightarrow> stdlib \<Rightarrow> 'v eworld given_executor \<Rightarrow> 'v eworld
  \<Rightarrow> ('v eworld executor \<times> string option) \<times> 'v eworld" where
  "wrap_executor E L (Controlled x sid) w = ((x, sid), w)"
| "wrap_executor E L (Plain x sid) w = ((control_as_executor
     \<lparr>fx_env = E, fx_lib = L, fx_delegate = x, fx_admission = own_admission,
      fx_classify = default_classify, fx_classifier_name = ''DefaultFailureClassifier''\<rparr>, sid),
     w\<lparr>ew_admission := empty_admission\<rparr>)"

text \<open>The constructor; the argument is the engine before the executor is chosen.\<close>

definition mk_engine :: "bool \<Rightarrow> 'v eworld given_executor option \<Rightarrow> 'v engine \<Rightarrow> 'v eworld
  \<Rightarrow> 'v engine res \<times> 'v eworld" where
  "mk_engine include_plan x e w =
     (if \<not> include_plan then (raise PyValueError
        ''ExecutionPlan is mandatory; plan-free execution is no longer supported'', w)
      else
        let given = (case x of Some g \<Rightarrow> g
              | None \<Rightarrow> Plain \<lparr>ex_name = ''local_python_executor_v0.1'',
                  ex_execute = local_execute (eg_env e) ''python-local''\<rparr> (Some ''python-local''));
            ((ex, sid), w') = wrap_executor (eg_env e) (eg_lib e) given w
        in (if eg_summary_window e \<le> 0 then raise PyValueError ''runtime_summary_window must be positive''
            else Inr (e\<lparr>eg_executor := ex, eg_service_id := sid\<rparr>), w'))"

subsection \<open>Helpers\<close>

definition merge_metadata :: "meta option list \<Rightarrow> meta" where
  "merge_metadata items = foldl (\<lambda>d m. dict_merge d (case m of None \<Rightarrow> [] | Some x \<Rightarrow> x)) [] items"

text \<open>The loop over the extra snapshots, each cloned through its dictionary.\<close>

fun clone_extras :: "stdlib \<Rightarrow> request \<Rightarrow> snapshot list \<Rightarrow> snapshot list res" where
  "clone_extras L rq [] = Inr []"
| "clone_extras L rq (s # ss) =
     bind_res (snapshot_from_dict L (snapshot_to_dict s)) (\<lambda>c.
       if sn_input_kind c = ''analysis_request'' then raise InputCompositionError
         (msg [''AnalysisEngine creates the authoritative analysis_request input; '',
           ''extra inputs must use another input kind''])
       else if sn_target c \<noteq> rq_target rq \<or> sn_horizon c \<noteq> rq_horizon rq
       then raise InputCompositionError
         (msg [''extra input '', sn_snapshot_id c, '' has scope '', sn_target c, ''/'', sn_horizon c,
           '', expected '', rq_target rq, ''/'', rq_horizon rq])
       else bind_res (clone_extras L rq ss) (\<lambda>cs. Inr (c # cs)))"

definition analysis_input_snapshots :: "stdlib \<Rightarrow> string \<Rightarrow> request \<Rightarrow> snapshot list option \<Rightarrow> string
  \<Rightarrow> string \<Rightarrow> snapshot list res" where
  "analysis_input_snapshots L now rq extra src version =
     bind_res (snapshot_from_request L now rq version src []) (\<lambda>primary.
     bind_res (clone_extras L rq (case extra of None \<Rightarrow> [] | Some ss \<Rightarrow> ss)) (\<lambda>extras.
       if length (map sn_input_kind extras) \<noteq> card (set (map sn_input_kind extras))
       then raise InputCompositionError ''AnalysisEngine accepts exactly one extra snapshot per input kind''
       else Inr (primary # sort_key sn_input_kind extras)))"

text \<open>\<open>next\<close> finds the primary, which the function above puts first.\<close>

definition input_audit_metadata :: "snapshot list \<Rightarrow> meta" where
  "input_audit_metadata ss =
     (case find (\<lambda>s. sn_input_kind s = ''analysis_request'') ss of
        None \<Rightarrow> []
      | Some p \<Rightarrow> [(''input_snapshot_audit'', PDict (snapshot_audit_dict p)),
          (''input_snapshot_audits'', PList (map (\<lambda>s. PDict (snapshot_audit_dict s)) ss))])"

definition execution_metadata :: "trace list \<Rightarrow> resolution_record list \<Rightarrow> control_record list \<Rightarrow> meta" where
  "execution_metadata ts rs cs =
     [(''cell_runtime_traces'', PList (map trace_to_dict ts)),
      (''cell_runtime_summaries'', PList (map summary_to_dict (summarize_runtime_traces ts))),
      (''input_resolution_records'', PList (map resolution_to_dict rs)),
      (''execution_control_records'', PList (map control_to_dict cs))]"

definition graph_manifests :: "'v engine \<Rightarrow> manifest list" where
  "graph_manifests e = filter (\<lambda>m. mf_cell_id m \<in> gn_cell_id ` set (gr_nodes (eg_graph e)))
     (registry_manifests (eg_registry e))"

definition runtime_summary_snapshot :: "'v engine \<Rightarrow> 'v eworld \<Rightarrow> summary_snapshot res \<times> 'v eworld" where
  "runtime_summary_snapshot e w =
     (case eg_summary_store e of
        None \<Rightarrow> empty_snapshot (eg_lib e) (eg_clock e) (eg_summary_window e) None ''disabled'' w
      | Some s \<Rightarrow> sy_snapshot s (eg_summary_window e) w)"

text \<open>Persisting never raises: a failing store gives a failed write record.\<close>

definition persist_runtime_traces :: "'v engine \<Rightarrow> trace list \<Rightarrow> 'v eworld \<Rightarrow> write_record \<times> 'v eworld" where
  "persist_runtime_traces e ts w =
     (case eg_summary_store e of
        None \<Rightarrow> write_disabled (eg_env e) (length ts) w
      | Some s \<Rightarrow>
         (case sy_save_traces s ts w of
            (Inr r, w') \<Rightarrow> (r, w')
          | (Inl x, w') \<Rightarrow> write_failed (eg_env e) (sy_name s) (length ts) x w'))"

definition engine_execution_plan :: "'v engine \<Rightarrow> request \<Rightarrow> reference list \<Rightarrow> summary_snapshot
  \<Rightarrow> 'v eworld \<Rightarrow> (build_error + exec_plan) \<times> 'v eworld" where
  "engine_execution_plan e rq refs snap w =
     (case eg_catalog e of
        Some c \<Rightarrow> build_execution_plan (eg_env e) (eg_lib e) (eg_clock e) (eg_registry e) rq c
          (Some (eg_graph e)) refs (eg_policy e) (Some snap) w
      | None \<Rightarrow> build_local_execution_plan (eg_env e) (eg_lib e) (eg_clock e) (eg_registry e) rq
          (if or_empty (eg_service_id e) = [] then ''python-local'' else or_empty (eg_service_id e))
          (Some (eg_graph e)) refs (Some snap) w)"

definition completion_payload :: "string \<Rightarrow> completion \<Rightarrow> meta" where
  "completion_payload run_id c =
     [(''run_id'', PStr run_id), (''node_id'', PStr (nc_node_id c)), (''cell_id'', PStr (nc_cell_id c)),
      (''binding_id'', PStr (nc_binding_id c)),
      (''execution_role'', PStr (show_role (nc_execution_role c))),
      (''input_reference_ids'', strs (nc_input_reference_ids c)),
      (''duration_ms'', opt_float (map_option rt_duration_ms (nc_trace c))),
      (''retry_count'', PInt (case nc_control_record c of Some r \<Rightarrow> ec_retry_count r | None \<Rightarrow> 0)),
      (''fallback_count'', PInt (case nc_control_record c of Some r \<Rightarrow> ec_fallback_count r | None \<Rightarrow> 0)),
      (''final_binding_id'', PStr (case nc_control_record c of Some r \<Rightarrow> ec_final_binding_id r
         | None \<Rightarrow> nc_binding_id c)),
      (''final_failure_kind'', opt_str (case nc_control_record c of
         Some r \<Rightarrow> map_option show_failure_kind (ec_final_failure_kind r) | None \<Rightarrow> None))]"

definition emit_node_completion :: "'v engine \<Rightarrow> string \<Rightarrow> completion \<Rightarrow> 'v eworld
  \<Rightarrow> exc option \<times> 'v eworld" where
  "emit_node_completion e run_id c w =
     (case nc_result c of
        None \<Rightarrow> emit (eg_env e) (eg_bus e) ''cell.failed''
          (dict_merge (completion_payload run_id c)
            [(''error'', PStr (case nc_error c of Some x \<Rightarrow> ex_msg x
               | None \<Rightarrow> ''unknown cell execution failure''))]) w
      | Some r \<Rightarrow> emit (eg_env e) (eg_bus e) ''cell.completed''
          (dict_merge (completion_payload run_id c)
            [(''score'', PFloat (cr_score r)), (''direction'', PStr (show_direction (cr_direction r)))]) w)"

definition save_failed_run :: "'v eworld report_store option \<Rightarrow> run \<Rightarrow> 'v eworld
  \<Rightarrow> string option \<times> 'v eworld" where
  "save_failed_run rs r w =
     (case rs of None \<Rightarrow> (None, w)
      | Some s \<Rightarrow> (case rq_save_run s r w of (Inl x, w') \<Rightarrow> (Some (ex_msg x), w') | (Inr _, w') \<Rightarrow> (None, w')))"

subsection \<open>Before the \<open>try\<close>\<close>

text \<open>
  What the run starts from: the trace id, the inputs (the primary first), the store of snapshots (a
  fresh local one, whose slot is emptied, when the engine has none) and the started run.
\<close>

record 'v prepared =
  pr_trace_id :: string
  pr_inputs :: "snapshot list"
  pr_store :: "'v eworld input_store"
  pr_run :: run

datatype engine_error = RequestRefused "request_issue list" | RunRaised build_error

definition prepare_run :: "'v engine \<Rightarrow> request \<Rightarrow> meta option \<Rightarrow> snapshot list option \<Rightarrow> 'v eworld
  \<Rightarrow> (engine_error + 'v prepared) \<times> 'v eworld" where
  "prepare_run e rq md extra w =
     (case validate_request rq of
        Inl issues \<Rightarrow> (Inl (RequestRefused issues), w)
      | Inr _ \<Rightarrow>
         (let (tid, w1) = env_uuid (eg_env e) w; (now, w2) = env_now (eg_env e) w1 in
          case analysis_input_snapshots (eg_lib e) now rq extra (eg_input_source e)
              (eg_input_data_version e) of
            Inl x \<Rightarrow> (Inl (RunRaised (BuildRaised x)), w2)
          | Inr inputs \<Rightarrow>
             (let (store, w3) = (case eg_input_store e of Some s \<Rightarrow> (s, w2)
                    | None \<Rightarrow> (local_input_store (eg_lib e), w2\<lparr>ew_resolver := empty_resolver\<rparr>));
                  metadata = merge_metadata [Some (eg_run_metadata e), md,
                    Some [(''cell_graph_definition'', graph_to_dict (eg_graph e))],
                    Some (input_audit_metadata inputs)];
                  (r, w4) = start_run (eg_env e) (eg_lib e) rq (graph_manifests e) metadata None
                    (Some inputs) w3
              in case r of
                   Inl x \<Rightarrow> (Inl (RunRaised (BuildRaised x)), w4)
                 | Inr ru \<Rightarrow> (Inr \<lparr>pr_trace_id = tid, pr_inputs = inputs, pr_store = store,
                     pr_run = ru\<rparr>, w4))))"

definition started_payload :: "'v engine \<Rightarrow> request \<Rightarrow> 'v prepared \<Rightarrow> meta" where
  "started_payload e rq p =
     [(''run_id'', PStr (ru_run_id (pr_run p))), (''target'', PStr (rq_target rq)),
      (''horizon'', PStr (rq_horizon rq)), (''graph_id'', PStr (gr_graph_id (eg_graph e))),
      (''graph_version'', PStr (gr_graph_version (eg_graph e))),
      (''input_snapshot_id'', PStr (sn_snapshot_id (hd (pr_inputs p)))),
      (''input_hash'', PStr (sn_content_hash (hd (pr_inputs p)))),
      (''input_snapshot_ids'', strs (map sn_snapshot_id (pr_inputs p))),
      (''input_kinds'', strs (map sn_input_kind (pr_inputs p)))]"

subsection \<open>The body of the \<open>try\<close>\<close>

text \<open>
  The variables the handler reads: the run with the metadata gathered so far, the outcome of the
  plan, and the write record. The three lists of traces, resolutions and control records are
  filled from the outcome in one go, so they are read off it.
\<close>

record body =
  bo_run :: run
  bo_outcome :: "plan_outcome option"
  bo_write :: "write_record option"

definition body_traces :: "body \<Rightarrow> trace list" where
  "body_traces b = (case bo_outcome b of None \<Rightarrow> [] | Some oc \<Rightarrow> po_runtime_traces oc)"

definition body_metadata :: "body \<Rightarrow> meta" where
  "body_metadata b = (case bo_outcome b of None \<Rightarrow> execution_metadata [] [] []
     | Some oc \<Rightarrow> execution_metadata (po_runtime_traces oc) (po_input_resolution_records oc)
         (po_execution_control_records oc))"

definition add_metadata :: "meta \<Rightarrow> body \<Rightarrow> body" where
  "add_metadata md b = b\<lparr>bo_run := with_metadata (bo_run b) md\<rparr>"

text \<open>\<open>[input_resolver.register(snapshot) for snapshot in analysis_inputs]\<close>.\<close>

fun register_inputs :: "'w input_store \<Rightarrow> snapshot list \<Rightarrow> 'w \<Rightarrow> reference list res \<times> 'w" where
  "register_inputs st [] w = (Inr [], w)"
| "register_inputs st (s # ss) w =
     (case st_register st s w of
        (Inl x, w1) \<Rightarrow> (Inl x, w1)
      | (Inr r, w1) \<Rightarrow>
         (case register_inputs st ss w1 of
            (Inl x, w2) \<Rightarrow> (Inl x, w2)
          | (Inr rs, w2) \<Rightarrow> (Inr (r # rs), w2)))"

text \<open>Down to the plan that is executed.\<close>

definition plan_step :: "'v engine \<Rightarrow> request \<Rightarrow> 'v prepared \<Rightarrow> body \<Rightarrow> 'v eworld
  \<Rightarrow> (build_error + validated_plan) \<times> body \<times> 'v eworld" where
  "plan_step e rq p b w =
     (case runtime_summary_snapshot e w of
        (Inl x, w1) \<Rightarrow> (Inl (BuildRaised x), b, w1)
      | (Inr snap, w1) \<Rightarrow>
         (let b1 = add_metadata [(''runtime_summary_snapshot'', PDict (snapshot_to_meta snap))] b in
          case register_inputs (pr_store p) (pr_inputs p) w1 of
            (Inl x, w2) \<Rightarrow> (Inl (BuildRaised x), b1, w2)
          | (Inr refs, w2) \<Rightarrow>
             (case engine_execution_plan e rq refs snap w2 of
                (Inl x, w3) \<Rightarrow> (Inl x, b1, w3)
              | (Inr plan, w3) \<Rightarrow>
                 (let b2 = add_metadata [(''cell_execution_plan'', plan_to_dict plan)] b1 in
                  (case validate_execution_plan plan of
                     Inl issues \<Rightarrow> Inl (PlanInvalid plan issues)
                   | Inr v \<Rightarrow> Inr v, b2, w3)))))"

definition engine_coordination :: "'v engine \<Rightarrow> 'v prepared \<Rightarrow> ('v eworld \<Rightarrow> bool \<times> 'v eworld) option
  \<Rightarrow> 'v eworld coordination" where
  "engine_coordination e p signal = \<lparr>cn_lib = eg_lib e, cn_env = eg_env e, cn_registry = eg_registry e,
     cn_executor = eg_executor e, cn_source = st_source (pr_store p), cn_run_id = ru_run_id (pr_run p),
     cn_trace_id = pr_trace_id p, cn_handler = Some (emit_node_completion e (ru_run_id (pr_run p))),
     cn_signal = signal\<rparr>"

definition execute_step :: "'v engine \<Rightarrow> 'v prepared \<Rightarrow> ('v eworld \<Rightarrow> bool \<times> 'v eworld) option
  \<Rightarrow> validated_plan \<Rightarrow> body \<Rightarrow> 'v eworld \<Rightarrow> plan_outcome res \<times> body \<times> 'v eworld" where
  "execute_step e p signal v b w =
     (case eg_coordinate e (engine_coordination e p signal) v w of
        (Inl x, w1) \<Rightarrow> (Inl x, b, w1)
      | (Inr oc, w1) \<Rightarrow>
         (let b1 = add_metadata [(''plan_execution'', PDict (plan_outcome_to_dict oc))]
                (b\<lparr>bo_outcome := Some oc\<rparr>);
              (wr, w2) = persist_runtime_traces e (po_runtime_traces oc) w1;
              b2 = add_metadata [(''runtime_summary_write'', write_to_dict wr)] (b1\<lparr>bo_write := Some wr\<rparr>)
          in (Inr oc, b2, w2)))"

definition report_of :: "request \<Rightarrow> run \<Rightarrow> run \<Rightarrow> cell_result \<Rightarrow> report" where
  "report_of rq r completed d = \<lparr>rp_target = rq_target rq, rp_horizon = rq_horizon rq, rp_decision = d,
     rp_summary = cr_explanation d, rp_run_id = Some (ru_run_id r),
     rp_report_id = ru_report_id completed, rp_schema_version = ''analysis_report.v1'',
     rp_engine_version = Some engine_version, rp_formula_versions = ru_formula_versions r,
     rp_created_at = ru_finished_at completed\<rparr>"

text \<open>\<open>report_store.save\<close> and its event.\<close>

definition save_report :: "'v engine \<Rightarrow> run \<Rightarrow> run \<Rightarrow> report \<Rightarrow> 'v eworld \<Rightarrow> report res \<times> 'v eworld" where
  "save_report e r completed rep w =
     (case eg_report_store e of
        None \<Rightarrow> (Inr rep, w)
      | Some s \<Rightarrow>
         (case rq_save s rep completed w of
            (Inl x, w1) \<Rightarrow> (Inl x, w1)
          | (Inr i, w1) \<Rightarrow>
             (case emit (eg_env e) (eg_bus e) ''analysis.saved''
                  [(''run_id'', PStr (ru_run_id r)), (''report_id'', PStr i)] w1 of
                (Some x, w2) \<Rightarrow> (Inl x, w2)
              | (None, w2) \<Rightarrow> (Inr (rep\<lparr>rp_report_id := Some i\<rparr>), w2))))"

definition report_step :: "'v engine \<Rightarrow> request \<Rightarrow> plan_outcome \<Rightarrow> body \<Rightarrow> 'v eworld
  \<Rightarrow> report res \<times> 'v eworld" where
  "report_step e rq oc b w =
     (case plan_unwrap oc of
        Inl x \<Rightarrow> (Inl x, w)
      | Inr d \<Rightarrow>
         (let r = bo_run b;
              (completed, w1) = complete_run (eg_env e) (with_metadata r (body_metadata b)) (ru_run_id r) w
          in case save_report e r completed (report_of rq r completed d) w1 of
               (Inl x, w2) \<Rightarrow> (Inl x, w2)
             | (Inr rep, w2) \<Rightarrow>
                (case emit (eg_env e) (eg_bus e) ''analysis.completed''
                     [(''run_id'', PStr (ru_run_id r)), (''report_id'', opt_str (rp_report_id rep))] w2 of
                   (Some x, w3) \<Rightarrow> (Inl x, w3)
                 | (None, w3) \<Rightarrow> (Inr rep, w3))))"

definition engine_body :: "'v engine \<Rightarrow> request \<Rightarrow> 'v prepared \<Rightarrow> ('v eworld \<Rightarrow> bool \<times> 'v eworld) option
  \<Rightarrow> 'v eworld \<Rightarrow> (build_error + report) \<times> body \<times> 'v eworld" where
  "engine_body e rq p signal w =
     (case plan_step e rq p \<lparr>bo_run = pr_run p, bo_outcome = None, bo_write = None\<rparr> w of
        (Inl x, b, w1) \<Rightarrow> (Inl x, b, w1)
      | (Inr v, b, w1) \<Rightarrow>
         (case execute_step e p signal v b w1 of
            (Inl x, b1, w2) \<Rightarrow> (Inl (BuildRaised x), b1, w2)
          | (Inr oc, b1, w2) \<Rightarrow>
             (case report_step e rq oc b1 w2 of
                (Inl x, w3) \<Rightarrow> (Inl (BuildRaised x), b1, w3)
              | (Inr rep, w3) \<Rightarrow> (Inr rep, b1, w3))))"

subsection \<open>The handler\<close>

definition has_key :: "string \<Rightarrow> meta \<Rightarrow> bool" where
  "has_key k md \<longleftrightarrow> k \<in> fst ` set md"

text \<open>A validation error leaves what it rejected, and its issues, in the metadata of the run.\<close>

fun validation_metadata :: "build_error \<Rightarrow> body \<Rightarrow> body" where
  "validation_metadata (BuildRaised x) b = b"
| "validation_metadata (PlanInvalid plan issues) b =
     add_metadata [(''execution_plan_validation'', PDict (plan_error_to_dict plan issues))]
       (if has_key ''cell_execution_plan'' (ru_metadata (bo_run b)) then b
        else add_metadata [(''cell_execution_plan'', plan_to_dict plan)] b)"
| "validation_metadata (GraphInvalid g issues) b =
     add_metadata [(''cell_graph_validation'', PDict (graph_error_to_dict g issues))]
       (if has_key ''cell_graph_definition'' (ru_metadata (bo_run b)) then b
        else add_metadata [(''cell_graph_definition'', graph_to_dict g)] b)"

text \<open>The traces are persisted here only when the body did not come that far.\<close>

definition ensure_persisted :: "'v engine \<Rightarrow> body \<Rightarrow> 'v eworld \<Rightarrow> body \<times> 'v eworld" where
  "ensure_persisted e b w =
     (case bo_write b of
        Some _ \<Rightarrow> (b, w)
      | None \<Rightarrow> (let (wr, w1) = persist_runtime_traces e (body_traces b) w in
          (add_metadata [(''runtime_summary_write'', write_to_dict wr)] (b\<lparr>bo_write := Some wr\<rparr>), w1)))"

definition failed_payload :: "request \<Rightarrow> run \<Rightarrow> body \<Rightarrow> string option \<Rightarrow> meta" where
  "failed_payload rq failed b persistence_error =
     [(''run_id'', PStr (ru_run_id failed)), (''target'', PStr (rq_target rq)),
      (''error'', opt_str (ru_error failed)),
      (''failed_node_id'', opt_str (case bo_outcome b of None \<Rightarrow> None | Some oc \<Rightarrow> po_failed_node_id oc)),
      (''persistence_error'', opt_str persistence_error)]"

text \<open>What leaves the handler: the exception it handles, or one of the emission.\<close>

definition handle_failure :: "'v engine \<Rightarrow> request \<Rightarrow> build_error \<Rightarrow> body \<Rightarrow> 'v eworld
  \<Rightarrow> build_error \<times> 'v eworld" where
  "handle_failure e rq x b w =
     (let (b1, w1) = ensure_persisted e (validation_metadata x b) w;
          (failed, w2) = fail_run (eg_env e) (with_metadata (bo_run b1) (body_metadata b1))
            (ex_msg (build_exc x)) w1;
          (persistence_error, w3) = save_failed_run (eg_report_store e) failed w2
      in case emit (eg_env e) (eg_bus e) ''analysis.failed'' (failed_payload rq failed b1 persistence_error) w3 of
           (Some y, w4) \<Rightarrow> (BuildRaised y, w4)
         | (None, w4) \<Rightarrow> (x, w4))"

definition engine_run :: "'v engine \<Rightarrow> request \<Rightarrow> meta option \<Rightarrow> ('v eworld \<Rightarrow> bool \<times> 'v eworld) option
  \<Rightarrow> snapshot list option \<Rightarrow> 'v eworld \<Rightarrow> (engine_error + report) \<times> 'v eworld" where
  "engine_run e rq md signal extra w =
     (case prepare_run e rq md extra w of
        (Inl x, w1) \<Rightarrow> (Inl x, w1)
      | (Inr p, w1) \<Rightarrow>
         (case emit (eg_env e) (eg_bus e) ''analysis.started'' (started_payload e rq p) w1 of
            (Some x, w2) \<Rightarrow> (Inl (RunRaised (BuildRaised x)), w2)
          | (None, w2) \<Rightarrow>
             (case engine_body e rq p signal w2 of
                (Inr rep, b, w3) \<Rightarrow> (Inr rep, w3)
              | (Inl x, b, w3) \<Rightarrow>
                 (let (y, w4) = handle_failure e rq x b w3 in (Inl (RunRaised y), w4)))))"

end
