(* ===== verification/Engine_Correct.thy ===== *)
theory Engine_Correct
  imports Engine
begin

section \<open>What an analysis leaves behind\<close>

text \<open>
  The events of a run, in order, when nothing but the engine emits: \<open>analysis.started\<close>, one
  \<open>cell.completed\<close> per node that completed, in the order of the plan, and the end, which is either
  \<open>analysis.completed\<close> or \<open>analysis.failed\<close>. First the frame: what the parts the engine calls leave
  unchanged, up to an observation of the world.
\<close>

subsection \<open>What a call keeps\<close>

definition keeps :: "('w \<Rightarrow> 'o) \<Rightarrow> ('w \<Rightarrow> 'a \<times> 'w) \<Rightarrow> bool" where
  "keeps f step \<longleftrightarrow> (\<forall>w. f (snd (step w)) = f w)"

named_theorems frame

lemma keepsD: "keeps f step \<Longrightarrow> step w = (x, w') \<Longrightarrow> f w' = f w"
  unfolding keeps_def by (metis snd_conv)

definition env_keeps :: "('w \<Rightarrow> 'o) \<Rightarrow> 'w env \<Rightarrow> bool" where
  "env_keeps f E \<longleftrightarrow> keeps f (env_now E) \<and> keeps f (env_perf E) \<and> keeps f (env_uuid E)"

text \<open>The Cells of the registry run with the signal of the run.\<close>

definition coordination_keeps :: "('w \<Rightarrow> 'o) \<Rightarrow> 'w coordination \<Rightarrow> bool" where
  "coordination_keeps f C \<longleftrightarrow> env_keeps f (cn_env C) \<and> (\<forall>r. keeps f (is_resolve (cn_source C) r))
     \<and> (\<forall>c \<in> set (cn_registry C). \<forall>rq cx ch. cx_cancellation_signal cx = cn_signal C \<longrightarrow>
          keeps f (ex_execute (cn_executor C) c rq cx ch))"

lemma resolve_references_keeps:
  assumes "coordination_keeps f C"
  shows "resolve_references C i refs rs snaps st w = (x, st', w') \<Longrightarrow> f w' = f w"
proof (induction rs arbitrary: snaps st w)
  case (Cons r rs)
  note k = assms[unfolded coordination_keeps_def env_keeps_def keeps_def]
  have rec: "f (snd (resolution_record_of (cn_env C) n rf nm s ch h z er v)) = f v" for n rf nm s ch h z er v
    using k by (simp add: resolution_record_of_def split_beta Let_def)
  show ?case
    using Cons.prems rec k Cons.IH
    by (auto simp: Let_def split_beta split: sum.splits option.splits) (metis+)?
qed simp

lemma compose_cell_inputs_keeps:
  assumes "coordination_keeps f C" "compose_cell_inputs C p n st w = (x, st', w')"
  shows "f w' = f w"
proof -
  obtain y st1 w1 where r: "resolve_references C (en_node_id n) (references_by_id p)
      (en_input_reference_ids n) [] st w = (y, st1, w1)" by (metis surj_pair)
  then have "w' = w1" using assms(2)
    by (auto simp: compose_cell_inputs_def Let_def split: sum.splits prod.splits)
  then show ?thesis using resolve_references_keeps[OF assms(1) r] by simp
qed

lemma run_node_keeps:
  assumes k: "coordination_keeps f C" and run: "run_node C p n b st w = (x, st', w')"
  shows "f w' = f w"
proof (cases "registry_resolve (cn_registry C) (en_cell_id n)")
  case (Inr c)
  have c: "c \<in> set (cn_registry C)" using registry_resolve_id[OF Inr] by blast
  obtain bun st1 w1 where comp: "compose_cell_inputs C p n st w = (bun, st1, w1)" by (metis surj_pair)
  have w1: "f w1 = f w" by (rule compose_cell_inputs_keeps[OF k comp])
  have ex: "f (snd (ex_execute (cn_executor C) c rq (node_context C p n b bu fbs) ch w1)) = f w1" for rq bu fbs ch
    using k c by (simp add: coordination_keeps_def keeps_def node_context_def)
  have "w' = w1 \<or> (\<exists>rq bu fbs ch. w' = snd (ex_execute (cn_executor C) c rq (node_context C p n b bu fbs) ch w1))"
    using run comp Inr
    by (auto simp: run_node_def Let_def split_beta split: sum.splits exec_return.splits)
  with w1 ex show ?thesis by auto
qed (use run in \<open>simp add: run_node_def\<close>)

subsection \<open>The log of a plan\<close>

text \<open>A handler that never raises and writes one entry per completion.\<close>

definition handler_logs :: "('w \<Rightarrow> 'o list) \<Rightarrow> (string \<Rightarrow> exc option \<Rightarrow> 'o)
  \<Rightarrow> (completion \<Rightarrow> 'w \<Rightarrow> exc option \<times> 'w) \<Rightarrow> bool" where
  "handler_logs f entry h \<longleftrightarrow> (\<forall>nc w. fst (h nc w) = None)
     \<and> (\<forall>n t c w r. f (snd (h (completion_of n (Some r) t c None) w)) = f w @ [entry (en_node_id n) None])
     \<and> (\<forall>n t c w e. f (snd (h (completion_of n None t c (Some e)) w)) = f w @ [entry (en_node_id n) (Some e)])"

text \<open>What a loop over \<open>is\<close> that ends with \<open>x\<close> may have logged.\<close>

definition plan_log :: "(string \<Rightarrow> exc option \<Rightarrow> 'o) \<Rightarrow> string list \<Rightarrow> (string \<times> exc) option res
  \<Rightarrow> string list \<Rightarrow> 'o list \<Rightarrow> bool" where
  "plan_log entry is x done' lg \<longleftrightarrow>
     lg = map (\<lambda>i. entry i None) done' @ (case x of Inr (Some (i, e)) \<Rightarrow> [entry i (Some e)] | _ \<Rightarrow> [])
     \<and> (case x of Inr None \<Rightarrow> is = done' | Inr (Some (i, e)) \<Rightarrow> (\<exists>post. is = done' @ i # post)
          | Inl _ \<Rightarrow> (\<exists>post. is = done' @ post))"

lemma plan_log_Cons:
  "plan_log entry is x done' lg \<Longrightarrow> plan_log entry (i # is) x (i # done') (entry i None # lg)"
  by (auto simp: plan_log_def split: sum.splits option.splits)

lemma nodes_by_id_lookup: "dict_get (nodes_by_id p) i = Inr n \<Longrightarrow> en_node_id n = i"
  by (auto simp: dict_get_Inr nodes_by_id_def map_of_dict_of dest!: map_of_SomeD)

lemma run_nodes_log:
  assumes k: "coordination_keeps f C" and h: "cn_handler C = Some h" "handler_logs f entry h"
  shows "run_nodes C p is st w = (x, st', w') \<Longrightarrow>
    \<exists>done' lg. plan_log entry is x done' lg \<and> f w' = f w @ lg"
proof (induction "is" arbitrary: st w)
  case Nil
  then show ?case by (auto simp: plan_log_def)
next
  case (Cons i "is")
  show ?case
  proof (cases "bind_res (dict_get (nodes_by_id p) i) (\<lambda>n.
      bind_res (dict_get (bindings_by_id p) (en_binding_id n)) (\<lambda>b. Inr (n, b)))")
    case (Inl e)
    with Cons.prems show ?thesis
      by (intro exI[of _ "[]"] exI[of _ "[]"]) (auto simp: plan_log_def)
  next
    case (Inr y)
    then obtain n b where nb: "dict_get (nodes_by_id p) i = Inr n"
      "dict_get (bindings_by_id p) (en_binding_id n) = Inr b" by (auto simp: bind_res_eq_Inr)
    have i: "en_node_id n = i" by (rule nodes_by_id_lookup[OF nb(1)])
    obtain r t cr st1 w1 where run: "run_node C p n b (st\<lparr>co_order := co_order st @ [i]\<rparr>) w
      = ((r, t, cr), st1, w1)" by (metis prod.exhaust)
    have w1: "f w1 = f w" by (rule run_node_keeps[OF k run])
    have quiet: "fst (h nc v) = None" for nc v using h(2) by (simp add: handler_logs_def)
    show ?thesis
    proof (cases r)
      case (Inl e)
      let ?nc = "completion_of n None t cr (Some e)"
      have "x = Inr (Some (i, e))" "w' = snd (h ?nc w1)"
        using Cons.prems nb run Inl h(1) i quiet[of ?nc w1]
        by (auto simp: notify_def split_beta Let_def split: option.splits)
      moreover have "f (snd (h ?nc w1)) = f w @ [entry i (Some e)]"
        using h(2) w1 i by (simp add: handler_logs_def)
      ultimately show ?thesis
        by (intro exI[of _ "[]"] exI[of _ "[entry i (Some e)]"]) (simp add: plan_log_def)
    next
      case (Inr res)
      let ?nc = "completion_of n (Some res) t cr None"
      have "run_nodes C p is (st1\<lparr>co_results := AList.update (en_node_id n) res (co_results st1)\<rparr>)
          (snd (h ?nc w1)) = (x, st', w')"
        using Cons.prems nb run Inr h(1) quiet[of ?nc w1]
        by (auto simp: notify_def split_beta Let_def split: option.splits)
      from Cons.IH[OF this] obtain done' lg where
        l: "plan_log entry is x done' lg" "f w' = f (snd (h ?nc w1)) @ lg" by blast
      moreover have "f (snd (h ?nc w1)) = f w @ [entry i None]"
        using h(2) w1 i by (simp add: handler_logs_def)
      ultimately show ?thesis
        using plan_log_Cons[OF l(1)] by (intro exI[of _ "i # done'"] exI[of _ "entry i None # lg"]) simp
    qed
  qed
qed

text \<open>The log of a validated plan: all nodes completed, or those before the one that failed.\<close>

lemma execute_plan_log:
  assumes v: "validate_execution_plan p = Inr v" and k: "coordination_keeps f C"
    and h: "cn_handler C = Some h" "handler_logs f entry h"
    and run: "execute_plan C v w = (x, w')"
  shows "\<exists>oc done' post. x = Inr oc \<and> concat (vp_topological_levels v) = done' @ post
    \<and> f w' = f w @ map (\<lambda>i. entry i None) done'
        @ (case po_error oc of None \<Rightarrow> [] | Some e \<Rightarrow> [entry (hd post) (Some e)])
    \<and> (case po_error oc of None \<Rightarrow> post = []
         | Some e \<Rightarrow> post \<noteq> [] \<and> po_failed_node_id oc = Some (hd post))"
proof -
  have quiet: "silent C" using h by (simp add: silent_def handler_logs_def)
  obtain y st w1 where r: "run_nodes C p (concat (vp_topological_levels v)) initial_state w = (y, st, w1)"
    by (metis surj_pair)
  have vp: "vp_plan v = p" by (rule validated_plan(2)[OF v])
  obtain oc where oc: "x = Inr oc" using execute_plan_ok[OF v quiet, of w] run by auto
  obtain done' lg where l: "plan_log entry (concat (vp_topological_levels v)) y done' lg"
    "f w1 = f w @ lg" using run_nodes_log[OF k h r] by blast
  have w1: "w' = w1" using run r vp by (auto simp: execute_plan_def split: sum.splits option.splits)
  have start: "coord_inv p [] initial_state"
    by (simp add: coord_inv_def initial_state_def results_ok_def resolve_inv_def)
  from run_nodes_ok[OF v quiet, of "[]", OF _ start r]
  consider "y = Inr None" "coord_inv p (concat (vp_topological_levels v)) st" | i e where "y = Inr (Some (i, e))"
    by auto
  then show ?thesis
  proof cases
    case 1
    then obtain rr where "map_of (co_results st) (ep_root_node_id p) = Some rr"
      using root_has_result[OF v 1(2)] by (metis map_of_eq_None_iff not_None_eq)
    then have "po_error oc = None"
      using run oc r 1(1) vp by (auto simp: execute_plan_def mk_plan_outcome_def plan_outcome_of_def split: if_splits)
    then show ?thesis using l 1 oc w1
      by (intro exI[of _ oc] exI[of _ done'] exI[of _ "[]"]) (simp add: plan_log_def)
  next
    case (2 i e)
    then obtain post where post: "concat (vp_topological_levels v) = done' @ i # post"
      using l(1) by (auto simp: plan_log_def)
    have "oc = plan_outcome_of p st None (Some i) (Some e)"
      using run oc r 2 vp by (simp add: execute_plan_def mk_plan_outcome_def plan_outcome_of_def)
    then show ?thesis using l 2 oc w1 post
      by (intro exI[of _ oc] exI[of _ done'] exI[of _ "i # post"]) (simp add: plan_log_def plan_outcome_of_def)
  qed
qed

subsection \<open>An engine whose surroundings emit nothing\<close>

definition handler_quiet :: "'v eworld handler \<Rightarrow> bool" where
  "handler_quiet h \<longleftrightarrow> (\<forall>ev w. fst (h ev w) = None \<and> ew_events (snd (h ev w)) = ew_events w)"

definition bus_quiet :: "'v eworld bus \<Rightarrow> bool" where
  "bus_quiet b \<longleftrightarrow> (\<forall>(n, hs) \<in> set b. list_all handler_quiet hs)"

definition report_store_quiet :: "'v eworld report_store \<Rightarrow> bool" where
  "report_store_quiet s \<longleftrightarrow> (\<forall>rep r. keeps ew_events (rq_save s rep r)) \<and> (\<forall>r. keeps ew_events (rq_save_run s r))"

definition summary_store_quiet :: "'v eworld summary_store \<Rightarrow> bool" where
  "summary_store_quiet s \<longleftrightarrow> (\<forall>ts. keeps ew_events (sy_save_traces s ts)) \<and> (\<forall>d. keeps ew_events (sy_snapshot s d))"

definition input_store_quiet :: "'v eworld input_store \<Rightarrow> bool" where
  "input_store_quiet s \<longleftrightarrow> (\<forall>r. keeps ew_events (is_resolve (st_source s) r)) \<and> (\<forall>x. keeps ew_events (st_register s x))"

text \<open>
  The clock and the ids, the Cells under the executor, the stores and the subscribers do not emit
  events of their own, and no subscriber raises; the coordinator is the plan-driven one.
\<close>

definition engine_quiet :: "'v engine \<Rightarrow> ('v eworld \<Rightarrow> bool \<times> 'v eworld) option \<Rightarrow> bool" where
  "engine_quiet e signal \<longleftrightarrow> env_keeps ew_events (eg_env e) \<and> keeps ew_events (dl_now (eg_clock e))
     \<and> bus_quiet (eg_bus e) \<and> pred_option report_store_quiet (eg_report_store e)
     \<and> pred_option summary_store_quiet (eg_summary_store e) \<and> pred_option input_store_quiet (eg_input_store e)
     \<and> eg_coordinate e = execute_plan
     \<and> (\<forall>c \<in> set (eg_registry e). \<forall>rq cx ch. cx_cancellation_signal cx = signal \<longrightarrow>
          keeps ew_events (ex_execute (eg_executor e) c rq cx ch))"

lemma engine_quietD:
  assumes "engine_quiet e signal"
  shows "ew_events (snd (env_now (eg_env e) w)) = ew_events w"
    "ew_events (snd (env_uuid (eg_env e) w)) = ew_events w"
    "ew_events (snd (dl_now (eg_clock e) w)) = ew_events w"
    "bus_quiet (eg_bus e)" "eg_coordinate e = execute_plan"
    "eg_report_store e = Some rs \<Longrightarrow> report_store_quiet rs"
    "eg_summary_store e = Some ss \<Longrightarrow> summary_store_quiet ss"
    "eg_input_store e = Some is \<Longrightarrow> input_store_quiet is"
  using assms by (simp_all add: engine_quiet_def env_keeps_def keeps_def)

lemma local_input_store_quiet: "input_store_quiet (local_input_store L)"
  by (simp add: input_store_quiet_def local_input_store_def keeps_def split_beta Let_def)

lemma run_handlers_quiet:
  "list_all handler_quiet hs \<Longrightarrow> fst (run_handlers hs ev w) = None
     \<and> ew_events (snd (run_handlers hs ev w)) = ew_events w"
proof (induction hs arbitrary: w)
  case (Cons h hs)
  obtain x w1 where h: "h ev w = (x, w1)" by (meson surj_pair)
  have "x = None" "ew_events w1 = ew_events w" using Cons.prems h
    by (simp_all add: handler_quiet_def) (metis fst_conv, metis snd_conv)
  with Cons.IH[of w1] Cons.prems h show ?case by simp
qed simp

lemma handlers_of_quiet: "bus_quiet b \<Longrightarrow> list_all handler_quiet (handlers_of b n)"
  by (auto simp: bus_quiet_def handlers_of_def dest!: map_of_SomeD split: option.splits)

text \<open>What the log keeps of an event: its name, and the run, the node and the error it names.\<close>

type_synonym brief = "string \<times> pyval option \<times> pyval option \<times> pyval option"

definition brief :: "event \<Rightarrow> brief" where
  "brief ev = (me_name ev, map_of (me_payload ev) ''run_id'', map_of (me_payload ev) ''node_id'',
     map_of (me_payload ev) ''error'')"

definition logged :: "'v eworld \<Rightarrow> brief list" where
  "logged w = map brief (ew_events w)"

lemma logged_cong: "ew_events w' = ew_events w \<Longrightarrow> logged w' = logged w"
  by (simp add: logged_def)

lemma emit_quiet:
  assumes q: "engine_quiet e signal" and em: "emit (eg_env e) (eg_bus e) name payload w = (x, w')"
  shows "x = None" and "\<exists>now. ew_events w' = ew_events w
    @ [\<lparr>me_name = name, me_payload = payload, me_created_at = now\<rparr>]"
proof -
  obtain now w1 where n: "env_now (eg_env e) w = (now, w1)" by (meson surj_pair)
  have w1: "ew_events w1 = ew_events w" using engine_quietD(1)[OF q, of w] n by simp
  let ?ev = "\<lparr>me_name = name, me_payload = payload, me_created_at = now\<rparr>"
  let ?hs = "handlers_of (eg_bus e) name @ handlers_of (eg_bus e) ''*''"
  let ?w2 = "w1\<lparr>ew_events := ew_events w1 @ [?ev]\<rparr>"
  have "list_all handler_quiet ?hs" using handlers_of_quiet[OF engine_quietD(4)[OF q]] by simp
  from run_handlers_quiet[OF this, of ?ev ?w2] em n w1
  show "x = None" "\<exists>now. ew_events w' = ew_events w
    @ [\<lparr>me_name = name, me_payload = payload, me_created_at = now\<rparr>]"
    by (auto simp: emit_def Let_def)
qed

lemma emit_logged:
  assumes "engine_quiet e signal" "emit (eg_env e) (eg_bus e) name payload w = (x, w')"
  shows "logged w' = logged w @ [(name, map_of payload ''run_id'', map_of payload ''node_id'', map_of payload ''error'')]"
  using emit_quiet(2)[OF assms] by (auto simp: logged_def brief_def)

subsection \<open>The frame of planning and persisting\<close>

lemma snapshot_keeps:
  "keeps f (dl_now D) \<Longrightarrow> keeps f (build_summary_snapshot L D ts window as_of store)"
  by (auto simp: keeps_def build_summary_snapshot_def snapshot_window_def Let_def split_beta
      split: option.splits sum.splits)

lemma build_plan_keeps: "env_keeps f E \<Longrightarrow> keeps f (build_plan E L pl reg rq g refs)"
  by (auto simp: keeps_def env_keeps_def build_plan_def planner_references_def assemble_plan_def
      Let_def split_beta split: sum.splits if_splits prod.splits)

lemma execution_plan_keeps:
  assumes "env_keeps f E" "keeps f (dl_now D)"
  shows "keeps f (build_execution_plan E L D reg rq c g refs po snap)"
proof -
  have "f (snd (mk_planner L D c po snap w)) = f w" for w
    using snapshot_keeps[OF assms(2)]
    by (auto simp: mk_planner_def empty_snapshot_def keeps_def split_beta Let_def split: option.splits)
  then show ?thesis
    using build_plan_keeps[OF assms(1)]
    by (auto simp: keeps_def build_execution_plan_def split: prod.splits sum.splits) (metis snd_conv)+
qed

lemma local_plan_keeps:
  assumes "env_keeps f E" "keeps f (dl_now D)"
  shows "keeps f (build_local_execution_plan E L D reg rq sid g refs snap)"
proof -
  have "f (snd (build_local_capability_catalog E reg sid w)) = f w" for w
    using assms(1) by (auto simp: build_local_capability_catalog_def create_catalog_def keeps_def env_keeps_def
        split_beta Let_def split: sum.splits)
  then show ?thesis
    using execution_plan_keeps[OF assms]
    by (auto simp: keeps_def build_local_execution_plan_def split: prod.splits sum.splits) (metis snd_conv)+
qed

lemma persist_keeps:
  assumes q: "engine_quiet e signal" and p: "persist_runtime_traces e ts w = (r, w')"
  shows "ew_events w' = ew_events w"
proof -
  note n = engine_quietD(1)[OF q]
  show ?thesis
  proof (cases "eg_summary_store e")
    case None
    with p n[of w] show ?thesis
      by (auto simp: persist_runtime_traces_def write_disabled_def split_beta Let_def)
  next
    case (Some s)
    have s: "ew_events (snd (sy_save_traces s ts w)) = ew_events w"
      using engine_quietD(7)[OF q Some] by (simp add: summary_store_quiet_def keeps_def)
    with p n[of "snd (sy_save_traces s ts w)"] Some show ?thesis
      by (auto simp: persist_runtime_traces_def write_failed_def split_beta Let_def split: prod.splits sum.splits)
  qed
qed

lemma runtime_snapshot_keeps:
  assumes q: "engine_quiet e signal" and p: "runtime_summary_snapshot e w = (r, w')"
  shows "ew_events w' = ew_events w"
proof (cases "eg_summary_store e")
  case None
  have "keeps ew_events (dl_now (eg_clock e))" using q by (simp add: engine_quiet_def)
  from keepsD[OF snapshot_keeps[OF this]] p None show ?thesis
    by (simp add: runtime_summary_snapshot_def empty_snapshot_def)
next
  case (Some s)
  with engine_quietD(7)[OF q Some] p show ?thesis
    by (auto simp: runtime_summary_snapshot_def summary_store_quiet_def intro: keepsD)
qed

lemma register_inputs_keeps:
  "input_store_quiet st \<Longrightarrow> register_inputs st ss w = (r, w') \<Longrightarrow> ew_events w' = ew_events w"
proof (induction ss arbitrary: w r w')
  case (Cons s ss)
  obtain x w1 where x: "st_register st s w = (x, w1)" by (meson surj_pair)
  have w1: "ew_events w1 = ew_events w"
    using Cons.prems(1) x by (auto simp: input_store_quiet_def intro: keepsD)
  obtain y w2 where y: "register_inputs st ss w1 = (y, w2)" by (meson surj_pair)
  from Cons.IH[OF Cons.prems(1) y] w1 Cons.prems(2) x y show ?case
    by (auto split: sum.splits)
qed simp

lemma engine_plan_keeps:
  assumes q: "engine_quiet e signal" and p: "engine_execution_plan e rq refs snap w = (r, w')"
  shows "ew_events w' = ew_events w"
proof -
  have k: "env_keeps ew_events (eg_env e)" "keeps ew_events (dl_now (eg_clock e))"
    using q by (simp_all add: engine_quiet_def)
  show ?thesis
  proof (cases "eg_catalog e")
    case None
    with p keepsD[OF local_plan_keeps[OF k]] show ?thesis by (simp add: engine_execution_plan_def)
  next
    case (Some c)
    with p keepsD[OF execution_plan_keeps[OF k]] show ?thesis by (simp add: engine_execution_plan_def)
  qed
qed

subsection \<open>The phases of a run\<close>

lemma prepare_run_ok:
  assumes q: "engine_quiet e signal" and p: "prepare_run e rq md extra w = (r, w')"
  shows "ew_events w' = ew_events w"
    and "r = Inr pr \<Longrightarrow> input_store_quiet (pr_store pr)"
proof -
  have q1: "ew_events (snd (env_now (eg_env e) v)) = ew_events v"
    "ew_events (snd (env_uuid (eg_env e) v)) = ew_events v" for v
    using engine_quietD(1,2)[OF q] by blast+
  have start: "ew_events (snd (start_run (eg_env e) (eg_lib e) rq ms m a b v)) = ew_events v" for ms m a b v
    using q1 by (auto simp: start_run_def Let_def split_beta split: sum.splits if_splits option.splits)
  show "ew_events w' = ew_events w"
    using p q1 start
    by (auto simp: prepare_run_def Let_def split_beta split: sum.splits option.splits if_splits)
  show "r = Inr pr \<Longrightarrow> input_store_quiet (pr_store pr)"
    using p engine_quietD(8)[OF q] local_input_store_quiet
    by (auto simp: prepare_run_def Let_def split_beta split: sum.splits option.splits)
qed

lemma plan_step_ok:
  assumes q: "engine_quiet e signal" and st: "input_store_quiet (pr_store p)"
    and run: "plan_step e rq p b w = (r, b', w')"
  shows "ew_events w' = ew_events w" "bo_outcome b' = bo_outcome b" "bo_write b' = bo_write b"
    "ru_run_id (bo_run b') = ru_run_id (bo_run b)"
    "r = Inr v \<Longrightarrow> \<exists>plan. validate_execution_plan plan = Inr v"
proof -
  have "ew_events w' = ew_events w \<and> bo_outcome b' = bo_outcome b \<and> bo_write b' = bo_write b
    \<and> ru_run_id (bo_run b') = ru_run_id (bo_run b)
    \<and> (\<forall>v. r = Inr v \<longrightarrow> (\<exists>plan. validate_execution_plan plan = Inr v))"
  proof -
    obtain sn w1 where a: "runtime_summary_snapshot e w = (sn, w1)" by (meson surj_pair)
    obtain rf w2 where b: "register_inputs (pr_store p) (pr_inputs p) w1 = (rf, w2)" by (meson surj_pair)
    note k = runtime_snapshot_keeps[OF q a] register_inputs_keeps[OF st b]
    show ?thesis
    proof (cases "\<exists>s rs. sn = Inr s \<and> rf = Inr rs")
      case False
      with a b k run show ?thesis
        by (auto simp: plan_step_def add_metadata_def Let_def split: sum.splits)
    next
      case True
      then obtain s rs where sr: "sn = Inr s" "rf = Inr rs" by blast
      obtain pl w3 where c: "engine_execution_plan e rq rs s w2 = (pl, w3)" by (meson surj_pair)
      from a b c sr k engine_plan_keeps[OF q c] run show ?thesis
        by (auto simp: plan_step_def add_metadata_def Let_def split: sum.splits)
    qed
  qed
  then show "ew_events w' = ew_events w" "bo_outcome b' = bo_outcome b" "bo_write b' = bo_write b"
    "ru_run_id (bo_run b') = ru_run_id (bo_run b)"
    "r = Inr v \<Longrightarrow> \<exists>plan. validate_execution_plan plan = Inr v" by blast+
qed

lemma validated_order:
  assumes "validate_execution_plan p = Inr v"
  shows "mset (concat (vp_topological_levels v)) = mset (map en_node_id (ep_nodes p))"
    "distinct (concat (vp_topological_levels v))"
proof -
  show m: "mset (concat (vp_topological_levels v)) = mset (map en_node_id (ep_nodes p))"
    by (rule plan_levels(1)[OF assms])
  have "distinct (map en_node_id (ep_nodes p))" using validated_plan(1)[OF assms] unfolding plan_ok_def by blast
  with m show "distinct (concat (vp_topological_levels v))" by (metis mset_eq_imp_distinct_iff)
qed

text \<open>The plan of the engine is a plan for the request and for its graph.\<close>

definition engine_plan_for :: "'v engine \<Rightarrow> request \<Rightarrow> exec_plan \<Rightarrow> bool" where
  "engine_plan_for e rq p \<longleftrightarrow> map en_node_id (ep_nodes p) = map gn_node_id (gr_nodes (eg_graph e))
     \<and> ep_target p = rq_target rq \<and> ep_horizon p = rq_horizon rq
     \<and> ep_root_node_id p = gr_root_node_id (eg_graph e)
     \<and> map en_cell_id (ep_nodes p) = map gn_cell_id (gr_nodes (eg_graph e))"

lemma build_execution_plan_for:
  assumes reg: "distinct (map cl_cell_id reg)"
    and plan: "build_execution_plan E L D reg rq c go refs po snap w = (Inr p, w')"
  shows "map en_node_id (ep_nodes p) = map gn_node_id (gr_nodes (chosen_graph go))
    \<and> ep_target p = rq_target rq \<and> ep_horizon p = rq_horizon rq
    \<and> ep_root_node_id p = gr_root_node_id (chosen_graph go)
    \<and> map en_cell_id (ep_nodes p) = map gn_cell_id (gr_nodes (chosen_graph go))"
proof -
  from plan obtain pl w1 where "build_plan E L pl reg rq go refs w1 = (Inr p, w')"
    by (auto simp: build_execution_plan_def split: prod.splits sum.splits)
  then have "fst (build_plan E L pl reg rq go refs w1) = Inr p" by simp
  from built_plan[OF this reg] show ?thesis by blast
qed

lemma engine_plan_scope:
  assumes reg: "distinct (map cl_cell_id (eg_registry e))"
    and plan: "engine_execution_plan e rq refs snap w = (Inr p, w')"
  shows "engine_plan_for e rq p"
proof -
  from plan obtain c po w1 where "build_execution_plan (eg_env e) (eg_lib e) (eg_clock e) (eg_registry e) rq c
      (Some (eg_graph e)) refs po (Some snap) w1 = (Inr p, w')"
    by (auto simp: engine_execution_plan_def build_local_execution_plan_def
        split: option.splits prod.splits sum.splits)
  from build_execution_plan_for[OF reg this] show ?thesis
    by (simp add: engine_plan_for_def chosen_graph_def)
qed

lemma plan_step_plan:
  assumes reg: "distinct (map cl_cell_id (eg_registry e))" and run: "plan_step e rq p b w = (Inr v, b', w')"
  obtains plan where "validate_execution_plan plan = Inr v" "engine_plan_for e rq plan"
proof -
  from run obtain refs snap w2 w3 plan where "engine_execution_plan e rq refs snap w2 = (Inr plan, w3)"
    "validate_execution_plan plan = Inr v"
    by (auto simp: plan_step_def Let_def split: prod.splits sum.splits)
  with engine_plan_scope[OF reg] that show ?thesis by blast
qed

subsection \<open>The execution of the plan\<close>

definition node_entry :: "string \<Rightarrow> string \<Rightarrow> exc option \<Rightarrow> brief" where
  "node_entry rid i err = (case err of
     None \<Rightarrow> (''cell.completed'', Some (PStr rid), Some (PStr i), None)
   | Some x \<Rightarrow> (''cell.failed'', Some (PStr rid), Some (PStr i), Some (PStr (ex_msg x))))"

lemma node_completion_logs:
  assumes q: "engine_quiet e signal"
  shows "handler_logs logged (node_entry rid) (emit_node_completion e rid)"
proof -
  have "fst (emit_node_completion e rid nc w) = None" for nc w
    using emit_quiet(1)[OF q] by (cases "nc_result nc") (auto simp: emit_node_completion_def, (metis prod.collapse)+)
  moreover have "logged (snd (emit_node_completion e rid (completion_of n (Some r) t c None) w))
      = logged w @ [node_entry rid (en_node_id n) None]" for n t c w r
    by (simp add: emit_node_completion_def completion_of_def emit_logged[OF q prod.collapse[symmetric]]
        map_of_dict_merge completion_payload_def map_add_def node_entry_def)
  moreover have "logged (snd (emit_node_completion e rid (completion_of n None t c (Some x)) w))
      = logged w @ [node_entry rid (en_node_id n) (Some x)]" for n t c w x
    by (simp add: emit_node_completion_def completion_of_def emit_logged[OF q prod.collapse[symmetric]]
        map_of_dict_merge completion_payload_def map_add_def node_entry_def)
  ultimately show ?thesis by (simp add: handler_logs_def)
qed

lemma keeps_logged: "keeps ew_events step \<Longrightarrow> keeps logged step"
  by (simp add: keeps_def logged_def)

lemma engine_coordination_keeps:
  assumes q: "engine_quiet e signal" and st: "input_store_quiet (pr_store p)"
  shows "coordination_keeps logged (engine_coordination e p signal)"
proof -
  have "env_keeps logged (eg_env e)" using q by (simp add: engine_quiet_def env_keeps_def keeps_logged)
  moreover have "keeps logged (is_resolve (st_source (pr_store p)) r)" for r
    using st by (simp add: input_store_quiet_def keeps_logged)
  moreover have "\<forall>c \<in> set (eg_registry e). \<forall>rq cx ch. cx_cancellation_signal cx = signal \<longrightarrow>
      keeps logged (ex_execute (eg_executor e) c rq cx ch)"
    using q keeps_logged unfolding engine_quiet_def by metis
  ultimately show ?thesis by (simp add: coordination_keeps_def engine_coordination_def)
qed

lemma has_key_merge: "has_key k (dict_merge d md) \<longleftrightarrow> has_key k d \<or> has_key k md"
  by (simp add: has_key_def flip: dom_map_of_conv_image_fst) (auto simp: map_of_dict_merge dom_map_of_conv_image_fst)

lemma has_key_simps:
  "has_key k (ru_metadata (with_metadata r md)) \<longleftrightarrow> has_key k (ru_metadata r) \<or> has_key k md"
  "has_key k ((k', v) # md) \<longleftrightarrow> k = k' \<or> has_key k md" "\<not> has_key k []"
  by (simp_all add: with_metadata_def has_key_merge) (auto simp: has_key_def)

text \<open>What \<open>execute_step\<close> logs and leaves in the body.\<close>

lemma execute_step_ok:
  assumes q: "engine_quiet e signal" and st: "input_store_quiet (pr_store p)"
    and v: "validate_execution_plan plan = Inr v" and run: "execute_step e p signal v b w = (r, b', w')"
  obtains oc done' post where "r = Inr oc" "concat (vp_topological_levels v) = done' @ post"
    "logged w' = logged w @ map (\<lambda>i. node_entry (ru_run_id (pr_run p)) i None) done'
        @ (case po_error oc of None \<Rightarrow> [] | Some x \<Rightarrow> [node_entry (ru_run_id (pr_run p)) (hd post) (Some x)])"
    "po_error oc = None \<longleftrightarrow> post = []" "po_error oc \<noteq> None \<longrightarrow> po_failed_node_id oc = Some (hd post)"
    "bo_outcome b' = Some oc" "bo_write b' \<noteq> None" "ru_run_id (bo_run b') = ru_run_id (bo_run b)"
    "has_key ''runtime_summary_write'' (ru_metadata (bo_run b'))"
proof -
  let ?C = "engine_coordination e p signal" and ?entry = "node_entry (ru_run_id (pr_run p))"
  obtain x w1 where ex: "execute_plan ?C v w = (x, w1)" by (meson surj_pair)
  have h: "cn_handler ?C = Some (emit_node_completion e (ru_run_id (pr_run p)))"
    by (simp add: engine_coordination_def)
  obtain oc done' post where oc: "x = Inr oc" "concat (vp_topological_levels v) = done' @ post"
    "logged w1 = logged w @ map (\<lambda>i. ?entry i None) done'
        @ (case po_error oc of None \<Rightarrow> [] | Some e \<Rightarrow> [?entry (hd post) (Some e)])"
    and err: "case po_error oc of None \<Rightarrow> post = []
         | Some e \<Rightarrow> post \<noteq> [] \<and> po_failed_node_id oc = Some (hd post)"
    using execute_plan_log[OF v engine_coordination_keeps[OF q st] h node_completion_logs[OF q] ex] by blast
  obtain wr w2 where pe: "persist_runtime_traces e (po_runtime_traces oc) w1 = (wr, w2)" by (meson surj_pair)
  have c: "eg_coordinate e = execute_plan" by (rule engine_quietD(5)[OF q])
  have res: "r = Inr oc" "w' = w2" "bo_outcome b' = Some oc" "bo_write b' = Some wr"
    "ru_run_id (bo_run b') = ru_run_id (bo_run b)"
    "has_key ''runtime_summary_write'' (ru_metadata (bo_run b'))"
    using run ex oc(1) pe c by (auto simp: execute_step_def add_metadata_def Let_def has_key_simps)
  have "logged w' = logged w1" using persist_keeps[OF q pe] res(2) by (simp add: logged_def)
  with that[OF res(1) oc(2)] oc(3) err res show ?thesis by (auto split: option.splits)
qed

subsection \<open>The report and the failure\<close>

definition run_entry :: "string \<Rightarrow> string \<Rightarrow> brief" where
  "run_entry name rid = (name, Some (PStr rid), None, None)"

definition failed_entry :: "string \<Rightarrow> exc \<Rightarrow> brief" where
  "failed_entry rid x = (''analysis.failed'', Some (PStr rid), None, Some (PStr (ex_msg x)))"

definition end_entries :: "'v engine \<Rightarrow> string \<Rightarrow> brief list" where
  "end_entries e rid = (case eg_report_store e of None \<Rightarrow> [] | Some _ \<Rightarrow> [run_entry ''analysis.saved'' rid])
     @ [run_entry ''analysis.completed'' rid]"

lemma save_report_ok:
  assumes q: "engine_quiet e signal" and run: "save_report e r completed rep w = (x, w')"
  shows "case x of Inl y \<Rightarrow> logged w' = logged w
    | Inr rep' \<Rightarrow> logged w' = logged w @ (case eg_report_store e of None \<Rightarrow> []
          | Some _ \<Rightarrow> [run_entry ''analysis.saved'' (ru_run_id r)])
        \<and> rp_decision rep' = rp_decision rep \<and> rp_run_id rep' = rp_run_id rep
        \<and> rp_target rep' = rp_target rep \<and> rp_horizon rep' = rp_horizon rep \<and> rp_summary rep' = rp_summary rep"
proof (cases "eg_report_store e")
  case None
  with run show ?thesis by (auto simp: save_report_def)
next
  case (Some s)
  obtain i w1 where sv: "rq_save s rep completed w = (i, w1)" by (meson surj_pair)
  have w1: "logged w1 = logged w"
    using engine_quietD(6)[OF q Some] sv keepsD unfolding report_store_quiet_def logged_def by metis
  show ?thesis
  proof (cases i)
    case (Inl y)
    with run Some sv w1 show ?thesis by (auto simp: save_report_def)
  next
    case (Inr j)
    let ?pay = "[(''run_id'', PStr (ru_run_id r)), (''report_id'', PStr j)]"
    obtain y w2 where em: "emit (eg_env e) (eg_bus e) ''analysis.saved'' ?pay w1 = (y, w2)" by (meson surj_pair)
    from emit_quiet(1)[OF q em] emit_logged[OF q em] run Some sv w1 Inr em show ?thesis
      by (auto simp: save_report_def run_entry_def)
  qed
qed

lemma report_step_ok:
  assumes q: "engine_quiet e signal" and run: "report_step e rq oc b w = (x, w')"
  shows "case x of Inl y \<Rightarrow> logged w' = logged w \<and> (\<forall>z. po_error oc = Some z \<longrightarrow> y = z)
    | Inr rep \<Rightarrow> plan_unwrap oc = Inr (rp_decision rep)
        \<and> logged w' = logged w @ end_entries e (ru_run_id (bo_run b))
        \<and> rp_run_id rep = Some (ru_run_id (bo_run b)) \<and> rp_target rep = rq_target rq
        \<and> rp_horizon rep = rq_horizon rq \<and> rp_summary rep = cr_explanation (rp_decision rep)"
proof (cases "plan_unwrap oc")
  case (Inl y)
  with run show ?thesis by (auto simp: report_step_def plan_unwrap_def split: option.splits)
next
  case (Inr d)
  let ?r = "bo_run b"
  obtain cm w1 where cm: "complete_run (eg_env e) (with_metadata ?r (body_metadata b)) (ru_run_id ?r) w = (cm, w1)"
    by (meson surj_pair)
  have w1: "logged w1 = logged w"
    using complete_run_sel[OF cm] engine_quietD(1)[OF q, of w] by (simp add: logged_def)
  obtain y w2 where sv: "save_report e ?r cm (report_of rq ?r cm d) w1 = (y, w2)" by (meson surj_pair)
  note s = save_report_ok[OF q sv]
  have ok: "po_error oc = None" using Inr by (simp add: plan_unwrap_def split: option.splits)
  show ?thesis
  proof (cases y)
    case (Inl z)
    with run Inr cm sv s w1 ok show ?thesis by (auto simp: report_step_def)
  next
    case (Inr rep)
    let ?pay = "[(''run_id'', PStr (ru_run_id ?r)), (''report_id'', opt_str (rp_report_id rep))]"
    obtain z w3 where em: "emit (eg_env e) (eg_bus e) ''analysis.completed'' ?pay w2 = (z, w3)" by (meson surj_pair)
    from emit_quiet(1)[OF q em] emit_logged[OF q em] run \<open>plan_unwrap oc = Inr d\<close> cm sv s w1 Inr em show ?thesis
      by (auto simp: report_step_def run_entry_def end_entries_def report_of_def split: option.splits)
  qed
qed

text \<open>The whole body: which nodes completed, what it logged, and what it leaves to the handler.\<close>

definition graph_ids_of :: "'v engine \<Rightarrow> string list" where
  "graph_ids_of e = map gn_node_id (gr_nodes (eg_graph e))"

definition body_log :: "'v engine \<Rightarrow> string \<Rightarrow> (build_error + report) \<Rightarrow> string list \<Rightarrow> brief list \<Rightarrow> bool" where
  "body_log e rid r done' rest \<longleftrightarrow> distinct done' \<and> set done' \<subseteq> set (graph_ids_of e) \<and>
     (case r of Inr rep \<Rightarrow> mset done' = mset (graph_ids_of e) \<and> rest = end_entries e rid
      | Inl x \<Rightarrow> rest = [] \<or> (\<exists>i \<in> set (graph_ids_of e) - set done'. rest = [node_entry rid i (Some (build_exc x))]))"

lemma engine_body_ok:
  assumes q: "engine_quiet e signal" and st: "input_store_quiet (pr_store p)"
    and reg: "distinct (map cl_cell_id (eg_registry e))"
    and run: "engine_body e rq p signal w = (r, b, w')"
  defines "rid \<equiv> ru_run_id (pr_run p)"
  shows "\<exists>done' rest. body_log e rid r done' rest
    \<and> logged w' = logged w @ map (\<lambda>i. node_entry rid i None) done' @ rest" and "ru_run_id (bo_run b) = rid"
    and "bo_write b \<noteq> None \<longrightarrow> has_key ''runtime_summary_write'' (ru_metadata (bo_run b))"
proof -
  let ?b0 = "\<lparr>bo_run = pr_run p, bo_outcome = None, bo_write = None\<rparr>"
  obtain pl b1 w1 where ps: "plan_step e rq p ?b0 w = (pl, b1, w1)" by (metis surj_pair)
  note p1 = plan_step_ok[OF q st ps]
  have rid1: "ru_run_id (bo_run b1) = rid" and w1: "logged w1 = logged w"
    using p1 by (simp_all add: rid_def logged_def)
  have all: "(\<exists>done' rest. body_log e rid r done' rest
    \<and> logged w' = logged w @ map (\<lambda>i. node_entry rid i None) done' @ rest) \<and> ru_run_id (bo_run b) = rid
    \<and> (bo_write b \<noteq> None \<longrightarrow> has_key ''runtime_summary_write'' (ru_metadata (bo_run b)))"
  proof (cases pl)
    case (Inl x)
    then have "r = Inl x" "b = b1" "w' = w1" using run ps by (simp_all add: engine_body_def)
    with rid1 w1 p1(3) show ?thesis
      by (intro conjI exI[of _ "[]"]) (simp_all add: body_log_def)
  next
    case (Inr v)
    obtain plan where plan: "validate_execution_plan plan = Inr v" "engine_plan_for e rq plan"
      using plan_step_plan[OF reg ps[unfolded Inr]] by blast
    obtain y b2 w2 where es: "execute_step e p signal v b1 w1 = (y, b2, w2)" by (metis surj_pair)
    obtain oc done' post where oc: "y = Inr oc" "concat (vp_topological_levels v) = done' @ post"
      "logged w2 = logged w1 @ map (\<lambda>i. node_entry rid i None) done'
          @ (case po_error oc of None \<Rightarrow> [] | Some x \<Rightarrow> [node_entry rid (hd post) (Some x)])"
      "po_error oc = None \<longleftrightarrow> post = []" "po_error oc \<noteq> None \<longrightarrow> po_failed_node_id oc = Some (hd post)"
      "bo_outcome b2 = Some oc" "bo_write b2 \<noteq> None" "ru_run_id (bo_run b2) = ru_run_id (bo_run b1)"
      "has_key ''runtime_summary_write'' (ru_metadata (bo_run b2))"
      unfolding rid_def by (rule execute_step_ok[OF q st plan(1) es])
    have m: "mset (done' @ post) = mset (graph_ids_of e)" "distinct (done' @ post)"
      using validated_order[OF plan(1)] plan(2) oc(2)
      by (simp_all add: engine_plan_for_def graph_ids_of_def del: mset_map)
    have sets: "set done' \<union> set post = set (graph_ids_of e)" using mset_eq_setD[OF m(1)] by simp
    obtain z w3 where rs: "report_step e rq oc b2 w2 = (z, w3)" by (meson surj_pair)
    note rep = report_step_ok[OF q rs]
    show ?thesis
    proof (cases z)
      case (Inl x)
      then have r: "r = Inl (BuildRaised x)" "b = b2" "w' = w3"
        using run ps \<open>pl = Inr v\<close> es oc(1) rs by (simp_all add: engine_body_def)
      have "hd post \<in> set (graph_ids_of e) - set done'" if "post \<noteq> []"
        using that sets m(2) by (cases post) auto
      then have "body_log e rid r done' (case po_error oc of None \<Rightarrow> [] | Some x \<Rightarrow> [node_entry rid (hd post) (Some x)])"
        using m(2) sets rep Inl oc(4) by (auto simp: body_log_def r(1) split: option.splits)
      moreover have "logged w' = logged w2" using rep Inl r(3) by simp
      ultimately show ?thesis using oc(3,8,9) w1 rid1 r(2)
        by (intro conjI exI[of _ done'] exI[of _ "case po_error oc of None \<Rightarrow> []
              | Some x \<Rightarrow> [node_entry rid (hd post) (Some x)]"]) simp_all
    next
      case (Inr rp)
      then have r: "r = Inr rp" "b = b2" "w' = w3"
        using run ps \<open>pl = Inr v\<close> es oc(1) rs by (simp_all add: engine_body_def)
      have "po_error oc = None" using rep Inr by (auto simp: plan_unwrap_def split: option.splits)
      moreover from this have "post = []" using oc(4) by blast
      ultimately have "body_log e rid r done' (end_entries e rid)" "logged w' = logged w2 @ end_entries e rid"
        using m sets rep Inr r oc(8) rid1 by (simp_all add: body_log_def)
      with oc(3,8,9) \<open>po_error oc = None\<close> w1 rid1 r(2) show ?thesis
        by (intro conjI exI[of _ done'] exI[of _ "end_entries e rid"]) simp_all
    qed
  qed
  then show "\<exists>done' rest. body_log e rid r done' rest
    \<and> logged w' = logged w @ map (\<lambda>i. node_entry rid i None) done' @ rest" "ru_run_id (bo_run b) = rid"
    "bo_write b \<noteq> None \<longrightarrow> has_key ''runtime_summary_write'' (ru_metadata (bo_run b))" by blast+
qed

text \<open>The handler: it saves the failed run, logs the failure, and hands the exception on.\<close>

lemma validation_metadata_sel:
  "bo_outcome (validation_metadata x b) = bo_outcome b" "bo_write (validation_metadata x b) = bo_write b"
  "ru_run_id (bo_run (validation_metadata x b)) = ru_run_id (bo_run b)"
  by (cases x; simp add: add_metadata_def)+

lemma validation_metadata_keys:
  "has_key k (ru_metadata (bo_run b)) \<Longrightarrow> has_key k (ru_metadata (bo_run (validation_metadata x b)))"
  by (cases x; simp add: add_metadata_def has_key_simps)

lemma ensure_persisted_ok:
  assumes q: "engine_quiet e signal" and run: "ensure_persisted e b w = (b', w')"
    and wr: "bo_write b \<noteq> None \<longrightarrow> has_key ''runtime_summary_write'' (ru_metadata (bo_run b))"
  shows "ew_events w' = ew_events w" "ru_run_id (bo_run b') = ru_run_id (bo_run b)"
    "has_key ''runtime_summary_write'' (ru_metadata (bo_run b'))"
    "has_key k (ru_metadata (bo_run b)) \<Longrightarrow> has_key k (ru_metadata (bo_run b'))"
proof -
  obtain r w1 where pe: "persist_runtime_traces e (body_traces b) w = (r, w1)" by (meson surj_pair)
  from persist_keeps[OF q pe] run wr pe
  show "ew_events w' = ew_events w" "ru_run_id (bo_run b') = ru_run_id (bo_run b)"
    "has_key ''runtime_summary_write'' (ru_metadata (bo_run b'))"
    "has_key k (ru_metadata (bo_run b)) \<Longrightarrow> has_key k (ru_metadata (bo_run b'))"
    by (auto simp: ensure_persisted_def add_metadata_def has_key_simps split: option.splits)
qed

lemma handle_failure_ok:
  assumes q: "engine_quiet e signal" and run: "handle_failure e rq x b w = (y, w')"
    and wr: "bo_write b \<noteq> None \<longrightarrow> has_key ''runtime_summary_write'' (ru_metadata (bo_run b))"
  defines "rid \<equiv> ru_run_id (bo_run b)"
  shows "y = x" "logged w' = logged w @ [failed_entry rid (build_exc x)]"
proof -
  obtain b1 w1 where ep: "ensure_persisted e (validation_metadata x b) w = (b1, w1)" by (meson surj_pair)
  have "bo_write (validation_metadata x b) \<noteq> None \<longrightarrow>
      has_key ''runtime_summary_write'' (ru_metadata (bo_run (validation_metadata x b)))"
    using wr validation_metadata_sel(2) validation_metadata_keys(1) by metis
  note e1 = ensure_persisted_ok[OF q ep this]
  let ?r = "with_metadata (bo_run b1) (body_metadata b1)"
  obtain failed w2 where fr: "fail_run (eg_env e) ?r (ex_msg (build_exc x)) w1 = (failed, w2)" by (meson surj_pair)
  note f = fail_run_sel[OF fr]
  have w2: "ew_events w2 = ew_events w1" using f engine_quietD(1)[OF q, of w1] by simp
  obtain pe w3 where sv: "save_failed_run (eg_report_store e) failed w2 = (pe, w3)" by (meson surj_pair)
  have w3: "ew_events w3 = ew_events w2"
  proof (cases "eg_report_store e")
    case (Some s)
    then have "ew_events (snd (rq_save_run s failed w2)) = ew_events w2"
      using engine_quietD(6)[OF q] by (simp add: report_store_quiet_def keeps_def)
    with sv Some show ?thesis by (auto simp: save_failed_run_def split: prod.splits sum.splits)
  qed (use sv in \<open>simp add: save_failed_run_def\<close>)
  let ?pay = "failed_payload rq failed b1 pe"
  obtain z w4 where em: "emit (eg_env e) (eg_bus e) ''analysis.failed'' ?pay w3 = (z, w4)" by (meson surj_pair)
  have res: "y = x" "w' = w4" using run ep fr sv em emit_quiet(1)[OF q em] by (simp_all add: handle_failure_def)
  show "y = x" by fact
  have rid: "ru_run_id (bo_run b1) = rid" using e1(2) by (simp add: validation_metadata_sel rid_def)
  show "logged w' = logged w @ [failed_entry rid (build_exc x)]"
    using emit_logged[OF q em] w3 w2 e1(1) f rid res(2)
    by (simp add: logged_def failed_payload_def failed_entry_def)
qed

subsection \<open>The local executor keeps what its Cells keep\<close>

lemma call_cell_keeps:
  assumes "\<And>rq ch. keeps f (cl_analyze c rq ch)" "\<And>ib ch. keeps f (cl_analyze_inputs c ib ch)"
    and run: "call_cell b c rq cx ch w = (x, w')"
  shows "f w' = f w"
proof -
  have "w' = w \<or> (\<exists>ib. w' = snd (cl_analyze_inputs c ib ch w)) \<or> w' = snd (cl_analyze c rq ch w)"
    using run unfolding call_cell_def
    by (cases "cx_input_bundle cx") (auto simp: split_beta Let_def split: sum.splits)
  then show ?thesis using assms(1,2) unfolding keeps_def by metis
qed

lemma local_execute_keeps:
  assumes E: "env_keeps f E" and c: "\<And>rq ch. keeps f (cl_analyze c rq ch)" "\<And>ib ch. keeps f (cl_analyze_inputs c ib ch)"
  shows "keeps f (local_execute E sid c rq cx ch)"
proof -
  have e: "f (snd (env_now E w)) = f w" "f (snd (env_perf E w)) = f w" "f (snd (env_uuid E w)) = f w" for w
    using E by (simp_all add: env_keeps_def keeps_def)
  have call: "f (snd (call_cell b c rq cx ch w)) = f w" for b w
    by (rule call_cell_keeps[OF c prod.collapse[symmetric]])
  have tr: "f (snd (runtime_trace E cx b i fv s t d m er w)) = f w" for b i fv s t d m er w
    by (simp add: runtime_trace_def split_beta Let_def e)
  show ?thesis
    by (simp add: keeps_def local_execute_def split_beta Let_def e call tr split: sum.split)
qed

subsection \<open>A concrete engine\<close>

definition lift_env :: "'v env \<Rightarrow> 'v eworld env" where
  "lift_env E = \<lparr>env_now = (\<lambda>w. let (x, v) = env_now E (ew_rest w) in (x, w\<lparr>ew_rest := v\<rparr>)),
     env_perf = (\<lambda>w. let (x, v) = env_perf E (ew_rest w) in (x, w\<lparr>ew_rest := v\<rparr>)),
     env_uuid = (\<lambda>w. let (x, v) = env_uuid E (ew_rest w) in (x, w\<lparr>ew_rest := v\<rparr>))\<rparr>"

lemma lift_env_keeps: "env_keeps ew_events (lift_env E)"
  by (simp add: env_keeps_def keeps_def lift_env_def split_beta Let_def)

definition sample_result :: cell_result where
  "sample_result = CellResult ''cell'' ''Cell'' ''risk'' ''BTCUSDT'' ''1h'' Neutral (Fin 1) (Fin 1)
     (Fin 1) (Fin 1) (Fin 1) (Fin 50) ''flat'' None None [] [] []"

definition sample_engine_cell :: "nat eworld cell" where
  "sample_engine_cell = \<lparr>cl_manifest = sample_manifest, cl_analyze = (\<lambda>rq ch w. (CellReturned sample_result, w)),
     cl_analyze_inputs = (\<lambda>ib ch w. (CellReturned sample_result, w))\<rparr>"

definition sample_engine :: "nat engine" where
  "sample_engine = \<lparr>eg_lib = echo_lib, eg_env = lift_env tick_env,
     eg_clock = \<lparr>dl_parse = dl_parse sample_clock, dl_iso = show_int, dl_now = (\<lambda>w. (7, w))\<rparr>,
     eg_registry = [sample_engine_cell], eg_bus = [], eg_report_store = None, eg_run_metadata = [],
     eg_executor = \<lparr>ex_name = ''local_python_executor_v0.1'',
       ex_execute = local_execute (lift_env tick_env) ''python-local''\<rparr>,
     eg_service_id = Some ''python-local'', eg_coordinate = execute_plan, eg_graph = sample_graph,
     eg_input_store = None, eg_input_source = ''analysis_request'', eg_input_data_version = ''analysis_request.v1'',
     eg_summary_store = None, eg_summary_window = 5, eg_catalog = None, eg_policy = None\<rparr>"

definition sample_world :: "nat eworld" where
  "sample_world = \<lparr>ew_events = [], ew_resolver = empty_resolver, ew_admission = empty_admission, ew_rest = 0\<rparr>"

lemma sample_prepared:
  "\<exists>p. fst (prepare_run sample_engine sample_request None None sample_world) = Inr p"
  by (rule not_isl) code_simp


lemma sample_quiet: "engine_quiet sample_engine None"
proof -
  have "keeps ew_events (local_execute (lift_env tick_env) ''python-local'' sample_engine_cell rq cx ch)" for rq cx ch
    by (rule local_execute_keeps[OF lift_env_keeps]) (simp_all add: sample_engine_cell_def keeps_def)
  then show ?thesis
    using lift_env_keeps[of tick_env] by (simp add: engine_quiet_def sample_engine_def bus_quiet_def keeps_def)
qed

subsection \<open>Properties\<close>

text \<open>C4: The events of a run. When nothing but the engine emits and no subscriber raises, a run that is
  refused before it starts emits nothing. A run that starts emits \<open>analysis.started\<close>, then one
  \<open>cell.completed\<close> for each node that completed, each node at most once; it ends either with
  \<open>analysis.saved\<close> (when there is a report store) and \<open>analysis.completed\<close>, and then every node
  of the graph has completed, or with at most one \<open>cell.failed\<close>, of a node that has not, and
  \<open>analysis.failed\<close>, both with the text of the exception the caller gets.\<close>

theorem engine_event_log:
  assumes "engine_quiet e signal" and "distinct (map cl_cell_id (eg_registry e))"
    and "engine_run e rq md signal extra w = (r, w')"
  shows "case fst (prepare_run e rq md extra w) of
      Inl x \<Rightarrow> r = Inl x \<and> logged w' = logged w
    | Inr p \<Rightarrow> \<exists>done' rest. logged w' = logged w @ [run_entry ''analysis.started'' (ru_run_id (pr_run p))]
          @ map (\<lambda>i. node_entry (ru_run_id (pr_run p)) i None) done' @ rest
        \<and> distinct done' \<and> set done' \<subseteq> set (graph_ids_of e)
        \<and> (case r of
             Inr rep \<Rightarrow> mset done' = mset (graph_ids_of e) \<and> rest = end_entries e (ru_run_id (pr_run p))
           | Inl (RunRaised x) \<Rightarrow> rest = [failed_entry (ru_run_id (pr_run p)) (build_exc x)]
               \<or> (\<exists>i \<in> set (graph_ids_of e) - set done'. rest =
                    [node_entry (ru_run_id (pr_run p)) i (Some (build_exc x)),
                     failed_entry (ru_run_id (pr_run p)) (build_exc x)])
           | Inl (RequestRefused _) \<Rightarrow> False)"
proof -
  obtain y w1 where pr: "prepare_run e rq md extra w = (y, w1)" by (meson surj_pair)
  have w1: "logged w1 = logged w" using prepare_run_ok(1)[OF assms(1) pr] by (simp add: logged_def)
  show ?thesis
  proof (cases y)
    case (Inl x)
    with pr assms(3) w1 show ?thesis by (auto simp: engine_run_def)
  next
    case (Inr p)
    have st: "input_store_quiet (pr_store p)" by (rule prepare_run_ok(2)[OF assms(1) pr Inr])
    obtain z w2 where em: "emit (eg_env e) (eg_bus e) ''analysis.started'' (started_payload e rq p) w1 = (z, w2)"
      by (meson surj_pair)
    have w2: "z = None" "logged w2 = logged w @ [run_entry ''analysis.started'' (ru_run_id (pr_run p))]"
      using emit_quiet(1)[OF assms(1) em] emit_logged[OF assms(1) em] w1
      by (simp_all add: started_payload_def run_entry_def)
    obtain x b w3 where bd: "engine_body e rq p signal w2 = (x, b, w3)" by (metis surj_pair)
    note body = engine_body_ok[OF assms(1) st assms(2) bd]
    obtain done' rest where l: "body_log e (ru_run_id (pr_run p)) x done' rest"
      "logged w3 = logged w2 @ map (\<lambda>i. node_entry (ru_run_id (pr_run p)) i None) done' @ rest"
      using body(1) by blast
    show ?thesis
    proof (cases x)
      case (Inl err)
      obtain err' w4 where hf: "handle_failure e rq err b w3 = (err', w4)" by (meson surj_pair)
      note h = handle_failure_ok[OF assms(1) hf body(3)]
      have "r = Inl (RunRaised err)" "w' = w4"
        using assms(3) pr Inr em w2(1) bd Inl hf h(1) by (simp_all add: engine_run_def)
      with l w2(2) h(2) body(2) pr Inr Inl show ?thesis
        by (intro exI[of _ done'] exI[of _ "rest @ [failed_entry (ru_run_id (pr_run p)) (build_exc err)]"]
            | simp add: body_log_def)+
    next
      case (Inr rep)
      then have "r = Inr rep" "w' = w3" using assms(3) pr \<open>y = Inr p\<close> em w2(1) bd by (simp_all add: engine_run_def)
      with l w2(2) pr \<open>y = Inr p\<close> Inr show ?thesis by (auto simp: body_log_def)
    qed
  qed
qed

theorem engine_event_log_witness:
  "\<exists>p r w' done' rest. fst (prepare_run sample_engine sample_request None None sample_world) = Inr p
     \<and> engine_run sample_engine sample_request None None None sample_world = (r, w')
     \<and> logged w' = [run_entry ''analysis.started'' (ru_run_id (pr_run p))]
         @ map (\<lambda>i. node_entry (ru_run_id (pr_run p)) i None) done' @ rest \<and> set done' \<subseteq> {''node''}"
proof -
  obtain p where p: "fst (prepare_run sample_engine sample_request None None sample_world) = Inr p"
    using sample_prepared ..
  obtain r w' where run: "engine_run sample_engine sample_request None None None sample_world = (r, w')"
    by (meson surj_pair)
  have "distinct (map cl_cell_id (eg_registry sample_engine))" by (simp add: sample_engine_def)
  from engine_event_log[OF sample_quiet this run] p obtain done' rest where
    "logged w' = logged sample_world @ [run_entry ''analysis.started'' (ru_run_id (pr_run p))]
       @ map (\<lambda>i. node_entry (ru_run_id (pr_run p)) i None) done' @ rest"
    "set done' \<subseteq> set (graph_ids_of sample_engine)" by auto
  moreover have "logged sample_world = []" "graph_ids_of sample_engine = [''node'']"
    by (simp_all add: logged_def sample_world_def graph_ids_of_def sample_engine_def sample_graph_def simple_node_def)
  ultimately show ?thesis using p run
    by (intro exI[of _ p] exI[of _ r] exI[of _ w'] exI[of _ done'] exI[of _ rest]) simp
qed

end
