(* ===== verification/Engine_Records.thy ===== *)
theory Engine_Records
  imports Engine_Correct
begin

section \<open>The records of an analysis\<close>

text \<open>
  What a run hands to its caller and to its store: a successful one the result of the root Cell, a
  failed one everything that was gathered before the exception, with its exact values. The outcome
  of the coordinator is read off the steps down to it, not off the variables of the handler.
\<close>

subsection \<open>The exception of a rejected graph\<close>

lemma plan_parts_graph: "plan_parts pl reg g refs = Inl (GraphInvalid g' iss) \<Longrightarrow> g' = g"
  by (auto simp: plan_parts_def Let_def split: sum.splits)

lemma build_plan_graph: "fst (build_plan E L pl reg rq (Some g) refs w) = Inl (GraphInvalid g' iss) \<Longrightarrow> g' = g"
  by (auto simp: build_plan_def Let_def chosen_graph_def checked_plan_def split_beta dest!: plan_parts_graph
      split: sum.splits prod.splits)

lemma build_execution_plan_graph:
  "fst (build_execution_plan E L D reg rq c (Some g) refs po snap w) = Inl (GraphInvalid g' iss) \<Longrightarrow> g' = g"
  by (auto simp: build_execution_plan_def split: sum.splits prod.splits dest: build_plan_graph)

lemma engine_execution_plan_graph:
  "fst (engine_execution_plan e rq refs snap w) = Inl (GraphInvalid g iss) \<Longrightarrow> g = eg_graph e"
  by (auto simp: engine_execution_plan_def build_local_execution_plan_def
      split: option.splits sum.splits prod.splits dest: build_execution_plan_graph)

subsection \<open>What the body leaves in the run\<close>

definition run_key :: "body \<Rightarrow> string \<Rightarrow> pyval option" where
  "run_key b k = map_of (ru_metadata (bo_run b)) k"

lemma run_key_add:
  "run_key (add_metadata [(k', v)] b) k = (if k = k' then Some v else run_key b k)"
  "bo_outcome (add_metadata md b) = bo_outcome b" "bo_write (add_metadata md b) = bo_write b"
  "ru_run_id (bo_run (add_metadata md b)) = ru_run_id (bo_run b)"
  by (simp_all add: run_key_def add_metadata_def with_metadata_lookup)

lemma run_key_set [simp]:
  "run_key (b\<lparr>bo_outcome := x\<rparr>) k = run_key b k" "run_key (b\<lparr>bo_write := y\<rparr>) k = run_key b k"
  by (simp_all add: run_key_def)

definition untouched_keys :: "body \<Rightarrow> body \<Rightarrow> bool" where
  "untouched_keys b b' \<longleftrightarrow> (\<forall>k. k \<notin> {''runtime_summary_snapshot'', ''cell_execution_plan'', ''plan_execution'',
      ''runtime_summary_write''} \<longrightarrow> run_key b' k = run_key b k)"

text \<open>The plan or the graph that an exception of the planning carries.\<close>

fun rejected_ok :: "'v engine \<Rightarrow> body \<Rightarrow> body \<Rightarrow> build_error \<Rightarrow> bool" where
  "rejected_ok e b b' (BuildRaised x) = True"
| "rejected_ok e b b' (PlanInvalid plan iss) =
     (run_key b' ''cell_execution_plan'' \<in> {run_key b ''cell_execution_plan'', Some (plan_to_dict plan)})"
| "rejected_ok e b b' (GraphInvalid g iss) = (g = eg_graph e)"

lemma plan_step_body:
  assumes "plan_step e rq p b w = (r, b', w')"
  shows "bo_outcome b' = bo_outcome b \<and> bo_write b' = bo_write b \<and> ru_run_id (bo_run b') = ru_run_id (bo_run b)
    \<and> untouched_keys b b' \<and> (case r of Inl x \<Rightarrow> rejected_ok e b b' x | Inr v \<Rightarrow> True)"
proof -
  obtain snap w1 where s: "runtime_summary_snapshot e w = (snap, w1)" by (meson surj_pair)
  show ?thesis
  proof (cases snap)
    case (Inl x)
    with assms s show ?thesis by (auto simp: plan_step_def untouched_keys_def)
  next
    case (Inr sn)
    let ?b1 = "add_metadata [(''runtime_summary_snapshot'', PDict (snapshot_to_meta sn))] b"
    obtain refs w2 where rg: "register_inputs (pr_store p) (pr_inputs p) w1 = (refs, w2)" by (meson surj_pair)
    show ?thesis
    proof (cases refs)
      case (Inl x)
      with assms s Inr rg show ?thesis by (auto simp: plan_step_def untouched_keys_def run_key_add)
    next
      case (Inr rs)
      obtain pl w3 where ep: "engine_execution_plan e rq rs sn w2 = (pl, w3)" by (meson surj_pair)
      show ?thesis
      proof (cases pl)
        case (Inl x)
        then have "r = Inl x" "b' = ?b1" using assms s \<open>snap = Inr sn\<close> rg Inr ep by (simp_all add: plan_step_def Let_def)
        then show ?thesis using engine_execution_plan_graph[of e rq rs sn w2] ep Inl
          by (cases x) (auto simp: untouched_keys_def run_key_add)
      next
        case (Inr plan)
        with assms s \<open>snap = Inr sn\<close> rg \<open>refs = Inr rs\<close> ep
        have r: "r = (case validate_execution_plan plan of Inl issues \<Rightarrow> Inl (PlanInvalid plan issues) | Inr v \<Rightarrow> Inr v)"
          "b' = add_metadata [(''cell_execution_plan'', plan_to_dict plan)] ?b1"
          by (simp_all add: plan_step_def Let_def)
        then show ?thesis by (auto simp: untouched_keys_def run_key_add split: sum.splits)
      qed
    qed
  qed
qed

text \<open>The outcome the coordinator returned to this run, if it came to that.\<close>

definition started_body :: "'v prepared \<Rightarrow> body" where
  "started_body p = \<lparr>bo_run = pr_run p, bo_outcome = None, bo_write = None\<rparr>"

definition gathered :: "'v engine \<Rightarrow> request \<Rightarrow> 'v prepared \<Rightarrow> ('v eworld \<Rightarrow> bool \<times> 'v eworld) option \<Rightarrow> 'v eworld
  \<Rightarrow> plan_outcome option" where
  "gathered e rq p signal w =
     (case plan_step e rq p (started_body p) w of
        (Inl x, b, w1) \<Rightarrow> None
      | (Inr v, b, w1) \<Rightarrow>
         (case eg_coordinate e (engine_coordination e p signal) v w1 of (Inl x, w2) \<Rightarrow> None | (Inr oc, w2) \<Rightarrow> Some oc))"

definition gathered_traces :: "plan_outcome option \<Rightarrow> trace list" where
  "gathered_traces oc = (case oc of None \<Rightarrow> [] | Some out \<Rightarrow> po_runtime_traces out)"

definition gathered_resolutions :: "plan_outcome option \<Rightarrow> resolution_record list" where
  "gathered_resolutions oc = (case oc of None \<Rightarrow> [] | Some out \<Rightarrow> po_input_resolution_records out)"

definition gathered_controls :: "plan_outcome option \<Rightarrow> control_record list" where
  "gathered_controls oc = (case oc of None \<Rightarrow> [] | Some out \<Rightarrow> po_execution_control_records out)"

text \<open>A write record that persisting these traces gave.\<close>

definition write_of :: "'v engine \<Rightarrow> plan_outcome option \<Rightarrow> write_record \<Rightarrow> bool" where
  "write_of e oc wr \<longleftrightarrow> (\<exists>wa wb. persist_runtime_traces e (gathered_traces oc) wa = (wr, wb))"

lemma execute_step_body:
  assumes "execute_step e p signal v b w = (r, b', w')" "bo_outcome b = None" "bo_write b = None"
  shows "(case eg_coordinate e (engine_coordination e p signal) v w of
       (Inl x, w1) \<Rightarrow> r = Inl x \<and> b' = b
     | (Inr oc, w1) \<Rightarrow> r = Inr oc \<and> bo_outcome b' = Some oc \<and> ru_run_id (bo_run b') = ru_run_id (bo_run b)
         \<and> untouched_keys b b' \<and> run_key b' ''plan_execution'' = Some (PDict (plan_outcome_to_dict oc))
         \<and> (\<exists>wr. bo_write b' = Some wr \<and> write_of e (Some oc) wr
              \<and> run_key b' ''runtime_summary_write'' = Some (write_to_dict wr)))"
proof -
  obtain x w1 where co: "eg_coordinate e (engine_coordination e p signal) v w = (x, w1)" by (meson surj_pair)
  show ?thesis
  proof (cases x)
    case (Inl y)
    with assms(1) co have "r = Inl y \<and> b' = b" by (auto simp: execute_step_def)
    then show ?thesis unfolding co Inl by simp
  next
    case (Inr oc)
    obtain wr w2 where pe: "persist_runtime_traces e (po_runtime_traces oc) w1 = (wr, w2)" by (meson surj_pair)
    then have "write_of e (Some oc) wr" unfolding write_of_def gathered_traces_def by auto
    with assms co Inr pe show ?thesis by (auto simp: execute_step_def untouched_keys_def run_key_add)
  qed
qed

text \<open>The variables of the handler, when the body raised \<open>x\<close>.\<close>

definition body_holds :: "'v engine \<Rightarrow> 'v prepared \<Rightarrow> plan_outcome option \<Rightarrow> build_error \<Rightarrow> body \<Rightarrow> bool" where
  "body_holds e p oc x b \<longleftrightarrow> ru_run_id (bo_run b) = ru_run_id (pr_run p) \<and> bo_outcome b = oc
     \<and> untouched_keys (started_body p) b \<and> rejected_ok e (started_body p) b x
     \<and> (\<forall>out. oc = Some out \<longrightarrow> run_key b ''plan_execution'' = Some (PDict (plan_outcome_to_dict out)))
     \<and> (\<forall>wr. bo_write b = Some wr \<longrightarrow> write_of e oc wr
          \<and> run_key b ''runtime_summary_write'' = Some (write_to_dict wr))"

lemma engine_body_holds:
  assumes "engine_body e rq p signal w = (Inl x, b, w')"
  shows "body_holds e p (gathered e rq p signal w) x b"
proof -
  obtain r b1 w1 where ps: "plan_step e rq p (started_body p) w = (r, b1, w1)" by (metis surj_pair)
  note f = plan_step_body[OF ps]
  have b0: "bo_outcome (started_body p) = None" "bo_write (started_body p) = None" "bo_run (started_body p) = pr_run p"
    by (simp_all add: started_body_def)
  show ?thesis
  proof (cases r)
    case (Inl y)
    then have "y = x" "b1 = b" using assms ps by (auto simp: engine_body_def started_body_def)
    with f b0 Inl ps show ?thesis by (auto simp: body_holds_def gathered_def)
  next
    case (Inr v)
    obtain z b2 w2 where es: "execute_step e p signal v b1 w1 = (z, b2, w2)" by (metis surj_pair)
    obtain co w3 where co: "eg_coordinate e (engine_coordination e p signal) v w1 = (co, w3)" by (meson surj_pair)
    have none: "bo_outcome b1 = None" "bo_write b1 = None" using f b0 by simp_all
    note g = execute_step_body[OF es none, unfolded co prod.case]
    show ?thesis
    proof (cases co)
      case (Inl y)
      then have "x = BuildRaised y" "b = b1" using assms ps Inr es g by (auto simp: engine_body_def started_body_def)
      with f b0 none ps Inr co Inl show ?thesis by (auto simp: body_holds_def gathered_def)
    next
      case (Inr oc)
      with g have z: "z = Inr oc" by simp
      obtain rep w4 where rs: "report_step e rq oc b2 w2 = (rep, w4)" by (meson surj_pair)
      have "b = b2 \<and> (\<exists>y. x = BuildRaised y)" using assms ps \<open>r = Inr v\<close> es z rs
        by (cases rep) (auto simp: engine_body_def started_body_def)
      moreover have "gathered e rq p signal w = Some oc"
        using ps \<open>r = Inr v\<close> co Inr by (simp add: gathered_def)
      moreover have "untouched_keys (started_body p) b2" using f g Inr by (simp add: untouched_keys_def)
      ultimately show ?thesis using f g Inr b0 by (auto simp: body_holds_def)
    qed
  qed
qed

subsection \<open>The failed run\<close>

text \<open>
  What a failed run says for the exception \<open>x\<close>, when the coordinator returned \<open>oc\<close>: the values of
  its metadata, entry by entry. A plan that the planner itself rejected is only recorded when the
  caller's metadata have no entry of that name.
\<close>

definition failed_run_ok :: "'v engine \<Rightarrow> 'v prepared \<Rightarrow> plan_outcome option \<Rightarrow> build_error \<Rightarrow> run \<Rightarrow> bool" where
  "failed_run_ok e p oc x r \<longleftrightarrow> (let entry = map_of (ru_metadata r) in
     ru_run_id r = ru_run_id (pr_run p) \<and> ru_status r = Run_failed
     \<and> ru_error r = Some (ex_msg (build_exc x)) \<and> ru_finished_at r \<noteq> None
     \<and> entry ''cell_runtime_traces'' = Some (PList (map trace_to_dict (gathered_traces oc)))
     \<and> entry ''cell_runtime_summaries''
         = Some (PList (map summary_to_dict (summarize_runtime_traces (gathered_traces oc))))
     \<and> entry ''input_resolution_records'' = Some (PList (map resolution_to_dict (gathered_resolutions oc)))
     \<and> entry ''execution_control_records'' = Some (PList (map control_to_dict (gathered_controls oc)))
     \<and> (\<exists>wr. write_of e oc wr \<and> entry ''runtime_summary_write'' = Some (write_to_dict wr))
     \<and> (\<forall>out. oc = Some out \<longrightarrow> entry ''plan_execution'' = Some (PDict (plan_outcome_to_dict out)))
     \<and> (case x of
          BuildRaised _ \<Rightarrow> True
        | PlanInvalid plan issues \<Rightarrow>
            entry ''execution_plan_validation'' = Some (PDict (plan_error_to_dict plan issues))
            \<and> (\<not> has_key ''cell_execution_plan'' (ru_metadata (pr_run p))
                \<longrightarrow> entry ''cell_execution_plan'' = Some (plan_to_dict plan))
        | GraphInvalid g issues \<Rightarrow>
            entry ''cell_graph_validation'' = Some (PDict (graph_error_to_dict g issues))
            \<and> entry ''cell_graph_definition'' = Some (graph_to_dict g)))"

lemma has_key_iff: "has_key k md \<longleftrightarrow> map_of md k \<noteq> None"
  by (simp add: has_key_def map_of_eq_None_iff)

lemma started_key: "run_key (started_body p) k = map_of (ru_metadata (pr_run p)) k"
  by (simp add: run_key_def started_body_def)

text \<open>The handler before it saves: the run with the validation entries and the write record.\<close>

lemma handler_body:
  assumes h: "body_holds e p oc x b" and run: "ensure_persisted e (validation_metadata x b) w = (b', w')"
    and graph: "map_of (ru_metadata (pr_run p)) ''cell_graph_definition'' = Some (graph_to_dict (eg_graph e))"
  shows "ru_run_id (bo_run b') = ru_run_id (pr_run p)" "bo_outcome b' = oc"
    "\<exists>wr. write_of e oc wr \<and> run_key b' ''runtime_summary_write'' = Some (write_to_dict wr)"
    "oc = Some out \<Longrightarrow> run_key b' ''plan_execution'' = Some (PDict (plan_outcome_to_dict out))"
    "case x of
          BuildRaised _ \<Rightarrow> True
        | PlanInvalid plan issues \<Rightarrow>
            run_key b' ''execution_plan_validation'' = Some (PDict (plan_error_to_dict plan issues))
            \<and> (\<not> has_key ''cell_execution_plan'' (ru_metadata (pr_run p))
                \<longrightarrow> run_key b' ''cell_execution_plan'' = Some (plan_to_dict plan))
        | GraphInvalid g issues \<Rightarrow>
            run_key b' ''cell_graph_validation'' = Some (PDict (graph_error_to_dict g issues))
            \<and> run_key b' ''cell_graph_definition'' = Some (graph_to_dict g)"
proof -
  let ?v = "validation_metadata x b"
  have hk: "has_key k (ru_metadata (bo_run b)) \<longleftrightarrow> run_key b k \<noteq> None" for k
    by (simp add: has_key_iff run_key_def)
  have v: "run_key ?v k = run_key b k" if "k \<in> {''runtime_summary_write'', ''plan_execution''}" for k
    using that by (cases x) (auto simp: run_key_add)
  have val: "case x of
          BuildRaised _ \<Rightarrow> True
        | PlanInvalid plan issues \<Rightarrow>
            run_key ?v ''execution_plan_validation'' = Some (PDict (plan_error_to_dict plan issues))
            \<and> (\<not> has_key ''cell_execution_plan'' (ru_metadata (pr_run p))
                \<longrightarrow> run_key ?v ''cell_execution_plan'' = Some (plan_to_dict plan))
        | GraphInvalid g issues \<Rightarrow>
            run_key ?v ''cell_graph_validation'' = Some (PDict (graph_error_to_dict g issues))
            \<and> run_key ?v ''cell_graph_definition'' = Some (graph_to_dict g)"
  proof (cases x)
    case (PlanInvalid plan issues)
    then show ?thesis using h
      by (auto simp: body_holds_def run_key_add hk has_key_iff[of _ "ru_metadata (pr_run p)"] started_key)
  next
    case (GraphInvalid g issues)
    have "run_key b ''cell_graph_definition'' = Some (graph_to_dict (eg_graph e))"
      using h graph by (simp add: body_holds_def untouched_keys_def started_key)
    then show ?thesis using h GraphInvalid by (simp add: body_holds_def run_key_add hk)
  qed simp
  have keep: "run_key b' k = run_key ?v k" if "k \<noteq> ''runtime_summary_write''" for k
    using run that by (auto simp: ensure_persisted_def run_key_add split: option.splits prod.splits)
  have sel: "bo_outcome b' = bo_outcome ?v" "ru_run_id (bo_run b') = ru_run_id (bo_run ?v)"
    using run by (auto simp: ensure_persisted_def run_key_add split: option.splits prod.splits)
  then show "ru_run_id (bo_run b') = ru_run_id (pr_run p)" "bo_outcome b' = oc"
    using h by (simp_all add: validation_metadata_sel body_holds_def)
  show "oc = Some out \<Longrightarrow> run_key b' ''plan_execution'' = Some (PDict (plan_outcome_to_dict out))"
    using h v keep by (simp add: body_holds_def)
  show "\<exists>wr. write_of e oc wr \<and> run_key b' ''runtime_summary_write'' = Some (write_to_dict wr)"
  proof (cases "bo_write ?v")
    case (Some wr)
    then have "b' = ?v" using run by (simp add: ensure_persisted_def)
    then show ?thesis using Some h v by (auto simp: body_holds_def validation_metadata_sel)
  next
    case None
    obtain wr w1 where pe: "persist_runtime_traces e (body_traces ?v) w = (wr, w1)" by (meson surj_pair)
    have "body_traces ?v = gathered_traces oc"
      using h by (simp add: body_traces_def gathered_traces_def validation_metadata_sel body_holds_def)
    with pe have "write_of e oc wr" unfolding write_of_def by metis
    then show ?thesis using run None pe by (auto simp: ensure_persisted_def run_key_add)
  qed
  show "case x of
          BuildRaised _ \<Rightarrow> True
        | PlanInvalid plan issues \<Rightarrow>
            run_key b' ''execution_plan_validation'' = Some (PDict (plan_error_to_dict plan issues))
            \<and> (\<not> has_key ''cell_execution_plan'' (ru_metadata (pr_run p))
                \<longrightarrow> run_key b' ''cell_execution_plan'' = Some (plan_to_dict plan))
        | GraphInvalid g issues \<Rightarrow>
            run_key b' ''cell_graph_validation'' = Some (PDict (graph_error_to_dict g issues))
            \<and> run_key b' ''cell_graph_definition'' = Some (graph_to_dict g)"
    using val keep by (auto split: build_error.splits)
qed

lemma body_metadata_gathered: "bo_outcome b = oc \<Longrightarrow>
  body_metadata b = execution_metadata (gathered_traces oc) (gathered_resolutions oc) (gathered_controls oc)"
  by (cases oc) (simp_all add: body_metadata_def gathered_traces_def gathered_resolutions_def gathered_controls_def)

lemma execution_metadata_lookup:
  "map_of (ru_metadata (with_metadata r (execution_metadata ts rs cs))) k =
   (if k = ''cell_runtime_traces'' then Some (PList (map trace_to_dict ts))
    else if k = ''cell_runtime_summaries'' then Some (PList (map summary_to_dict (summarize_runtime_traces ts)))
    else if k = ''input_resolution_records'' then Some (PList (map resolution_to_dict rs))
    else if k = ''execution_control_records'' then Some (PList (map control_to_dict cs))
    else map_of (ru_metadata r) k)"
  by (simp add: with_metadata_lookup execution_metadata_def)

lemma prepared_graph:
  assumes "prepare_run e rq md extra w = (Inr p, w1)"
  shows "map_of (ru_metadata (pr_run p)) ''cell_graph_definition'' = Some (graph_to_dict (eg_graph e))"
proof -
  have audit: "map_of (rev (input_audit_metadata ss)) ''cell_graph_definition'' = None" for ss
    by (auto simp: input_audit_metadata_def split: option.splits)
  have "map_of (merge_metadata [Some (eg_run_metadata e), md,
      Some [(''cell_graph_definition'', graph_to_dict (eg_graph e))], Some (input_audit_metadata ss)]) ''cell_graph_definition''
      = Some (graph_to_dict (eg_graph e))" for ss
    by (simp add: merge_metadata_def map_of_dict_merge map_add_def audit)
  moreover have "\<exists>ss. ru_metadata (pr_run p) = merge_metadata [Some (eg_run_metadata e), md,
      Some [(''cell_graph_definition'', graph_to_dict (eg_graph e))], Some (input_audit_metadata ss)]"
    using assms unfolding prepare_run_def start_run_def Let_def split_beta
    by (auto split: sum.splits if_splits prod.splits)
  ultimately show ?thesis by metis
qed

lemma handled_failure:
  assumes q: "engine_quiet e signal" and h: "body_holds e p oc x b" and run: "handle_failure e rq x b w = (y, w')"
    and graph: "map_of (ru_metadata (pr_run p)) ''cell_graph_definition'' = Some (graph_to_dict (eg_graph e))"
  shows "\<exists>failed wa wb pe. failed_run_ok e p oc x failed
     \<and> save_failed_run (eg_report_store e) failed wa = (pe, wb)
     \<and> emit (eg_env e) (eg_bus e) ''analysis.failed''
         (failed_payload rq failed ((started_body p)\<lparr>bo_outcome := oc\<rparr>) pe) wb = (None, w')
     \<and> map_of (me_payload (last (ew_events w'))) ''persistence_error'' = Some (opt_str pe)"
proof -
  obtain b1 w1 where ep: "ensure_persisted e (validation_metadata x b) w = (b1, w1)" by (meson surj_pair)
  note hb = handler_body[OF h ep graph]
  let ?r = "with_metadata (bo_run b1) (body_metadata b1)"
  obtain failed w2 where fr: "fail_run (eg_env e) ?r (ex_msg (build_exc x)) w1 = (failed, w2)" by (meson surj_pair)
  note f = fail_run_sel[OF fr]
  obtain pe w3 where sv: "save_failed_run (eg_report_store e) failed w2 = (pe, w3)" by (meson surj_pair)
  have pay: "failed_payload rq failed b1 pe = failed_payload rq failed ((started_body p)\<lparr>bo_outcome := oc\<rparr>) pe"
    using hb(2) by (simp add: failed_payload_def)
  obtain z w4 where em: "emit (eg_env e) (eg_bus e) ''analysis.failed'' (failed_payload rq failed b1 pe) w3 = (z, w4)"
    by (meson surj_pair)
  have z: "z = None" by (rule emit_quiet(1)[OF q em])
  have w4: "w' = w4" using run ep fr sv em z by (simp add: handle_failure_def)
  have look: "map_of (ru_metadata failed) k =
     (if k = ''cell_runtime_traces'' then Some (PList (map trace_to_dict (gathered_traces oc)))
      else if k = ''cell_runtime_summaries''
        then Some (PList (map summary_to_dict (summarize_runtime_traces (gathered_traces oc))))
      else if k = ''input_resolution_records'' then Some (PList (map resolution_to_dict (gathered_resolutions oc)))
      else if k = ''execution_control_records'' then Some (PList (map control_to_dict (gathered_controls oc)))
      else run_key b1 k)" for k
    using f unfolding body_metadata_gathered[OF hb(2)] run_key_def by (simp only: execution_metadata_lookup)
  have "failed_run_ok e p oc x failed"
    unfolding failed_run_ok_def Let_def look using f hb by (auto split: build_error.splits)
  moreover have "map_of (me_payload (last (ew_events w'))) ''persistence_error'' = Some (opt_str pe)"
    using emit_quiet(2)[OF q em] w4 by (auto simp: failed_payload_def)
  ultimately show ?thesis using sv em[unfolded z pay] w4 by blast
qed

subsection \<open>The successful run\<close>

text \<open>A successful body has executed a plan of the engine, whose root result is the decision.\<close>

lemma engine_body_success:
  assumes q: "engine_quiet e signal" and reg: "distinct (map cl_cell_id (eg_registry e))"
    and st: "input_store_quiet (pr_store p)" and run: "engine_body e rq p signal w = (Inr rep, b, w')"
  shows "rp_run_id rep = Some (ru_run_id (pr_run p)) \<and> rp_target rep = rq_target rq
    \<and> rp_horizon rep = rq_horizon rq \<and> rp_summary rep = cr_explanation (rp_decision rep)
    \<and> cr_target (rp_decision rep) = rq_target rq \<and> cr_horizon (rp_decision rep) = rq_horizon rq
    \<and> (\<exists>n \<in> set (gr_nodes (eg_graph e)). gn_node_id n = gr_root_node_id (eg_graph e)
         \<and> gn_cell_id n = cr_cell_id (rp_decision rep))"
proof -
  let ?b0 = "\<lparr>bo_run = pr_run p, bo_outcome = None, bo_write = None\<rparr>"
  from run obtain v b1 w1 oc b2 w2 where steps: "plan_step e rq p ?b0 w = (Inr v, b1, w1)"
    "execute_step e p signal v b1 w1 = (Inr oc, b2, w2)" "report_step e rq oc b2 w2 = (Inr rep, w')"
    by (auto simp: engine_body_def split: prod.splits sum.splits)
  obtain plan where plan: "validate_execution_plan plan = Inr v" "engine_plan_for e rq plan"
    using plan_step_plan[OF reg steps(1)] by blast
  let ?C = "engine_coordination e p signal"
  obtain w3 where ex: "execute_plan ?C v w1 = (Inr oc, w3)"
    using steps(2) engine_quietD(5)[OF q]
    by (auto simp: execute_step_def Let_def split: prod.splits sum.splits)
  obtain oc' done' post where run': "Inr oc = Inr oc'" "ru_run_id (bo_run b2) = ru_run_id (bo_run b1)"
    by (rule execute_step_ok[OF q st plan(1) steps(2)]) simp
  have rid: "ru_run_id (bo_run b2) = ru_run_id (pr_run p)"
    using run'(2) plan_step_ok(4)[OF q st steps(1)] by simp
  have rep: "plan_unwrap oc = Inr (rp_decision rep)" "rp_run_id rep = Some (ru_run_id (bo_run b2))"
    "rp_target rep = rq_target rq" "rp_horizon rep = rq_horizon rq" "rp_summary rep = cr_explanation (rp_decision rep)"
    using report_step_ok[OF q steps(3)] by simp_all
  have quiet: "silent ?C" using node_completion_logs[OF q]
    by (simp add: silent_def engine_coordination_def handler_logs_def)
  have root: "po_error oc = None" "po_root_result oc = Some (rp_decision rep)"
    using rep(1) by (auto simp: plan_unwrap_def split: option.splits)
  obtain oc2 w4 cs where e2: "execute_plan ?C v w1 = (Inr oc2, w4)" "results_ok plan (co_results cs)"
    and how: "(po_error oc2 = None \<and> po_failed_node_id oc2 = None \<and> coord_inv plan (concat (vp_topological_levels v)) cs
          \<and> po_root_result oc2 = map_of (co_results cs) (ep_root_node_id plan) \<and> po_root_result oc2 \<noteq> None)
      \<or> (\<exists>pre i post. concat (vp_topological_levels v) = pre @ i # post \<and> po_error oc2 \<noteq> None
          \<and> po_failed_node_id oc2 = Some i \<and> po_root_result oc2 = None \<and> stopped_at plan pre i cs)"
    using execute_plan_ok[OF plan(1) quiet, of w1] by blast
  have "oc2 = oc" using e2(1) ex by simp
  from how[unfolded this] root(1) e2(2)
  have cs: "results_ok plan (co_results cs)" "po_root_result oc = map_of (co_results cs) (ep_root_node_id plan)"
    by blast+
  have "(ep_root_node_id plan, rp_decision rep) \<in> set (co_results cs)"
    using cs(2) root(2) by (metis map_of_SomeD)
  then obtain n where n: "n \<in> set (ep_nodes plan)" "en_node_id n = ep_root_node_id plan" "result_for plan n (rp_decision rep)"
    using cs(1) by (auto simp: results_ok_def)
  note f = plan(2)[unfolded engine_plan_for_def]
  from n(1) obtain k where k: "k < length (ep_nodes plan)" "ep_nodes plan ! k = n" by (auto simp: in_set_conv_nth)
  have len: "length (gr_nodes (eg_graph e)) = length (ep_nodes plan)" using f by (metis length_map)
  let ?g = "gr_nodes (eg_graph e) ! k"
  have "?g \<in> set (gr_nodes (eg_graph e))" using k(1) len by simp
  moreover have "gn_node_id ?g = en_node_id n" "gn_cell_id ?g = en_cell_id n"
    using f k len by (metis nth_map)+
  ultimately show ?thesis using rep(2-5) rid f n(2,3) by (auto simp: result_for_def)
qed

subsection \<open>The property\<close>

text \<open>C5: What a run leaves. Under the same conditions, a successful run returns a report with the run's id
  and the request's scope, whose decision is the result of the Cell at the root of the graph, for
  that scope. A run that fails hands the report store a failed run with the text of the exception.
  Its metadata hold exactly the traces, their summaries, the resolutions and the control records of
  the outcome the coordinator returned (none, when it returned none), that outcome, the record of
  writing those traces, and for a plan or a graph that was rejected that object and its issues. The
  last event, \<open>analysis.failed\<close>, comes after the save and says whether the store took it.\<close>

theorem engine_run_recorded:
  assumes "engine_quiet e signal" and "distinct (map cl_cell_id (eg_registry e))"
    and "prepare_run e rq md extra w = (Inr p, w1)" and "engine_run e rq md signal extra w = (r, w')"
  shows "case r of
      Inr rep \<Rightarrow> rp_run_id rep = Some (ru_run_id (pr_run p)) \<and> rp_target rep = rq_target rq
        \<and> rp_horizon rep = rq_horizon rq \<and> rp_summary rep = cr_explanation (rp_decision rep)
        \<and> cr_target (rp_decision rep) = rq_target rq \<and> cr_horizon (rp_decision rep) = rq_horizon rq
        \<and> (\<exists>n \<in> set (gr_nodes (eg_graph e)). gn_node_id n = gr_root_node_id (eg_graph e)
             \<and> gn_cell_id n = cr_cell_id (rp_decision rep))
    | Inl (RunRaised x) \<Rightarrow>
        (let oc = gathered e rq p signal
               (snd (emit (eg_env e) (eg_bus e) ''analysis.started'' (started_payload e rq p) w1)) in
         \<exists>failed wa wb pe. failed_run_ok e p oc x failed
           \<and> save_failed_run (eg_report_store e) failed wa = (pe, wb)
           \<and> emit (eg_env e) (eg_bus e) ''analysis.failed''
               (failed_payload rq failed ((started_body p)\<lparr>bo_outcome := oc\<rparr>) pe) wb = (None, w')
           \<and> map_of (me_payload (last (ew_events w'))) ''persistence_error'' = Some (opt_str pe))
    | Inl (RequestRefused _) \<Rightarrow> False"
proof -
  note pr = assms(3)
  have st: "input_store_quiet (pr_store p)" by (rule prepare_run_ok(2)[OF assms(1) pr refl])
  obtain z w2 where em: "emit (eg_env e) (eg_bus e) ''analysis.started'' (started_payload e rq p) w1 = (z, w2)"
    by (meson surj_pair)
  have z: "z = None" by (rule emit_quiet(1)[OF assms(1) em])
  obtain x b w3 where bd: "engine_body e rq p signal w2 = (x, b, w3)" by (metis surj_pair)
  note body = engine_body_ok(2,3)[OF assms(1) st assms(2) bd]
  show ?thesis
  proof (cases x)
    case (Inl err)
    obtain err' w4 where hf: "handle_failure e rq err b w3 = (err', w4)" by (meson surj_pair)
    have "r = Inl (RunRaised err)" "w' = w4"
      using assms(4) pr em z bd Inl hf handle_failure_ok(1)[OF assms(1) hf body(2)] by (simp_all add: engine_run_def)
    with handled_failure[OF assms(1) engine_body_holds[OF bd[unfolded Inl]] hf prepared_graph[OF pr]] em
    show ?thesis by (simp add: Let_def)
  next
    case (Inr rep)
    then have "r = Inr rep" using assms(4) pr em z bd by (simp add: engine_run_def)
    with engine_body_success[OF assms(1,2) st bd[unfolded Inr]] show ?thesis by simp
  qed
qed

text \<open>An engine whose store of runtime summaries raises.\<close>

definition broken_engine :: "nat engine" where
  "broken_engine = sample_engine\<lparr>eg_summary_store := Some \<lparr>sy_name = ''broken'',
     sy_save_traces = (\<lambda>ts w. (raise RuntimeSummaryStoreError ''disk full'', w)),
     sy_snapshot = (\<lambda>d w. (raise RuntimeSummaryStoreError ''disk full'', w))\<rparr>\<rparr>"

lemma broken_quiet: "engine_quiet broken_engine None"
  using sample_quiet by (simp add: engine_quiet_def broken_engine_def summary_store_quiet_def keeps_def)

lemma broken_prepared: "\<exists>p. fst (prepare_run broken_engine sample_request None None sample_world) = Inr p"
  by (rule not_isl) code_simp

lemma broken_raises:
  "Sum_Type.isl (fst (engine_run broken_engine sample_request None None None sample_world)) = True"
  by (auto simp: engine_run_def engine_body_def plan_step_def runtime_summary_snapshot_def broken_engine_def Let_def
      split_beta split: sum.splits option.splits prod.splits)

theorem engine_run_recorded_witness:
  "\<exists>p w1 x w' failed wa wb pe oc. prepare_run broken_engine sample_request None None sample_world = (Inr p, w1)
     \<and> engine_run broken_engine sample_request None None None sample_world = (Inl (RunRaised x), w')
     \<and> failed_run_ok broken_engine p oc x failed
     \<and> save_failed_run (eg_report_store broken_engine) failed wa = (pe, wb)
     \<and> map_of (me_payload (last (ew_events w'))) ''persistence_error'' = Some (opt_str pe)"
proof -
  obtain p w1 where p: "prepare_run broken_engine sample_request None None sample_world = (Inr p, w1)"
    using broken_prepared by (metis prod.collapse)
  obtain r w' where run: "engine_run broken_engine sample_request None None None sample_world = (r, w')"
    by (meson surj_pair)
  have "Sum_Type.isl r" using broken_raises run by simp
  then obtain y where y: "r = Inl y" by (cases r) auto
  have "distinct (map cl_cell_id (eg_registry broken_engine))" by (simp add: broken_engine_def sample_engine_def)
  from engine_run_recorded[OF broken_quiet this p run] p run y show ?thesis
    by (cases y) (auto simp: Let_def)
qed

end
