(* ===== verification/Horizon_Models.thy ===== *)
theory Horizon_Models
  imports Engine_Correct
begin

section \<open>Multi-horizon requests and analyses\<close>

text \<open>
  Models \<open>data/timeframes.py\<close>, \<open>horizons/models.py\<close> and \<open>horizons/validation.py\<close>: intervals, the
  request that bundles several horizons of one target, its validator, and the analysis of a batch
  with the checks of its constructor. \<open>datetime.fromisoformat\<close>, followed by the conversion to
  milliseconds, is a parameter. Numerals of more than 4300 digits, which \<open>int\<close> refuses, are not
  treated apart.
\<close>

subsection \<open>Intervals and time stamps\<close>

text \<open>\<open>str.isdigit\<close> also accepts the superscript digits, which \<open>int\<close> refuses.\<close>

definition py_isdigit :: "string \<Rightarrow> bool" where
  "py_isdigit s \<longleftrightarrow> s \<noteq> [] \<and> list_all (\<lambda>c. is_digit c \<or> (of_char c :: nat) \<in> {178, 179, 185}) s"

definition unit_millis :: "(char \<times> int) list" where
  "unit_millis = [(CHR ''s'', 1000), (CHR ''m'', 60000), (CHR ''h'', 3600000), (CHR ''d'', 86400000),
     (CHR ''w'', 604800000), (CHR ''M'', 30 * 86400000)]"

text \<open>The regular expression \<open>[1-9][0-9]*[smhdwM]\<close>, as a full match.\<close>

definition interval_to_millis :: "string \<Rightarrow> int" where
  "interval_to_millis interval =
     (let text' = strip interval; amount = butlast text' in
      if amount = [] \<or> hd amount = CHR ''0'' \<or> \<not> list_all is_digit amount then 0
      else case map_of unit_millis (last text') of
          None \<Rightarrow> 0
        | Some k \<Rightarrow> int (digits_value amount) * k)"

definition replace_z :: "string \<Rightarrow> string" where
  "replace_z s = concat (map (\<lambda>c. if c = CHR ''Z'' then ''+00:00'' else [c]) s)"

type_synonym iso_parser = "string \<Rightarrow> int option"

definition timestamp_to_ms :: "iso_parser \<Rightarrow> string \<Rightarrow> int res" where
  "timestamp_to_ms pt value' =
     (let text' = strip value' in
      if text' = [] then raise PyValueError ''timestamp is empty''
      else if py_isdigit text' then
        (if list_all is_digit text' then
           (let n = int (digits_value text') in Inr (if n > 10000000000 then n else n * 1000))
         else raise PyValueError ''invalid literal for int() with base 10'')
      else case pt (replace_z text') of
          None \<Rightarrow> raise PyValueError ''Invalid isoformat string''
        | Some ms \<Rightarrow> Inr ms)"

subsection \<open>The request\<close>

record mh_request =
  mh_target :: string
  mh_as_of_ms :: int
  mh_requests :: "request list"
  mh_schema_version :: string
  mh_metadata :: meta

definition mh_request_schema :: string where
  "mh_request_schema = ''multi_horizon_request.v1''"

definition mh_identity_payload :: "mh_request \<Rightarrow> meta" where
  "mh_identity_payload r = [(''target'', PStr (mh_target r)), (''as_of_ms'', PInt (mh_as_of_ms r)),
     (''requests'', PList (map request_dict (mh_requests r))),
     (''schema_version'', PStr (mh_schema_version r))]"

text \<open>\<open>canonical_json_hash_and_size\<close> and \<open>stable_json_hash\<close> with the exception they raise.\<close>

definition json_content :: "stdlib \<Rightarrow> pyval \<Rightarrow> (string \<times> int) res" where
  "json_content L v = (case canonical_json_hash_and_size L v of
     None \<Rightarrow> Inl (json_error v) | Some x \<Rightarrow> Inr x)"

definition json_hash :: "stdlib \<Rightarrow> pyval \<Rightarrow> string res" where
  "json_hash L v = bind_res (json_content L v) (\<lambda>(h, n). Inr h)"

definition mh_content :: "stdlib \<Rightarrow> mh_request \<Rightarrow> (string \<times> int) res" where
  "mh_content L r = json_content L (PDict (mh_identity_payload r))"

definition mh_content_hash :: "stdlib \<Rightarrow> mh_request \<Rightarrow> string res" where
  "mh_content_hash L r = bind_res (mh_content L r) (\<lambda>(h, n). Inr h)"

definition request_id_of :: "string \<Rightarrow> string" where
  "request_id_of h = ''multi-horizon-request:'' @ take 24 h"

definition mh_request_id :: "stdlib \<Rightarrow> mh_request \<Rightarrow> string res" where
  "mh_request_id L r = bind_res (mh_content_hash L r) (\<lambda>h. Inr (request_id_of h))"

definition mh_request_to_dict :: "mh_request \<Rightarrow> pyval" where
  "mh_request_to_dict r = PDict [(''target'', PStr (mh_target r)), (''as_of_ms'', PInt (mh_as_of_ms r)),
     (''requests'', PList (map request_dict (mh_requests r))),
     (''schema_version'', PStr (mh_schema_version r)), (''metadata'', PDict (mh_metadata r))]"

definition mh_request_from_dict :: "stdlib \<Rightarrow> meta \<Rightarrow> mh_request res" where
  "mh_request_from_dict L d = bind_res (item d ''target'') (\<lambda>t.
     bind_res (bind_res (item d ''as_of_ms'') (py_int L)) (\<lambda>ms.
     bind_res (bind_res (py_iter (item_or d ''requests'' (PList []))) (map_res (request_from_dict L))) (\<lambda>rs.
     bind_res (py_dict L (item_or d ''metadata'' (PDict []))) (\<lambda>md.
       Inr \<lparr>mh_target = py_str L t, mh_as_of_ms = ms, mh_requests = rs,
         mh_schema_version = py_str L (item_or d ''schema_version'' (PStr [])), mh_metadata = md\<rparr>))))"

text \<open>Reading back what \<open>to_dict\<close> wrote gives the request.\<close>

lemma mh_request_round_trip: "bind_res (as_dict (mh_request_to_dict r)) (mh_request_from_dict L) = Inr r"
  by (simp add: mh_request_to_dict_def mh_request_from_dict_def item_def item_or_def
      map_res_map_inv[of "request_from_dict L" request_dict, OF request_from_request_dict])

definition mh_horizon_order :: "mh_request \<Rightarrow> string list" where
  "mh_horizon_order r = map rq_horizon (mh_requests r)"

subsection \<open>The validator\<close>

datatype mh_issue =
    MH_schema | MH_target_empty | MH_target_spaces | MH_as_of_negative | MH_count
  | MH_child nat "request_issue list" | MH_child_target nat | MH_horizon_spaces nat
  | MH_interval nat | MH_timestamp nat nat | MH_unordered nat | MH_late nat | MH_stale nat
  | MH_duplicate_horizon | MH_equivalent_horizons | MH_horizons_unordered

text \<open>\<open>any(current <= previous for previous, current in zip(xs, xs[1:]))\<close>.\<close>

definition not_increasing :: "int list \<Rightarrow> bool" where
  "not_increasing xs = list_ex (\<lambda>(p, c). c \<le> p) (zip xs (tl xs))"

text \<open>The candle loop: the times that parse, and the issues of those that do not.\<close>

fun candle_times :: "iso_parser \<Rightarrow> nat \<Rightarrow> nat \<Rightarrow> candle list \<Rightarrow> int list \<times> mh_issue list" where
  "candle_times pt index k [] = ([], [])"
| "candle_times pt index k (c # cs) =
     (let (ts, issues) = candle_times pt index (Suc k) cs in
      case timestamp_to_ms pt (cd_timestamp c) of
        Inl e \<Rightarrow> (ts, MH_timestamp index k # issues)
      | Inr t \<Rightarrow> (t # ts, issues))"

definition child_time_issues :: "mh_request \<Rightarrow> nat \<Rightarrow> request \<Rightarrow> int list \<Rightarrow> mh_issue list" where
  "child_time_issues r index child ts =
     (if length ts = length (rq_candles child) \<and> ts \<noteq> [] then
        opt_issue (not_increasing ts) (MH_unordered index)
        @ (if last ts > mh_as_of_ms r then [MH_late index]
           else opt_issue (interval_to_millis (rq_horizon child) > 0
               \<and> mh_as_of_ms r - last ts > interval_to_millis (rq_horizon child)) (MH_stale index))
      else [])"

definition child_issues :: "iso_parser \<Rightarrow> mh_request \<Rightarrow> nat \<Rightarrow> request \<Rightarrow> mh_issue list" where
  "child_issues pt r index child =
     (let (ts, bad) = candle_times pt index 0 (rq_candles child) in
      (case validate_request child of Inl issues \<Rightarrow> [MH_child index issues] | Inr _ \<Rightarrow> [])
      @ opt_issue (rq_target child \<noteq> mh_target r) (MH_child_target index)
      @ opt_issue (rq_horizon child \<noteq> strip (rq_horizon child)) (MH_horizon_spaces index)
      @ opt_issue (interval_to_millis (rq_horizon child) \<le> 0) (MH_interval index)
      @ bad @ child_time_issues r index child ts)"

fun children_issues :: "iso_parser \<Rightarrow> mh_request \<Rightarrow> nat \<Rightarrow> request list \<Rightarrow> mh_issue list" where
  "children_issues pt r index [] = []"
| "children_issues pt r index (c # cs) = child_issues pt r index c @ children_issues pt r (Suc index) cs"

definition duration_issues :: "int list \<Rightarrow> mh_issue list" where
  "duration_issues ds =
     (let positive = filter (\<lambda>d. d > 0) ds in
      if length positive = length ds then
        opt_issue (\<not> distinct positive) MH_equivalent_horizons
        @ opt_issue (not_increasing positive) MH_horizons_unordered
      else [])"

definition mh_issues :: "iso_parser \<Rightarrow> mh_request \<Rightarrow> mh_issue list" where
  "mh_issues pt r =
     opt_issue (mh_schema_version r \<noteq> mh_request_schema) MH_schema
     @ (if blank (mh_target r) then [MH_target_empty]
        else opt_issue (mh_target r \<noteq> strip (mh_target r)) MH_target_spaces)
     @ opt_issue (mh_as_of_ms r < 0) MH_as_of_negative
     @ opt_issue (\<not> (2 \<le> length (mh_requests r) \<and> length (mh_requests r) \<le> 8)) MH_count
     @ children_issues pt r 0 (mh_requests r)
     @ opt_issue (\<not> distinct (mh_horizon_order r)) MH_duplicate_horizon
     @ duration_issues (map (\<lambda>c. interval_to_millis (rq_horizon c)) (mh_requests r))"

definition validate_multi_horizon_request :: "iso_parser \<Rightarrow> mh_request \<Rightarrow> mh_issue list + unit" where
  "validate_multi_horizon_request pt r =
     (let issues = mh_issues pt r in if issues \<noteq> [] then Inl issues else Inr ())"

subsection \<open>The analysis of a batch\<close>

record mh_analysis =
  ma_batch_id :: string
  ma_request_id :: string
  ma_request_hash :: string
  ma_target :: string
  ma_as_of_ms :: int
  ma_horizon_order :: "string list"
  ma_reports :: "report list"
  ma_graph_id :: string
  ma_graph_version :: string
  ma_graph_content_hash :: string
  ma_formula_versions :: "(string \<times> string) list"
  ma_created_at :: string
  ma_aggregation_status :: string
  ma_schema_version :: string
  ma_metadata :: meta

text \<open>The patterns: a prefix and a number of lower-case hexadecimal digits.\<close>

definition is_hex :: "char \<Rightarrow> bool" where
  "is_hex c = (let n = (of_char c :: nat) in (48 \<le> n \<and> n \<le> 57) \<or> (97 \<le> n \<and> n \<le> 102))"

definition hex_id :: "string \<Rightarrow> nat \<Rightarrow> string \<Rightarrow> bool" where
  "hex_id p n s \<longleftrightarrow> take (length p) s = p \<and> length s = length p + n \<and> list_all is_hex (drop (length p) s)"

definition mh_analysis_schema :: string where
  "mh_analysis_schema = ''multi_horizon_analysis.v1''"

text \<open>Dictionaries are compared as mappings.\<close>

definition same_dict :: "(string \<times> 'v) list \<Rightarrow> (string \<times> 'v) list \<Rightarrow> bool" where
  "same_dict a b \<longleftrightarrow> list_all (\<lambda>k. map_of a k = map_of b k) (map fst a @ map fst b)"

text \<open>\<open>MultiHorizonAnalysis.__post_init__\<close>.\<close>

definition check_batch_identity :: "mh_analysis \<Rightarrow> unit res" where
  "check_batch_identity a =
     (if \<not> hex_id ''multi-horizon:'' 32 (ma_batch_id a) then raise PyValueError
        ''multi-horizon batch_id must use the canonical id''
      else if \<not> hex_id [] 64 (ma_request_hash a) then raise PyValueError
        ''multi-horizon request_hash must be SHA-256''
      else if ma_request_id a \<noteq> request_id_of (ma_request_hash a) then raise PyValueError
        ''multi-horizon request_id must match request_hash''
      else if \<not> hex_id [] 64 (ma_graph_content_hash a) then raise PyValueError
        ''multi-horizon graph_content_hash must be SHA-256''
      else if blank (ma_target a) \<or> ma_target a \<noteq> strip (ma_target a) then raise PyValueError
        ''multi-horizon target must be canonical''
      else if ma_as_of_ms a < 0 then raise PyValueError ''multi-horizon as_of_ms must not be negative''
      else if blank (ma_graph_id a) \<or> blank (ma_graph_version a) then raise PyValueError
        ''multi-horizon graph identity must not be empty''
      else if ma_formula_versions a = [] \<or> list_ex (\<lambda>(c, v). blank c \<or> blank v) (ma_formula_versions a)
      then raise PyValueError ''multi-horizon formula versions must be complete''
      else if blank (ma_created_at a) then raise PyValueError ''multi-horizon created_at must not be empty''
      else if ma_aggregation_status a \<noteq> ''not_computed'' then raise PyValueError
        ''MultiHorizonAnalysis cannot contain an aggregate decision''
      else if ma_schema_version a \<noteq> mh_analysis_schema then raise PyValueError
        (msg [''unsupported multi-horizon analysis schema version: '', ma_schema_version a])
      else Inr ())"

definition check_batch_reports :: "mh_analysis \<Rightarrow> unit res" where
  "check_batch_reports a =
     (if \<not> (2 \<le> length (ma_horizon_order a) \<and> length (ma_horizon_order a) \<le> 8) then raise PyValueError
        ''multi-horizon horizon count must be between 2 and 8''
      else if \<not> distinct (ma_horizon_order a) then raise PyValueError ''multi-horizon horizons must be unique''
      else if length (ma_horizon_order a) \<noteq> length (ma_reports a) then raise PyValueError
        ''multi-horizon reports must match the declared horizon order''
      else if map rp_horizon (ma_reports a) \<noteq> ma_horizon_order a then raise PyValueError
        ''multi-horizon report order does not match horizon_order''
      else if list_ex (\<lambda>r. rp_target r \<noteq> ma_target a) (ma_reports a) then raise PyValueError
        ''multi-horizon report target does not match batch target''
      else if list_ex (\<lambda>r. cr_target (rp_decision r) \<noteq> rp_target r \<or> cr_horizon (rp_decision r) \<noteq> rp_horizon r)
        (ma_reports a) then raise PyValueError
        ''multi-horizon child decision scope does not match its report''
      else if list_ex (\<lambda>r. \<not> same_dict (rp_formula_versions r) (ma_formula_versions a)) (ma_reports a)
      then raise PyValueError ''multi-horizon reports do not share one formula version set''
      else Inr ())"

definition mk_analysis :: "mh_analysis \<Rightarrow> mh_analysis res" where
  "mk_analysis a = bind_res (check_batch_identity a) (\<lambda>_. bind_res (check_batch_reports a) (\<lambda>_. Inr a))"

subsection \<open>What the validator accepts\<close>

lemma not_increasing_iff: "not_increasing xs \<longleftrightarrow> \<not> sorted_wrt (<) xs"
proof -
  have "not_increasing (x # xs) \<longleftrightarrow> \<not> sorted_wrt (<) (x # xs)" for x xs
  proof (induction xs arbitrary: x)
    case (Cons y ys)
    from Cons.IH[of y] show ?case
      by (auto simp: not_increasing_def not_le intro: less_trans dest: less_trans)
  qed (simp add: not_increasing_def)
  then show ?thesis by (cases xs) (simp_all add: not_increasing_def)
qed

text \<open>The time stamps of a list of candles, when they all parse.\<close>

definition times_of :: "iso_parser \<Rightarrow> candle list \<Rightarrow> int list res" where
  "times_of pt cs = map_res (\<lambda>c. timestamp_to_ms pt (cd_timestamp c)) cs"

lemma candle_times_times_of:
  "snd (candle_times pt index k cs) = [] \<longleftrightarrow> (\<exists>ts. times_of pt cs = Inr ts)"
  "times_of pt cs = Inr ts \<Longrightarrow> fst (candle_times pt index k cs) = ts \<and> length ts = length cs"
  unfolding times_of_def
  by (induction cs arbitrary: k ts)
    (auto simp: split_beta Let_def bind_res_eq_Inr split: sum.splits)

definition child_ok :: "iso_parser \<Rightarrow> mh_request \<Rightarrow> request \<Rightarrow> bool" where
  "child_ok pt r c \<longleftrightarrow> request_ok c \<and> rq_target c = mh_target r \<and> strip (rq_horizon c) = rq_horizon c
     \<and> 0 < interval_to_millis (rq_horizon c)
     \<and> (\<exists>ts. times_of pt (rq_candles c) = Inr ts \<and> sorted_wrt (<) ts \<and> last ts \<le> mh_as_of_ms r
          \<and> mh_as_of_ms r - last ts \<le> interval_to_millis (rq_horizon c))"

text \<open>
  A well-formed request: two to eight horizons of one target, each a valid request whose candles
  are in order, not later than the common instant and not older than one interval, the horizons
  from short to long.
\<close>

definition mh_request_ok :: "iso_parser \<Rightarrow> mh_request \<Rightarrow> bool" where
  "mh_request_ok pt r \<longleftrightarrow> mh_schema_version r = mh_request_schema \<and> \<not> blank (mh_target r)
     \<and> strip (mh_target r) = mh_target r \<and> 0 \<le> mh_as_of_ms r
     \<and> 2 \<le> length (mh_requests r) \<and> length (mh_requests r) \<le> 8
     \<and> (\<forall>c \<in> set (mh_requests r). child_ok pt r c)
     \<and> sorted_wrt (<) (map (\<lambda>c. interval_to_millis (rq_horizon c)) (mh_requests r))"

lemma child_issues_Nil: "child_issues pt r index c = [] \<longleftrightarrow> child_ok pt r c"
proof (cases "times_of pt (rq_candles c)")
  case (Inl e)
  then have "snd (candle_times pt index 0 (rq_candles c)) \<noteq> []"
    using candle_times_times_of(1)[of pt index 0 "rq_candles c"] by auto
  then show ?thesis using Inl by (auto simp: child_issues_def child_ok_def split_beta Let_def)
next
  case (Inr ts)
  have t: "candle_times pt index 0 (rq_candles c) = (ts, [])"
    using candle_times_times_of[where pt = pt and index = index and k = 0 and cs = "rq_candles c"] Inr
    by (metis prod.collapse)
  have len: "length ts = length (rq_candles c)" using candle_times_times_of(2)[OF Inr] by simp
  have v: "(case validate_request c of Inl issues \<Rightarrow> [MH_child index issues] | Inr _ \<Rightarrow> []) = [] \<longleftrightarrow> request_ok c"
    unfolding validate_request_ok[symmetric] by (auto split: sum.splits)
  show ?thesis
  proof (cases "request_ok c")
    case True
    then have "ts \<noteq> []" using len by (auto simp: request_ok_def)
    then show ?thesis
      using v Inr len by (auto simp: child_issues_def child_ok_def t child_time_issues_def issue_simps
          not_increasing_iff not_le not_less)
  next
    case False
    then show ?thesis using v by (auto simp: child_issues_def child_ok_def t)
  qed
qed

lemma children_issues_Nil: "children_issues pt r index cs = [] \<longleftrightarrow> (\<forall>c \<in> set cs. child_ok pt r c)"
  by (induction cs arbitrary: index) (auto simp: child_issues_Nil)

lemma duration_issues_Nil:
  assumes "\<forall>d \<in> set ds. 0 < d"
  shows "duration_issues ds = [] \<longleftrightarrow> sorted_wrt (<) ds"
proof -
  have "filter (\<lambda>d. d > 0) ds = ds" using assms by (simp add: filter_True)
  moreover have "sorted_wrt (<) ds \<Longrightarrow> distinct ds" by (simp add: strict_sorted_iff)
  ultimately show ?thesis by (auto simp: duration_issues_def issue_simps not_increasing_iff)
qed

lemma mh_issues_Nil: "mh_issues pt r = [] \<longleftrightarrow> mh_request_ok pt r"
proof (cases "\<forall>c \<in> set (mh_requests r). child_ok pt r c")
  case True
  then have d: "duration_issues (map (\<lambda>c. interval_to_millis (rq_horizon c)) (mh_requests r)) = []
      \<longleftrightarrow> sorted_wrt (<) (map (\<lambda>c. interval_to_millis (rq_horizon c)) (mh_requests r))"
    by (intro duration_issues_Nil) (auto simp: child_ok_def)
  have "distinct (mh_horizon_order r)" if "sorted_wrt (<) (map (\<lambda>c. interval_to_millis (rq_horizon c)) (mh_requests r))"
  proof -
    have "distinct (map interval_to_millis (mh_horizon_order r))"
      using that by (simp add: strict_sorted_iff mh_horizon_order_def comp_def)
    then show ?thesis unfolding distinct_map by blast
  qed
  with d True show ?thesis
    by (auto simp: mh_issues_def mh_request_ok_def issue_simps children_issues_Nil)
next
  case False
  then show ?thesis by (auto simp: mh_issues_def mh_request_ok_def children_issues_Nil)
qed

lemma validate_mh_ok: "validate_multi_horizon_request pt r = Inr x \<Longrightarrow> mh_request_ok pt r"
  by (simp add: validate_multi_horizon_request_def Let_def flip: mh_issues_Nil split: if_splits)

lemma validate_mh_issues: "validate_multi_horizon_request pt r = Inl issues \<Longrightarrow> \<not> mh_request_ok pt r \<and> issues \<noteq> []"
  by (auto simp: validate_multi_horizon_request_def Let_def simp flip: mh_issues_Nil split: if_splits)

text \<open>
  C15: The validator of a batch accepts exactly the well-formed requests: the current schema, two
  to eight valid requests of one target, at horizons that parse and grow strictly from short to
  long, each with candles in strict time order, none of them after the common instant, and the last
  at most one interval before it.
\<close>

theorem multi_horizon_validator_decides:
  "validate_multi_horizon_request pt r = Inr () \<longleftrightarrow> mh_request_ok pt r"
  by (simp add: validate_multi_horizon_request_def Let_def flip: mh_issues_Nil)

end
