(* ===== verification/Horizon_Runner.thy ===== *)
theory Horizon_Runner
  imports Horizon_Models
begin

section \<open>Running a batch of horizons\<close>

text \<open>
  Models \<open>horizons/runner.py\<close>: one engine per horizon, prepared for all horizons before the first
  runs, the checks that they share graph and formula versions, the sequential runs, which stop at
  the first failure, and the analysis built from their reports. An engine is what the runner uses of
  an \<open>AnalysisEngine\<close>: its graph, its manifests and \<open>run\<close>.
\<close>

subsection \<open>Engines and errors\<close>

record 'w horizon_engine =
  he_graph :: graph
  he_manifests :: "manifest list"
  he_run :: "request \<Rightarrow> meta \<Rightarrow> ('w \<Rightarrow> bool \<times> 'w) option \<Rightarrow> snapshot list \<Rightarrow> 'w \<Rightarrow> report res \<times> 'w"

text \<open>The factory raises, returns an engine, or returns (\<open>None\<close>) something else.\<close>

type_synonym 'w engine_factory = "request \<Rightarrow> 'w \<Rightarrow> 'w horizon_engine option res \<times> 'w"

text \<open>An \<open>AnalysisEngine\<close>; the argument gives the text of a \<open>ValidationError\<close>.\<close>

fun engine_exc :: "(request_issue list \<Rightarrow> string) \<Rightarrow> engine_error \<Rightarrow> exc" where
  "engine_exc issues_text (RequestRefused issues) = mk_exc PyValueError (issues_text issues)"
| "engine_exc issues_text (RunRaised e) = build_exc e"

definition analysis_engine :: "(request_issue list \<Rightarrow> string) \<Rightarrow> 'v engine \<Rightarrow> 'v eworld horizon_engine" where
  "analysis_engine issues_text e = \<lparr>he_graph = eg_graph e, he_manifests = registry_manifests (eg_registry e),
     he_run = (\<lambda>rq md signal snaps w. case engine_run e rq (Some md) signal (Some snaps) w of
        (Inl x, w') \<Rightarrow> (Inl (engine_exc issues_text x), w') | (Inr rep, w') \<Rightarrow> (Inr rep, w'))\<rparr>"

datatype mh_code = Engine_factory_failure | Graph_mismatch | Formula_version_mismatch | Analysis_failure
  | Report_scope_mismatch | Report_formula_mismatch

record mh_failure =
  mx_message :: string
  mx_code :: mh_code
  mx_batch_id :: string
  mx_request_id :: string
  mx_request_hash :: string
  mx_failed_horizon :: string
  mx_completed :: "report list"

text \<open>What \<open>run\<close> may raise: a \<open>ValidationError\<close>, a \<open>MultiHorizonExecutionError\<close>, or another one.\<close>

datatype mh_error = MhInvalid "mh_issue list" | MhRaised exc | MhExecution mh_failure

text \<open>The constructor of the error hashes the request again, which raises when it is not JSON.\<close>

definition mh_fail :: "stdlib \<Rightarrow> mh_request \<Rightarrow> string \<Rightarrow> mh_code \<Rightarrow> string \<Rightarrow> report list \<Rightarrow> string \<Rightarrow> mh_error" where
  "mh_fail L r batch code horizon completed message =
     (case mh_content_hash L r of
        Inl e \<Rightarrow> MhRaised e
      | Inr h \<Rightarrow> MhExecution \<lparr>mx_message = message, mx_code = code, mx_batch_id = batch,
          mx_request_id = request_id_of h, mx_request_hash = h, mx_failed_horizon = horizon,
          mx_completed = completed\<rparr>)"

fun show_mh_code :: "mh_code \<Rightarrow> string" where
  "show_mh_code Engine_factory_failure = ''engine_factory_failure''"
| "show_mh_code Graph_mismatch = ''graph_mismatch''"
| "show_mh_code Formula_version_mismatch = ''formula_version_mismatch''"
| "show_mh_code Analysis_failure = ''analysis_failure''"
| "show_mh_code Report_scope_mismatch = ''report_scope_mismatch''"
| "show_mh_code Report_formula_mismatch = ''report_formula_mismatch''"

definition mh_failure_to_dict :: "mh_request \<Rightarrow> mh_failure \<Rightarrow> meta" where
  "mh_failure_to_dict r f = [(''error_type'', PStr ''multi_horizon_execution''),
     (''code'', PStr (show_mh_code (mx_code f))), (''batch_id'', PStr (mx_batch_id f)),
     (''request_id'', PStr (mx_request_id f)), (''request_hash'', PStr (mx_request_hash f)),
     (''target'', PStr (mh_target r)), (''as_of_ms'', PInt (mh_as_of_ms r)),
     (''horizon_order'', strs (mh_horizon_order r)),
     (''completed_horizons'', strs (map rp_horizon (mx_completed f))),
     (''failed_horizon'', PStr (mx_failed_horizon f)), (''error'', PStr (mx_message f)),
     (''schema_version'', PStr ''multi_horizon_execution_error.v1'')]"

subsection \<open>Preparation\<close>

record 'w prepared_horizon =
  ph_request :: request
  ph_engine :: "'w horizon_engine"
  ph_graph_id :: string
  ph_graph_version :: string
  ph_graph_content_hash :: string
  ph_formula_versions :: "(string \<times> string) list"

definition engine_formula_versions :: "'w horizon_engine \<Rightarrow> (string \<times> string) list" where
  "engine_formula_versions e = formula_versions
     (filter (\<lambda>m. mf_cell_id m \<in> gn_cell_id ` set (gr_nodes (he_graph e))) (he_manifests e))"

definition prepare_item :: "stdlib \<Rightarrow> request \<Rightarrow> 'w horizon_engine \<Rightarrow> 'w prepared_horizon res" where
  "prepare_item L rq e = bind_res (json_hash L (graph_to_dict (he_graph e))) (\<lambda>h.
     Inr \<lparr>ph_request = rq, ph_engine = e, ph_graph_id = gr_graph_id (he_graph e),
       ph_graph_version = gr_graph_version (he_graph e), ph_graph_content_hash = h,
       ph_formula_versions = engine_formula_versions e\<rparr>)"

definition same_graph :: "'w prepared_horizon \<Rightarrow> 'w prepared_horizon \<Rightarrow> bool" where
  "same_graph a b \<longleftrightarrow> ph_graph_id a = ph_graph_id b \<and> ph_graph_version a = ph_graph_version b
     \<and> ph_graph_content_hash a = ph_graph_content_hash b"

text \<open>The loop of \<open>_prepare\<close>; \<open>expected\<close> is the first item.\<close>

fun prepare_horizons :: "stdlib \<Rightarrow> 'w engine_factory \<Rightarrow> mh_request \<Rightarrow> string \<Rightarrow> 'w prepared_horizon option
  \<Rightarrow> request list \<Rightarrow> 'w \<Rightarrow> (mh_error + 'w prepared_horizon list) \<times> 'w" where
  "prepare_horizons L factory r batch expected [] w = (Inr [], w)"
| "prepare_horizons L factory r batch expected (c # cs) w =
     (let fail = (\<lambda>code m. Inl (mh_fail L r batch code (rq_horizon c) [] m)) in
      case factory c w of
        (Inl e, w1) \<Rightarrow> (fail Engine_factory_failure
          (msg [''could not create analysis engine for '', rq_horizon c, '': '', ex_msg e]), w1)
      | (Inr None, w1) \<Rightarrow> (fail Engine_factory_failure
          ''multi-horizon engine factory must return AnalysisEngine'', w1)
      | (Inr (Some e), w1) \<Rightarrow>
         (case prepare_item L c e of
            Inl x \<Rightarrow> (Inl (MhRaised x), w1)
          | Inr ph \<Rightarrow>
             (let first' = (case expected of None \<Rightarrow> ph | Some x \<Rightarrow> x) in
              if \<not> same_graph ph first' then
                (fail Graph_mismatch ''all horizons must use the same graph identity and content'', w1)
              else if \<not> same_dict (ph_formula_versions ph) (ph_formula_versions first') then
                (fail Formula_version_mismatch ''all horizons must use the same Cell formula versions'', w1)
              else case prepare_horizons L factory r batch (Some first') cs w1 of
                  (Inl x, w2) \<Rightarrow> (Inl x, w2)
                | (Inr phs, w2) \<Rightarrow> (Inr (ph # phs), w2))))"

subsection \<open>The runs\<close>

definition unknown_horizons :: "mh_request \<Rightarrow> (string \<times> snapshot list) list \<Rightarrow> string list" where
  "unknown_horizons r inputs = sorted_set (filter (\<lambda>h. h \<notin> set (mh_horizon_order r)) (map fst inputs))"

definition validate_horizon_inputs :: "mh_request \<Rightarrow> (string \<times> snapshot list) list option
  \<Rightarrow> (string \<times> snapshot list) list res" where
  "validate_horizon_inputs r inputs =
     (case inputs of None \<Rightarrow> Inr []
      | Some d \<Rightarrow> if unknown_horizons r d \<noteq> [] then raise InputCompositionError
            (msg [''multi-horizon extra inputs reference unknown horizons: '', join '', '' (unknown_horizons r d)])
          else Inr d)"

definition inputs_for_horizon :: "(string \<times> snapshot list) list \<Rightarrow> string \<Rightarrow> snapshot list" where
  "inputs_for_horizon d h = (case map_of d h of None \<Rightarrow> [] | Some ss \<Rightarrow> ss)"

definition horizon_audit :: "mh_request \<Rightarrow> string \<Rightarrow> string \<Rightarrow> nat \<Rightarrow> nat \<Rightarrow> meta" where
  "horizon_audit r batch h index n =
     [(''schema_version'', PStr (mh_schema_version r)), (''batch_id'', PStr batch),
      (''request_id'', PStr (request_id_of h)), (''request_hash'', PStr h), (''target'', PStr (mh_target r)),
      (''as_of_ms'', PInt (mh_as_of_ms r)), (''horizon_order'', strs (mh_horizon_order r)),
      (''horizon_index'', PInt (int index)), (''horizon_count'', PInt (int n)),
      (''execution_mode'', PStr ''sequential''), (''failure_mode'', PStr ''fail_fast''),
      (''aggregation_status'', PStr ''not_computed''), (''request_metadata'', PDict (mh_metadata r))]"

definition report_in_scope :: "mh_request \<Rightarrow> string \<Rightarrow> report \<Rightarrow> bool" where
  "report_in_scope r horizon rep \<longleftrightarrow> rp_target rep = mh_target r \<and> rp_horizon rep = horizon
     \<and> cr_target (rp_decision rep) = rp_target rep \<and> cr_horizon (rp_decision rep) = rp_horizon rep"

text \<open>The arguments that do not change from one horizon to the next.\<close>

record 'w batch_run =
  br_lib :: stdlib
  br_request :: mh_request
  br_batch :: string
  br_metadata :: meta
  br_signal :: "('w \<Rightarrow> bool \<times> 'w) option"
  br_inputs :: "(string \<times> snapshot list) list"
  br_expected :: "(string \<times> string) list"
  br_count :: nat

definition run_horizon :: "'w batch_run \<Rightarrow> nat \<Rightarrow> report list \<Rightarrow> 'w prepared_horizon \<Rightarrow> 'w
  \<Rightarrow> (mh_error + report) \<times> 'w" where
  "run_horizon B index completed ph w =
     (let L = br_lib B; r = br_request B; horizon = rq_horizon (ph_request ph);
          fail = (\<lambda>code m. Inl (mh_fail L r (br_batch B) code horizon completed m)) in
      case mh_content_hash L r of
        Inl e \<Rightarrow> (Inl (MhRaised e), w)
      | Inr h \<Rightarrow>
         (case he_run (ph_engine ph) (ph_request ph)
            (dict_merge (br_metadata B) [(''multi_horizon'', PDict (horizon_audit r (br_batch B) h index (br_count B)))])
            (br_signal B) (inputs_for_horizon (br_inputs B) horizon) w of
            (Inl e, w1) \<Rightarrow> (fail Analysis_failure
              (msg [''multi-horizon analysis failed at '', horizon, '': '', ex_msg e]), w1)
          | (Inr rep, w1) \<Rightarrow>
             (if \<not> report_in_scope r horizon rep then fail Report_scope_mismatch
                ''multi-horizon child report scope does not match its request''
              else if \<not> same_dict (rp_formula_versions rep) (br_expected B) then fail Report_formula_mismatch
                ''multi-horizon child report formula versions drifted inside one batch''
              else Inr rep, w1)))"

fun run_horizons :: "'w batch_run \<Rightarrow> nat \<Rightarrow> report list \<Rightarrow> 'w prepared_horizon list \<Rightarrow> 'w
  \<Rightarrow> (mh_error + report list) \<times> 'w" where
  "run_horizons B index completed [] w = (Inr completed, w)"
| "run_horizons B index completed (ph # phs) w =
     (case run_horizon B index completed ph w of
        (Inl e, w1) \<Rightarrow> (Inl e, w1)
      | (Inr rep, w1) \<Rightarrow> run_horizons B (Suc index) (completed @ [rep]) phs w1)"

definition analysis_of :: "mh_request \<Rightarrow> string \<Rightarrow> string \<Rightarrow> 'w prepared_horizon \<Rightarrow> report list \<Rightarrow> string \<Rightarrow> mh_analysis" where
  "analysis_of r batch h expected reports now =
     \<lparr>ma_batch_id = batch, ma_request_id = request_id_of h, ma_request_hash = h, ma_target = mh_target r,
      ma_as_of_ms = mh_as_of_ms r, ma_horizon_order = mh_horizon_order r, ma_reports = reports,
      ma_graph_id = ph_graph_id expected, ma_graph_version = ph_graph_version expected,
      ma_graph_content_hash = ph_graph_content_hash expected,
      ma_formula_versions = ph_formula_versions expected, ma_created_at = now,
      ma_aggregation_status = ''not_computed'', ma_schema_version = mh_analysis_schema,
      ma_metadata = [(''execution_mode'', PStr ''sequential''), (''failure_mode'', PStr ''fail_fast''),
        (''request_metadata'', PDict (mh_metadata r))]\<rparr>"

text \<open>The runs of a prepared batch and the analysis; \<open>prepared[0]\<close> exists, the request has horizons.\<close>

definition run_prepared :: "stdlib \<Rightarrow> 'w env \<Rightarrow> mh_request \<Rightarrow> string \<Rightarrow> meta \<Rightarrow> ('w \<Rightarrow> bool \<times> 'w) option
  \<Rightarrow> (string \<times> snapshot list) list \<Rightarrow> 'w prepared_horizon list \<Rightarrow> 'w \<Rightarrow> (mh_error + mh_analysis) \<times> 'w" where
  "run_prepared L E r batch md signal inputs phs w =
     (let expected = hd phs;
          B = \<lparr>br_lib = L, br_request = r, br_batch = batch, br_metadata = md, br_signal = signal,
            br_inputs = inputs, br_expected = ph_formula_versions expected, br_count = length phs\<rparr> in
      case run_horizons B 0 [] phs w of
        (Inl e, w1) \<Rightarrow> (Inl e, w1)
      | (Inr reports, w1) \<Rightarrow>
         (case mh_content_hash L r of
            Inl e \<Rightarrow> (Inl (MhRaised e), w1)
          | Inr h \<Rightarrow>
             (let (now, w2) = env_now E w1 in
              (case mk_analysis (analysis_of r batch h expected reports now) of
                 Inl e \<Rightarrow> Inl (MhRaised e) | Inr a \<Rightarrow> Inr a, w2))))"

definition mh_run :: "stdlib \<Rightarrow> 'w env \<Rightarrow> iso_parser \<Rightarrow> 'w engine_factory \<Rightarrow> mh_request \<Rightarrow> meta option
  \<Rightarrow> ('w \<Rightarrow> bool \<times> 'w) option \<Rightarrow> (string \<times> snapshot list) list option \<Rightarrow> 'w \<Rightarrow> (mh_error + mh_analysis) \<times> 'w" where
  "mh_run L E pt factory r metadata signal inputs w =
     (case validate_multi_horizon_request pt r of
        Inl issues \<Rightarrow> (Inl (MhInvalid issues), w)
      | Inr _ \<Rightarrow>
         (let md = (case metadata of None \<Rightarrow> [] | Some m \<Rightarrow> m) in
          if has_key ''multi_horizon'' md then (Inl (MhRaised (mk_exc PyValueError
            ''metadata.multi_horizon is reserved for batch audit data'')), w)
          else case validate_horizon_inputs r inputs of
              Inl e \<Rightarrow> (Inl (MhRaised e), w)
            | Inr d \<Rightarrow>
               (let (u, w1) = env_uuid E w; batch = ''multi-horizon:'' @ u in
                case prepare_horizons L factory r batch None (mh_requests r) w1 of
                  (Inl e, w2) \<Rightarrow> (Inl e, w2)
                | (Inr phs, w2) \<Rightarrow> run_prepared L E r batch md signal d phs w2)))"

subsection \<open>Fail fast\<close>

lemma mh_fail_Execution:
  assumes "mh_fail L r batch code h done m = MhExecution f"
  shows "mx_code f = code \<and> mx_failed_horizon f = h \<and> mx_completed f = done \<and> mx_batch_id f = batch
    \<and> mh_content_hash L r = Inr (mx_request_hash f) \<and> mx_request_id f = request_id_of (mx_request_hash f)"
  using assms by (auto simp: mh_fail_def split: sum.splits)

lemma mh_fail_not_Invalid: "mh_fail L r batch code h done m \<noteq> MhInvalid issues"
  by (simp add: mh_fail_def split: sum.splits)

text \<open>The codes of the first phase, in which no horizon has run.\<close>

definition preparation_code :: "mh_code \<Rightarrow> bool" where
  "preparation_code c \<longleftrightarrow> c \<in> {Engine_factory_failure, Graph_mismatch, Formula_version_mismatch}"

text \<open>What an execution error says: the \<open>k\<close>-th horizon failed, those before it are complete.\<close>

definition stopped_at :: "stdlib \<Rightarrow> mh_request \<Rightarrow> string \<Rightarrow> string list \<Rightarrow> nat \<Rightarrow> mh_failure \<Rightarrow> bool" where
  "stopped_at L r batch hs k f \<longleftrightarrow> k < length hs \<and> mx_failed_horizon f = hs ! k
     \<and> map rp_horizon (mx_completed f) = (if preparation_code (mx_code f) then [] else take k hs)
     \<and> list_all (\<lambda>rep. rp_target rep = mh_target r) (mx_completed f)
     \<and> mx_batch_id f = batch \<and> mh_content_hash L r = Inr (mx_request_hash f)
     \<and> mx_request_id f = request_id_of (mx_request_hash f)"

lemma prepare_item_request: "prepare_item L c e = Inr ph \<Longrightarrow> ph_request ph = c"
  by (auto simp: prepare_item_def bind_res_eq_Inr)

lemma run_horizon_result:
  assumes "run_horizon B index completed ph w = (out, w')"
  shows "case out of
      Inl e \<Rightarrow> (\<exists>x. e = MhRaised x) \<or> (\<exists>f. e = MhExecution f \<and> \<not> preparation_code (mx_code f)
        \<and> mx_failed_horizon f = rq_horizon (ph_request ph) \<and> mx_completed f = completed
        \<and> mx_batch_id f = br_batch B \<and> mh_content_hash (br_lib B) (br_request B) = Inr (mx_request_hash f)
        \<and> mx_request_id f = request_id_of (mx_request_hash f))
    | Inr rep \<Rightarrow> report_in_scope (br_request B) (rq_horizon (ph_request ph)) rep
        \<and> same_dict (rp_formula_versions rep) (br_expected B)"
proof -
  let ?h = "rq_horizon (ph_request ph)"
  have fail: "(\<exists>x. e = MhRaised x) \<or> (\<exists>f. e = MhExecution f \<and> \<not> preparation_code (mx_code f)
        \<and> mx_failed_horizon f = ?h \<and> mx_completed f = completed
        \<and> mx_batch_id f = br_batch B \<and> mh_content_hash (br_lib B) (br_request B) = Inr (mx_request_hash f)
        \<and> mx_request_id f = request_id_of (mx_request_hash f))"
    if "e = mh_fail (br_lib B) (br_request B) (br_batch B) code ?h completed m" "\<not> preparation_code code" for e code m
    using that mh_fail_Execution[of "br_lib B" "br_request B" "br_batch B" code ?h completed m]
      mh_fail_not_Invalid[of "br_lib B" "br_request B" "br_batch B" code ?h completed m]
    by (cases "mh_fail (br_lib B) (br_request B) (br_batch B) code ?h completed m") auto
  have codes: "\<not> preparation_code Analysis_failure" "\<not> preparation_code Report_scope_mismatch"
    "\<not> preparation_code Report_formula_mismatch" by (simp_all add: preparation_code_def)
  show ?thesis
  proof (cases "mh_content_hash (br_lib B) (br_request B)")
    case (Inl x)
    then show ?thesis using assms by (auto simp: run_horizon_def Let_def)
  next
    case (Inr h)
    obtain res w1 where run: "he_run (ph_engine ph) (ph_request ph)
            (dict_merge (br_metadata B) [(''multi_horizon'',
               PDict (horizon_audit (br_request B) (br_batch B) h index (br_count B)))])
            (br_signal B) (inputs_for_horizon (br_inputs B) ?h) w = (res, w1)" by fastforce
    show ?thesis
    proof (cases res)
      case (Inl x)
      with assms Inr run have "out = Inl (mh_fail (br_lib B) (br_request B) (br_batch B) Analysis_failure ?h completed
          (msg [''multi-horizon analysis failed at '', ?h, '': '', ex_msg x]))"
        by (simp add: run_horizon_def Let_def)
      then show ?thesis using fail[OF _ codes(1)] by simp
    next
      case (Inr rep)
      with assms \<open>mh_content_hash _ _ = Inr h\<close> run
      have "out = (if \<not> report_in_scope (br_request B) ?h rep
          then Inl (mh_fail (br_lib B) (br_request B) (br_batch B) Report_scope_mismatch ?h completed
            ''multi-horizon child report scope does not match its request'')
        else if \<not> same_dict (rp_formula_versions rep) (br_expected B)
          then Inl (mh_fail (br_lib B) (br_request B) (br_batch B) Report_formula_mismatch ?h completed
            ''multi-horizon child report formula versions drifted inside one batch'')
        else Inr rep)"
        by (auto simp: run_horizon_def Let_def split: if_splits)
      then show ?thesis using fail[OF refl codes(2)] fail[OF refl codes(3)] by (simp split: if_splits)
    qed
  qed
qed

text \<open>The loop: \<open>completed\<close> holds the reports of the horizons before \<open>index\<close>.\<close>

lemma run_horizons_result:
  assumes "run_horizons B index completed phs w = (out, w')"
    and "list_all2 (\<lambda>h rep. report_in_scope (br_request B) h rep \<and> same_dict (rp_formula_versions rep) (br_expected B))
      before completed"
  shows "case out of
      Inl e \<Rightarrow> (\<exists>x. e = MhRaised x) \<or> (\<exists>f k. e = MhExecution f \<and> \<not> preparation_code (mx_code f)
        \<and> stopped_at (br_lib B) (br_request B) (br_batch B) (before @ map (\<lambda>ph. rq_horizon (ph_request ph)) phs) k f)
    | Inr reports \<Rightarrow> list_all2 (\<lambda>h rep. report_in_scope (br_request B) h rep
          \<and> same_dict (rp_formula_versions rep) (br_expected B))
        (before @ map (\<lambda>ph. rq_horizon (ph_request ph)) phs) reports"
  using assms
proof (induction phs arbitrary: index completed before w)
  case Nil
  then show ?case by auto
next
  case (Cons ph phs)
  obtain res w1 where run: "run_horizon B index completed ph w = (res, w1)" by fastforce
  note one = run_horizon_result[OF run]
  show ?case
  proof (cases res)
    case (Inl e)
    have "map rp_horizon completed = before" "list_all (\<lambda>rep. rp_target rep = mh_target (br_request B)) completed"
      using Cons.prems(2) by (auto simp: list_all2_conv_all_nth list_all_length report_in_scope_def intro: nth_equalityI)
    moreover have "length completed = length before" using list_all2_lengthD[OF Cons.prems(2)] by simp
    ultimately show ?thesis using one Cons.prems(1) run Inl
      by (auto simp: stopped_at_def nth_append intro!: exI[of _ "length before"])
  next
    case (Inr rep)
    have rest: "run_horizons B (Suc index) (completed @ [rep]) phs w1 = (out, w')" using Cons.prems(1) run Inr by simp
    have all: "list_all2 (\<lambda>h rep. report_in_scope (br_request B) h rep \<and> same_dict (rp_formula_versions rep) (br_expected B))
        (before @ [rq_horizon (ph_request ph)]) (completed @ [rep])"
      using Cons.prems(2) one Inr by (simp add: list_all2_appendI)
    from Cons.IH[OF rest all] show ?thesis by (cases out) simp_all
  qed
qed

text \<open>An analysis answers a request: one report per horizon, in order, over one set of formulas.\<close>

definition answers_batch :: "mh_request \<Rightarrow> mh_analysis \<Rightarrow> bool" where
  "answers_batch r a \<longleftrightarrow> ma_target a = mh_target r \<and> ma_as_of_ms a = mh_as_of_ms r
     \<and> ma_horizon_order a = mh_horizon_order r \<and> ma_request_id a = request_id_of (ma_request_hash a)
     \<and> list_all2 (\<lambda>h rep. report_in_scope r h rep \<and> same_dict (rp_formula_versions rep) (ma_formula_versions a))
         (mh_horizon_order r) (ma_reports a)
     \<and> mk_analysis a = Inr a"

lemma mk_analysis_same: "mk_analysis a = Inr b \<Longrightarrow> b = a"
  by (auto simp: mk_analysis_def bind_res_eq_Inr)

lemma run_prepared_result:
  assumes "map ph_request phs = mh_requests r"
  shows "case fst (run_prepared L E r batch md signal d phs w) of
      Inl (MhInvalid issues) \<Rightarrow> False
    | Inl (MhRaised e) \<Rightarrow> True
    | Inl (MhExecution f) \<Rightarrow> \<exists>k. stopped_at L r batch (mh_horizon_order r) k f
    | Inr a \<Rightarrow> answers_batch r a"
proof -
  let ?B = "\<lparr>br_lib = L, br_request = r, br_batch = batch, br_metadata = md, br_signal = signal,
    br_inputs = d, br_expected = ph_formula_versions (hd phs), br_count = length phs\<rparr>"
  have order: "map (\<lambda>ph. rq_horizon (ph_request ph)) phs = mh_horizon_order r"
    using arg_cong[OF assms, of "map rq_horizon"] by (simp add: mh_horizon_order_def comp_def)
  obtain out w1 where run: "run_horizons ?B 0 [] phs w = (out, w1)" by fastforce
  from run_horizons_result[OF run, of "[]"] order have res: "case out of
      Inl e \<Rightarrow> (\<exists>x. e = MhRaised x) \<or> (\<exists>f k. e = MhExecution f \<and> \<not> preparation_code (mx_code f)
        \<and> stopped_at L r batch (mh_horizon_order r) k f)
    | Inr reports \<Rightarrow> list_all2 (\<lambda>h rep. report_in_scope r h rep
        \<and> same_dict (rp_formula_versions rep) (ph_formula_versions (hd phs))) (mh_horizon_order r) reports"
    by (cases out) simp_all
  show ?thesis
  proof (cases out)
    case (Inl e)
    then show ?thesis using res run by (auto simp: run_prepared_def Let_def split: mh_error.splits)
  next
    case (Inr reports)
    have "answers_batch r a" if "mk_analysis (analysis_of r batch h (hd phs) reports now) = Inr a" for h now a
      using res Inr that mk_analysis_same[OF that] by (simp add: answers_batch_def analysis_of_def)
    then show ?thesis using run Inr
      by (auto simp: run_prepared_def Let_def split: sum.splits mh_error.splits prod.splits)
  qed
qed

end
