(* ===== verification/Horizon_Batch.thy ===== *)
theory Horizon_Batch
  imports Horizon_Runner
begin

section \<open>What a batch of horizons did\<close>

text \<open>
  The world after a batch tells which factories and engines were called. A batch is retold as a
  chain of worlds: the id, one call of the factory per horizon, one run per horizon; a failure is the
  last call of its chain.
\<close>

subsection \<open>The engines that were made\<close>

definition first_of :: "'w prepared_horizon option \<Rightarrow> 'w prepared_horizon \<Rightarrow> 'w prepared_horizon" where
  "first_of expected ph = (case expected of None \<Rightarrow> ph | Some x \<Rightarrow> x)"

lemma first_of_Some: "first_of (Some x) ph = x"
  by (simp add: first_of_def)

definition agrees :: "'w prepared_horizon \<Rightarrow> 'w prepared_horizon \<Rightarrow> bool" where
  "agrees x ph \<longleftrightarrow> same_graph ph x \<and> same_dict (ph_formula_versions ph) (ph_formula_versions x)"

text \<open>The factory was called for the first horizons, in order, and made these engines.\<close>

fun made :: "stdlib \<Rightarrow> 'w engine_factory \<Rightarrow> 'w prepared_horizon option \<Rightarrow> request list \<Rightarrow> 'w prepared_horizon list
  \<Rightarrow> 'w \<Rightarrow> 'w \<Rightarrow> bool" where
  "made L F expected cs [] w w' \<longleftrightarrow> w' = w"
| "made L F expected [] (ph # phs) w w' \<longleftrightarrow> False"
| "made L F expected (c # cs) (ph # phs) w w' \<longleftrightarrow>
     (\<exists>e w1. F c w = (Inr (Some e), w1) \<and> prepare_item L c e = Inr ph \<and> agrees (first_of expected ph) ph
        \<and> made L F (Some (first_of expected ph)) cs phs w1 w')"

text \<open>Why the next engine was refused.\<close>

definition refused_engine :: "stdlib \<Rightarrow> 'w prepared_horizon option \<Rightarrow> request \<Rightarrow> 'w prepared_horizon list
  \<Rightarrow> 'w horizon_engine option res \<Rightarrow> mh_code \<Rightarrow> bool" where
  "refused_engine L expected c phs res code \<longleftrightarrow> (case res of
       Inr (Some e) \<Rightarrow> \<exists>ph. prepare_item L c e = Inr ph \<and> (let x = first_of expected (hd (phs @ [ph])) in
          code = (if same_graph ph x then Formula_version_mismatch else Graph_mismatch) \<and> \<not> agrees x ph)
     | _ \<Rightarrow> code = Engine_factory_failure)"

text \<open>The preparation stopped at the \<open>k\<close>-th horizon, with \<open>w'\<close>.\<close>

definition preparation_stopped :: "stdlib \<Rightarrow> 'w engine_factory \<Rightarrow> 'w prepared_horizon option \<Rightarrow> request list
  \<Rightarrow> 'w \<Rightarrow> nat \<Rightarrow> mh_code option \<Rightarrow> 'w \<Rightarrow> bool" where
  "preparation_stopped L F expected cs w k code w' \<longleftrightarrow> (\<exists>phs wk res. k < length cs \<and> length phs = k
     \<and> made L F expected cs phs w wk \<and> F (cs ! k) wk = (res, w')
     \<and> (case code of None \<Rightarrow> True | Some x \<Rightarrow> refused_engine L expected (cs ! k) phs res x))"

lemma preparation_stopped_0:
  "F c w = (res, w') \<Longrightarrow> (case code of None \<Rightarrow> True | Some x \<Rightarrow> refused_engine L expected c [] res x)
     \<Longrightarrow> preparation_stopped L F expected (c # cs) w 0 code w'"
  unfolding preparation_stopped_def by (intro exI[of _ "[]"] exI[of _ w] exI[of _ res]) (cases code; simp)

lemma preparation_stopped_Suc:
  assumes "F c w = (Inr (Some e), w1)" "prepare_item L c e = Inr ph" "agrees (first_of expected ph) ph"
    and "preparation_stopped L F (Some (first_of expected ph)) cs w1 k code w'"
  shows "preparation_stopped L F expected (c # cs) w (Suc k) code w'"
proof -
  obtain phs wk res where s: "k < length cs" "length phs = k" "made L F (Some (first_of expected ph)) cs phs w1 wk"
    "F (cs ! k) wk = (res, w')"
    "case code of None \<Rightarrow> True | Some x \<Rightarrow> refused_engine L (Some (first_of expected ph)) (cs ! k) phs res x"
    using assms(4) unfolding preparation_stopped_def by blast
  have "refused_engine L expected (cs ! k) (ph # phs) res x"
    if "refused_engine L (Some (first_of expected ph)) (cs ! k) phs res x" for x
    using that by (simp only: refused_engine_def first_of_Some append_Cons list.sel)
  then show ?thesis unfolding preparation_stopped_def
    by (intro exI[of _ "ph # phs"] exI[of _ wk] exI[of _ res]) (use s assms(1-3) in \<open>auto split: option.splits\<close>)
qed

lemma prepare_horizons_made:
  "prepare_horizons L F r batch expected cs w = (out, w') \<Longrightarrow> case out of
      Inl (MhInvalid issues) \<Rightarrow> False
    | Inl (MhRaised e) \<Rightarrow> \<exists>k. preparation_stopped L F expected cs w k None w'
    | Inl (MhExecution f) \<Rightarrow> preparation_code (mx_code f)
        \<and> (\<exists>k. stopped_at L r batch (map rq_horizon cs) k f \<and> preparation_stopped L F expected cs w k (Some (mx_code f)) w')
    | Inr phs \<Rightarrow> map ph_request phs = cs \<and> made L F expected cs phs w w'"
proof (induction cs arbitrary: expected w out w')
  case Nil
  then show ?case by auto
next
  case (Cons c cs)
  let ?P = "\<lambda>expected cs w out w'. case out of
      Inl (MhInvalid issues) \<Rightarrow> False
    | Inl (MhRaised e) \<Rightarrow> \<exists>k. preparation_stopped L F expected cs w k None w'
    | Inl (MhExecution f) \<Rightarrow> preparation_code (mx_code f)
        \<and> (\<exists>k. stopped_at L r batch (map rq_horizon cs) k f \<and> preparation_stopped L F expected cs w k (Some (mx_code f)) w')
    | Inr phs \<Rightarrow> map ph_request phs = cs \<and> made L F expected cs phs w w'"
  obtain res w1 where res: "F c w = (res, w1)" by fastforce
  have here: "?P expected (c # cs) w (Inl (mh_fail L r batch code (rq_horizon c) [] m) :: mh_error + 'a prepared_horizon list) w1"
    if "preparation_code code" "refused_engine L expected c [] res code" for code m
  proof (cases "mh_fail L r batch code (rq_horizon c) [] m")
    case (MhInvalid issues)
    then show ?thesis using mh_fail_not_Invalid by metis
  next
    case (MhRaised x)
    then show ?thesis using preparation_stopped_0[where F = F and code = None, OF res] by auto
  next
    case (MhExecution f)
    note f = mh_fail_Execution[OF this]
    have "stopped_at L r batch (map rq_horizon (c # cs)) 0 f" using f that(1) by (simp add: stopped_at_def)
    moreover have "preparation_stopped L F expected (c # cs) w 0 (Some (mx_code f)) w1"
      by (rule preparation_stopped_0[where F = F, OF res]) (use that(2) f in simp)
    ultimately show ?thesis using MhExecution f that(1) by auto
  qed
  have codes: "preparation_code Engine_factory_failure" "preparation_code Graph_mismatch"
    "preparation_code Formula_version_mismatch" by (simp_all add: preparation_code_def)
  consider (no) "\<nexists>e. res = Inr (Some e)" | (bad) e x where "res = Inr (Some e)" "prepare_item L c e = Inl x"
    | (good) e ph where "res = Inr (Some e)" "prepare_item L c e = Inr ph"
    by (metis sum.exhaust)
  then show ?case
  proof cases
    case no
    then have "refused_engine L expected c [] res Engine_factory_failure"
      by (auto simp: refused_engine_def split: sum.splits option.splits)
    moreover have "w' = w1 \<and> (\<exists>m. out = Inl (mh_fail L r batch Engine_factory_failure (rq_horizon c) [] m))"
      using Cons.prems res no by (auto simp: Let_def split: sum.splits option.splits)
    ultimately show ?thesis using here[OF codes(1)] by blast
  next
    case bad
    then have "out = Inl (MhRaised x)" "w' = w1" using Cons.prems res by (simp_all add: Let_def)
    then show ?thesis using preparation_stopped_0[where F = F and code = None, OF res] by auto
  next
    case good
    note res = res[unfolded good(1)]
    let ?x = "first_of expected ph"
    show ?thesis
    proof (cases "agrees ?x ph")
      case False
      let ?code = "if same_graph ph ?x then Formula_version_mismatch else Graph_mismatch"
      have "refused_engine L expected c [] (Inr (Some e)) ?code"
        using good(2) False by (simp add: refused_engine_def Let_def)
      moreover have "w' = w1 \<and> (\<exists>m. out = Inl (mh_fail L r batch ?code (rq_horizon c) [] m))"
        using Cons.prems res good(2) False by (auto simp: Let_def agrees_def first_of_def split: if_splits)
      ultimately show ?thesis using here[of ?code] codes unfolding good(1) by auto
    next
      case True
      obtain rest w2 where rest: "prepare_horizons L F r batch (Some ?x) cs w1 = (rest, w2)" by fastforce
      have out: "out = (case rest of Inl y \<Rightarrow> Inl y | Inr phs \<Rightarrow> Inr (ph # phs))" "w' = w2"
        using Cons.prems res good(2) True rest
        by (auto simp: Let_def agrees_def first_of_def split: sum.splits)
      note IH = Cons.IH[OF rest]
      note step = preparation_stopped_Suc[where F = F, OF res good(2) True]
      have later: "stopped_at L r batch (map rq_horizon (c # cs)) (Suc k) f"
        if "preparation_code (mx_code f)" "stopped_at L r batch (map rq_horizon cs) k f" for k f
        using that by (simp add: stopped_at_def)
      show ?thesis
      proof (cases rest)
        case (Inl y)
        show ?thesis
        proof (cases y)
          case (MhExecution f)
          with Inl IH obtain k where "preparation_code (mx_code f)" "stopped_at L r batch (map rq_horizon cs) k f"
            "preparation_stopped L F (Some ?x) cs w1 k (Some (mx_code f)) w2" by auto
          with step later have "stopped_at L r batch (map rq_horizon (c # cs)) (Suc k) f"
            "preparation_stopped L F expected (c # cs) w (Suc k) (Some (mx_code f)) w2" "preparation_code (mx_code f)"
            by blast+
          then show ?thesis using out Inl MhExecution by auto
        next
          case (MhRaised z)
          with Inl IH obtain k where "preparation_stopped L F (Some ?x) cs w1 k None w2" by auto
          from step[OF this] show ?thesis using out Inl MhRaised by auto
        qed (use Inl IH in simp)
      next
        case (Inr phs)
        then show ?thesis using IH out res good(2) True prepare_item_request[OF good(2)] by simp
      qed
    qed
  qed
qed

subsection \<open>The engines that ran\<close>

text \<open>The run of one horizon: its request, its audit entry, the caller's signal and its inputs.\<close>

definition horizon_call :: "'w batch_run \<Rightarrow> string \<Rightarrow> nat \<Rightarrow> 'w prepared_horizon \<Rightarrow> 'w \<Rightarrow> report res \<times> 'w" where
  "horizon_call B h k ph = he_run (ph_engine ph) (ph_request ph)
     (dict_merge (br_metadata B)
        [(''multi_horizon'', PDict (horizon_audit (br_request B) (br_batch B) h k (br_count B)))])
     (br_signal B) (inputs_for_horizon (br_inputs B) (rq_horizon (ph_request ph)))"

text \<open>The first engines ran, in order and each in the world the one before left, and gave these reports.\<close>

fun ran :: "'w batch_run \<Rightarrow> string \<Rightarrow> nat \<Rightarrow> 'w prepared_horizon list \<Rightarrow> report list \<Rightarrow> 'w \<Rightarrow> 'w \<Rightarrow> bool" where
  "ran B h k phs [] w w' \<longleftrightarrow> w' = w"
| "ran B h k [] (rep # reps) w w' \<longleftrightarrow> False"
| "ran B h k (ph # phs) (rep # reps) w w' \<longleftrightarrow>
     (\<exists>w1. horizon_call B h k ph w = (Inr rep, w1) \<and> ran B h (Suc k) phs reps w1 w')"

text \<open>Why a run was the last one.\<close>

definition refused_report :: "'w batch_run \<Rightarrow> string \<Rightarrow> report res \<Rightarrow> mh_code \<Rightarrow> bool" where
  "refused_report B horizon res code \<longleftrightarrow> (case res of
       Inl e \<Rightarrow> code = Analysis_failure
     | Inr rep \<Rightarrow> (if report_in_scope (br_request B) horizon rep
          then \<not> same_dict (rp_formula_versions rep) (br_expected B) \<and> code = Report_formula_mismatch
          else code = Report_scope_mismatch))"

lemma refused_report_code: "refused_report B h res code \<Longrightarrow> \<not> preparation_code code"
  by (cases res) (auto simp: refused_report_def preparation_code_def split: if_splits)

definition runs_stopped :: "'w batch_run \<Rightarrow> nat \<Rightarrow> 'w prepared_horizon list \<Rightarrow> report list \<Rightarrow> 'w \<Rightarrow> mh_failure \<Rightarrow> 'w \<Rightarrow> bool" where
  "runs_stopped B index phs reps w f w' \<longleftrightarrow> (\<exists>wk res. length reps < length phs
     \<and> ran B (mx_request_hash f) index phs reps w wk
     \<and> horizon_call B (mx_request_hash f) (index + length reps) (phs ! length reps) wk = (res, w')
     \<and> refused_report B (rq_horizon (ph_request (phs ! length reps))) res (mx_code f))"

lemma run_horizon_world:
  assumes "mh_content_hash (br_lib B) (br_request B) = Inr h" "run_horizon B index completed ph w = (out, w')"
  shows "case out of
      Inl e \<Rightarrow> \<exists>f. e = MhExecution f \<and> mx_completed f = completed \<and> mx_request_hash f = h
        \<and> runs_stopped B index (ph # phs) [] w f w'
    | Inr rep \<Rightarrow> horizon_call B h index ph w = (Inr rep, w')"
proof -
  let ?hz = "rq_horizon (ph_request ph)"
  let ?fail = "mh_fail (br_lib B) (br_request B) (br_batch B)"
  obtain res w1 where call: "horizon_call B h index ph w = (res, w1)" by fastforce
  have stop: "\<exists>f. ?fail code ?hz completed m = MhExecution f \<and> mx_completed f = completed \<and> mx_request_hash f = h
      \<and> runs_stopped B index (ph # phs) [] w f w1" if "refused_report B ?hz res code" for code m
    using assms(1) call that by (simp add: mh_fail_def runs_stopped_def)
  note run = assms(2)[unfolded run_horizon_def Let_def assms(1) sum.case, folded horizon_call_def, unfolded call prod.case]
  show ?thesis
  proof (cases res)
    case (Inl e)
    then have "refused_report B ?hz res Analysis_failure" by (simp add: refused_report_def)
    from stop[OF this] show ?thesis using run Inl by auto
  next
    case (Inr rep)
    show ?thesis
    proof (cases "report_in_scope (br_request B) ?hz rep")
      case False
      then have "refused_report B ?hz res Report_scope_mismatch" using Inr by (simp add: refused_report_def)
      from stop[OF this] show ?thesis using run Inr False by auto
    next
      case True
      show ?thesis
      proof (cases "same_dict (rp_formula_versions rep) (br_expected B)")
        case False
        then have "refused_report B ?hz res Report_formula_mismatch" using Inr True by (simp add: refused_report_def)
        from stop[OF this] show ?thesis using run Inr True False by auto
      qed (use run Inr True call in auto)
    qed
  qed
qed

lemma run_horizons_world:
  assumes "mh_content_hash (br_lib B) (br_request B) = Inr h" "run_horizons B index completed phs w = (out, w')"
  shows "case out of
      Inl e \<Rightarrow> \<exists>f reps. e = MhExecution f \<and> mx_completed f = completed @ reps \<and> mx_request_hash f = h
        \<and> runs_stopped B index phs reps w f w'
    | Inr reports \<Rightarrow> \<exists>reps. reports = completed @ reps \<and> length reps = length phs \<and> ran B h index phs reps w w'"
  using assms(2)
proof (induction phs arbitrary: index completed w)
  case Nil
  then show ?case by (auto intro!: exI[of _ "[]"])
next
  case (Cons ph phs)
  obtain res w1 where run: "run_horizon B index completed ph w = (res, w1)" by fastforce
  note one = run_horizon_world[OF assms(1) run, of phs]
  show ?case
  proof (cases res)
    case (Inl e)
    then show ?thesis using one run Cons.prems by (fastforce intro!: exI[of _ "[]"])
  next
    case (Inr rep)
    then have call: "horizon_call B h index ph w = (Inr rep, w1)" using one by simp
    have rest: "run_horizons B (Suc index) (completed @ [rep]) phs w1 = (out, w')" using Cons.prems run Inr by simp
    have later: "runs_stopped B index (ph # phs) (rep # reps) w f w'"
      if "runs_stopped B (Suc index) phs reps w1 f w'" "mx_request_hash f = h" for reps f
      using that call by (auto simp: runs_stopped_def)
    show ?thesis
    proof (cases out)
      case (Inl e)
      with Cons.IH[OF rest] obtain f reps where "e = MhExecution f" "mx_completed f = completed @ rep # reps"
        "mx_request_hash f = h" "runs_stopped B (Suc index) phs reps w1 f w'" by auto
      with later Inl show ?thesis by auto
    next
      case (Inr reports)
      with Cons.IH[OF rest] obtain reps where "reports = completed @ rep # reps" "length reps = length phs"
        "ran B h (Suc index) phs reps w1 w'" by auto
      with call Inr show ?thesis by (auto intro!: exI[of _ "rep # reps"])
    qed
  qed
qed

lemma run_horizons_no_hash:
  assumes "mh_content_hash (br_lib B) (br_request B) = Inl e"
  shows "run_horizons B index completed phs w = ((if phs = [] then Inr completed else Inl (MhRaised e)), w)"
  using assms by (cases phs) (simp_all add: run_horizon_def)

subsection \<open>The whole batch\<close>

text \<open>The constants of the runs over these engines.\<close>

definition batch_of :: "stdlib \<Rightarrow> 'w env \<Rightarrow> mh_request \<Rightarrow> meta option \<Rightarrow> ('w \<Rightarrow> bool \<times> 'w) option
  \<Rightarrow> (string \<times> snapshot list) list option \<Rightarrow> 'w prepared_horizon list \<Rightarrow> 'w \<Rightarrow> 'w batch_run" where
  "batch_of L E r metadata signal inputs phs w = \<lparr>br_lib = L, br_request = r,
     br_batch = ''multi-horizon:'' @ fst (env_uuid E w), br_metadata = (case metadata of None \<Rightarrow> [] | Some m \<Rightarrow> m),
     br_signal = signal, br_inputs = (case inputs of None \<Rightarrow> [] | Some d \<Rightarrow> d),
     br_expected = ph_formula_versions (hd phs), br_count = length phs\<rparr>"

text \<open>All engines were made, after the id of the batch.\<close>

definition all_made :: "stdlib \<Rightarrow> 'w env \<Rightarrow> 'w engine_factory \<Rightarrow> mh_request \<Rightarrow> 'w prepared_horizon list \<Rightarrow> 'w \<Rightarrow> 'w \<Rightarrow> bool" where
  "all_made L E F r phs w w' \<longleftrightarrow> map ph_request phs = mh_requests r
     \<and> made L F None (mh_requests r) phs (snd (env_uuid E w)) w'"

text \<open>The world a failure leaves: the last call is that of the failed horizon.\<close>

definition batch_stopped :: "stdlib \<Rightarrow> 'w env \<Rightarrow> 'w engine_factory \<Rightarrow> mh_request \<Rightarrow> meta option
  \<Rightarrow> ('w \<Rightarrow> bool \<times> 'w) option \<Rightarrow> (string \<times> snapshot list) list option \<Rightarrow> 'w \<Rightarrow> nat \<Rightarrow> mh_failure \<Rightarrow> 'w \<Rightarrow> bool" where
  "batch_stopped L E F r metadata signal inputs w k f w' \<longleftrightarrow>
     (if preparation_code (mx_code f)
      then preparation_stopped L F None (mh_requests r) (snd (env_uuid E w)) k (Some (mx_code f)) w'
      else length (mx_completed f) = k \<and> (\<exists>phs w1. all_made L E F r phs w w1
        \<and> runs_stopped (batch_of L E r metadata signal inputs phs w) 0 phs (mx_completed f) w1 f w'))"

text \<open>The world of a returned analysis: every horizon ran once, then the clock was read.\<close>

definition batch_completed :: "stdlib \<Rightarrow> 'w env \<Rightarrow> 'w engine_factory \<Rightarrow> mh_request \<Rightarrow> meta option
  \<Rightarrow> ('w \<Rightarrow> bool \<times> 'w) option \<Rightarrow> (string \<times> snapshot list) list option \<Rightarrow> 'w \<Rightarrow> report list \<Rightarrow> string \<Rightarrow> 'w \<Rightarrow> bool" where
  "batch_completed L E F r metadata signal inputs w reports h w' \<longleftrightarrow> (\<exists>phs w1 w2. all_made L E F r phs w w1
     \<and> length reports = length phs \<and> ran (batch_of L E r metadata signal inputs phs w) h 0 phs reports w1 w2
     \<and> w' = snd (env_now E w2))"

text \<open>
  The other exceptions: a reserved key of the metadata or inputs of unknown horizons, which call
  nothing; an engine whose graph, or a request that, has no hash, before any engine runs; the
  constructor of the analysis, after all did.
\<close>

definition batch_raised :: "stdlib \<Rightarrow> 'w env \<Rightarrow> 'w engine_factory \<Rightarrow> mh_request \<Rightarrow> meta option
  \<Rightarrow> ('w \<Rightarrow> bool \<times> 'w) option \<Rightarrow> (string \<times> snapshot list) list option \<Rightarrow> 'w \<Rightarrow> 'w \<Rightarrow> bool" where
  "batch_raised L E F r metadata signal inputs w w' \<longleftrightarrow>
     (if (case metadata of None \<Rightarrow> False | Some m \<Rightarrow> has_key ''multi_horizon'' m)
        \<or> (case inputs of None \<Rightarrow> False | Some d \<Rightarrow> \<not> fst ` set d \<subseteq> set (mh_horizon_order r))
      then w' = w
      else (\<exists>k. preparation_stopped L F None (mh_requests r) (snd (env_uuid E w)) k None w')
        \<or> (Sum_Type.isl (mh_content_hash L r) \<and> (\<exists>phs. all_made L E F r phs w w'))
        \<or> (\<exists>h reports. mh_content_hash L r = Inr h \<and> batch_completed L E F r metadata signal inputs w reports h w'))"

lemma run_prepared_world:
  assumes "all_made L E F r phs w w1" "\<not> has_key ''multi_horizon'' md" "validate_horizon_inputs r inputs = Inr d"
    and "md = (case metadata of None \<Rightarrow> [] | Some m \<Rightarrow> m)" "d = (case inputs of None \<Rightarrow> [] | Some d \<Rightarrow> d)"
    and ok: "\<not> ((case metadata of None \<Rightarrow> False | Some m \<Rightarrow> has_key ''multi_horizon'' m)
        \<or> (case inputs of None \<Rightarrow> False | Some d \<Rightarrow> \<not> fst ` set d \<subseteq> set (mh_horizon_order r)))"
    and run: "run_prepared L E r (''multi-horizon:'' @ fst (env_uuid E w)) md signal d phs w1 = (out, w')"
  shows "case out of
      Inl (MhInvalid issues) \<Rightarrow> False
    | Inl (MhRaised e) \<Rightarrow> batch_raised L E F r metadata signal inputs w w'
    | Inl (MhExecution f) \<Rightarrow> \<exists>k. stopped_at L r (mx_batch_id f) (mh_horizon_order r) k f
        \<and> batch_stopped L E F r metadata signal inputs w k f w'
    | Inr a \<Rightarrow> answers_batch r a \<and> batch_completed L E F r metadata signal inputs w (ma_reports a) (ma_request_hash a) w'"
proof -
  let ?B = "batch_of L E r metadata signal inputs phs w"
  let ?batch = "''multi-horizon:'' @ fst (env_uuid E w)"
  have B: "\<lparr>br_lib = L, br_request = r, br_batch = ?batch, br_metadata = md, br_signal = signal, br_inputs = d,
      br_expected = ph_formula_versions (hd phs), br_count = length phs\<rparr> = ?B"
    by (simp add: batch_of_def assms(4,5))
  have lib: "br_lib ?B = L" "br_request ?B = r" by (simp_all add: batch_of_def)
  have reqs: "map ph_request phs = mh_requests r" using assms(1) by (simp add: all_made_def)
  note said = run_prepared_result[OF reqs, where L = L and E = E and batch = ?batch and md = md and signal = signal and d = d and w = w1, unfolded run fst_conv]
  obtain res w2 where loop: "run_horizons ?B 0 [] phs w1 = (res, w2)" by fastforce
  show ?thesis
  proof (cases "mh_content_hash L r")
    case (Inl e)
    then have "run_horizons ?B 0 [] phs w1 = ((if phs = [] then Inr [] else Inl (MhRaised e)), w1)"
      using run_horizons_no_hash[of ?B] lib by simp
    then have "out = Inl (MhRaised e)" "w' = w1"
      using run Inl unfolding run_prepared_def Let_def B by (auto split: if_splits)
    then show ?thesis using ok assms(1) Inl unfolding batch_raised_def by auto
  next
    case (Inr h)
    note world = run_horizons_world[of ?B, unfolded lib, OF Inr loop]
    show ?thesis
    proof (cases res)
      case (Inl e)
      with world obtain f where f: "e = MhExecution f" "mx_request_hash f = h"
        "runs_stopped ?B 0 phs (mx_completed f) w1 f w2" by auto
      have o: "out = Inl (MhExecution f)" "w' = w2"
        using run loop Inl f(1) unfolding run_prepared_def Let_def B by simp_all
      with said obtain k where k: "stopped_at L r ?batch (mh_horizon_order r) k f" by auto
      have np: "\<not> preparation_code (mx_code f)"
        using f(3) refused_report_code unfolding runs_stopped_def by blast
      then have "map rp_horizon (mx_completed f) = take k (mh_horizon_order r)" "k < length (mh_horizon_order r)"
        "mx_batch_id f = ?batch"
        using k by (simp_all add: stopped_at_def)
      then have "length (mx_completed f) = k" by (metis length_map length_take min.absorb4)
      then have "batch_stopped L E F r metadata signal inputs w k f w'"
        using np assms(1) f(3) o(2) unfolding batch_stopped_def by auto
      then show ?thesis using o(1) k \<open>mx_batch_id f = ?batch\<close> by auto
    next
      case (Inr reports)
      then have all: "length reports = length phs" "ran ?B h 0 phs reports w1 w2" using world by auto
      obtain now w3 where now: "env_now E w2 = (now, w3)" by fastforce
      let ?a = "analysis_of r ?batch h (hd phs) reports now"
      have o: "out = (case mk_analysis ?a of Inl e \<Rightarrow> Inl (MhRaised e) | Inr a \<Rightarrow> Inr a)" "w' = w3"
        using run loop Inr now \<open>mh_content_hash L r = Inr h\<close> unfolding run_prepared_def Let_def B by simp_all
      have finished: "batch_completed L E F r metadata signal inputs w reports h w'"
        unfolding batch_completed_def using assms(1) all now o(2) by force
      show ?thesis
      proof (cases "mk_analysis ?a")
        case (Inl e)
        then show ?thesis using o(1) finished ok \<open>mh_content_hash L r = Inr h\<close> unfolding batch_raised_def by auto
      next
        case (Inr a)
        then have "a = ?a" by (rule mk_analysis_same)
        then show ?thesis using o(1) Inr finished said by (simp add: analysis_of_def)
      qed
    qed
  qed
qed

lemma validate_horizon_inputs_Inl:
  "(\<exists>e. validate_horizon_inputs r inputs = Inl e)
     \<longleftrightarrow> (case inputs of None \<Rightarrow> False | Some d \<Rightarrow> \<not> fst ` set d \<subseteq> set (mh_horizon_order r))"
  by (auto simp: validate_horizon_inputs_def unknown_horizons_def filter_empty_conv split: option.splits)

text \<open>
  C6: A batch runs fail-fast and answers completely. A request the validator refuses calls nothing:
  the world is the one before. An execution error names the horizon that failed: the completed
  reports it carries are those of exactly the horizons before it, in order and for the request's
  target, or none while the engines are still being prepared. In that case no engine has run and no
  later engine was made; otherwise all engines were made, each earlier horizon ran once, in order,
  with its own request, audit entry and inputs, in the world the one before left, and the run of the
  failed horizon is the last thing that happened. The code of the error says what that run or engine
  did. A returned analysis satisfies its constructor and has one report per requested horizon, in
  order, each in the scope of its request and all with the same formula versions, and these are the
  reports of that chain of runs. Other exceptions also leave a world in which nothing ran or all did.
\<close>

theorem batch_runs_fail_fast:
  "case mh_run L E pt F r metadata signal inputs w of
      (Inl (MhInvalid issues), w') \<Rightarrow> \<not> mh_request_ok pt r \<and> issues \<noteq> [] \<and> w' = w
    | (Inl (MhRaised e), w') \<Rightarrow> mh_request_ok pt r \<and> batch_raised L E F r metadata signal inputs w w'
    | (Inl (MhExecution f), w') \<Rightarrow> mh_request_ok pt r
        \<and> (\<exists>k. stopped_at L r (mx_batch_id f) (mh_horizon_order r) k f
             \<and> batch_stopped L E F r metadata signal inputs w k f w')
    | (Inr a, w') \<Rightarrow> mh_request_ok pt r \<and> answers_batch r a
        \<and> batch_completed L E F r metadata signal inputs w (ma_reports a) (ma_request_hash a) w'"
proof (cases "validate_multi_horizon_request pt r")
  case (Inl issues)
  then show ?thesis using validate_mh_issues by (simp add: mh_run_def)
next
  case (Inr u)
  note ok = validate_mh_ok[OF Inr]
  let ?md = "case metadata of None \<Rightarrow> [] | Some m \<Rightarrow> m"
  let ?early = "(case metadata of None \<Rightarrow> False | Some m \<Rightarrow> has_key ''multi_horizon'' m)
        \<or> (case inputs of None \<Rightarrow> False | Some d \<Rightarrow> \<not> fst ` set d \<subseteq> set (mh_horizon_order r))"
  have key: "has_key ''multi_horizon'' ?md \<longleftrightarrow> (case metadata of None \<Rightarrow> False | Some m \<Rightarrow> has_key ''multi_horizon'' m)"
    by (cases metadata) (simp_all add: has_key_def)
  show ?thesis
  proof (cases ?early)
    case True
    then have "batch_raised L E F r metadata signal inputs w w" unfolding batch_raised_def by simp
    moreover have "has_key ''multi_horizon'' ?md \<or> (\<exists>e. validate_horizon_inputs r inputs = Inl e)"
      using True unfolding key validate_horizon_inputs_Inl .
    ultimately show ?thesis using Inr ok by (auto simp: mh_run_def Let_def)
  next
    case False
    then obtain d where d: "validate_horizon_inputs r inputs = Inr d" and md: "\<not> has_key ''multi_horizon'' ?md"
      unfolding key by (metis validate_horizon_inputs_Inl sum.exhaust)
    have d': "d = (case inputs of None \<Rightarrow> [] | Some d \<Rightarrow> d)"
      using d by (auto simp: validate_horizon_inputs_def split: option.splits if_splits)
    obtain u w1 where u: "env_uuid E w = (u, w1)" by fastforce
    let ?batch = "''multi-horizon:'' @ u"
    obtain out w2 where prep: "prepare_horizons L F r ?batch None (mh_requests r) w1 = (out, w2)" by fastforce
    note p = prepare_horizons_made[OF prep, folded mh_horizon_order_def]
    have run: "mh_run L E pt F r metadata signal inputs w = (case out of Inl e \<Rightarrow> (Inl e, w2)
        | Inr phs \<Rightarrow> run_prepared L E r ?batch ?md signal d phs w2)"
      using md by (simp only: mh_run_def Inr d u prep Let_def sum.case prod.case if_False)
    show ?thesis
    proof (cases out)
      case (Inl e)
      show ?thesis
      proof (cases e)
        case (MhExecution f)
        with p Inl obtain k where k: "preparation_code (mx_code f)" "stopped_at L r ?batch (mh_horizon_order r) k f"
          "preparation_stopped L F None (mh_requests r) w1 k (Some (mx_code f)) w2" by auto
        then have "batch_stopped L E F r metadata signal inputs w k f w2" "mx_batch_id f = ?batch"
          by (simp_all add: batch_stopped_def u stopped_at_def)
        then show ?thesis using k(2) ok by (auto simp: run Inl MhExecution)
      next
        case (MhRaised x)
        with p Inl obtain k where "preparation_stopped L F None (mh_requests r) w1 k None w2" by auto
        then have "batch_raised L E F r metadata signal inputs w w2" using False unfolding batch_raised_def u by auto
        then show ?thesis using ok by (simp add: run Inl MhRaised)
      qed (use p Inl in simp)
    next
      case (Inr phs)
      have made: "all_made L E F r phs w w2" using p Inr by (simp add: all_made_def u)
      obtain res w3 where rp: "run_prepared L E r ?batch ?md signal d phs w2 = (res, w3)" by fastforce
      have rp': "run_prepared L E r (''multi-horizon:'' @ fst (env_uuid E w)) ?md signal d phs w2 = (res, w3)"
        using rp u by simp
      from run_prepared_world[OF made md d refl d' False rp'] ok show ?thesis
        unfolding run Inr sum.case rp by (auto split: sum.splits mh_error.splits)
    qed
  qed
qed

end
