(* ===== verification/Decision_Policy.thy ===== *)
theory Decision_Policy
  imports Scoring Runtime_Store
begin

section \<open>The root decision\<close>

text \<open>
  Models \<open>policies/decision.py\<close> and \<open>cells/decision.py\<close>: the weighted score of the children, the
  risk levels and the action posture that follows from them, and the Cell that wraps the policy.
\<close>

subsection \<open>Risk levels\<close>

record thresholds =
  th_medium :: pyfloat
  th_high :: pyfloat
  th_extreme :: pyfloat

definition level_for :: "thresholds \<Rightarrow> pyfloat \<Rightarrow> risk_level" where
  "level_for t v = (if fle (th_extreme t) v then Extreme else if fle (th_high t) v then High
     else if fle (th_medium t) v then Medium else Low)"

fun risk_rank :: "risk_level \<Rightarrow> nat" where
  "risk_rank Low = 0"
| "risk_rank Medium = 1"
| "risk_rank High = 2"
| "risk_rank Extreme = 3"

fun show_risk_level :: "risk_level \<Rightarrow> string" where
  "show_risk_level Low = ''low''"
| "show_risk_level Medium = ''medium''"
| "show_risk_level High = ''high''"
| "show_risk_level Extreme = ''extreme''"

text \<open>\<open>max(levels, key=..., default="low")\<close>.\<close>

fun overall_risk_level :: "risk_level list \<Rightarrow> risk_level" where
  "overall_risk_level [] = Low"
| "overall_risk_level (l # ls) = max_by risk_rank l ls"

subsection \<open>The policy\<close>

record decision_policy =
  dp_formula_version :: string
  dp_weights :: "(string \<times> pyfloat) list"
  dp_volatility :: thresholds
  dp_manipulation :: thresholds

definition default_decision_weights :: "(string \<times> pyfloat) list" where
  "default_decision_weights = map (\<lambda>(k, n). (k, b64 (of_int n / 10)))
     [(''technical.trend'', 12), (''technical.support_resistance'', 10), (''technical.breakout'', 10),
      (''technical.volume'', 9), (''technical.volatility'', 8), (''technical.market_regime'', 10),
      (''external.news'', 8), (''risk.manipulation'', 11), (''microstructure.liquidity'', 9),
      (''crypto.funding_open_interest'', 9)]"

definition default_volatility_thresholds :: thresholds where
  "default_volatility_thresholds = \<lparr>th_medium = Fin 35, th_high = Fin 55, th_extreme = Fin 75\<rparr>"

definition default_manipulation_thresholds :: thresholds where
  "default_manipulation_thresholds = \<lparr>th_medium = Fin 25, th_high = Fin 35, th_extreme = Fin 65\<rparr>"

definition default_decision_policy :: decision_policy where
  "default_decision_policy = \<lparr>dp_formula_version = ''decision_weighted_score_v0.5'',
     dp_weights = default_decision_weights, dp_volatility = default_volatility_thresholds,
     dp_manipulation = default_manipulation_thresholds\<rparr>"

record assessment =
  as_aggregate_score :: pyfloat
  as_direction :: direction
  as_strength :: pyfloat
  as_confidence :: pyfloat
  as_volatility_risk :: pyfloat
  as_manipulation_risk :: pyfloat
  as_urgency :: pyfloat
  as_risk_level :: risk_level
  as_action_posture :: action_posture
  as_risk_notes :: "string list"
  as_risk_breakdown :: "(string \<times> risk_level) list"
  as_explanation :: string

fun decision_posture :: "direction \<Rightarrow> risk_level \<Rightarrow> action_posture" where
  "decision_posture d Extreme = Avoid_chasing"
| "decision_posture d High = Reduce_exposure"
| "decision_posture d Medium = Wait_for_confirmation"
| "decision_posture d Low = (if d \<in> {Bullish, Bearish} then Cautious_follow else Observe)"

definition risk_label :: "wording \<Rightarrow> risk_level \<Rightarrow> string" where
  "risk_label T l = wd_text T (''risk_label.'' @ show_risk_level l)"

definition risk_notes :: "wording \<Rightarrow> risk_level \<Rightarrow> risk_level \<Rightarrow> string list" where
  "risk_notes T volatility manipulation =
     (let notes = (if volatility \<noteq> Low then [wd_text T ''note.volatility'' @ risk_label T volatility] else [])
        @ (if manipulation \<noteq> Low then [wd_text T ''note.manipulation'' @ risk_label T manipulation] else [])
      in if notes = [] then [wd_text T ''note.none''] else notes)"

fun show_posture :: "action_posture \<Rightarrow> string" where
  "show_posture Observe = ''observe''"
| "show_posture Wait_for_confirmation = ''wait_for_confirmation''"
| "show_posture Cautious_follow = ''cautious_follow''"
| "show_posture Reduce_exposure = ''reduce_exposure''"
| "show_posture Avoid_chasing = ''avoid_chasing''"

definition decision_explanation :: "wording \<Rightarrow> direction \<Rightarrow> risk_level \<Rightarrow> string list \<Rightarrow> action_posture \<Rightarrow> string" where
  "decision_explanation T d l notes posture = msg
     [wd_text T (''direction.'' @ show_direction d), wd_text T ''decision.risk_level'', risk_label T l,
      wd_text T ''decision.main_risk'', join (wd_text T ''comma'') notes, wd_text T ''semicolon'',
      wd_text T (''action.'' @ show_posture posture), wd_text T ''stop'']"

definition mean_confidence :: "cell_result list \<Rightarrow> pyfloat" where
  "mean_confidence rs = (if rs = [] then Fin 0 else clamp100 (fdiv_nat (fsum (map cr_confidence rs)) (length rs)))"

definition evaluate_decision :: "wording \<Rightarrow> decision_policy \<Rightarrow> cell_result list \<Rightarrow> assessment" where
  "evaluate_decision T P children =
     (let aggregate = weighted_average children (dp_weights P);
          direction = direction_from_score aggregate (Fin 12) (Fin (- 12));
          strength = clamp100 (fmul (fabs aggregate) (b64 (17 / 10)));
          volatility = fmax_list (Fin 0) (map cr_volatility_risk children);
          manipulation = fmax_list (Fin 0) (map cr_manipulation_risk children);
          breakdown = [(''volatility_risk'', level_for (dp_volatility P) volatility),
            (''manipulation_risk'', level_for (dp_manipulation P) manipulation)];
          level = overall_risk_level (map snd breakdown);
          posture = decision_posture direction level;
          notes = risk_notes T (level_for (dp_volatility P) volatility)
            (level_for (dp_manipulation P) manipulation)
      in \<lparr>as_aggregate_score = aggregate, as_direction = direction, as_strength = strength,
        as_confidence = mean_confidence children, as_volatility_risk = volatility,
        as_manipulation_risk = manipulation,
        as_urgency = clamp100 (fmax (fmax volatility manipulation) strength),
        as_risk_level = level, as_action_posture = posture, as_risk_notes = notes,
        as_risk_breakdown = breakdown,
        as_explanation = decision_explanation T direction level notes posture\<rparr>)"

subsection \<open>The Cell\<close>

definition decision_evidence :: "wording \<Rightarrow> decision_policy \<Rightarrow> cell_result \<Rightarrow> evidence" where
  "decision_evidence T P r = (evidence_of (cr_cell_id r)
     (msg [cr_name r, '': direction='', show_direction (cr_direction r), '', score='', wd_str T (cr_score r),
       '', risk=('', wd_fixed T 1 (cr_volatility_risk r), '', '', wd_fixed T 1 (cr_manipulation_risk r), '')'']))
     \<lparr>evd_weight := weight_of (dp_weights P) (cr_cell_id r)\<rparr>"

definition decision_analyze :: "wording \<Rightarrow> decision_policy \<Rightarrow> request \<Rightarrow> cell_result list option \<Rightarrow> cell_result" where
  "decision_analyze T P rq child_results =
     (let children = (case child_results of None \<Rightarrow> [] | Some rs \<Rightarrow> rs);
          a = evaluate_decision T P children
      in CellResult ''root.decision'' ''DecisionCell'' ''decision'' (rq_target rq) (rq_horizon rq)
        (as_direction a) (as_strength a) (as_confidence a) (as_volatility_risk a) (as_manipulation_risk a)
        (as_urgency a) (as_aggregate_score a) (as_explanation a) (Some (as_risk_level a))
        (Some (as_action_posture a)) (map (decision_evidence T P) children) children
        [(''formula_version'', PStr (dp_formula_version P)),
         (''weights'', PDict (map (\<lambda>(k, w). (k, PFloat w)) (dp_weights P))),
         (''risk_notes'', PList (map PStr (as_risk_notes a))),
         (''risk_breakdown'', PDict (map (\<lambda>(k, l). (k, PStr (show_risk_level l))) (as_risk_breakdown a)))])"

subsection \<open>What the decision promises\<close>

lemma level_for_Extreme: "fle (th_extreme t) v \<Longrightarrow> level_for t v = Extreme"
  by (simp add: level_for_def)

lemma level_for_Low: "level_for t v = Low \<longleftrightarrow> \<not> fle (th_extreme t) v \<and> \<not> fle (th_high t) v \<and> \<not> fle (th_medium t) v"
  by (simp add: level_for_def)

lemma overall_risk_level_pair:
  "overall_risk_level [a, b] = (if risk_rank a < risk_rank b then b else a)"
  by simp

lemma risk_rank_inj: "risk_rank a = risk_rank b \<longleftrightarrow> a = b"
  by (cases a; cases b) auto

lemma overall_Extreme: "overall_risk_level [a, b] = Extreme \<longleftrightarrow> a = Extreme \<or> b = Extreme"
  by (cases a; cases b) auto

lemma overall_Low: "overall_risk_level [a, b] = Low \<longleftrightarrow> a = Low \<and> b = Low"
  by (cases a; cases b) auto

lemma posture_follows: "decision_posture d l \<in> {Cautious_follow, Observe} \<longleftrightarrow> l = Low"
  by (cases l) auto

text \<open>The levels an assessment reports are those of the greatest child risks.\<close>

lemma assessment_levels:
  "as_risk_level (evaluate_decision T P rs) = overall_risk_level
     [level_for (dp_volatility P) (fmax_list (Fin 0) (map cr_volatility_risk rs)),
      level_for (dp_manipulation P) (fmax_list (Fin 0) (map cr_manipulation_risk rs))]"
  "as_action_posture (evaluate_decision T P rs) =
     decision_posture (as_direction (evaluate_decision T P rs)) (as_risk_level (evaluate_decision T P rs))"
  by (simp_all add: evaluate_decision_def Let_def del: overall_risk_level.simps)

lemma child_risk_reaches:
  assumes "list_all (\<lambda>r. f r \<noteq> NaN) rs" "c \<in> set rs" "fle t (f c)"
  shows "fle t (fmax_list (Fin 0) (map f rs))"
proof -
  have "fle (f c) (fmax_list (Fin 0) (map f rs))"
    by (rule fmax_list_upper) (use assms in \<open>auto simp: list_all_iff\<close>)
  with assms(3) show ?thesis by (rule fle_trans)
qed

text \<open>
  C9: The decision never plays a risk down. When no child reports a NaN, a single child whose
  volatility or manipulation risk reaches the extreme threshold makes the level extreme and the
  posture \<open>avoid_chasing\<close>; one that reaches any threshold excludes \<open>observe\<close> and
  \<open>cautious_follow\<close>. Strength, confidence and urgency lie between 0 and 100 in every case.
\<close>

theorem decision_never_downplays:
  assumes "list_all (\<lambda>r. cr_volatility_risk r \<noteq> NaN \<and> cr_manipulation_risk r \<noteq> NaN) children"
    and "c \<in> set children"
  shows "(fle (th_extreme (dp_volatility P)) (cr_volatility_risk c)
        \<or> fle (th_extreme (dp_manipulation P)) (cr_manipulation_risk c)
      \<longrightarrow> cr_risk_level (decision_analyze T P rq (Some children)) = Some Extreme
        \<and> cr_action_posture (decision_analyze T P rq (Some children)) = Some Avoid_chasing)
    \<and> (fle (th_medium (dp_volatility P)) (cr_volatility_risk c)
        \<or> fle (th_medium (dp_manipulation P)) (cr_manipulation_risk c)
      \<longrightarrow> cr_action_posture (decision_analyze T P rq (Some children)) \<notin> {Some Observe, Some Cautious_follow})
    \<and> list_all (in_range 0 100) [cr_strength (decision_analyze T P rq (Some children)),
        cr_confidence (decision_analyze T P rq (Some children)), cr_urgency (decision_analyze T P rq (Some children))]"
proof -
  let ?a = "evaluate_decision T P children"
  have sel: "cr_risk_level (decision_analyze T P rq (Some children)) = Some (as_risk_level ?a)"
    "cr_action_posture (decision_analyze T P rq (Some children)) = Some (as_action_posture ?a)"
    "cr_strength (decision_analyze T P rq (Some children)) = as_strength ?a"
    "cr_confidence (decision_analyze T P rq (Some children)) = as_confidence ?a"
    "cr_urgency (decision_analyze T P rq (Some children)) = as_urgency ?a"
    by (simp_all add: decision_analyze_def Let_def)
  have "list_all (\<lambda>r. cr_volatility_risk r \<noteq> NaN) children" "list_all (\<lambda>r. cr_manipulation_risk r \<noteq> NaN) children"
    using assms(1) by (auto simp: list_all_iff)
  note reach = child_risk_reaches[OF this(1) assms(2)] child_risk_reaches[OF this(2) assms(2)]
  have extreme: "as_risk_level ?a = Extreme" if "fle (th_extreme (dp_volatility P)) (cr_volatility_risk c)
      \<or> fle (th_extreme (dp_manipulation P)) (cr_manipulation_risk c)"
    using that reach level_for_Extreme unfolding assessment_levels overall_Extreme by metis
  have low: "as_risk_level ?a \<noteq> Low" if "fle (th_medium (dp_volatility P)) (cr_volatility_risk c)
      \<or> fle (th_medium (dp_manipulation P)) (cr_manipulation_risk c)"
    using that reach level_for_Low unfolding assessment_levels overall_Low by metis
  have "in_range 0 100 (as_strength ?a)" "in_range 0 100 (as_confidence ?a)" "in_range 0 100 (as_urgency ?a)"
    by (simp_all add: evaluate_decision_def Let_def mean_confidence_def clamp_in_range)
  with extreme low show ?thesis unfolding sel assessment_levels(2)
    using posture_follows by auto
qed

definition sample_child :: cell_result where
  "sample_child = CellResult ''technical.volatility'' ''VolatilityCell'' ''risk'' ''BTCUSDT'' ''1h'' Conflict
     (Fin 80) (Fin 50) (Fin 80) (Fin 0) (Fin 80) (Fin 0) [] None None [] [] []"

definition plain_wording :: wording where
  "plain_wording = \<lparr>wd_text = (\<lambda>k. k), wd_fixed = (\<lambda>n x. []), wd_str = (\<lambda>x. [])\<rparr>"

theorem decision_never_downplays_witness:
  "cr_action_posture (decision_analyze plain_wording default_decision_policy sample_request (Some [sample_child]))
     = Some Avoid_chasing"
proof -
  have "list_all (\<lambda>r. cr_volatility_risk r \<noteq> NaN \<and> cr_manipulation_risk r \<noteq> NaN) [sample_child]"
    "sample_child \<in> set [sample_child]" by (simp_all add: sample_child_def)
  from decision_never_downplays[OF this, of default_decision_policy] show ?thesis
    by (simp add: sample_child_def default_decision_policy_def default_volatility_thresholds_def)
qed

end
