(* ===== verification/Horizon_Policy.thy ===== *)
theory Horizon_Policy
  imports Horizon_Models Decision_Policy
begin

section \<open>The policy over several horizons\<close>

text \<open>
  Models \<open>horizons/policy.py\<close> and the first two dataclasses of \<open>horizons/decision_models.py\<close>: the
  signal of one horizon, the decision of a band of horizons, and the assessment that combines the
  bands. Directions, bands, statuses and levels are datatypes, so the checks that a string is one of
  them have no counterpart; the band authority is a function of the band.
\<close>

subsection \<open>Signals\<close>

record signal =
  hs_horizon :: string
  hs_direction :: direction
  hs_score :: pyfloat
  hs_strength :: pyfloat
  hs_confidence :: pyfloat
  hs_volatility_risk :: pyfloat
  hs_manipulation_risk :: pyfloat

text \<open>\<open>math.isfinite(v) and lo <= v <= hi\<close>.\<close>

definition bounded :: "rat \<Rightarrow> rat \<Rightarrow> pyfloat \<Rightarrow> bool" where
  "bounded lo hi v \<longleftrightarrow> isfinite v \<and> fle (Fin lo) v \<and> fle v (Fin hi)"

definition signal_fields :: "signal \<Rightarrow> (string \<times> pyfloat \<times> rat \<times> rat) list" where
  "signal_fields s = [(''score'', hs_score s, - 100, 100), (''strength'', hs_strength s, 0, 100),
     (''confidence'', hs_confidence s, 0, 100), (''volatility_risk'', hs_volatility_risk s, 0, 100),
     (''manipulation_risk'', hs_manipulation_risk s, 0, 100)]"

definition mk_signal :: "signal \<Rightarrow> signal res" where
  "mk_signal s =
     (if interval_to_millis (hs_horizon s) \<le> 0 then raise PyValueError ''horizon signal must use a canonical horizon''
      else case find (\<lambda>(n, v, lo, hi). \<not> bounded lo hi v) (signal_fields s) of
          Some (n, _) \<Rightarrow> raise PyValueError (msg [''horizon signal '', n, '' must be finite and within bounds''])
        | None \<Rightarrow>
            (if hs_direction s = Bullish \<and> fle (hs_score s) (Fin 0)
             then raise PyValueError ''bullish horizon signal must have positive score''
             else if hs_direction s = Bearish \<and> fle (Fin 0) (hs_score s)
             then raise PyValueError ''bearish horizon signal must have negative score''
             else Inr s))"

definition duration_ms :: "signal \<Rightarrow> int" where
  "duration_ms s = interval_to_millis (hs_horizon s)"

subsection \<open>Bands\<close>

datatype horizon_band = Short_band | Medium_band | Long_band
datatype alignment = Aligned | Partial | Conflicted | Indeterminate
datatype conflict_type = No_conflict | Intra_band | Short_vs_higher | Medium_vs_long | Lower_vs_long | Broad

definition band_order :: "horizon_band list" where
  "band_order = [Short_band, Medium_band, Long_band]"

fun band_rank :: "horizon_band \<Rightarrow> nat" where
  "band_rank Short_band = 0"
| "band_rank Medium_band = 1"
| "band_rank Long_band = 2"

record band_decision =
  bd_band :: horizon_band
  bd_horizons :: "string list"
  bd_qualified_horizons :: "string list"
  bd_anchor_horizon :: string
  bd_direction :: direction
  bd_structural_score :: pyfloat
  bd_strength :: pyfloat
  bd_confidence :: pyfloat
  bd_volatility_risk :: pyfloat
  bd_manipulation_risk :: pyfloat
  bd_risk_level :: risk_level
  bd_alignment :: alignment
  bd_conflict_score :: pyfloat

definition directional :: "direction \<Rightarrow> bool" where
  "directional d \<longleftrightarrow> d \<in> {Bullish, Bearish}"

definition validate_percentage :: "pyfloat \<Rightarrow> string \<Rightarrow> unit res" where
  "validate_percentage v name = (if bounded 0 100 v then Inr ()
     else raise PyValueError (msg [''horizon decision '', name, '' must be within 0 and 100'']))"

definition validate_score :: "pyfloat \<Rightarrow> string \<Rightarrow> unit res" where
  "validate_score v name = (if bounded (- 100) 100 v then Inr ()
     else raise PyValueError (msg [''horizon decision '', name, '' must be within -100 and 100'']))"

definition validate_percentages :: "(pyfloat \<times> string) list \<Rightarrow> unit res" where
  "validate_percentages vs = bind_res (map_res (\<lambda>(v, n). validate_percentage v n) vs) (\<lambda>_. Inr ())"

text \<open>The checks on the members of a band and on its conflict state.\<close>

definition check_band_members :: "band_decision \<Rightarrow> unit res" where
  "check_band_members b =
     (if bd_horizons b = [] \<or> \<not> distinct (bd_horizons b) then raise PyValueError
        ''horizon band members must be non-empty and unique''
      else if not_increasing (map interval_to_millis (bd_horizons b)) then raise PyValueError
        ''horizon band members must be ordered short to long''
      else if bd_anchor_horizon b \<noteq> last (bd_horizons b) then raise PyValueError
        ''horizon band anchor must be its longest horizon''
      else if \<not> distinct (bd_qualified_horizons b) then raise PyValueError ''qualified horizons must be unique''
      else if list_ex (\<lambda>h. h \<notin> set (bd_horizons b)) (bd_qualified_horizons b) then raise PyValueError
        ''qualified horizons must belong to their band''
      else if bd_qualified_horizons b \<noteq> filter (\<lambda>h. h \<in> set (bd_qualified_horizons b)) (bd_horizons b)
      then raise PyValueError ''qualified horizons must preserve source order''
      else Inr ())"

definition check_band_state :: "band_decision \<Rightarrow> unit res" where
  "check_band_state b =
     (if bd_alignment b = Conflicted \<and> (bd_direction b \<noteq> Conflict \<or> fle (bd_conflict_score b) (Fin 0))
      then raise PyValueError ''conflicted horizon band must expose conflict direction and score''
      else if bd_alignment b \<noteq> Conflicted \<and> (bd_direction b = Conflict \<or> bd_conflict_score b \<noteq> Fin 0)
      then raise PyValueError ''non-conflicted horizon band cannot expose conflict state''
      else if bd_alignment b = Indeterminate \<and> bd_direction b \<noteq> Neutral
      then raise PyValueError ''indeterminate horizon band must remain neutral''
      else if bd_alignment b \<in> {Aligned, Partial} \<and> \<not> directional (bd_direction b)
      then raise PyValueError ''aligned or partial horizon band must be directional''
      else Inr ())"

definition mk_band :: "band_decision \<Rightarrow> band_decision res" where
  "mk_band b = bind_res (check_band_members b) (\<lambda>_.
     bind_res (validate_score (bd_structural_score b) ''structural_score'') (\<lambda>_.
     bind_res (validate_percentages [(bd_strength b, ''strength''), (bd_confidence b, ''confidence''),
       (bd_volatility_risk b, ''volatility_risk''), (bd_manipulation_risk b, ''manipulation_risk''),
       (bd_conflict_score b, ''conflict_score'')]) (\<lambda>_.
     bind_res (check_band_state b) (\<lambda>_. Inr b))))"

subsection \<open>The policy\<close>

record horizon_policy =
  hp_formula_version :: string
  hp_short_band_max_ms :: int
  hp_long_band_min_ms :: int
  hp_band_authority :: "horizon_band \<Rightarrow> pyfloat"
  hp_min_score :: pyfloat
  hp_min_strength :: pyfloat
  hp_min_confidence :: pyfloat
  hp_volatility :: thresholds
  hp_manipulation :: thresholds

fun default_band_authority :: "horizon_band \<Rightarrow> pyfloat" where
  "default_band_authority Short_band = b64 (2 / 10)"
| "default_band_authority Medium_band = b64 (3 / 10)"
| "default_band_authority Long_band = b64 (5 / 10)"

definition default_horizon_policy :: horizon_policy where
  "default_horizon_policy = \<lparr>hp_formula_version = ''horizon_structure_alignment_v0.1'',
     hp_short_band_max_ms = 4 * 3600000, hp_long_band_min_ms = 7 * 86400000,
     hp_band_authority = default_band_authority, hp_min_score = Fin 12, hp_min_strength = Fin 15,
     hp_min_confidence = Fin 45,
     hp_volatility = \<lparr>th_medium = Fin 35, th_high = Fin 55, th_extreme = Fin 75\<rparr>,
     hp_manipulation = \<lparr>th_medium = Fin 25, th_high = Fin 35, th_extreme = Fin 65\<rparr>\<rparr>"

definition thresholds_ordered :: "thresholds \<Rightarrow> bool" where
  "thresholds_ordered t \<longleftrightarrow> isfinite (th_medium t) \<and> isfinite (th_high t) \<and> isfinite (th_extreme t)
     \<and> fle (Fin 0) (th_medium t) \<and> flt (th_medium t) (th_high t) \<and> flt (th_high t) (th_extreme t)
     \<and> fle (th_extreme t) (Fin 100)"

definition mk_horizon_policy :: "horizon_policy \<Rightarrow> horizon_policy res" where
  "mk_horizon_policy P =
     (if blank (hp_formula_version P) then raise PyValueError ''horizon decision formula version is required''
      else if \<not> (0 < hp_short_band_max_ms P \<and> hp_short_band_max_ms P < hp_long_band_min_ms P)
      then raise PyValueError ''horizon band boundaries must be positive and ordered''
      else if list_ex (\<lambda>b. \<not> isfinite (hp_band_authority P b) \<or> fle (hp_band_authority P b) (Fin 0)) band_order
      then raise PyValueError ''horizon band authority weights must be positive''
      else if list_ex (\<lambda>v. \<not> bounded 0 100 v) [hp_min_score P, hp_min_strength P, hp_min_confidence P]
      then raise PyValueError ''horizon decision thresholds must be within bounds''
      else if list_ex (\<lambda>t. \<not> thresholds_ordered t) [hp_volatility P, hp_manipulation P]
      then raise PyValueError ''horizon risk thresholds must be ordered''
      else Inr P)"

definition band_of :: "horizon_policy \<Rightarrow> int \<Rightarrow> horizon_band" where
  "band_of P d = (if d < hp_short_band_max_ms P then Short_band
     else if d < hp_long_band_min_ms P then Medium_band else Long_band)"

definition band_for :: "horizon_policy \<Rightarrow> string \<Rightarrow> horizon_band res" where
  "band_for P h = (if interval_to_millis h \<le> 0 then raise PyValueError ''horizon must use a canonical interval''
     else Inr (band_of P (interval_to_millis h)))"

definition validate_signals :: "signal list \<Rightarrow> unit res" where
  "validate_signals ss =
     (if \<not> (2 \<le> length ss \<and> length ss \<le> 8) then raise PyValueError ''horizon decision requires 2 to 8 signals''
      else if \<not> distinct (map hs_horizon ss) then raise PyValueError ''horizon decision signals must be unique''
      else if not_increasing (map duration_ms ss)
      then raise PyValueError ''horizon decision signals must be ordered short to long''
      else Inr ())"

text \<open>\<open>_group_signals\<close>; \<open>grouped[band]\<close> are the signals of the band, in order.\<close>

definition group_signals :: "horizon_policy \<Rightarrow> signal list \<Rightarrow> (horizon_band \<Rightarrow> signal list) res" where
  "group_signals P ss = bind_res (map_res (\<lambda>s. band_for P (hs_horizon s)) ss)
     (\<lambda>bs. Inr (\<lambda>b. map fst (filter (\<lambda>(s, b'). b' = b) (zip ss bs))))"

subsection \<open>One band\<close>

text \<open>The later, longer signals of a band weigh twice as much as the one before.\<close>

definition within_band_weights :: "signal list \<Rightarrow> (string \<times> pyfloat) list" where
  "within_band_weights ss =
     (let raw = map (\<lambda>i. 2 ^ i :: int) [0..<length ss] in
      zip (map hs_horizon ss) (map (\<lambda>w. int_div w (sum_list raw)) raw))"

text \<open>\<open>weights[key]\<close>; the key is always present.\<close>

definition weight_at :: "('k \<times> pyfloat) list \<Rightarrow> 'k \<Rightarrow> pyfloat" where
  "weight_at ws k = (case map_of ws k of Some w \<Rightarrow> w | None \<Rightarrow> Fin 0)"

definition is_qualified :: "horizon_policy \<Rightarrow> signal \<Rightarrow> bool" where
  "is_qualified P s \<longleftrightarrow> directional (hs_direction s) \<and> fle (hp_min_score P) (fabs (hs_score s))
     \<and> fle (hp_min_strength P) (hs_strength s) \<and> fle (hp_min_confidence P) (hs_confidence s)"

definition is_material_conflict :: "horizon_policy \<Rightarrow> signal \<Rightarrow> bool" where
  "is_material_conflict P s \<longleftrightarrow> hs_direction s = Conflict
     \<and> fle (hp_min_strength P) (hs_strength s) \<and> fle (hp_min_confidence P) (hs_confidence s)"

definition round3 :: "pyfloat \<Rightarrow> pyfloat" where
  "round3 v = py_round 3 v"

text \<open>\<open>200 * min(a, b) / (a + b)\<close> when both are positive.\<close>

definition opposition :: "pyfloat \<Rightarrow> pyfloat \<Rightarrow> pyfloat" where
  "opposition a b = fdiv (fmul (Fin 200) (fmin a b)) (fadd a b)"

definition band_conflict_score :: "horizon_policy \<Rightarrow> signal list \<Rightarrow> (string \<times> pyfloat) list \<Rightarrow> pyfloat" where
  "band_conflict_score P ss ws =
     (let support = (\<lambda>d. fsum (map (\<lambda>s. fmul (fabs (hs_score s)) (weight_at ws (hs_horizon s)))
            (filter (\<lambda>s. is_qualified P s \<and> hs_direction s = d) ss)));
          opp = (if flt (Fin 0) (support Bullish) \<and> flt (Fin 0) (support Bearish)
            then opposition (support Bullish) (support Bearish) else Fin 0);
          explicit = fmax_list (Fin 0) (map (\<lambda>s. fdiv (fmul (hs_strength s) (hs_confidence s)) (Fin 100))
            (filter (is_material_conflict P) ss))
      in round3 (clamp100 (fmax opp explicit)))"

text \<open>The direction and alignment of a band; \<open>next(iter(s))\<close> is the element of a singleton.\<close>

definition band_state :: "horizon_policy \<Rightarrow> signal list \<Rightarrow> direction \<times> alignment" where
  "band_state P ss =
     (let qualified = filter (is_qualified P) ss; directions = remdups (map hs_direction qualified) in
      if length directions > 1 \<or> is_material_conflict P (last ss) then (Conflict, Conflicted)
      else if directions \<noteq> [] then
        (hd directions, if length qualified = length ss \<and> length ss \<ge> 2 \<and> \<not> list_ex (is_material_conflict P) ss
           then Aligned else Partial)
      else if list_ex (is_material_conflict P) ss then (Conflict, Conflicted)
      else (Neutral, Indeterminate))"

text \<open>\<open>0.8 + 0.2 * conflict_score / 100\<close>.\<close>

definition conflict_factor :: "pyfloat \<Rightarrow> pyfloat" where
  "conflict_factor c = fadd (b64 (8 / 10)) (fdiv (fmul (b64 (2 / 10)) c) (Fin 100))"

fun band_factor :: "alignment \<Rightarrow> pyfloat \<Rightarrow> pyfloat" where
  "band_factor Aligned c = Fin 1"
| "band_factor Partial c = b64 (8 / 10)"
| "band_factor Conflicted c = conflict_factor c"
| "band_factor Indeterminate c = b64 (65 / 100)"

text \<open>The strength of a band and of the whole, also \<open>_overall_strength\<close>.\<close>

definition strength_of :: "direction \<Rightarrow> pyfloat \<Rightarrow> pyfloat \<Rightarrow> pyfloat" where
  "strength_of d structural conflict =
     (if directional d then round3 (clamp100 (fmul (fabs structural) (b64 (17 / 10))))
      else if d = Conflict then round3 (clamp100 (fmax (fabs structural) conflict))
      else round3 (clamp100 (fabs structural)))"

definition band_risk_level :: "horizon_policy \<Rightarrow> pyfloat \<Rightarrow> pyfloat \<Rightarrow> risk_level" where
  "band_risk_level P v m = overall_risk_level [level_for (hp_volatility P) v, level_for (hp_manipulation P) m]"

definition max_volatility :: "signal list \<Rightarrow> pyfloat" where
  "max_volatility ss = fmax_list (Fin 0) (map hs_volatility_risk ss)"

definition max_manipulation :: "signal list \<Rightarrow> pyfloat" where
  "max_manipulation ss = fmax_list (Fin 0) (map hs_manipulation_risk ss)"

definition evaluate_band :: "horizon_policy \<Rightarrow> horizon_band \<Rightarrow> signal list \<Rightarrow> band_decision res" where
  "evaluate_band P band ss =
     (let ws = within_band_weights ss;
          qualified = filter (is_qualified P) ss;
          scoring = (if qualified \<noteq> [] then qualified else ss);
          structural = round3 (fdiv (fsum (map (\<lambda>s. fmul (hs_score s) (weight_at ws (hs_horizon s))) scoring))
            (fsum (map (\<lambda>s. weight_at ws (hs_horizon s)) scoring)));
          (direction, alignment) = band_state P ss;
          conflict = (if alignment = Conflicted then band_conflict_score P ss ws else Fin 0);
          base = fsum (map (\<lambda>s. fmul (hs_confidence s) (weight_at ws (hs_horizon s))) ss)
      in mk_band \<lparr>bd_band = band, bd_horizons = map hs_horizon ss,
        bd_qualified_horizons = map hs_horizon qualified, bd_anchor_horizon = hs_horizon (last ss),
        bd_direction = direction, bd_structural_score = structural,
        bd_strength = strength_of direction structural conflict,
        bd_confidence = round3 (clamp100 (fmul base (band_factor alignment conflict))),
        bd_volatility_risk = round3 (max_volatility ss), bd_manipulation_risk = round3 (max_manipulation ss),
        bd_risk_level = band_risk_level P (max_volatility ss) (max_manipulation ss),
        bd_alignment = alignment, bd_conflict_score = round3 conflict\<rparr>)"

subsection \<open>All bands\<close>

record horizon_assessment =
  ha_direction :: direction
  ha_structural_direction :: direction
  ha_structural_score :: pyfloat
  ha_strength :: pyfloat
  ha_confidence :: pyfloat
  ha_volatility_risk :: pyfloat
  ha_manipulation_risk :: pyfloat
  ha_urgency :: pyfloat
  ha_risk_level :: risk_level
  ha_action_posture :: action_posture
  ha_alignment :: alignment
  ha_conflict_type :: conflict_type
  ha_conflict_score :: pyfloat
  ha_bands :: "band_decision list"
  ha_risk_breakdown :: "(string \<times> risk_level) list"
  ha_explanation :: string

definition directional_bands :: "band_decision list \<Rightarrow> (horizon_band \<times> direction) list" where
  "directional_bands bs = map (\<lambda>b. (bd_band b, bd_direction b)) (filter (\<lambda>b. directional (bd_direction b)) bs)"

definition normalized_band_weights :: "horizon_policy \<Rightarrow> band_decision list \<Rightarrow> (horizon_band \<times> pyfloat) list" where
  "normalized_band_weights P bs =
     (let total = fsum (map (\<lambda>b. hp_band_authority P (bd_band b)) bs) in
      map (\<lambda>b. (bd_band b, fdiv (hp_band_authority P (bd_band b)) total)) bs)"

text \<open>The loop over the bands from long to short.\<close>

fun structural_loop :: "band_decision list \<Rightarrow> direction" where
  "structural_loop [] = Neutral"
| "structural_loop (b # bs) = (if bd_direction b = Conflict then Neutral
     else if directional (bd_direction b) then bd_direction b else structural_loop bs)"

definition structural_direction :: "band_decision list \<Rightarrow> direction" where
  "structural_direction bs = structural_loop (rev bs)"

definition conflict_type_of :: "(horizon_band \<times> direction) list \<Rightarrow> bool \<Rightarrow> conflict_type" where
  "conflict_type_of ds has_band_conflict =
     (let long = map_of ds Long_band; medium = map_of ds Medium_band; short = map_of ds Short_band;
          lower = filter (\<lambda>b. map_of ds b \<noteq> None \<and> map_of ds b \<noteq> long) [Short_band, Medium_band]
      in if card (set (map snd ds)) \<le> 1 then (if has_band_conflict then Intra_band else No_conflict)
      else if has_band_conflict then Broad
      else if long \<noteq> None \<and> lower = [Short_band, Medium_band] then Lower_vs_long
      else if long \<noteq> None \<and> Medium_band \<in> set lower then
        (if short = medium then Lower_vs_long else Medium_vs_long)
      else if long \<noteq> None \<and> Short_band \<in> set lower then Short_vs_higher
      else if medium \<noteq> None \<and> short \<noteq> None \<and> medium \<noteq> short then Short_vs_higher
      else Broad)"

text \<open>The direction, alignment and kind of conflict of the whole.\<close>

definition overall_state :: "band_decision list \<Rightarrow> direction \<times> alignment \<times> conflict_type" where
  "overall_state bs =
     (let ds = directional_bands bs; directions = remdups (map snd ds);
          has_band_conflict = list_ex (\<lambda>b. bd_direction b = Conflict) bs in
      if length directions > 1 \<or> has_band_conflict
      then (Conflict, Conflicted, conflict_type_of ds has_band_conflict)
      else if directions \<noteq> [] then
        (hd directions, if length ds \<ge> 2 \<and> length ds = length bs then Aligned else Partial, No_conflict)
      else (Neutral, Indeterminate, No_conflict))"

definition cross_conflict_score :: "band_decision list \<Rightarrow> (horizon_band \<times> pyfloat) list \<Rightarrow> pyfloat" where
  "cross_conflict_score bs ws =
     (let support = (\<lambda>d. fsum (map (\<lambda>b. fmul (weight_at ws (bd_band b)) (fmax (fabs (bd_structural_score b)) (Fin 1)))
            (filter (\<lambda>b. bd_direction b = d) bs))) in
      if fle (support Bullish) (Fin 0) \<or> fle (support Bearish) (Fin 0) then Fin 0
      else round3 (clamp100 (opposition (support Bullish) (support Bearish))))"

fun coverage_factor :: "nat \<Rightarrow> pyfloat" where
  "coverage_factor n = (if n = 1 then b64 (65 / 100) else if n = 2 then b64 (85 / 100) else Fin 1)"

fun conclusion_factor :: "alignment \<Rightarrow> pyfloat \<Rightarrow> pyfloat" where
  "conclusion_factor Aligned c = Fin 1"
| "conclusion_factor Partial c = b64 (85 / 100)"
| "conclusion_factor Indeterminate c = b64 (65 / 100)"
| "conclusion_factor Conflicted c = conflict_factor c"

definition overall_confidence :: "band_decision list \<Rightarrow> (horizon_band \<times> pyfloat) list \<Rightarrow> alignment \<Rightarrow> pyfloat \<Rightarrow> pyfloat" where
  "overall_confidence bs ws a c =
     round3 (clamp100 (fmul (fmul (fsum (map (\<lambda>b. fmul (bd_confidence b) (weight_at ws (bd_band b))) bs))
       (coverage_factor (length bs))) (conclusion_factor a c)))"

definition horizon_posture :: "direction \<Rightarrow> alignment \<Rightarrow> risk_level \<Rightarrow> action_posture" where
  "horizon_posture d a l =
     (if l = Extreme then Avoid_chasing else if l = High then Reduce_exposure
      else if l = Medium then Wait_for_confirmation
      else if a = Conflicted then Wait_for_confirmation
      else if a = Indeterminate then Observe
      else if directional d then Cautious_follow else Observe)"

fun show_conflict :: "conflict_type \<Rightarrow> string" where
  "show_conflict No_conflict = ''none''"
| "show_conflict Intra_band = ''intra_band''"
| "show_conflict Short_vs_higher = ''short_vs_higher''"
| "show_conflict Medium_vs_long = ''medium_vs_long''"
| "show_conflict Lower_vs_long = ''lower_vs_long''"
| "show_conflict Broad = ''broad''"

definition horizon_explanation :: "wording \<Rightarrow> direction \<Rightarrow> direction \<Rightarrow> alignment \<Rightarrow> conflict_type \<Rightarrow> risk_level
  \<Rightarrow> action_posture \<Rightarrow> string" where
  "horizon_explanation T d structural a c l posture = msg
     [(if a = Aligned then (if d = Bullish then wd_text T ''aligned.bullish'' else wd_text T ''aligned.bearish'')
       else if a = Partial then wd_text T ''partial''
       else if a = Indeterminate then wd_text T ''indeterminate''
       else wd_text T (''conflict.'' @ show_conflict c)),
      wd_text T ''semicolon'', wd_text T (''structural.'' @ show_direction structural), wd_text T ''stop'',
      wd_text T (''risk_level.'' @ show_risk_level l), wd_text T ''comma'',
      wd_text T (''horizon_action.'' @ show_posture posture), wd_text T ''stop'']"

text \<open>The bands that have signals, evaluated in order.\<close>

definition evaluate_bands :: "horizon_policy \<Rightarrow> signal list \<Rightarrow> band_decision list res" where
  "evaluate_bands P ss = bind_res (validate_signals ss) (\<lambda>_. bind_res (group_signals P ss) (\<lambda>grouped.
     map_res (\<lambda>b. evaluate_band P b (grouped b)) (filter (\<lambda>b. grouped b \<noteq> []) band_order)))"

definition assess_bands :: "wording \<Rightarrow> horizon_policy \<Rightarrow> signal list \<Rightarrow> band_decision list \<Rightarrow> horizon_assessment" where
  "assess_bands T P ss bs =
     (let (direction, alignment, conflict_type) = overall_state bs;
          structural = structural_direction bs;
          ws = normalized_band_weights P bs;
          score' = round3 (fsum (map (\<lambda>b. fmul (bd_structural_score b) (weight_at ws (bd_band b))) bs));
          conflict = (if alignment = Conflicted then
            round3 (fmax (cross_conflict_score bs ws) (fmax_list (Fin 0) (map bd_conflict_score bs))) else Fin 0);
          strength = strength_of direction score' conflict;
          volatility = max_volatility ss; manipulation = max_manipulation ss;
          breakdown = [(''volatility_risk'', level_for (hp_volatility P) volatility),
            (''manipulation_risk'', level_for (hp_manipulation P) manipulation)];
          level = overall_risk_level (map snd breakdown);
          posture = horizon_posture direction alignment level
      in \<lparr>ha_direction = direction, ha_structural_direction = structural, ha_structural_score = score',
        ha_strength = strength, ha_confidence = overall_confidence bs ws alignment conflict,
        ha_volatility_risk = round3 volatility, ha_manipulation_risk = round3 manipulation,
        ha_urgency = round3 (clamp100 (fmax (fmax (fmax volatility manipulation) strength) conflict)),
        ha_risk_level = level, ha_action_posture = posture, ha_alignment = alignment,
        ha_conflict_type = conflict_type, ha_conflict_score = conflict, ha_bands = bs,
        ha_risk_breakdown = breakdown,
        ha_explanation = horizon_explanation T direction structural alignment conflict_type level posture\<rparr>)"

definition evaluate_horizons :: "wording \<Rightarrow> horizon_policy \<Rightarrow> signal list \<Rightarrow> horizon_assessment res" where
  "evaluate_horizons T P ss = bind_res (evaluate_bands P ss) (\<lambda>bs. Inr (assess_bands T P ss bs))"

text \<open>\<open>signal_weights\<close>: the share of a signal in its band times the share of its band.\<close>

definition signal_weights :: "horizon_policy \<Rightarrow> signal list \<Rightarrow> (string \<times> pyfloat) list res" where
  "signal_weights P ss = bind_res (validate_signals ss) (\<lambda>_. bind_res (group_signals P ss) (\<lambda>grouped.
     (let present = filter (\<lambda>b. grouped b \<noteq> []) band_order;
          total = fsum (map (hp_band_authority P) present)
      in Inr (concat (map (\<lambda>b. map (\<lambda>s. (hs_horizon s, py_round 8
           (fmul (fdiv (hp_band_authority P b) total) (weight_at (within_band_weights (grouped b)) (hs_horizon s)))))
         (grouped b)) present)))))"

end
