(* ===== verification/Horizon_Decision.thy ===== *)
theory Horizon_Decision
  imports Horizon_Policy
begin

section \<open>The decision over several horizons\<close>

text \<open>
  Models \<open>HorizonDecision\<close> of \<open>horizons/decision_models.py\<close>, with every check of its constructor in
  order, and \<open>HorizonDecisionCell\<close> of \<open>horizons/decision.py\<close>. The field \<open>policy\<close>, a dictionary, is
  the policy record it is made from, so the checks of its keys have no counterpart.
\<close>

subsection \<open>Payloads\<close>

fun show_band :: "horizon_band \<Rightarrow> string" where
  "show_band Short_band = ''short''"
| "show_band Medium_band = ''medium''"
| "show_band Long_band = ''long''"

fun show_alignment :: "alignment \<Rightarrow> string" where
  "show_alignment Aligned = ''aligned''"
| "show_alignment Partial = ''partial''"
| "show_alignment Conflicted = ''conflicted''"
| "show_alignment Indeterminate = ''indeterminate''"

definition signal_identity :: "signal \<Rightarrow> pyval" where
  "signal_identity s = PDict [(''horizon'', PStr (hs_horizon s)),
     (''direction'', PStr (show_direction (hs_direction s))), (''score'', PFloat (hs_score s)),
     (''strength'', PFloat (hs_strength s)), (''confidence'', PFloat (hs_confidence s)),
     (''volatility_risk'', PFloat (hs_volatility_risk s)), (''manipulation_risk'', PFloat (hs_manipulation_risk s))]"

definition band_to_dict :: "band_decision \<Rightarrow> pyval" where
  "band_to_dict b = PDict [(''band'', PStr (show_band (bd_band b))), (''horizons'', strs (bd_horizons b)),
     (''qualified_horizons'', strs (bd_qualified_horizons b)), (''anchor_horizon'', PStr (bd_anchor_horizon b)),
     (''direction'', PStr (show_direction (bd_direction b))),
     (''structural_score'', PFloat (bd_structural_score b)), (''strength'', PFloat (bd_strength b)),
     (''confidence'', PFloat (bd_confidence b)), (''volatility_risk'', PFloat (bd_volatility_risk b)),
     (''manipulation_risk'', PFloat (bd_manipulation_risk b)),
     (''risk_level'', PStr (show_risk_level (bd_risk_level b))),
     (''alignment_status'', PStr (show_alignment (bd_alignment b))),
     (''conflict_score'', PFloat (bd_conflict_score b))]"

definition thresholds_dict :: "thresholds \<Rightarrow> pyval" where
  "thresholds_dict t = PDict [(''medium'', PFloat (th_medium t)), (''high'', PFloat (th_high t)),
     (''extreme'', PFloat (th_extreme t))]"

definition policy_identity :: "horizon_policy \<Rightarrow> meta" where
  "policy_identity P = [(''formula_version'', PStr (hp_formula_version P)),
     (''short_band_max_ms'', PInt (hp_short_band_max_ms P)), (''long_band_min_ms'', PInt (hp_long_band_min_ms P)),
     (''band_authority'', PDict (map (\<lambda>b. (show_band b, PFloat (hp_band_authority P b))) band_order)),
     (''minimum_direction_score'', PFloat (hp_min_score P)),
     (''minimum_direction_strength'', PFloat (hp_min_strength P)),
     (''minimum_direction_confidence'', PFloat (hp_min_confidence P)),
     (''volatility_thresholds'', thresholds_dict (hp_volatility P)),
     (''manipulation_thresholds'', thresholds_dict (hp_manipulation P))]"

definition breakdown_dict :: "(string \<times> risk_level) list \<Rightarrow> pyval" where
  "breakdown_dict d = PDict (map (\<lambda>(k, l). (k, PStr (show_risk_level l))) d)"

subsection \<open>The decision\<close>

record horizon_decision =
  hd_decision_id :: string
  hd_decision_hash :: string
  hd_source_batch_id :: string
  hd_request_id :: string
  hd_request_hash :: string
  hd_target :: string
  hd_as_of_ms :: int
  hd_horizon_order :: "string list"
  hd_source_signals :: "signal list"
  hd_direction :: direction
  hd_structural_direction :: direction
  hd_structural_score :: pyfloat
  hd_strength :: pyfloat
  hd_confidence :: pyfloat
  hd_volatility_risk :: pyfloat
  hd_manipulation_risk :: pyfloat
  hd_urgency :: pyfloat
  hd_risk_level :: risk_level
  hd_action_posture :: action_posture
  hd_risk_breakdown :: "(string \<times> risk_level) list"
  hd_alignment :: alignment
  hd_conflict_type :: conflict_type
  hd_conflict_score :: pyfloat
  hd_bands :: "band_decision list"
  hd_evidence :: "evidence list"
  hd_explanation :: string
  hd_source_graph_id :: string
  hd_source_graph_version :: string
  hd_source_graph_content_hash :: string
  hd_source_formula_versions :: "(string \<times> string) list"
  hd_policy :: horizon_policy
  hd_formula_version :: string
  hd_created_at :: string
  hd_source_schema_version :: string
  hd_schema_version :: string
  hd_metadata :: meta
  hd_disclaimer :: string

definition decision_identity :: "horizon_decision \<Rightarrow> meta" where
  "decision_identity d = [(''source_schema_version'', PStr (hd_source_schema_version d)),
     (''request_hash'', PStr (hd_request_hash d)), (''target'', PStr (hd_target d)),
     (''as_of_ms'', PInt (hd_as_of_ms d)), (''horizon_order'', strs (hd_horizon_order d)),
     (''graph_id'', PStr (hd_source_graph_id d)), (''graph_version'', PStr (hd_source_graph_version d)),
     (''graph_content_hash'', PStr (hd_source_graph_content_hash d)),
     (''source_formula_versions'', PDict (map (\<lambda>(k, v). (k, PStr v)) (hd_source_formula_versions d))),
     (''signals'', PList (map signal_identity (hd_source_signals d))),
     (''policy'', PDict (policy_identity (hd_policy d))),
     (''decision'', PDict [(''direction'', PStr (show_direction (hd_direction d))),
       (''structural_direction'', PStr (show_direction (hd_structural_direction d))),
       (''structural_score'', PFloat (hd_structural_score d)), (''strength'', PFloat (hd_strength d)),
       (''confidence'', PFloat (hd_confidence d)), (''volatility_risk'', PFloat (hd_volatility_risk d)),
       (''manipulation_risk'', PFloat (hd_manipulation_risk d)), (''urgency'', PFloat (hd_urgency d)),
       (''risk_level'', PStr (show_risk_level (hd_risk_level d))),
       (''action_posture'', PStr (show_posture (hd_action_posture d))),
       (''alignment_status'', PStr (show_alignment (hd_alignment d))),
       (''conflict_type'', PStr (show_conflict (hd_conflict_type d))),
       (''conflict_score'', PFloat (hd_conflict_score d)),
       (''band_decisions'', PList (map band_to_dict (hd_bands d))),
       (''risk_breakdown'', breakdown_dict (hd_risk_breakdown d))])]"

subsection \<open>The checks of its constructor\<close>

text \<open>\<open>math.isclose(a, b, abs_tol=1e-6)\<close>, with the relative tolerance \<open>1e-9\<close>.\<close>

definition isclose :: "pyfloat \<Rightarrow> pyfloat \<Rightarrow> bool" where
  "isclose a b \<longleftrightarrow> (if a = NaN \<or> b = NaN then False else if a = b then True
     else if \<not> isfinite a \<or> \<not> isfinite b then False
     else let diff = fabs (fsub b a); tol = b64 (1 / 10 ^ 9) in
       fle diff (fabs (fmul tol b)) \<or> fle diff (fabs (fmul tol a)) \<or> fle diff (b64 (1 / 10 ^ 6)))"

text \<open>A list of checks in order: the message of the first that fails.\<close>

fun run_checks :: "(bool \<times> string) list \<Rightarrow> unit res" where
  "run_checks [] = Inr ()"
| "run_checks ((bad, m) # cs) = (if bad then raise PyValueError m else run_checks cs)"

definition check_decision_identity :: "horizon_decision \<Rightarrow> unit res" where
  "check_decision_identity d = run_checks
     [(\<not> hex_id [] 64 (hd_decision_hash d), ''horizon decision hash must be SHA-256''),
      (\<not> hex_id ''horizon-decision:'' 24 (hd_decision_id d), ''horizon decision id must use the canonical id''),
      (hd_decision_id d \<noteq> ''horizon-decision:'' @ take 24 (hd_decision_hash d),
        ''horizon decision id must match decision hash''),
      (\<not> hex_id ''multi-horizon:'' 32 (hd_source_batch_id d), ''horizon decision source batch id is invalid''),
      (\<not> hex_id [] 64 (hd_request_hash d), ''horizon decision request hash must be SHA-256''),
      (\<not> hex_id ''multi-horizon-request:'' 24 (hd_request_id d), ''horizon decision request id is invalid''),
      (hd_request_id d \<noteq> request_id_of (hd_request_hash d), ''horizon decision request id must match request hash''),
      (blank (hd_target d) \<or> hd_target d \<noteq> strip (hd_target d), ''horizon decision target must be canonical''),
      (hd_as_of_ms d < 0, ''horizon decision as_of_ms must not be negative''),
      (\<not> (2 \<le> length (hd_horizon_order d) \<and> length (hd_horizon_order d) \<le> 8),
        ''horizon decision requires 2 to 8 horizons''),
      (\<not> distinct (hd_horizon_order d), ''horizon decision horizons must be unique''),
      (map hs_horizon (hd_source_signals d) \<noteq> hd_horizon_order d,
        ''horizon decision source signals must match horizon order''),
      (hd_structural_direction d = Conflict, ''unknown structural horizon direction''),
      (set (map fst (hd_risk_breakdown d)) \<noteq> {''volatility_risk'', ''manipulation_risk''},
        ''horizon decision risk breakdown is invalid'')]"

definition check_decision_numbers :: "horizon_decision \<Rightarrow> unit res" where
  "check_decision_numbers d = bind_res (validate_score (hd_structural_score d) ''structural_score'')
     (\<lambda>_. validate_percentages [(hd_strength d, ''strength''), (hd_confidence d, ''confidence''),
        (hd_volatility_risk d, ''volatility_risk''), (hd_manipulation_risk d, ''manipulation_risk''),
        (hd_urgency d, ''urgency''), (hd_conflict_score d, ''conflict_score'')])"

definition check_decision_state :: "horizon_decision \<Rightarrow> unit res" where
  "check_decision_state d = run_checks
     [(hd_alignment d = Conflicted \<and> (hd_direction d \<noteq> Conflict \<or> hd_conflict_type d = No_conflict
         \<or> fle (hd_conflict_score d) (Fin 0)), ''conflicted horizon decision must expose conflict details''),
      (hd_alignment d \<noteq> Conflicted \<and> (hd_direction d = Conflict \<or> hd_conflict_type d \<noteq> No_conflict
         \<or> hd_conflict_score d \<noteq> Fin 0), ''non-conflicted horizon decision cannot expose conflict details''),
      (hd_alignment d = Indeterminate \<and> hd_direction d \<noteq> Neutral,
        ''indeterminate horizon decision must remain neutral''),
      (hd_alignment d \<in> {Aligned, Partial} \<and> \<not> directional (hd_direction d),
        ''aligned or partial horizon decision must be directional''),
      (hd_bands d = [] \<or> length (hd_bands d) > 3, ''horizon decision must contain 1 to 3 band decisions''),
      (\<not> sorted_wrt (<) (map (band_rank \<circ> bd_band) (hd_bands d)),
        ''horizon decision bands must be unique and ordered''),
      (concat (map bd_horizons (hd_bands d)) \<noteq> hd_horizon_order d,
        ''horizon decision bands must partition the source horizon order'')]"

definition evidence_bad :: "evidence \<Rightarrow> bool" where
  "evidence_bad e \<longleftrightarrow> blank (evd_summary e) \<or> \<not> isfinite (evd_weight e) \<or> flt (evd_weight e) (Fin 0)"

fun check_evidence_pairs :: "(signal \<times> evidence) list \<Rightarrow> unit res" where
  "check_evidence_pairs [] = Inr ()"
| "check_evidence_pairs ((s, e) # ps) = bind_res
     (validate_percentages [(evd_freshness e, ''evidence freshness''), (evd_reliability e, ''evidence reliability'')])
     (\<lambda>_. if \<not> isclose (evd_reliability e) (hs_confidence s)
          then raise PyValueError ''horizon decision evidence reliability must match source''
          else check_evidence_pairs ps)"

definition check_decision_evidence :: "horizon_decision \<Rightarrow> unit res" where
  "check_decision_evidence d = bind_res (run_checks
     [(length (hd_evidence d) \<noteq> length (hd_horizon_order d),
        ''horizon decision must retain one evidence item per horizon''),
      (map evd_source (hd_evidence d) \<noteq> map (\<lambda>h. ''horizon:'' @ h) (hd_horizon_order d),
        ''horizon decision evidence must preserve horizon order''),
      (list_ex evidence_bad (hd_evidence d), ''horizon decision evidence is invalid''),
      (\<not> isclose (fsum (map evd_weight (hd_evidence d))) (Fin 1),
        ''horizon decision evidence weights must sum to one'')])
     (\<lambda>_. check_evidence_pairs (zip (hd_source_signals d) (hd_evidence d)))"

text \<open>\<open>_validate_policy\<close>.\<close>

definition validate_policy :: "horizon_policy \<Rightarrow> string \<Rightarrow> unit res" where
  "validate_policy P version = run_checks
     [(hp_formula_version P \<noteq> version, ''horizon decision policy must match formula version''),
      (\<not> (0 < hp_short_band_max_ms P \<and> hp_short_band_max_ms P < hp_long_band_min_ms P),
        ''horizon decision policy band boundaries are invalid''),
      (list_ex (\<lambda>b. \<not> isfinite (hp_band_authority P b) \<or> fle (hp_band_authority P b) (Fin 0)) band_order,
        ''horizon decision policy band weights are invalid''),
      (list_ex (\<lambda>v. \<not> bounded 0 100 v) [hp_min_score P, hp_min_strength P, hp_min_confidence P],
        ''horizon decision policy threshold is invalid''),
      (list_ex (\<lambda>t. \<not> thresholds_ordered t) [hp_volatility P, hp_manipulation P],
        ''horizon decision policy risk thresholds are invalid'')]"

definition check_decision_sources :: "horizon_decision \<Rightarrow> unit res" where
  "check_decision_sources d = bind_res (run_checks
     [(blank (hd_explanation d), ''horizon decision explanation is required''),
      (blank (hd_source_graph_id d) \<or> blank (hd_source_graph_version d),
        ''horizon decision source graph identity is required''),
      (\<not> hex_id [] 64 (hd_source_graph_content_hash d), ''horizon decision source graph hash must be SHA-256''),
      (hd_source_formula_versions d = [] \<or> list_ex (\<lambda>(c, v). blank c \<or> blank v) (hd_source_formula_versions d),
        ''horizon decision source formula versions must be complete''),
      (blank (hd_formula_version d), ''horizon decision formula version is required'')])
     (\<lambda>_. validate_policy (hd_policy d) (hd_formula_version d))"

text \<open>The risks are the rounded maxima of the sources, the levels those of the rounded risks.\<close>

definition check_decision_risks :: "horizon_decision \<Rightarrow> unit res" where
  "check_decision_risks d =
     (let P = hd_policy d;
          expected = [(''volatility_risk'', level_for (hp_volatility P) (hd_volatility_risk d)),
            (''manipulation_risk'', level_for (hp_manipulation P) (hd_manipulation_risk d))]
      in run_checks
        [(\<not> isclose (hd_volatility_risk d) (round3 (max_volatility (hd_source_signals d)))
            \<or> \<not> isclose (hd_manipulation_risk d) (round3 (max_manipulation (hd_source_signals d))),
           ''horizon decision risks must preserve source maxima''),
         (\<not> same_dict (hd_risk_breakdown d) expected, ''horizon decision risk breakdown has drifted''),
         (hd_risk_level d \<noteq> overall_risk_level (map snd expected), ''horizon decision risk level has drifted'')])"

definition check_band_risks :: "horizon_decision \<Rightarrow> band_decision \<Rightarrow> unit res" where
  "check_band_risks d b =
     (let ss = map (\<lambda>h. the (find (\<lambda>s. hs_horizon s = h) (hd_source_signals d))) (bd_horizons b) in
      run_checks
        [(\<not> isclose (bd_volatility_risk b) (round3 (max_volatility ss))
            \<or> \<not> isclose (bd_manipulation_risk b) (round3 (max_manipulation ss)),
           ''horizon band risks must preserve source maxima''),
         (bd_risk_level b \<noteq> band_risk_level (hd_policy d) (bd_volatility_risk b) (bd_manipulation_risk b),
           ''horizon band risk level has drifted'')])"

definition check_decision_end :: "stdlib \<Rightarrow> horizon_decision \<Rightarrow> unit res" where
  "check_decision_end L d = bind_res (run_checks
     [(blank (hd_created_at d), ''horizon decision created_at is required''),
      (hd_source_schema_version d \<noteq> ''multi_horizon_analysis.v1'', ''unsupported horizon decision source schema''),
      (hd_schema_version d \<noteq> ''horizon_decision.v1'', ''unsupported horizon decision schema''),
      (blank (hd_disclaimer d), ''horizon decision disclaimer is required'')])
     (\<lambda>_. bind_res (json_hash L (PDict (decision_identity d))) (\<lambda>h.
        if h \<noteq> hd_decision_hash d then raise PyValueError ''horizon decision hash does not match canonical payload''
        else Inr ()))"

definition mk_horizon_decision :: "stdlib \<Rightarrow> horizon_decision \<Rightarrow> horizon_decision res" where
  "mk_horizon_decision L d =
     bind_res (check_decision_identity d) (\<lambda>_. bind_res (check_decision_numbers d) (\<lambda>_.
     bind_res (check_decision_state d) (\<lambda>_. bind_res (check_decision_evidence d) (\<lambda>_.
     bind_res (check_decision_sources d) (\<lambda>_. bind_res (check_decision_risks d) (\<lambda>_.
     bind_res (map_res (check_band_risks d) (hd_bands d)) (\<lambda>_.
     bind_res (check_decision_end L d) (\<lambda>_. Inr d))))))))"

subsection \<open>The Cell\<close>

definition analysis_signals :: "mh_analysis \<Rightarrow> signal list res" where
  "analysis_signals a = map_res (\<lambda>rep. let c = rp_decision rep in mk_signal
     \<lparr>hs_horizon = rp_horizon rep, hs_direction = cr_direction c, hs_score = cr_score c,
      hs_strength = cr_strength c, hs_confidence = cr_confidence c,
      hs_volatility_risk = cr_volatility_risk c, hs_manipulation_risk = cr_manipulation_risk c\<rparr>) (ma_reports a)"

text \<open>\<open>identity_payload\<close> of the Cell.\<close>

definition analysis_identity :: "horizon_policy \<Rightarrow> mh_analysis \<Rightarrow> signal list \<Rightarrow> horizon_assessment \<Rightarrow> meta" where
  "analysis_identity P a ss x = [(''source_schema_version'', PStr (ma_schema_version a)),
     (''request_hash'', PStr (ma_request_hash a)), (''target'', PStr (ma_target a)),
     (''as_of_ms'', PInt (ma_as_of_ms a)), (''horizon_order'', strs (ma_horizon_order a)),
     (''graph_id'', PStr (ma_graph_id a)), (''graph_version'', PStr (ma_graph_version a)),
     (''graph_content_hash'', PStr (ma_graph_content_hash a)),
     (''source_formula_versions'', PDict (map (\<lambda>(k, v). (k, PStr v)) (ma_formula_versions a))),
     (''signals'', PList (map signal_identity ss)), (''policy'', PDict (policy_identity P)),
     (''decision'', PDict [(''direction'', PStr (show_direction (ha_direction x))),
       (''structural_direction'', PStr (show_direction (ha_structural_direction x))),
       (''structural_score'', PFloat (ha_structural_score x)), (''strength'', PFloat (ha_strength x)),
       (''confidence'', PFloat (ha_confidence x)), (''volatility_risk'', PFloat (ha_volatility_risk x)),
       (''manipulation_risk'', PFloat (ha_manipulation_risk x)), (''urgency'', PFloat (ha_urgency x)),
       (''risk_level'', PStr (show_risk_level (ha_risk_level x))),
       (''action_posture'', PStr (show_posture (ha_action_posture x))),
       (''alignment_status'', PStr (show_alignment (ha_alignment x))),
       (''conflict_type'', PStr (show_conflict (ha_conflict_type x))),
       (''conflict_score'', PFloat (ha_conflict_score x)),
       (''band_decisions'', PList (map band_to_dict (ha_bands x))),
       (''risk_breakdown'', breakdown_dict (ha_risk_breakdown x))])]"

definition horizon_evidence :: "wording \<Rightarrow> (string \<times> pyfloat) list \<Rightarrow> signal \<times> horizon_band \<Rightarrow> evidence" where
  "horizon_evidence T ws sb = (let (s, b) = sb in
     \<lparr>evd_source = ''horizon:'' @ hs_horizon s,
      evd_summary = msg [show_band b, '' / '', hs_horizon s, '': direction='', show_direction (hs_direction s),
        '', score='', wd_fixed T 3 (hs_score s), '', confidence='', wd_fixed T 1 (hs_confidence s),
        '', risk=('', wd_fixed T 1 (hs_volatility_risk s), '', '', wd_fixed T 1 (hs_manipulation_risk s), '')''],
      evd_weight = weight_at ws (hs_horizon s), evd_freshness = Fin 100, evd_reliability = hs_confidence s\<rparr>)"

definition horizon_decision_of :: "wording \<Rightarrow> horizon_policy \<Rightarrow> mh_analysis \<Rightarrow> signal list \<Rightarrow> horizon_assessment
  \<Rightarrow> string \<Rightarrow> evidence list \<Rightarrow> string \<Rightarrow> horizon_decision" where
  "horizon_decision_of T P a ss x h evs now =
     \<lparr>hd_decision_id = ''horizon-decision:'' @ take 24 h, hd_decision_hash = h,
      hd_source_batch_id = ma_batch_id a, hd_request_id = ma_request_id a, hd_request_hash = ma_request_hash a,
      hd_target = ma_target a, hd_as_of_ms = ma_as_of_ms a, hd_horizon_order = ma_horizon_order a,
      hd_source_signals = ss, hd_direction = ha_direction x, hd_structural_direction = ha_structural_direction x,
      hd_structural_score = ha_structural_score x, hd_strength = ha_strength x, hd_confidence = ha_confidence x,
      hd_volatility_risk = ha_volatility_risk x, hd_manipulation_risk = ha_manipulation_risk x,
      hd_urgency = ha_urgency x, hd_risk_level = ha_risk_level x, hd_action_posture = ha_action_posture x,
      hd_risk_breakdown = ha_risk_breakdown x, hd_alignment = ha_alignment x,
      hd_conflict_type = ha_conflict_type x, hd_conflict_score = ha_conflict_score x, hd_bands = ha_bands x,
      hd_evidence = evs, hd_explanation = ha_explanation x, hd_source_graph_id = ma_graph_id a,
      hd_source_graph_version = ma_graph_version a, hd_source_graph_content_hash = ma_graph_content_hash a,
      hd_source_formula_versions = ma_formula_versions a, hd_policy = P,
      hd_formula_version = hp_formula_version P, hd_created_at = now,
      hd_source_schema_version = ''multi_horizon_analysis.v1'', hd_schema_version = ''horizon_decision.v1'',
      hd_metadata = [(''source_aggregation_status'', PStr (ma_aggregation_status a))],
      hd_disclaimer = wd_text T ''horizon.disclaimer''\<rparr>"

definition horizon_analyze :: "stdlib \<Rightarrow> 'w env \<Rightarrow> wording \<Rightarrow> horizon_policy \<Rightarrow> mh_analysis \<Rightarrow> 'w
  \<Rightarrow> horizon_decision res \<times> 'w" where
  "horizon_analyze L E T P a w =
     (case bind_res (analysis_signals a) (\<lambda>ss. bind_res (evaluate_horizons T P ss) (\<lambda>x.
        bind_res (json_hash L (PDict (analysis_identity P a ss x))) (\<lambda>h.
        bind_res (signal_weights P ss) (\<lambda>ws.
        bind_res (map_res (\<lambda>s. band_for P (hs_horizon s)) ss) (\<lambda>bs.
        Inr (ss, x, h, map (horizon_evidence T ws) (zip ss bs))))))) of
        Inl e \<Rightarrow> (Inl e, w)
      | Inr (ss, x, h, evs) \<Rightarrow>
         (let (now, w1) = env_now E w in
          (mk_horizon_decision L (horizon_decision_of T P a ss x h evs now), w1)))"

end
