(* ===== verification/Horizon_Correct.thy ===== *)
theory Horizon_Correct
  imports Horizon_Decision
begin

section \<open>What a decision over several horizons promises\<close>

text \<open>
  The bands partition the signals and each band's direction is that of its qualified members; the
  direction, alignment and conflict type of the whole follow from the bands. An issued decision
  satisfies every check of its constructor, which compares the levels with those of rounded risks.
\<close>

subsection \<open>Grouping\<close>

lemma zip_map_self: "zip xs (map g xs) = map (\<lambda>x. (x, g x)) xs"
  by (induction xs) auto

lemma map_res_bands:
  "map_res (\<lambda>s. band_for P (hs_horizon s)) ss = Inr bs \<Longrightarrow> bs = map (\<lambda>s. band_of P (duration_ms s)) ss"
  unfolding map_res_Inr
  by (induction ss bs rule: list_all2_induct) (auto simp: band_for_def duration_ms_def split: if_splits)

lemma group_signals_Inr:
  assumes "group_signals P ss = Inr g"
  shows "g b = filter (\<lambda>s. band_of P (duration_ms s) = b) ss"
proof -
  obtain bs where bs: "map_res (\<lambda>s. band_for P (hs_horizon s)) ss = Inr bs"
    and g: "g = (\<lambda>b. map fst (filter (\<lambda>(s, b'). b' = b) (zip ss bs)))"
    using assms by (auto simp: group_signals_def bind_res_eq_Inr)
  show ?thesis unfolding g map_res_bands[OF bs] zip_map_self filter_map
    by (simp add: comp_def)
qed

lemma band_of_mono: "a \<le> b \<Longrightarrow> band_rank (band_of P a) \<le> band_rank (band_of P b)"
  by (auto simp: band_of_def)

lemma filter_first_class:
  "sorted_wrt (\<lambda>x y. band_rank (f x) \<le> band_rank (f y)) xs \<Longrightarrow>
   filter (\<lambda>x. f x = Short_band) xs @ filter (\<lambda>x. f x = Medium_band) xs @ filter (\<lambda>x. f x = Long_band) xs = xs"
proof (induction xs)
  case (Cons x xs)
  have none: "filter (\<lambda>y. f y = b) xs = []" if "band_rank b < band_rank (f x)" for b
    using Cons.prems that by (auto simp: filter_empty_conv)
  from Cons.IH Cons.prems have IH: "filter (\<lambda>x. f x = Short_band) xs @ filter (\<lambda>x. f x = Medium_band) xs
      @ filter (\<lambda>x. f x = Long_band) xs = xs" by simp
  show ?case
    using IH none[of Short_band] none[of Medium_band] by (cases "f x") simp_all
qed simp

lemma validate_signals_Inr:
  "validate_signals ss = Inr () \<longleftrightarrow> 2 \<le> length ss \<and> length ss \<le> 8 \<and> distinct (map hs_horizon ss)
     \<and> sorted_wrt (<) (map duration_ms ss)"
  unfolding validate_signals_def guard_Inr not_increasing_iff by blast

lemma concat_nonempty: "concat (map g (filter (\<lambda>b. g b \<noteq> []) bs)) = concat (map g bs)"
  by (induction bs) auto

lemma grouped_concat:
  assumes "group_signals P ss = Inr g" "sorted_wrt (<) (map duration_ms ss)"
  shows "concat (map g (filter (\<lambda>b. g b \<noteq> []) band_order)) = ss"
proof -
  have "sorted_wrt (\<lambda>x y. duration_ms x < duration_ms y) ss" using assms(2) by (simp add: sorted_wrt_map)
  then have "sorted_wrt (\<lambda>x y. band_rank (band_of P (duration_ms x)) \<le> band_rank (band_of P (duration_ms y))) ss"
    by (rule sorted_wrt_mono_rel[rotated]) (simp add: band_of_mono)
  from filter_first_class[OF this] show ?thesis
    unfolding concat_nonempty by (simp add: band_order_def group_signals_Inr[OF assms(1)])
qed

subsection \<open>One band\<close>

lemma mk_band_same: "mk_band b = Inr c \<Longrightarrow> c = b"
  by (auto simp: mk_band_def bind_res_eq_Inr)

lemma evaluate_band_Inr:
  assumes "evaluate_band P band ss = Inr b"
  shows "bd_band b = band \<and> bd_horizons b = map hs_horizon ss
    \<and> (bd_direction b, bd_alignment b) = band_state P ss
    \<and> bd_risk_level b = band_risk_level P (max_volatility ss) (max_manipulation ss)
    \<and> bd_volatility_risk b = round3 (max_volatility ss) \<and> bd_manipulation_risk b = round3 (max_manipulation ss)"
proof -
  obtain d al where st: "band_state P ss = (d, al)" by fastforce
  show ?thesis using assms unfolding evaluate_band_def Let_def st prod.case
    by (drule_tac mk_band_same) simp
qed

text \<open>What the members of a band say about its direction.\<close>

definition band_verdict :: "horizon_policy \<Rightarrow> signal list \<Rightarrow> direction \<Rightarrow> alignment \<Rightarrow> bool" where
  "band_verdict P ms d al \<longleftrightarrow>
     (directional d \<longrightarrow> (\<exists>s \<in> set ms. is_qualified P s \<and> hs_direction s = d)
        \<and> (\<forall>s \<in> set ms. is_qualified P s \<longrightarrow> hs_direction s = d) \<and> \<not> is_material_conflict P (last ms))
     \<and> (d = Neutral \<longrightarrow> (\<forall>s \<in> set ms. \<not> is_qualified P s \<and> \<not> is_material_conflict P s))
     \<and> (d = Conflict \<longrightarrow> is_material_conflict P (last ms)
        \<or> ((\<exists>s \<in> set ms. is_material_conflict P s) \<and> (\<forall>s \<in> set ms. \<not> is_qualified P s))
        \<or> (\<exists>s \<in> set ms. \<exists>t \<in> set ms. is_qualified P s \<and> is_qualified P t \<and> hs_direction s = Bullish \<and> hs_direction t = Bearish))
     \<and> (al = Conflicted \<longleftrightarrow> d = Conflict) \<and> (al = Indeterminate \<longleftrightarrow> d = Neutral)
     \<and> (al = Aligned \<longleftrightarrow> 2 \<le> length ms \<and> directional d \<and> (\<forall>s \<in> set ms. is_qualified P s \<and> hs_direction s = d))"

lemma qualified_not_conflict: "is_qualified P s \<Longrightarrow> \<not> is_material_conflict P s"
  by (auto simp: is_qualified_def is_material_conflict_def directional_def)

lemma remdups_empty_hd: "remdups xs \<noteq> [] \<Longrightarrow> length (remdups xs) \<le> 1 \<Longrightarrow> set xs = {hd (remdups xs)}"
proof -
  assume a: "remdups xs \<noteq> []" "length (remdups xs) \<le> 1"
  then obtain y where y: "remdups xs = [y]" by (cases "remdups xs") (auto simp: le_Suc_eq)
  have "set xs = set (remdups xs)" by simp
  then show ?thesis using y by simp
qed

lemma remdups_two: "length (remdups xs) > 1 \<Longrightarrow> \<exists>x \<in> set xs. \<exists>y \<in> set xs. x \<noteq> y"
proof -
  assume "length (remdups xs) > 1"
  then obtain x y zs where e: "remdups xs = x # y # zs" by (cases "remdups xs"; cases "tl (remdups xs)") auto
  have "distinct (remdups xs)" by simp
  with e have "x \<noteq> y" by simp
  moreover have "set (remdups xs) = set xs" by simp
  with e have "x \<in> set xs" "y \<in> set xs" by auto
  ultimately show ?thesis by blast
qed

lemma filter_all: "length (filter p xs) = length xs \<longleftrightarrow> (\<forall>x \<in> set xs. p x)"
proof
  assume "length (filter p xs) = length xs"
  then show "\<forall>x \<in> set xs. p x" using length_filter_less[of _ xs p] by (metis less_irrefl)
qed (simp add: filter_True)

lemma band_state_verdict:
  assumes "band_state P ms = (d, al)" "ms \<noteq> []"
  shows "band_verdict P ms d al"
proof -
  let ?q = "filter (is_qualified P) ms"
  let ?ds = "remdups (map hs_direction ?q)"
  have dirs: "set ?ds = hs_direction ` {s \<in> set ms. is_qualified P s}" by auto
  have dq: "directional (hs_direction s)" if "is_qualified P s" for s using that by (simp add: is_qualified_def)
  consider (split) "length ?ds > 1" | (anchor) "length ?ds \<le> 1" "is_material_conflict P (last ms)"
    | (one) "length ?ds \<le> 1" "\<not> is_material_conflict P (last ms)" "?ds \<noteq> []"
    | (weak) "\<not> is_material_conflict P (last ms)" "?ds = []" "list_ex (is_material_conflict P) ms"
    | (none) "\<not> is_material_conflict P (last ms)" "?ds = []" "\<not> list_ex (is_material_conflict P) ms"
    by linarith
  then show ?thesis
  proof cases
    case split
    then obtain s t where s: "s \<in> set ms" "is_qualified P s" and t: "t \<in> set ms" "is_qualified P t"
      and ne: "hs_direction s \<noteq> hs_direction t" using remdups_two[OF split] by auto
    have "\<exists>s \<in> set ms. \<exists>t \<in> set ms. is_qualified P s \<and> is_qualified P t \<and> hs_direction s = Bullish \<and> hs_direction t = Bearish"
      using s t ne dq[OF s(2)] dq[OF t(2)] by (auto simp: directional_def)
    with split assms(1) show ?thesis by (auto simp: band_state_def Let_def band_verdict_def directional_def)
  next
    case anchor
    with assms(1) show ?thesis by (auto simp: band_state_def Let_def band_verdict_def directional_def)
  next
    case one
    have set1: "set (map hs_direction ?q) = {hd ?ds}" by (rule remdups_empty_hd[OF one(3,1)])
    then have all: "hs_direction s = hd ?ds" if "s \<in> set ms" "is_qualified P s" for s using that by auto
    then have "hd ?ds \<in> hs_direction ` {s \<in> set ms. is_qualified P s}" using set1 dirs by auto
    then obtain s where s: "s \<in> set ms" "is_qualified P s" "hs_direction s = hd ?ds" by (auto simp: image_iff)
    have d: "d = hd ?ds" "al = (if length ?q = length ms \<and> length ms \<ge> 2 \<and> \<not> list_ex (is_material_conflict P) ms
        then Aligned else Partial)"
      using assms(1) one by (auto simp: band_state_def Let_def)
    have dir: "directional d" using dq[OF s(2)] s(3) d(1) by simp
    then have "d \<noteq> Neutral" "d \<noteq> Conflict" by (auto simp: directional_def)
    moreover have "al = Aligned \<longleftrightarrow> 2 \<le> length ms \<and> (\<forall>s \<in> set ms. is_qualified P s \<and> hs_direction s = d)"
      unfolding d filter_all list_ex_iff using all qualified_not_conflict by (simp add: if_splits) blast
    moreover have "al \<in> {Aligned, Partial}" using d(2) by simp
    moreover have "\<exists>s \<in> set ms. is_qualified P s \<and> hs_direction s = d" using s d(1) by blast
    moreover have "\<forall>s \<in> set ms. is_qualified P s \<longrightarrow> hs_direction s = d" using all d(1) by blast
    ultimately show ?thesis unfolding band_verdict_def using dir one(2) by blast
  next
    case weak
    then show ?thesis using assms(1)
      by (auto simp: band_state_def Let_def band_verdict_def directional_def list_ex_iff filter_empty_conv)
  next
    case none
    then show ?thesis using assms(1)
      by (auto simp: band_state_def Let_def band_verdict_def directional_def list_ex_iff filter_empty_conv)
  qed
qed

subsection \<open>All bands\<close>

definition opposed :: "band_decision list \<Rightarrow> bool" where
  "opposed bs \<longleftrightarrow> Bullish \<in> bd_direction ` set bs \<and> Bearish \<in> bd_direction ` set bs"

text \<open>Two bands of opposite directions.\<close>

definition leans :: "band_decision list \<Rightarrow> horizon_band \<Rightarrow> direction \<Rightarrow> bool" where
  "leans bs x d \<longleftrightarrow> (\<exists>b \<in> set bs. bd_band b = x \<and> bd_direction b = d)"

definition against :: "band_decision list \<Rightarrow> horizon_band \<Rightarrow> horizon_band \<Rightarrow> bool" where
  "against bs x y \<longleftrightarrow> leans bs x Bullish \<and> leans bs y Bearish \<or> leans bs x Bearish \<and> leans bs y Bullish"

text \<open>What the bands say about the whole.\<close>

definition overall_verdict :: "band_decision list \<Rightarrow> direction \<Rightarrow> alignment \<Rightarrow> conflict_type \<Rightarrow> bool" where
  "overall_verdict bs d al ct \<longleftrightarrow>
     (d = Conflict \<longleftrightarrow> Conflict \<in> bd_direction ` set bs \<or> opposed bs)
     \<and> (directional d \<longrightarrow> d \<in> bd_direction ` set bs \<and> bd_direction ` set bs \<subseteq> {d, Neutral})
     \<and> (d = Neutral \<longleftrightarrow> bd_direction ` set bs \<subseteq> {Neutral})
     \<and> (al = Conflicted \<longleftrightarrow> d = Conflict) \<and> (al = Indeterminate \<longleftrightarrow> d = Neutral)
     \<and> (al = Aligned \<longleftrightarrow> 2 \<le> length bs \<and> directional d \<and> (\<forall>b \<in> set bs. bd_direction b = d))
     \<and> (ct = No_conflict \<longleftrightarrow> d \<noteq> Conflict)
     \<and> (ct = Intra_band \<longleftrightarrow> Conflict \<in> bd_direction ` set bs \<and> \<not> opposed bs)
     \<and> (ct = Broad \<longleftrightarrow> Conflict \<in> bd_direction ` set bs \<and> opposed bs)
     \<and> (ct = Lower_vs_long \<longleftrightarrow> Conflict \<notin> bd_direction ` set bs
          \<and> against bs Short_band Long_band \<and> against bs Medium_band Long_band)
     \<and> (ct = Medium_vs_long \<longleftrightarrow> Conflict \<notin> bd_direction ` set bs
          \<and> against bs Medium_band Long_band \<and> \<not> against bs Short_band Long_band)
     \<and> (ct = Short_vs_higher \<longleftrightarrow> Conflict \<notin> bd_direction ` set bs \<and> \<not> against bs Medium_band Long_band
          \<and> (against bs Short_band Long_band \<or> against bs Short_band Medium_band))"

lemma directions_of_bands: "set (map snd (directional_bands bs)) = bd_direction ` set bs \<inter> {Bullish, Bearish}"
  by (auto simp: directional_bands_def directional_def)

lemma one_sided:
  "\<not> (Bullish \<in> S \<and> Bearish \<in> S) \<Longrightarrow> S \<inter> {Bullish, Bearish} \<subseteq> {Bullish} \<or> S \<inter> {Bullish, Bearish} \<subseteq> {Bearish}"
  by blast

lemma card_directions: "card (set (map snd (directional_bands bs))) \<le> 1 \<longleftrightarrow> \<not> opposed bs"
proof (cases "opposed bs")
  case True
  then have "set (map snd (directional_bands bs)) = {Bullish, Bearish}"
    unfolding directions_of_bands opposed_def by blast
  with True show ?thesis by simp
next
  case False
  then have "set (map snd (directional_bands bs)) \<subseteq> {Bullish} \<or> set (map snd (directional_bands bs)) \<subseteq> {Bearish}"
    unfolding directions_of_bands opposed_def by (rule one_sided)
  then show ?thesis using False card_mono[of "{Bullish}"] card_mono[of "{Bearish}"] by fastforce
qed

lemma against_opposed: "against bs x y \<Longrightarrow> opposed bs"
  by (auto simp: against_def leans_def opposed_def image_iff) force+

lemma opposed_against:
  assumes "distinct (map bd_band bs)" "opposed bs"
  shows "against bs Short_band Medium_band \<or> against bs Short_band Long_band \<or> against bs Medium_band Long_band"
proof -
  obtain b c where b: "b \<in> set bs" "bd_direction b = Bullish" and c: "c \<in> set bs" "bd_direction c = Bearish"
    using assms(2) by (auto simp: opposed_def image_iff)
  then have "bd_band b \<noteq> bd_band c" using assms(1) by (auto simp: distinct_map dest!: inj_onD)
  moreover have "leans bs (bd_band b) Bullish" "leans bs (bd_band c) Bearish" using b c by (auto simp: leans_def)
  ultimately show ?thesis by (cases "bd_band b"; cases "bd_band c") (auto simp: against_def)
qed

lemma directional_bands_lookup:
  assumes "distinct (map bd_band bs)"
  shows "map_of (directional_bands bs) x = Some d \<longleftrightarrow> directional d \<and> leans bs x d"
proof -
  have "distinct (map fst (directional_bands bs))" using assms
    by (simp add: directional_bands_def comp_def distinct_map_filter)
  then have "map_of (directional_bands bs) x = Some d \<longleftrightarrow> (x, d) \<in> set (directional_bands bs)" by simp
  then show ?thesis by (auto simp: directional_bands_def leans_def)
qed

lemma conflict_type_kinds:
  assumes "distinct (map bd_band bs)" "opposed bs"
  shows "conflict_type_of (directional_bands bs) False =
    (if against bs Medium_band Long_band then if against bs Short_band Long_band then Lower_vs_long else Medium_vs_long
     else Short_vs_higher)"
proof -
  let ?ds = "directional_bands bs"
  note look = directional_bands_lookup[OF assms(1)]
  obtain short medium long where f: "map_of ?ds Short_band = short" "map_of ?ds Medium_band = medium"
    "map_of ?ds Long_band = long" by blast
  have opt: "map_of ?ds x \<in> {None, Some Bullish, Some Bearish}" for x
    using look[of x] by (cases "map_of ?ds x") (auto simp: directional_def)
  have ag: "against bs x y \<longleftrightarrow> map_of ?ds x = Some Bullish \<and> map_of ?ds y = Some Bearish
      \<or> map_of ?ds x = Some Bearish \<and> map_of ?ds y = Some Bullish" for x y
    unfolding against_def look by (simp add: directional_def)
  have "\<not> card (set (map snd ?ds)) \<le> 1" using card_directions assms(2) by blast
  moreover note opposed_against[OF assms, unfolded ag f] opt[of Short_band, unfolded f] opt[of Medium_band, unfolded f]
    opt[of Long_band, unfolded f]
  ultimately show ?thesis
    unfolding conflict_type_of_def Let_def filter.simps f ag insert_iff empty_iff
    by (elim disjE) (simp_all del: set_map)
qed

lemma overall_state_verdict:
  assumes "overall_state bs = (d, al, ct)" "distinct (map bd_band bs)"
  shows "overall_verdict bs d al ct"
proof -
  let ?ds = "directional_bands bs"
  let ?dirs = "remdups (map snd ?ds)"
  have len: "length ?dirs = card (set (map snd ?ds))" by (simp add: length_remdups_card_conv)
  have split: "Suc 0 < length ?dirs \<longleftrightarrow> opposed bs" using card_directions[of bs] unfolding len by linarith
  have conf: "list_ex (\<lambda>b. bd_direction b = Conflict) bs \<longleftrightarrow> Conflict \<in> bd_direction ` set bs"
    unfolding list_ex_iff by (metis imageE imageI)
  consider (conflict) "opposed bs \<or> Conflict \<in> bd_direction ` set bs"
    | (one) "\<not> opposed bs" "Conflict \<notin> bd_direction ` set bs" "?dirs \<noteq> []"
    | (none) "\<not> opposed bs" "Conflict \<notin> bd_direction ` set bs" "?dirs = []" by blast
  then show ?thesis
  proof cases
    case conflict
    then have v: "d = Conflict" "al = Conflicted"
      "ct = conflict_type_of ?ds (list_ex (\<lambda>b. bd_direction b = Conflict) bs)"
      using assms(1) by (auto simp: overall_state_def Let_def split conf)
    have ct: "ct = (if Conflict \<in> bd_direction ` set bs then if opposed bs then Broad else Intra_band
        else conflict_type_of ?ds False)"
      unfolding v(3) conf by (simp add: conflict_type_of_def Let_def card_directions[unfolded One_nat_def] del: set_map)
    note conflict_type_kinds[OF assms(2)] opposed_against[OF assms(2)]
    moreover have "\<not> bd_direction ` set bs \<subseteq> {Neutral}"
    proof
      assume "bd_direction ` set bs \<subseteq> {Neutral}"
      with conflict have "Bullish \<in> {Neutral} \<or> Conflict \<in> {Neutral}" unfolding opposed_def using subsetD by meson
      then show False by simp
    qed
    ultimately show ?thesis using conflict against_opposed unfolding overall_verdict_def v(1,2) ct
      by (cases "Conflict \<in> bd_direction ` set bs"; cases "opposed bs") (auto simp: directional_def)
  next
    case one
    have st: "d = hd ?dirs" "al = (if length ?ds \<ge> 2 \<and> length ?ds = length bs then Aligned else Partial)"
      "ct = No_conflict"
      using assms(1) one by (auto simp: overall_state_def Let_def split conf)
    have "set (map snd ?ds) = {hd ?dirs}" by (rule remdups_empty_hd) (use one split in auto)
    then have dirs: "bd_direction ` set bs \<inter> {Bullish, Bearish} = {d}" unfolding directions_of_bands st(1) .
    then have d: "directional d" by (auto simp: directional_def)
    have sub: "bd_direction ` set bs \<subseteq> {d, Neutral}"
    proof
      fix x assume "x \<in> bd_direction ` set bs"
      then show "x \<in> {d, Neutral}" using dirs one(2) by (cases x) auto
    qed
    have al: "al = Aligned \<longleftrightarrow> 2 \<le> length bs \<and> (\<forall>b \<in> set bs. bd_direction b = d)"
    proof -
      have "length ?ds = length (filter (\<lambda>b. directional (bd_direction b)) bs)" by (simp add: directional_bands_def)
      moreover have "(\<forall>b \<in> set bs. directional (bd_direction b)) \<longleftrightarrow> (\<forall>b \<in> set bs. bd_direction b = d)"
        using subsetD[OF sub imageI] d by (fastforce simp: directional_def)
      ultimately show ?thesis unfolding st(2) using filter_all[of "\<lambda>b. directional (bd_direction b)" bs] by auto
    qed
    have ne: "d \<noteq> Conflict" "d \<noteq> Neutral" using d by (auto simp: directional_def)
    have mem: "d \<in> bd_direction ` set bs" using dirs by blast
    then have "\<not> bd_direction ` set bs \<subseteq> {Neutral}" using ne(2) by (metis singletonD subsetD)
    moreover have "al \<noteq> Conflicted" "al \<noteq> Indeterminate" using st(2) by (simp_all split: if_splits)
    moreover have "\<not> against bs x y" for x y using one(1) against_opposed by blast
    ultimately show ?thesis unfolding overall_verdict_def st(3)
      by (simp only: al sub d ne mem one simp_thms conflict_type.distinct)
  next
    case none
    then have "d = Neutral" "al = Indeterminate" "ct = No_conflict"
      using assms(1) by (auto simp: overall_state_def Let_def split conf)
    moreover have "bd_direction ` set bs \<inter> {Bullish, Bearish} = {}"
      using none(3) directions_of_bands[of bs] by simp
    then have "Bullish \<notin> bd_direction ` set bs" "Bearish \<notin> bd_direction ` set bs" by blast+
    then have "x \<in> {Neutral}" if "x \<in> bd_direction ` set bs" for x
      using none(2) that by (cases x) simp_all
    then have "bd_direction ` set bs \<subseteq> {Neutral}" by blast
    moreover have "\<not> directional Neutral" by (simp add: directional_def)
    moreover have "\<not> against bs x y" for x y using none(1) against_opposed by blast
    ultimately show ?thesis using none(1,2) unfolding overall_verdict_def by simp
  qed
qed

subsection \<open>The assessment\<close>

lemma evaluate_bands_Inr:
  assumes "evaluate_bands P ss = Inr bs"
  shows "sorted_wrt (<) (map duration_ms ss)" "distinct (map hs_horizon ss)" "2 \<le> length ss" "length ss \<le> 8"
    "concat (map bd_horizons bs) = map hs_horizon ss" "distinct (map bd_band bs)" "bs \<noteq> []"
    "\<forall>b \<in> set bs. \<exists>ms. ms \<noteq> [] \<and> ms = filter (\<lambda>s. band_of P (duration_ms s) = bd_band b) ss
       \<and> evaluate_band P (bd_band b) ms = Inr b"
proof -
  obtain g where v: "validate_signals ss = Inr ()" and g: "group_signals P ss = Inr g"
    and b: "map_res (\<lambda>b. evaluate_band P b (g b)) (filter (\<lambda>b. g b \<noteq> []) band_order) = Inr bs"
    using assms by (auto simp: evaluate_bands_def bind_res_eq_Inr)
  show srt: "sorted_wrt (<) (map duration_ms ss)" "distinct (map hs_horizon ss)" "2 \<le> length ss" "length ss \<le> 8"
    using v by (simp_all add: validate_signals_Inr)
  let ?bs = "filter (\<lambda>b. g b \<noteq> []) band_order"
  have all: "list_all2 (\<lambda>x b. evaluate_band P x (g x) = Inr b) ?bs bs" using b by (simp add: map_res_Inr)
  then have "map bd_band bs = ?bs \<and> map bd_horizons bs = map (\<lambda>x. map hs_horizon (g x)) ?bs"
    by (induction rule: list_all2_induct) (auto dest: evaluate_band_Inr)
  then have bands: "map bd_band bs = ?bs" and hs: "map bd_horizons bs = map (\<lambda>x. map hs_horizon (g x)) ?bs" by simp_all
  have "concat (map bd_horizons bs) = map hs_horizon (concat (map g ?bs))"
    unfolding hs by (simp add: map_concat comp_def)
  then show "concat (map bd_horizons bs) = map hs_horizon ss" unfolding grouped_concat[OF g srt(1)] .
  then show "bs \<noteq> []" using srt(3) by auto
  show "distinct (map bd_band bs)" unfolding bands by (simp add: band_order_def)
  show "\<forall>b \<in> set bs. \<exists>ms. ms \<noteq> [] \<and> ms = filter (\<lambda>s. band_of P (duration_ms s) = bd_band b) ss
       \<and> evaluate_band P (bd_band b) ms = Inr b"
  proof
    fix b assume "b \<in> set bs"
    then obtain i where i: "i < length bs" "b = bs ! i" by (metis in_set_conv_nth)
    define x where "x = ?bs ! i"
    have "i < length ?bs" using list_all2_lengthD[OF all] i(1) by simp
    then have x: "x \<in> set ?bs" "evaluate_band P x (g x) = Inr b"
      using list_all2_nthD2[OF all i(1)] i(2) nth_mem unfolding x_def by blast+
    moreover have "bd_band b = x" using evaluate_band_Inr[OF x(2)] by simp
    ultimately show "\<exists>ms. ms \<noteq> [] \<and> ms = filter (\<lambda>s. band_of P (duration_ms s) = bd_band b) ss
       \<and> evaluate_band P (bd_band b) ms = Inr b"
      unfolding group_signals_Inr[OF g, symmetric] by auto
  qed
qed

lemma members_of_band:
  assumes "evaluate_bands P ss = Inr bs" "b \<in> set bs"
  shows "band_verdict P (filter (\<lambda>s. hs_horizon s \<in> set (bd_horizons b)) ss) (bd_direction b) (bd_alignment b)"
proof -
  note f = evaluate_bands_Inr[OF assms(1)]
  from f(8) assms(2) obtain ms where ms: "ms \<noteq> []" "ms = filter (\<lambda>s. band_of P (duration_ms s) = bd_band b) ss"
    and e: "evaluate_band P (bd_band b) ms = Inr b" by blast
  note r = evaluate_band_Inr[OF e]
  have "filter (\<lambda>s. hs_horizon s \<in> set (bd_horizons b)) ss = ms"
    unfolding conjunct1[OF conjunct2[OF r]] ms(2)
    by (rule filter_cong) (use f(2) in \<open>auto simp: distinct_map dest: inj_onD\<close>)
  then show ?thesis using band_state_verdict[of P ms "bd_direction b" "bd_alignment b"] r ms(1) by simp
qed

lemma round3_clamp [range_intros]: "in_range 0 100 (round3 (clamp100 v))"
  unfolding round3_def by (intro range_intros) simp

lemma strength_of_range [range_intros]: "in_range 0 100 (strength_of d s c)"
  by (simp add: strength_of_def range_intros)

lemma assess_bands_sel:
  "ha_bands (assess_bands T P ss bs) = bs"
  "(ha_direction (assess_bands T P ss bs), ha_alignment (assess_bands T P ss bs), ha_conflict_type (assess_bands T P ss bs))
     = overall_state bs"
  "ha_structural_direction (assess_bands T P ss bs) = structural_direction bs"
  "ha_risk_level (assess_bands T P ss bs) = band_risk_level P (max_volatility ss) (max_manipulation ss)"
  "ha_action_posture (assess_bands T P ss bs) = horizon_posture (ha_direction (assess_bands T P ss bs))
     (ha_alignment (assess_bands T P ss bs)) (ha_risk_level (assess_bands T P ss bs))"
  "in_range 0 100 (ha_strength (assess_bands T P ss bs))" "in_range 0 100 (ha_confidence (assess_bands T P ss bs))"
  "in_range 0 100 (ha_urgency (assess_bands T P ss bs))"
  by (simp_all add: assess_bands_def Let_def split_beta band_risk_level_def overall_confidence_def range_intros
      del: overall_risk_level.simps)

lemma bounded_in_range: "bounded l h v \<longleftrightarrow> in_range l h v"
  by (cases v) (auto simp: bounded_def)

lemma mk_signal_ranges:
  assumes "mk_signal s = Inr t"
  shows "in_range (- 100) 100 (hs_score s)" "in_range 0 100 (hs_volatility_risk s)" "in_range 0 100 (hs_manipulation_risk s)"
proof -
  have "\<not> (\<exists>x \<in> set (signal_fields s). (case x of (n, v, lo, hi) \<Rightarrow> \<not> in_range lo hi v))"
    using assms by (auto simp: mk_signal_def bounded_in_range find_None_iff split: if_splits option.splits)
  then show "in_range (- 100) 100 (hs_score s)" "in_range 0 100 (hs_volatility_risk s)"
    "in_range 0 100 (hs_manipulation_risk s)" by (simp_all add: signal_fields_def)
qed

lemma in_range_not_NaN: "in_range l h x \<Longrightarrow> x \<noteq> NaN"
  by auto

text \<open>Some signal is at or above a threshold of its risk; the level is that of the worst signal.\<close>

definition some_reach :: "(thresholds \<Rightarrow> pyfloat) \<Rightarrow> horizon_policy \<Rightarrow> signal list \<Rightarrow> bool" where
  "some_reach th P ss \<longleftrightarrow> (\<exists>s \<in> set ss. fle (th (hp_volatility P)) (hs_volatility_risk s)
     \<or> fle (th (hp_manipulation P)) (hs_manipulation_risk s))"

definition worst_level :: "horizon_policy \<Rightarrow> signal list \<Rightarrow> risk_level" where
  "worst_level P ss = (if some_reach th_extreme P ss then Extreme else if some_reach th_high P ss then High
     else if some_reach th_medium P ss then Medium else Low)"

lemma max_reaches:
  assumes "\<forall>s \<in> set ss. f s \<noteq> NaN" "ss \<noteq> []"
  shows "fle t (fmax_list (Fin 0) (map f ss)) \<longleftrightarrow> (\<exists>s \<in> set ss. fle t (f s))"
proof
  assume t: "fle t (fmax_list (Fin 0) (map f ss))"
  have "fmax_list (Fin 0) (map f ss) \<in> set (map f ss)" by (rule fmax_list_member) (use assms(2) in simp)
  with t show "\<exists>s \<in> set ss. fle t (f s)" by auto
next
  assume "\<exists>s \<in> set ss. fle t (f s)"
  then obtain s where s: "s \<in> set ss" "fle t (f s)" by blast
  have "fle (f s) (fmax_list (Fin 0) (map f ss))" by (rule fmax_list_upper) (use assms(1) s(1) in auto)
  with s(2) show "fle t (fmax_list (Fin 0) (map f ss))" by (rule fle_trans)
qed

lemma some_reach_max:
  assumes "list_all (\<lambda>s. mk_signal s = Inr s) ss" "ss \<noteq> []"
  shows "some_reach th P ss \<longleftrightarrow> fle (th (hp_volatility P)) (max_volatility ss)
     \<or> fle (th (hp_manipulation P)) (max_manipulation ss)"
proof -
  have ok: "\<And>t. t \<in> set ss \<Longrightarrow> mk_signal t = Inr t" using assms(1) by (simp add: list_all_iff)
  have nan: "\<forall>s \<in> set ss. hs_volatility_risk s \<noteq> NaN" "\<forall>s \<in> set ss. hs_manipulation_risk s \<noteq> NaN"
    using in_range_not_NaN[OF mk_signal_ranges(2)[OF ok]] in_range_not_NaN[OF mk_signal_ranges(3)[OF ok]] by simp_all
  show ?thesis
    unfolding some_reach_def max_volatility_def max_manipulation_def max_reaches[OF nan(1) assms(2)]
      max_reaches[OF nan(2) assms(2)] by blast
qed

lemma worst_level_correct:
  assumes "list_all (\<lambda>s. mk_signal s = Inr s) ss" "ss \<noteq> []"
  shows "band_risk_level P (max_volatility ss) (max_manipulation ss) = worst_level P ss"
  unfolding worst_level_def some_reach_max[OF assms] band_risk_level_def level_for_def
  by (simp split: if_splits)

text \<open>What the documentation says about the posture.\<close>

fun documented_posture :: "direction \<Rightarrow> risk_level \<Rightarrow> action_posture" where
  "documented_posture d Extreme = Avoid_chasing"
| "documented_posture d High = Reduce_exposure"
| "documented_posture d Medium = Wait_for_confirmation"
| "documented_posture Conflict Low = Wait_for_confirmation"
| "documented_posture Neutral Low = Observe"
| "documented_posture Bullish Low = Cautious_follow"
| "documented_posture Bearish Low = Cautious_follow"

lemma horizon_posture_documented:
  "overall_verdict bs d al ct \<Longrightarrow> horizon_posture d al l = documented_posture d l"
  by (cases l; cases d) (auto simp: horizon_posture_def overall_verdict_def directional_def)

text \<open>The last band that is not neutral decides the structural direction, unless it is in conflict.\<close>

definition structural_verdict :: "band_decision list \<Rightarrow> direction \<Rightarrow> bool" where
  "structural_verdict bs d \<longleftrightarrow>
     (case find (\<lambda>b. bd_direction b \<noteq> Neutral) (rev bs) of
        None \<Rightarrow> d = Neutral
      | Some b \<Rightarrow> d = (if bd_direction b = Conflict then Neutral else bd_direction b))"

lemma structural_loop_verdict: "structural_verdict (rev bs) (structural_loop bs)"
proof (induction bs)
  case (Cons b bs)
  then show ?case by (cases "bd_direction b") (auto simp: structural_verdict_def directional_def)
qed (simp add: structural_verdict_def)

text \<open>
  C8: An assessment over well-formed signals reads them as documented. The bands list every horizon
  once, in order. A band is bullish or bearish only when a member qualifies for that direction, none
  qualifies for the other and its longest member is not in material conflict; it is neutral only
  when no member qualifies or conflicts, and in conflict only when its longest member is, when
  members qualify for both directions, or when none qualifies and one conflicts. The whole is in
  conflict exactly when a band is or two bands oppose each other, aligned exactly when at least two
  bands exist and all agree, and indeterminate exactly when no band has a direction. The kind of the
  conflict is exact: within a band, broad when there is also opposition, otherwise both lower bands
  against the long one, the medium band alone against it, or the short one against a higher one. The
  structural direction is that of the longest band that is not neutral, and neutral when that band is
  in conflict. The risk level is the highest that some signal reaches in either risk, and the posture
  is the documented one for the level and the direction. Strength, confidence and urgency lie between
  0 and 100.
\<close>

theorem horizon_assessment_sound:
  assumes "evaluate_horizons T P ss = Inr a" "list_all (\<lambda>s. mk_signal s = Inr s) ss"
  shows "concat (map bd_horizons (ha_bands a)) = map hs_horizon ss
    \<and> list_all (\<lambda>b. band_verdict P (filter (\<lambda>s. hs_horizon s \<in> set (bd_horizons b)) ss)
        (bd_direction b) (bd_alignment b)) (ha_bands a)
    \<and> overall_verdict (ha_bands a) (ha_direction a) (ha_alignment a) (ha_conflict_type a)
    \<and> structural_verdict (ha_bands a) (ha_structural_direction a)
    \<and> ha_risk_level a = worst_level P ss
    \<and> ha_action_posture a = documented_posture (ha_direction a) (ha_risk_level a)
    \<and> list_all (in_range 0 100) [ha_strength a, ha_confidence a, ha_urgency a]"
proof -
  obtain bs where bs: "evaluate_bands P ss = Inr bs" and a: "a = assess_bands T P ss bs"
    using assms(1) by (auto simp: evaluate_horizons_def bind_res_eq_Inr)
  note sel = assess_bands_sel[where T = T and P = P and ss = ss and bs = bs, folded a]
  note f = evaluate_bands_Inr[OF bs]
  have "list_all (\<lambda>b. band_verdict P (filter (\<lambda>s. hs_horizon s \<in> set (bd_horizons b)) ss)
        (bd_direction b) (bd_alignment b)) bs"
    unfolding list_all_iff using members_of_band[OF bs] by blast
  moreover have v: "overall_verdict bs (ha_direction a) (ha_alignment a) (ha_conflict_type a)"
    by (rule overall_state_verdict[OF sel(2)[symmetric] f(6)])
  moreover have "ha_risk_level a = worst_level P ss"
    unfolding sel(4) by (rule worst_level_correct[OF assms(2)]) (use f(3) in auto)
  moreover have "ha_action_posture a = documented_posture (ha_direction a) (ha_risk_level a)"
    unfolding sel(5) by (rule horizon_posture_documented[OF v])
  moreover have "structural_verdict bs (structural_direction bs)"
    using structural_loop_verdict[of "rev bs"] by (simp add: structural_direction_def)
  ultimately show ?thesis unfolding sel(1,3) using f(5) sel(6-8) by simp
qed

definition sample_signal :: "string \<Rightarrow> direction \<Rightarrow> int \<Rightarrow> pyfloat \<Rightarrow> signal" where
  "sample_signal h d s v = \<lparr>hs_horizon = h, hs_direction = d, hs_score = Fin (of_int s), hs_strength = Fin 50,
     hs_confidence = Fin 60, hs_volatility_risk = v, hs_manipulation_risk = Fin 10\<rparr>"

definition sample_signals :: "signal list" where
  "sample_signals = [sample_signal ''1h'' Bullish 40 (Fin 20), sample_signal ''1d'' Bearish (- 30) (Fin 80)]"

text \<open>A band with one signal that is not in conflict always has a decision.\<close>

lemma evaluate_single:
  assumes "mk_signal s = Inr s" "hs_score s = Fin x" "b64 x = Fin x" "hs_direction s \<noteq> Conflict"
  shows "\<exists>b. evaluate_band P band [s] = Inr b \<and> bd_structural_score b = round3 (Fin x) \<and> bd_conflict_score b = Fin 0"
proof -
  have r: "in_range (- 100) 100 (Fin x)" "in_range 0 100 (hs_volatility_risk s)" "in_range 0 100 (hs_manipulation_risk s)"
    using mk_signal_ranges[OF assms(1)] assms(2) by simp_all
  have w: "within_band_weights [s] = [(hs_horizon s, Fin 1)]" by (simp add: within_band_weights_def int_div_def)
  have score: "round3 (fdiv (fsum [fmul (hs_score s) (Fin 1)]) (fsum [Fin 1])) = round3 (Fin x)"
    using assms(2,3) by (simp add: fsum_def)
  have nc: "\<not> is_material_conflict P s" using assms(4) by (simp add: is_material_conflict_def)
  obtain d al where st: "band_state P [s] = (d, al)" "al \<noteq> Conflicted" "d \<noteq> Conflict"
    "al = Indeterminate \<longrightarrow> d = Neutral" "al \<in> {Aligned, Partial} \<longrightarrow> directional d"
    using nc by (cases "is_qualified P s") (auto simp: band_state_def is_qualified_def directional_def)
  have "in_range (- 100) 100 (round3 (Fin x))" unfolding round3_def by (rule py_round_score[OF r(1)])
  moreover have "in_range 0 100 (round3 (max_volatility [s]))" "in_range 0 100 (round3 (max_manipulation [s]))"
    using r(2,3) by (simp_all add: round3_def max_volatility_def max_manipulation_def py_round_percent)
  moreover have "round3 (Fin 0) = Fin 0" by (simp add: round3_def)
  ultimately show ?thesis
    using st(2-5) unfolding evaluate_band_def Let_def w st(1) prod.case
    by (simp add: score weight_at_def mk_band_def check_band_members_def check_band_state_def not_increasing_def
        validate_score_def validate_percentages_def validate_percentage_def bounded_in_range strength_of_range round3_clamp) blast
qed

lemma sample_signals_assessed:
  "\<exists>a. evaluate_horizons plain_wording default_horizon_policy sample_signals = Inr a"
proof -
  have dur: "map duration_ms sample_signals = [3600000, 86400000]" by code_simp
  let ?P = default_horizon_policy
  let ?s = "sample_signal ''1h'' Bullish 40 (Fin 20)" and ?t = "sample_signal ''1d'' Bearish (- 30) (Fin 80)"
  have ss: "sample_signals = [?s, ?t]" by (simp add: sample_signals_def)
  have ok: "mk_signal ?s = Inr ?s" "mk_signal ?t = Inr ?t" by code_simp+
  have v: "validate_signals sample_signals = Inr ()"
    unfolding validate_signals_Inr dur by (simp add: sample_signals_def sample_signal_def)
  have "\<exists>b. evaluate_band ?P Short_band [?s] = Inr b" "\<exists>b. evaluate_band ?P Medium_band [?t] = Inr b"
    using evaluate_single[OF ok(1), of 40 ?P Short_band] evaluate_single[OF ok(2), of "- 30" ?P Medium_band]
    by (auto simp: sample_signal_def b64_num b64_neg_num)
  then obtain b c where b: "evaluate_band ?P Short_band [?s] = Inr b" and c: "evaluate_band ?P Medium_band [?t] = Inr c"
    by blast
  have "map_res (\<lambda>s. band_for ?P (hs_horizon s)) sample_signals = Inr [Short_band, Medium_band]" by code_simp
  then have "group_signals ?P sample_signals
      = Inr (\<lambda>b. map fst (filter (\<lambda>(s, b'). b' = b) (zip [?s, ?t] [Short_band, Medium_band])))"
    by (simp add: group_signals_def ss)
  then have "evaluate_bands ?P sample_signals = Inr [b, c]"
    by (simp add: evaluate_bands_def v band_order_def b c)
  then show ?thesis by (simp add: evaluate_horizons_def)
qed

theorem horizon_assessment_sound_witness:
  "\<exists>a. evaluate_horizons plain_wording default_horizon_policy sample_signals = Inr a
     \<and> ha_action_posture a = Avoid_chasing \<and> concat (map bd_horizons (ha_bands a)) = [''1h'', ''1d'']"
proof -
  obtain a where a: "evaluate_horizons plain_wording default_horizon_policy sample_signals = Inr a"
    using sample_signals_assessed by blast
  have "list_all (\<lambda>s. mk_signal s = Inr s) sample_signals" by code_simp
  from horizon_assessment_sound[OF a this] a show ?thesis
    by (simp add: sample_signals_def sample_signal_def default_horizon_policy_def worst_level_def some_reach_def)
qed

subsection \<open>Issued decisions\<close>

lemma run_checks_Inr: "run_checks cs = Inr () \<longleftrightarrow> (\<forall>(bad, m) \<in> set cs. \<not> bad)"
  by (induction cs rule: run_checks.induct) auto

lemma mk_horizon_decision_Inr:
  assumes "mk_horizon_decision L d = Inr d'"
  shows "d' = d" "check_decision_identity d = Inr ()" "check_decision_state d = Inr ()"
    "check_decision_risks d = Inr ()" "check_decision_end L d = Inr ()"
  using assms by (auto simp: mk_horizon_decision_def bind_res_eq_Inr)

text \<open>The steps of the Cell that come before the constructor.\<close>

lemma horizon_analyze_Inr:
  assumes "horizon_analyze L E T P a w = (Inr d, w')"
  obtains ss bs h ws evs now where "analysis_signals a = Inr ss" "evaluate_bands P ss = Inr bs"
    "json_hash L (PDict (analysis_identity P a ss (assess_bands T P ss bs))) = Inr h"
    "signal_weights P ss = Inr ws"
    "d = horizon_decision_of T P a ss (assess_bands T P ss bs) h evs now"
    "mk_horizon_decision L d = Inr d"
proof -
  let ?pre = "bind_res (analysis_signals a) (\<lambda>ss. bind_res (evaluate_horizons T P ss) (\<lambda>x.
        bind_res (json_hash L (PDict (analysis_identity P a ss x))) (\<lambda>h.
        bind_res (signal_weights P ss) (\<lambda>ws.
        bind_res (map_res (\<lambda>s. band_for P (hs_horizon s)) ss) (\<lambda>bs.
        Inr (ss, x, h, map (horizon_evidence T ws) (zip ss bs)))))))"
  obtain ss x h evs where pre: "?pre = Inr (ss, x, h, evs)"
    using assms by (cases ?pre) (auto simp: horizon_analyze_def)
  obtain now w1 where now: "env_now E w = (now, w1)" by fastforce
  have "mk_horizon_decision L (horizon_decision_of T P a ss x h evs now) = Inr d"
    using assms by (simp add: horizon_analyze_def pre now)
  moreover from this have "d = horizon_decision_of T P a ss x h evs now" by (rule mk_horizon_decision_Inr(1))
  moreover obtain ws bs where "analysis_signals a = Inr ss" "evaluate_bands P ss = Inr bs" "x = assess_bands T P ss bs"
    "json_hash L (PDict (analysis_identity P a ss x)) = Inr h" "signal_weights P ss = Inr ws"
    using pre by (auto simp: bind_res_eq_Inr evaluate_horizons_def)
  ultimately show ?thesis using that by blast
qed

lemma assess_bands_risks:
  "ha_volatility_risk (assess_bands T P ss bs) = round3 (max_volatility ss)"
  "ha_manipulation_risk (assess_bands T P ss bs) = round3 (max_manipulation ss)"
  "ha_risk_breakdown (assess_bands T P ss bs) = [(''volatility_risk'', level_for (hp_volatility P) (max_volatility ss)),
     (''manipulation_risk'', level_for (hp_manipulation P) (max_manipulation ss))]"
  by (simp_all add: assess_bands_def Let_def split_beta)

lemma same_dict_pair:
  "same_dict [(''volatility_risk'', a), (''manipulation_risk'', b)] [(''volatility_risk'', c), (''manipulation_risk'', d)]
     \<longleftrightarrow> a = c \<and> b = d"
  by (auto simp: same_dict_def)

text \<open>The two levels of an issued decision do not change when the risks are rounded.\<close>

lemma issued_levels:
  assumes "check_decision_risks (horizon_decision_of T P a ss (assess_bands T P ss bs) h evs now) = Inr ()"
  shows "level_for (hp_volatility P) (round3 (max_volatility ss)) = level_for (hp_volatility P) (max_volatility ss)"
    "level_for (hp_manipulation P) (round3 (max_manipulation ss)) = level_for (hp_manipulation P) (max_manipulation ss)"
proof -
  from assms have "same_dict [(''volatility_risk'', level_for (hp_volatility P) (max_volatility ss)),
      (''manipulation_risk'', level_for (hp_manipulation P) (max_manipulation ss))]
    [(''volatility_risk'', level_for (hp_volatility P) (round3 (max_volatility ss))),
      (''manipulation_risk'', level_for (hp_manipulation P) (round3 (max_manipulation ss)))]"
    unfolding check_decision_risks_def Let_def run_checks_Inr
    by (simp add: horizon_decision_of_def assess_bands_risks)
  then show "level_for (hp_volatility P) (round3 (max_volatility ss)) = level_for (hp_volatility P) (max_volatility ss)"
    "level_for (hp_manipulation P) (round3 (max_manipulation ss)) = level_for (hp_manipulation P) (max_manipulation ss)"
    unfolding same_dict_pair by simp_all
qed

text \<open>
  C7: An issued decision is what its sources say. Its hash is the hash of its own identity payload and
  gives its id, it names the request, the horizons and the signals of the analysis, its bands list
  those horizons once and in order, its direction, alignment and conflict type follow from the bands,
  and its risk level is the level of the greatest source risks, rounded or not.
\<close>

theorem issued_decision_faithful:
  assumes "horizon_analyze L E T P a w = (Inr d, w')"
  shows "json_hash L (PDict (decision_identity d)) = Inr (hd_decision_hash d)
    \<and> hd_decision_id d = ''horizon-decision:'' @ take 24 (hd_decision_hash d)
    \<and> hd_request_hash d = ma_request_hash a \<and> hd_horizon_order d = ma_horizon_order a
    \<and> analysis_signals a = Inr (hd_source_signals d)
    \<and> map hs_horizon (hd_source_signals d) = ma_horizon_order a
    \<and> concat (map bd_horizons (hd_bands d)) = ma_horizon_order a
    \<and> overall_verdict (hd_bands d) (hd_direction d) (hd_alignment d) (hd_conflict_type d)
    \<and> hd_risk_level d = band_risk_level P (max_volatility (hd_source_signals d)) (max_manipulation (hd_source_signals d))
    \<and> hd_risk_level d = band_risk_level P (hd_volatility_risk d) (hd_manipulation_risk d)"
proof (rule horizon_analyze_Inr[OF assms])
  fix ss bs h ws evs now
  assume ss: "analysis_signals a = Inr ss" and bs: "evaluate_bands P ss = Inr bs"
    and d: "d = horizon_decision_of T P a ss (assess_bands T P ss bs) h evs now"
    and mk: "mk_horizon_decision L d = Inr d"
  note c = mk_horizon_decision_Inr[OF mk]
  note f = evaluate_bands_Inr[OF bs]
  have sel: "hd_request_hash d = ma_request_hash a" "hd_horizon_order d = ma_horizon_order a"
    "hd_source_signals d = ss" "hd_bands d = bs" "hd_decision_id d = ''horizon-decision:'' @ take 24 (hd_decision_hash d)"
    "hd_risk_level d = ha_risk_level (assess_bands T P ss bs)"
    "hd_volatility_risk d = round3 (max_volatility ss)" "hd_manipulation_risk d = round3 (max_manipulation ss)"
    "(hd_direction d, hd_alignment d, hd_conflict_type d) = overall_state bs"
    unfolding d by (simp_all add: horizon_decision_of_def assess_bands_sel assess_bands_risks)
  have hash: "json_hash L (PDict (decision_identity d)) = Inr (hd_decision_hash d)"
    using c(5) by (auto simp: check_decision_end_def bind_res_eq_Inr split: if_splits)
  have order: "map hs_horizon ss = ma_horizon_order a"
    using c(2) unfolding check_decision_identity_def run_checks_Inr by (simp add: sel)
  have level: "hd_risk_level d = band_risk_level P (max_volatility ss) (max_manipulation ss)"
    unfolding sel(6) by (rule assess_bands_sel(4))
  have "band_risk_level P (max_volatility ss) (max_manipulation ss)
      = band_risk_level P (round3 (max_volatility ss)) (round3 (max_manipulation ss))"
    unfolding band_risk_level_def issued_levels[OF c(4)[unfolded d]] ..
  with level overall_state_verdict[OF sel(9)[symmetric] f(6)] hash order f(5) ss show ?thesis
    unfolding sel(1-5,7,8) by simp
qed

text \<open>
  C17: A risk that reaches a threshold only once it is rounded has no decision. The policy takes the
  risk levels of the unrounded maxima and the constructor those of the maxima rounded to three
  digits, so when the two levels differ, in either risk, the Cell raises an exception for every
  analysis with these signals, at every time.
\<close>

theorem boundary_risk_refused:
  assumes "analysis_signals a = Inr ss"
    and "level_for (hp_volatility P) (round3 (max_volatility ss)) \<noteq> level_for (hp_volatility P) (max_volatility ss)
      \<or> level_for (hp_manipulation P) (round3 (max_manipulation ss)) \<noteq> level_for (hp_manipulation P) (max_manipulation ss)"
  shows "\<exists>e. fst (horizon_analyze L E T P a w) = Inl e"
proof (rule ccontr)
  assume "\<nexists>e. fst (horizon_analyze L E T P a w) = Inl e"
  then obtain d w' where d: "horizon_analyze L E T P a w = (Inr d, w')"
    by (cases "horizon_analyze L E T P a w") (metis fst_conv sum.exhaust)
  show False
  proof (rule horizon_analyze_Inr[OF d])
    fix ss' bs h ws evs now
    assume "analysis_signals a = Inr ss'" "mk_horizon_decision L d = Inr d"
      "d = horizon_decision_of T P a ss' (assess_bands T P ss' bs) h evs now"
    then show False using assms issued_levels[OF mk_horizon_decision_Inr(4)] by auto
  qed
qed

definition boundary_report :: "string \<Rightarrow> report" where
  "boundary_report h = \<lparr>rp_target = ''BTCUSDT'', rp_horizon = h,
     rp_decision = CellResult ''root.decision'' ''DecisionCell'' ''decision'' ''BTCUSDT'' h Neutral (Fin 5) (Fin 50)
       (Fin (75 - 1 / 4096)) (Fin 10) (Fin 80) (Fin 0) [] None None [] [] [],
     rp_summary = [], rp_run_id = None, rp_report_id = None, rp_schema_version = [], rp_engine_version = None,
     rp_formula_versions = [(''root.decision'', ''v1'')], rp_created_at = None\<rparr>"

definition boundary_analysis :: mh_analysis where
  "boundary_analysis = \<lparr>ma_batch_id = ''multi-horizon:'' @ replicate 32 CHR ''a'',
     ma_request_id = request_id_of (replicate 64 CHR ''a''), ma_request_hash = replicate 64 CHR ''a'',
     ma_target = ''BTCUSDT'', ma_as_of_ms = 0, ma_horizon_order = [''1h'', ''1d''],
     ma_reports = map boundary_report [''1h'', ''1d''], ma_graph_id = ''g'', ma_graph_version = ''v1'',
     ma_graph_content_hash = replicate 64 CHR ''a'', ma_formula_versions = [(''root.decision'', ''v1'')],
     ma_created_at = ''now'', ma_aggregation_status = ''not_computed'', ma_schema_version = mh_analysis_schema,
     ma_metadata = []\<rparr>"

text \<open>With the default policy: \<open>75 - 1/4096\<close> is high, but rounds to \<open>75\<close>, which is extreme.\<close>

theorem boundary_risk_refused_witness:
  "mk_analysis boundary_analysis = Inr boundary_analysis
   \<and> (\<exists>e. fst (horizon_analyze echo_lib tick_env plain_wording default_horizon_policy boundary_analysis 0) = Inl e)"
proof
  show "mk_analysis boundary_analysis = Inr boundary_analysis" by code_simp
  let ?s = "\<lambda>h. \<lparr>hs_horizon = h, hs_direction = Neutral, hs_score = Fin 0, hs_strength = Fin 5, hs_confidence = Fin 50,
    hs_volatility_risk = Fin (75 - 1 / 4096), hs_manipulation_risk = Fin 10\<rparr>"
  have ss: "analysis_signals boundary_analysis = Inr [?s ''1h'', ?s ''1d'']"
    by code_simp
  have m: "max_volatility [?s ''1h'', ?s ''1d''] = Fin (75 - 1 / 4096)"
    by (simp add: max_volatility_def fmax_def)
  have "round_half_even ((75 - 1 / 4096) * 10 ^ 3) = 75000" by code_simp
  then have "round3 (Fin (75 - 1 / 4096)) = Fin 75" by (simp add: round3_def b64_num)
  then have "level_for (hp_volatility default_horizon_policy) (round3 (max_volatility [?s ''1h'', ?s ''1d'']))
      \<noteq> level_for (hp_volatility default_horizon_policy) (max_volatility [?s ''1h'', ?s ''1d''])"
    unfolding m by (simp add: level_for_def default_horizon_policy_def)
  from boundary_risk_refused[OF ss disjI1[OF this]]
  show "\<exists>e. fst (horizon_analyze echo_lib tick_env plain_wording default_horizon_policy boundary_analysis 0) = Inl e" .
qed

text \<open>A quiet analysis for which every step can be followed, under a policy with equal band weights.\<close>

definition quiet_report :: "string \<Rightarrow> report" where
  "quiet_report h = (boundary_report h)\<lparr>rp_decision := CellResult ''root.decision'' ''DecisionCell'' ''decision''
     ''BTCUSDT'' h Neutral (Fin 5) (Fin 50) (Fin 20) (Fin 10) (Fin 20) (Fin 0) [] None None [] [] []\<rparr>"

definition quiet_analysis :: mh_analysis where
  "quiet_analysis = boundary_analysis\<lparr>ma_reports := map quiet_report [''1h'', ''1d'']\<rparr>"

definition flat_policy :: horizon_policy where
  "flat_policy = default_horizon_policy\<lparr>hp_band_authority := \<lambda>_. Fin 1\<rparr>"

definition const_lib :: stdlib where
  "const_lib = echo_lib\<lparr>sl_sha256_hex := \<lambda>_. replicate 64 CHR ''a''\<rparr>"

definition quiet_signal :: "string \<Rightarrow> signal" where
  "quiet_signal h = \<lparr>hs_horizon = h, hs_direction = Neutral, hs_score = Fin 0, hs_strength = Fin 5, hs_confidence = Fin 50,
    hs_volatility_risk = Fin 20, hs_manipulation_risk = Fin 10\<rparr>"

lemma round3_int: "0 \<le> n \<Longrightarrow> n < 2 ^ 53 \<Longrightarrow> round3 (Fin (of_int n)) = Fin (of_int n)"
proof -
  assume n: "0 \<le> n" "n < 2 ^ 53"
  have "(of_int n :: rat) * 10 ^ 3 = of_int (n * 1000)" by simp
  then have "round_half_even ((of_int n :: rat) * 10 ^ 3) = n * 1000" by (simp only: round_half_even_int)
  then show ?thesis using b64_int[OF n] by (simp add: round3_def)
qed

lemma b64_half: "b64 (1 / 2) = Fin (1 / 2)"
  using b64_exact[of 1 "- 1"] by (simp add: pow2_def)

lemma quiet_bands:
  obtains b c where "evaluate_bands flat_policy [quiet_signal ''1h'', quiet_signal ''1d''] = Inr [b, c]"
    "evaluate_band flat_policy Short_band [quiet_signal ''1h''] = Inr b"
    "evaluate_band flat_policy Medium_band [quiet_signal ''1d''] = Inr c"
    "bd_structural_score b = Fin 0" "bd_structural_score c = Fin 0" "bd_conflict_score b = Fin 0" "bd_conflict_score c = Fin 0"
proof -
  let ?P = flat_policy and ?s = "quiet_signal ''1h''" and ?t = "quiet_signal ''1d''"
  have dur: "map duration_ms [?s, ?t] = [3600000, 86400000]" by code_simp
  have ok: "mk_signal ?s = Inr ?s" "mk_signal ?t = Inr ?t" by code_simp+
  have v: "validate_signals [?s, ?t] = Inr ()"
    unfolding validate_signals_Inr dur by (simp add: quiet_signal_def)
  obtain b c where b: "evaluate_band ?P Short_band [?s] = Inr b" "bd_structural_score b = round3 (Fin 0)" "bd_conflict_score b = Fin 0"
    and c: "evaluate_band ?P Medium_band [?t] = Inr c" "bd_structural_score c = round3 (Fin 0)" "bd_conflict_score c = Fin 0"
    using evaluate_single[OF ok(1), of 0 ?P Short_band] evaluate_single[OF ok(2), of 0 ?P Medium_band]
    by (auto simp: quiet_signal_def)
  have "map_res (\<lambda>s. band_for ?P (hs_horizon s)) [?s, ?t] = Inr [Short_band, Medium_band]" by code_simp
  then have "group_signals ?P [?s, ?t]
      = Inr (\<lambda>b. map fst (filter (\<lambda>(s, b'). b' = b) (zip [?s, ?t] [Short_band, Medium_band])))"
    by (simp add: group_signals_def)
  then have "evaluate_bands ?P [?s, ?t] = Inr [b, c]"
    by (simp add: evaluate_bands_def v band_order_def b c)
  with b c show ?thesis using that round3_int[of 0] by simp
qed

lemma evaluate_band_mk: "evaluate_band P band ss = Inr b \<Longrightarrow> mk_band b = Inr b"
proof -
  assume e: "evaluate_band P band ss = Inr b"
  obtain d al where st: "band_state P ss = (d, al)" by fastforce
  from e show ?thesis unfolding evaluate_band_def Let_def st prod.case using mk_band_same by blast
qed

lemma bounded_finite: "bounded l h v \<Longrightarrow> isfinite v"
  by (simp add: bounded_def)

lemma in_range_finite: "in_range l h v \<Longrightarrow> isfinite v"
  by (cases v) auto

lemma json_ok_strs [simp]: "json_ok (strs xs)"
  by (auto simp: strs_def)

lemma band_json_ok:
  assumes "mk_band b = Inr b"
  shows "json_ok (band_to_dict b)" "isfinite (bd_confidence b)"
proof -
  have "validate_score (bd_structural_score b) ''structural_score'' = Inr ()"
    "validate_percentages [(bd_strength b, ''strength''), (bd_confidence b, ''confidence''),
       (bd_volatility_risk b, ''volatility_risk''), (bd_manipulation_risk b, ''manipulation_risk''),
       (bd_conflict_score b, ''conflict_score'')] = Inr ()"
    using assms by (auto simp: mk_band_def bind_res_eq_Inr)
  then have "list_all isfinite [bd_structural_score b, bd_strength b, bd_confidence b, bd_volatility_risk b,
      bd_manipulation_risk b, bd_conflict_score b]"
    by (auto simp: validate_score_def validate_percentages_def validate_percentage_def bind_res_eq_Inr map_res_Inr
        list_all2_Cons1 split: if_splits dest: bounded_finite)
  then show "json_ok (band_to_dict b)" "isfinite (bd_confidence b)" by (simp_all add: band_to_dict_def)
qed

text \<open>The Cell and the constructor hash the same payload.\<close>

lemma decision_identity_of:
  "ma_schema_version a = ''multi_horizon_analysis.v1'' \<Longrightarrow>
     decision_identity (horizon_decision_of T P a ss x h evs now) = analysis_identity P a ss x"
  by (simp add: decision_identity_def analysis_identity_def horizon_decision_of_def)

lemma in_range_bounded: "in_range l h v \<Longrightarrow> bounded l h v"
  by (simp add: bounded_in_range)

lemma quiet_issued:
  "\<exists>d w'. horizon_analyze const_lib tick_env plain_wording flat_policy quiet_analysis 0 = (Inr d, w')"
proof -
  let ?P = flat_policy and ?s = "quiet_signal ''1h''" and ?t = "quiet_signal ''1d''" and ?h = "replicate 64 CHR ''a''"
  let ?ss = "[?s, ?t]" and ?T = plain_wording
  obtain b c where bs: "evaluate_bands ?P ?ss = Inr [b, c]"
    and b: "evaluate_band ?P Short_band [?s] = Inr b" and c: "evaluate_band ?P Medium_band [?t] = Inr c"
    and scores: "bd_structural_score b = Fin 0" "bd_structural_score c = Fin 0" "bd_conflict_score b = Fin 0" "bd_conflict_score c = Fin 0"
    by (rule quiet_bands)
  note eb = evaluate_band_Inr[OF b] and ec = evaluate_band_Inr[OF c]
  have st: "band_state ?P [?s] = (Neutral, Indeterminate)" "band_state ?P [?t] = (Neutral, Indeterminate)" by code_simp+
  let ?x = "assess_bands ?T ?P ?ss [b, c]"
  have ss: "analysis_signals quiet_analysis = Inr ?ss" by code_simp
  have state: "overall_state [b, c] = (Neutral, Indeterminate, No_conflict)"
    using eb ec by (simp add: st overall_state_def directional_bands_def directional_def)
  have ws: "normalized_band_weights ?P [b, c] = [(Short_band, Fin (1 / 2)), (Medium_band, Fin (1 / 2))]"
    using eb ec by (simp add: normalized_band_weights_def fsum_def flat_policy_def b64_num b64_half)
  have risks: "max_volatility ?ss = Fin 20" "max_manipulation ?ss = Fin 10" "round3 (Fin 20) = Fin 20" "round3 (Fin 10) = Fin 10"
    using round3_int[of 20] round3_int[of 10] by (simp_all add: max_volatility_def max_manipulation_def quiet_signal_def fmax_def)
  have pol: "hp_volatility ?P = \<lparr>th_medium = Fin 35, th_high = Fin 55, th_extreme = Fin 75\<rparr>"
    "hp_manipulation ?P = \<lparr>th_medium = Fin 25, th_high = Fin 35, th_extreme = Fin 65\<rparr>"
    "hp_band_authority ?P = (\<lambda>_. Fin 1)" by (simp_all add: flat_policy_def default_horizon_policy_def)
  have x: "ha_direction ?x = Neutral" "ha_alignment ?x = Indeterminate" "ha_conflict_type ?x = No_conflict"
    "ha_structural_direction ?x = Neutral" "ha_structural_score ?x = Fin 0" "ha_conflict_score ?x = Fin 0" "ha_bands ?x = [b, c]"
    "ha_volatility_risk ?x = Fin 20" "ha_manipulation_risk ?x = Fin 10" "ha_risk_level ?x = Low"
    "ha_action_posture ?x = Observe"
    "ha_risk_breakdown ?x = [(''volatility_risk'', Low), (''manipulation_risk'', Low)]"
    "ha_explanation ?x = horizon_explanation ?T Neutral Neutral Indeterminate No_conflict Low Observe"
    using eb ec scores round3_int[of 0]
    by (simp_all add: assess_bands_def Let_def state risks ws structural_direction_def directional_def st fsum_def
        weight_at_def level_for_def pol horizon_posture_def)
  have bands: "map_res (\<lambda>s. band_for ?P (hs_horizon s)) ?ss = Inr [Short_band, Medium_band]" by code_simp
  have half: "py_round 8 (fmul (fdiv (Fin 1) (Fin 2)) (Fin 1)) = Fin (1 / 2)"
  proof -
    have "(1 / 2 :: rat) * 10 ^ 8 = of_int 50000000" by simp
    then have "round_half_even ((1 / 2 :: rat) * 10 ^ 8) = 50000000" by (simp only: round_half_even_int)
    then show ?thesis by (simp add: b64_half)
  qed
  have w1: "within_band_weights [s] = [(hs_horizon s, Fin 1)]" for s by (simp add: within_band_weights_def int_div_def)
  have sw: "signal_weights ?P ?ss = Inr [(''1h'', Fin (1 / 2)), (''1d'', Fin (1 / 2))]"
  proof -
    have "validate_signals ?ss = Inr ()" using bs by (auto simp: evaluate_bands_def bind_res_eq_Inr)
    moreover have "hs_horizon ?s = ''1h''" "hs_horizon ?t = ''1d''" by (simp_all add: quiet_signal_def)
    moreover have "group_signals ?P ?ss
        = Inr (\<lambda>b. map fst (filter (\<lambda>(s, b'). b' = b) (zip ?ss [Short_band, Medium_band])))"
      unfolding group_signals_def bands by simp
    ultimately show ?thesis using half
      by (simp add: signal_weights_def band_order_def pol fsum_def w1 weight_at_def b64_num
          del: py_round.simps fmul.simps fdiv.simps)
  qed
  note bj = band_json_ok[OF evaluate_band_mk[OF b]] and cj = band_json_ok[OF evaluate_band_mk[OF c]]
  note fin = assess_bands_sel(6-8)[where T = ?T and P = ?P and ss = ?ss and bs = "[b, c]"]
  define y where "y = ?x"
  note y = x[folded y_def] fin[folded y_def]
  have jp: "\<forall>kv \<in> set (policy_identity ?P). json_ok (snd kv)" "json_ok (signal_identity ?s)" "json_ok (signal_identity ?t)"
    by code_simp+
  have json: "json_hash const_lib (PDict (analysis_identity ?P quiet_analysis ?ss y)) = Inr ?h"
  proof -
    have "json_ok (PDict (analysis_identity ?P quiet_analysis ?ss y))"
      using bj(1) cj(1) jp in_range_finite[OF y(14)] in_range_finite[OF y(15)] in_range_finite[OF y(16)]
      by (simp add: analysis_identity_def y(1-13) breakdown_dict_def split_beta)
    then show ?thesis by (simp add: json_hash_def json_content_def canonical_json_hash_and_size_def const_lib_def)
  qed
  let ?evs = "map (horizon_evidence ?T [(''1h'', Fin (1 / 2)), (''1d'', Fin (1 / 2))]) (zip ?ss [Short_band, Medium_band])"
  let ?d = "horizon_decision_of ?T ?P quiet_analysis ?ss y ?h ?evs ''t0''"
  have z: "show_nat 0 = ''0''" by code_simp
  have ev: "evaluate_horizons ?T ?P ?ss = Inr y" by (simp add: evaluate_horizons_def bs y_def)
  have "horizon_analyze const_lib tick_env ?T ?P quiet_analysis 0 = (mk_horizon_decision const_lib ?d, 1)"
    unfolding horizon_analyze_def ss bind_res_simps ev json sw bands sum.case prod.case
    by (simp add: tick_env_def z)
  moreover have "mk_horizon_decision const_lib ?d = Inr ?d"
  proof -
    have sel: "hd_source_signals ?d = ?ss" "hd_bands ?d = [b, c]" "hd_policy ?d = ?P" "hd_evidence ?d = ?evs"
      "hd_horizon_order ?d = [''1h'', ''1d'']" "hd_decision_hash ?d = ?h"
      by (simp_all add: horizon_decision_of_def y(7) quiet_analysis_def boundary_analysis_def)
    have hs: "hs_horizon ?s = ''1h''" "hs_horizon ?t = ''1d''" by (simp_all add: quiet_signal_def)
    have hex: "hex_id [] 64 ?h" "hex_id ''horizon-decision:'' 24 (''horizon-decision:'' @ take 24 ?h)"
      "hex_id ''multi-horizon:'' 32 (ma_batch_id quiet_analysis)" "hex_id ''multi-horizon-request:'' 24 (request_id_of ?h)"
      "\<not> blank ''BTCUSDT''" "strip ''BTCUSDT'' = ''BTCUSDT''" by code_simp+
    have qa: "ma_request_hash quiet_analysis = ?h" "ma_request_id quiet_analysis = request_id_of ?h"
      "ma_target quiet_analysis = ''BTCUSDT''" "ma_as_of_ms quiet_analysis = 0" "ma_horizon_order quiet_analysis = [''1h'', ''1d'']"
      by (simp_all add: quiet_analysis_def boundary_analysis_def)
    have 1: "check_decision_identity ?d = Inr ()"
      unfolding check_decision_identity_def run_checks_Inr horizon_decision_of_def
      by (simp only: horizon_decision.select_convs hex qa y(1-13) hs list.set list.map ball_simps prod.case) auto
    have 2: "check_decision_numbers ?d = Inr ()"
      using in_range_bounded[OF y(14)] in_range_bounded[OF y(15)] in_range_bounded[OF y(16)]
      by (simp add: check_decision_numbers_def horizon_decision_of_def y(1-13) validate_score_def
          validate_percentages_def validate_percentage_def bounded_def)
    have 3: "check_decision_state ?d = Inr ()"
      using eb ec by (simp add: check_decision_state_def horizon_decision_of_def y(1-13) hs quiet_analysis_def boundary_analysis_def)
    have evs: "map evd_source ?evs = map (\<lambda>h. ''horizon:'' @ h) [''1h'', ''1d'']" "length ?evs = 2"
      "map evd_weight ?evs = [Fin (1 / 2), Fin (1 / 2)]" "check_evidence_pairs (zip ?ss ?evs) = Inr ()" by code_simp+
    have bad: "evidence_bad (horizon_evidence ?T [(''1h'', Fin (1 / 2)), (''1d'', Fin (1 / 2))] (?s, Short_band)) = False"
      "evidence_bad (horizon_evidence ?T [(''1h'', Fin (1 / 2)), (''1d'', Fin (1 / 2))] (?t, Medium_band)) = False"
      by code_simp+
    have one: "fsum [Fin (1 / 2), Fin (1 / 2)] = Fin 1" by (simp add: fsum_def b64_half)
    have 4: "check_decision_evidence ?d = Inr ()"
      unfolding check_decision_evidence_def sel evs one by (simp add: isclose_def bad)
    have text': "\<not> blank (horizon_explanation ?T Neutral Neutral Indeterminate No_conflict Low Observe)" by code_simp
    have src: "blank (ma_graph_id quiet_analysis) = False" "blank (ma_graph_version quiet_analysis) = False"
      "hex_id [] 64 (ma_graph_content_hash quiet_analysis)" "blank (hp_formula_version ?P) = False"
      "validate_policy ?P (hp_formula_version ?P) = Inr ()"
      "ma_formula_versions quiet_analysis = [(''root.decision'', ''v1'')]" "blank ''root.decision'' = False" "blank ''v1'' = False"
      by code_simp+
    have 5: "check_decision_sources ?d = Inr ()"
      using text' src by (simp add: check_decision_sources_def horizon_decision_of_def y(13))
    have 6: "check_decision_risks ?d = Inr ()"
      by (simp add: check_decision_risks_def horizon_decision_of_def y(1-13) risks isclose_def same_dict_def pol level_for_def)
    have one_risk: "max_volatility [?s] = Fin 20" "max_manipulation [?s] = Fin 10" "max_volatility [?t] = Fin 20"
      "max_manipulation [?t] = Fin 10" by (simp_all add: max_volatility_def max_manipulation_def quiet_signal_def)
    have band_fields: "bd_horizons b = [''1h'']" "bd_volatility_risk b = Fin 20" "bd_manipulation_risk b = Fin 10"
      "bd_risk_level b = band_risk_level ?P (Fin 20) (Fin 10)" "bd_horizons c = [''1d'']" "bd_volatility_risk c = Fin 20"
      "bd_manipulation_risk c = Fin 10" "bd_risk_level c = band_risk_level ?P (Fin 20) (Fin 10)"
      using eb ec risks(3,4) by (simp_all add: one_risk hs)
    have found: "map (\<lambda>h. the (find (\<lambda>s. hs_horizon s = h) ?ss)) [''1h''] = [?s]"
      "map (\<lambda>h. the (find (\<lambda>s. hs_horizon s = h) ?ss)) [''1d''] = [?t]" by (simp_all add: hs)
    have "isclose (Fin 20) (Fin 20)" "isclose (Fin 10) (Fin 10)" by (simp_all add: isclose_def)
    then have "check_band_risks ?d b = Inr ()" "check_band_risks ?d c = Inr ()"
      unfolding check_band_risks_def Let_def run_checks_Inr sel band_fields found one_risk risks(3,4) by simp_all
    then have 7: "map_res (check_band_risks ?d) [b, c] = Inr [(), ()]" by simp
    have nb: "blank ''t0'' = False" "blank (wd_text ?T ''horizon.disclaimer'') = False" by code_simp+
    have "ma_schema_version quiet_analysis = ''multi_horizon_analysis.v1''"
      by (simp add: quiet_analysis_def boundary_analysis_def mh_analysis_schema_def)
    then have 8: "check_decision_end const_lib ?d = Inr ()"
      unfolding check_decision_end_def decision_identity_of json
      by (simp add: decision_identity_of json) (simp add: horizon_decision_of_def nb)
    show ?thesis unfolding mk_horizon_decision_def 1 2 3 4 5 6 sel(2) 7 8 bind_res_simps ..
  qed
  ultimately have "horizon_analyze const_lib tick_env ?T ?P quiet_analysis 0 = (Inr ?d, 1)" by (simp only:)
  then show ?thesis by (intro exI)
qed

theorem issued_decision_faithful_witness:
  "\<exists>d w'. horizon_analyze const_lib tick_env plain_wording flat_policy quiet_analysis 0 = (Inr d, w')
     \<and> hd_horizon_order d = [''1h'', ''1d''] \<and> json_hash const_lib (PDict (decision_identity d)) = Inr (hd_decision_hash d)"
proof -
  obtain d w' where d: "horizon_analyze const_lib tick_env plain_wording flat_policy quiet_analysis 0 = (Inr d, w')"
    using quiet_issued by blast
  from issued_decision_faithful[OF d] d show ?thesis by (auto simp: quiet_analysis_def boundary_analysis_def)
qed

end
