(* ===== verification/Cells_Basic.thy ===== *)
theory Cells_Basic
  imports Scoring
begin

section \<open>Cells over candles and events\<close>

text \<open>
  Models \<open>cells/technical.py\<close>, \<open>cells/regime.py\<close> and \<open>cells/news.py\<close>: trend, volume, volatility,
  market regime and news. A Cell reads the request and never raises; with too little input it
  answers neutrally. Small integers that the code mixes into float arithmetic are exact.
\<close>

subsection \<open>Results\<close>

text \<open>The name, the id and the category of a Cell; its scope is the request's.\<close>

type_synonym cell_ids = "string \<times> string \<times> string"

definition result_of :: "cell_ids \<Rightarrow> request \<Rightarrow> direction \<Rightarrow> pyfloat \<Rightarrow> pyfloat \<Rightarrow> pyfloat \<Rightarrow> pyfloat \<Rightarrow> pyfloat
  \<Rightarrow> pyfloat \<Rightarrow> string \<Rightarrow> evidence list \<Rightarrow> cell_result list \<Rightarrow> meta \<Rightarrow> cell_result" where
  "result_of ids rq d strength confidence volatility manipulation urgency sc explanation evidence children metadata =
     (case ids of (cid, name, category) \<Rightarrow> CellResult cid name category (rq_target rq) (rq_horizon rq)
        d strength confidence volatility manipulation urgency sc explanation None None evidence children metadata)"

text \<open>The answer to too little input.\<close>

definition neutral_result :: "cell_ids \<Rightarrow> request \<Rightarrow> int \<Rightarrow> string \<Rightarrow> meta \<Rightarrow> cell_result" where
  "neutral_result ids rq confidence explanation metadata =
     result_of ids rq Neutral (Fin 0) (Fin (of_int confidence)) (Fin 0) (Fin 0) (Fin 0) (Fin 0) explanation [] [] metadata"

definition confidence_from_count :: "nat \<Rightarrow> pyfloat" where
  "confidence_from_count n = clamp (fnum (35 + n * 4)) (Fin 0) (Fin 85)"

definition num4 :: "pyfloat \<Rightarrow> pyval" where
  "num4 x = PFloat (py_round 4 x)"

subsection \<open>Trend, volume and volatility\<close>

definition trend_ids :: cell_ids where
  "trend_ids = (''technical.trend'', ''TrendCell'', ''technical'')"

text \<open>\<open>features.first_close or 0\<close>.\<close>

definition or_zero :: "pyfloat option \<Rightarrow> pyfloat" where
  "or_zero x = (case x of None \<Rightarrow> Fin 0 | Some v \<Rightarrow> v)"

definition trend_analyze :: "wording \<Rightarrow> request \<Rightarrow> cell_result" where
  "trend_analyze T rq =
     (if length (rq_candles rq) < 2 then neutral_result trend_ids rq 10 (wd_text T ''trend.short'') []
      else
        let f = build_feature_snapshot (rq_candles rq) None; change = ft_close_change_pct f;
            d = (if flt (Fin 1) change then Bullish else if flt change (Fin (- 1)) then Bearish else Neutral);
            strength = clamp100 (fmul (fabs change) (Fin 6));
            confidence = confidence_from_count (length (rq_candles rq))
        in result_of trend_ids rq d strength confidence (Fin 0) (Fin 0) (clamp100 (fmul (fabs change) (Fin 4)))
          (score d strength confidence)
          (msg [wd_text T ''trend.change'', wd_fixed T 2 change, wd_text T ''trend.direction'', show_direction d, wd_text T ''stop''])
          [evidence_of ''candles.close'' (msg [''first_close='', wd_fixed T 2 (or_zero (ft_first_close f)),
             '', last_close='', wd_fixed T 2 (or_zero (ft_last_close f)), '', change='', wd_fixed T 2 change, ''%''])]
          [] [(''change_pct'', num4 change), (''feature_version'', PStr feature_version)])"

definition volume_ids :: cell_ids where
  "volume_ids = (''technical.volume'', ''VolumeCell'', ''technical'')"

definition volume_direction :: "pyfloat \<Rightarrow> pyfloat \<Rightarrow> direction" where
  "volume_direction ratio change =
     (if flt (Fin (5 / 4)) ratio \<and> flt (Fin 0) change then Bullish
      else if flt (Fin (5 / 4)) ratio \<and> flt change (Fin 0) then Bearish else Neutral)"

definition volume_analyze :: "wording \<Rightarrow> request \<Rightarrow> cell_result" where
  "volume_analyze T rq =
     (if length (rq_candles rq) < 3 then neutral_result volume_ids rq 10 (wd_text T ''volume.short'') []
      else
        let f = build_feature_snapshot (rq_candles rq) None; ratio = ft_latest_volume_ratio f;
            d = volume_direction ratio (ft_latest_close_change f);
            strength = clamp100 (fmul (fsub ratio (Fin 1)) (Fin 45));
            confidence = confidence_from_count (length (rq_candles rq))
        in result_of volume_ids rq d strength confidence (Fin 0) (Fin 0) (clamp100 (fmul (fsub ratio (Fin 1)) (Fin 35)))
          (score d strength confidence)
          (msg [wd_text T ''volume.ratio'', wd_fixed T 2 ratio, wd_text T ''volume.direction'', show_direction d, wd_text T ''stop''])
          [evidence_of ''candles.volume'' (msg [''latest_volume='', wd_fixed T 2 (cd_volume (last (rq_candles rq))),
             '', average_volume='', wd_fixed T 2 (ft_previous_average_volume f), '', ratio='', wd_fixed T 2 ratio])]
          [] [(''formula_version'', PStr ''volume_direction_confirmation_v0.2''), (''volume_ratio'', num4 ratio),
              (''feature_version'', PStr feature_version),
              (''anomaly_risk_delegated_to'', PStr ''risk.volume_price_anomaly'')])"

definition volatility_ids :: cell_ids where
  "volatility_ids = (''technical.volatility'', ''VolatilityCell'', ''risk'')"

definition volatility_analyze :: "wording \<Rightarrow> request \<Rightarrow> cell_result" where
  "volatility_analyze T rq =
     (if length (rq_candles rq) < 2 then neutral_result volatility_ids rq 10 (wd_text T ''volatility.short'') []
      else
        let f = build_feature_snapshot (rq_candles rq) None; average = ft_average_range_pct f;
            risk = clamp100 (fmul average (Fin 16));
            d = (if flt (Fin 55) risk then Conflict else Neutral);
            confidence = confidence_from_count (length (rq_candles rq))
        in result_of volatility_ids rq d risk confidence risk (Fin 0) risk (score d risk confidence)
          (msg [wd_text T ''volatility.range'', wd_fixed T 2 average, wd_text T ''volatility.risk'', wd_fixed T 1 risk,
             ''/100'', wd_text T ''stop''])
          [evidence_of ''candles.high_low_range'' (msg [''average_range='', wd_fixed T 2 average, ''%, volatility_risk='',
             wd_fixed T 1 risk])]
          [] [(''average_range_pct'', num4 average), (''feature_version'', PStr feature_version)])"

subsection \<open>Market regime\<close>

definition regime_ids :: cell_ids where
  "regime_ids = (''technical.market_regime'', ''MarketRegimeCell'', ''technical'')"

definition regime_of :: "pyfloat \<Rightarrow> pyfloat \<Rightarrow> pyfloat \<Rightarrow> string \<times> direction" where
  "regime_of average efficiency move =
     (if fle (b64 (28 / 10)) average \<and> flt efficiency (b64 (45 / 100)) then (''volatile_range'', Conflict)
      else if fle (Fin 2) (fabs move) \<and> fle (b64 (45 / 100)) efficiency
        then (if flt (Fin 0) move then (''trend_up'', Bullish) else (''trend_down'', Bearish))
      else if flt efficiency (b64 (35 / 100)) then (''range'', Neutral) else (''mixed'', Conflict))"

definition regime_analyze :: "wording \<Rightarrow> request \<Rightarrow> cell_result" where
  "regime_analyze T rq =
     (if length (rq_candles rq) < 4
      then neutral_result regime_ids rq 15 (wd_text T ''regime.short'') [(''market_regime'', PStr ''unknown'')]
      else
        let f = build_feature_snapshot (rq_candles rq) None; move = ft_total_move_pct f;
            efficiency = ft_trend_efficiency f; average = ft_average_range_pct f;
            (regime, d) = regime_of average efficiency move;
            strength = clamp100 (fmax (fmul (fabs move) (Fin 7)) (fmul efficiency (Fin 100)));
            risk = clamp100 (fmul average (Fin 18));
            confidence = clamp (fnum (35 + length (rq_candles rq) * 4)) (Fin 0) (Fin 82);
            urgency = clamp100 (fmax risk (if d = Conflict then strength else fmul strength (b64 (7 / 10))))
        in result_of regime_ids rq d strength confidence risk (Fin 0) urgency (score d strength confidence)
          (msg [wd_text T ''regime.is'', regime, wd_text T ''regime.efficiency'', wd_fixed T 2 efficiency,
             wd_text T ''regime.range'', wd_fixed T 2 average, ''%'', wd_text T ''stop''])
          [evidence_of ''candles.market_regime'' (msg [''total_move='', wd_fixed T 2 move, ''%, path_distance='',
             wd_fixed T 2 (ft_path_distance_pct f), ''%, trend_efficiency='', wd_fixed T 2 efficiency])]
          [] [(''market_regime'', PStr regime), (''total_move_pct'', num4 move), (''trend_efficiency'', num4 efficiency),
              (''average_range_pct'', num4 average), (''feature_version'', PStr feature_version)])"

subsection \<open>News\<close>

definition news_ids :: cell_ids where
  "news_ids = (''external.news'', ''NewsEventCell'', ''external'')"

definition event_weight :: "market_event \<Rightarrow> pyfloat" where
  "event_weight e = fdiv (fmul (clamp100 (ev_impact e)) (clamp100 (ev_freshness e))) (Fin 100)"

text \<open>The loop: weighted sentiment and total weight.\<close>

definition news_totals :: "market_event list \<Rightarrow> pyfloat \<times> pyfloat" where
  "news_totals es = foldl (\<lambda>(s, t) e. (fadd s (fmul (ev_sentiment e) (event_weight e)), fadd t (event_weight e)))
     (Fin 0, Fin 0) es"

definition news_evidence :: "market_event \<Rightarrow> evidence" where
  "news_evidence e = (evidence_of (''event.'' @ ev_category e) (ev_title e))
     \<lparr>evd_weight := py_round 4 (event_weight e), evd_freshness := ev_freshness e\<rparr>"

definition news_analyze :: "wording \<Rightarrow> request \<Rightarrow> cell_result" where
  "news_analyze T rq =
     (if rq_events rq = [] then neutral_result news_ids rq 20 (wd_text T ''news.none'') []
      else
        let es = rq_events rq; (sentiment, total) = news_totals es;
            normalized = (if truthy total then fdiv sentiment total else Fin 0);
            d = (if flt (b64 (15 / 100)) normalized then Bullish
                 else if flt normalized (b64 (- 15 / 100)) then Bearish else Neutral);
            strength = clamp100 (fmul (fabs normalized) (Fin 100));
            confidence = clamp100 (fnum (35 + min (length es) 5 * 10));
            risk = clamp100 (fmul (fdiv total (fnum (max (length es) 1))) (b64 (4 / 10)))
        in result_of news_ids rq d strength confidence risk (Fin 0) risk (score d strength confidence)
          (msg [wd_text T ''news.sentiment'', wd_fixed T 2 normalized, wd_text T ''news.direction'', show_direction d, wd_text T ''stop''])
          (map news_evidence es) []
          [(''weighted_sentiment'', num4 normalized), (''event_count'', PInt (int (length es)))])"

subsection \<open>Well-formed results\<close>

text \<open>The bounds every Cell result has, and the sign its score has for its direction.\<close>

definition result_ok :: "cell_result \<Rightarrow> bool" where
  "result_ok r \<longleftrightarrow> list_all (in_range 0 100)
       [cr_strength r, cr_confidence r, cr_volatility_risk r, cr_manipulation_risk r, cr_urgency r]
     \<and> in_range (- 100) 100 (cr_score r) \<and> signed_as (cr_direction r) (cr_score r)"

lemma result_of_ok:
  "result_ok (result_of ids rq d s c v m u (score d s' c') expl evs kids md) \<longleftrightarrow> list_all (in_range 0 100) [s, c, v, m, u]"
  using score_signed[of d s' c'] by (simp add: result_ok_def result_of_def split_beta)

lemma neutral_result_ok: "0 \<le> c \<Longrightarrow> c \<le> 100 \<Longrightarrow> result_ok (neutral_result ids rq c expl md)"
  by (simp add: neutral_result_def result_ok_def result_of_def split_beta)

lemma clamp_percent [range_intros]: "0 \<le> h \<Longrightarrow> h \<le> 100 \<Longrightarrow> in_range 0 100 (clamp v (Fin 0) (Fin h))"
  by (rule in_range_mono[OF clamp_in_range]) auto

lemma in_range_zero [range_intros]: "in_range 0 100 (Fin 0)"
  by simp

lemmas basic_cells_def = trend_analyze_def volume_analyze_def volatility_analyze_def regime_analyze_def news_analyze_def
  confidence_from_count_def

lemma basic_cells_ok:
  "result_ok (trend_analyze T rq)" "result_ok (volume_analyze T rq)" "result_ok (volatility_analyze T rq)"
  "result_ok (regime_analyze T rq)" "result_ok (news_analyze T rq)"
  by (simp_all add: basic_cells_def Let_def split_beta result_of_ok neutral_result_ok range_intros)

end
