(* ===== verification/Cells_Structure.thy ===== *)
theory Cells_Structure
  imports Cells_Basic
begin

section \<open>Support and resistance\<close>

text \<open>
  Models \<open>cells/support_resistance.py\<close>: price clusters, the state of the latest candle against them,
  and the Cell. Levels are positive for requests that pass validation, so the
  divisions by a level are not guarded, as in the code.
\<close>

subsection \<open>Price clusters\<close>

record price_cluster =
  pc_level :: pyfloat
  pc_touch_count :: nat
  pc_spread_pct :: pyfloat

definition distance_pct :: "pyfloat \<Rightarrow> pyfloat \<Rightarrow> pyfloat option" where
  "distance_pct v reference = (if \<not> truthy reference then None
     else Some (fmul (fdiv (fabs (fsub v reference)) reference) (Fin 100)))"

definition cluster_members :: "pyfloat list \<Rightarrow> pyfloat \<Rightarrow> pyfloat \<Rightarrow> pyfloat list" where
  "cluster_members values tolerance anchor = filter (\<lambda>v. case distance_pct v anchor of
     None \<Rightarrow> False | Some d \<Rightarrow> fle d tolerance) values"

fun fmin_list :: "pyfloat \<Rightarrow> pyfloat list \<Rightarrow> pyfloat" where
  "fmin_list d [] = d"
| "fmin_list d (x # xs) = foldl fmin x xs"

definition cluster_of :: "pyfloat list \<Rightarrow> price_cluster res" where
  "cluster_of members =
     (if members = [] then raise (PyOther ''ZeroDivisionError'') ''division by zero''
      else let level = fdiv_nat (fsum members) (length members) in
        Inr \<lparr>pc_level = level, pc_touch_count = length members,
          pc_spread_pct = (if truthy level
            then fmul (fdiv (fsub (fmax_list (Fin 0) members) (fmin_list (Fin 0) members)) level) (Fin 100)
            else Fin 0)\<rparr>)"

text \<open>\<open>(-touches, spread, price)\<close>, compared as tuples.\<close>

type_synonym cluster_rank = "nat \<times> pyfloat \<times> pyfloat"

definition cluster_rank :: "bool \<Rightarrow> price_cluster \<Rightarrow> cluster_rank" where
  "cluster_rank prefer_higher c = (pc_touch_count c, pc_spread_pct c,
     if prefer_higher then fneg (pc_level c) else pc_level c)"

fun rank_less :: "cluster_rank \<Rightarrow> cluster_rank \<Rightarrow> bool" where
  "rank_less (n, s, p) (n', s', p') \<longleftrightarrow>
     (if n \<noteq> n' then n' < n else if s \<noteq> s' then flt s s' else flt p p')"

text \<open>The loop over the anchors, with the best cluster so far.\<close>

fun cluster_loop :: "pyfloat list \<Rightarrow> pyfloat \<Rightarrow> bool \<Rightarrow> price_cluster option \<Rightarrow> pyfloat list \<Rightarrow> price_cluster res" where
  "cluster_loop values tol higher None [] = raise PyValueError ''price cluster requires at least one value''"
| "cluster_loop values tol higher (Some best) [] = Inr best"
| "cluster_loop values tol higher best (a # as) =
     bind_res (cluster_of (cluster_members values tol a)) (\<lambda>c.
       cluster_loop values tol higher (Some (case best of None \<Rightarrow> c
         | Some b \<Rightarrow> if rank_less (cluster_rank higher c) (cluster_rank higher b) then c else b)) as)"

definition densest_price_cluster :: "pyfloat list \<Rightarrow> pyfloat \<Rightarrow> bool \<Rightarrow> price_cluster res" where
  "densest_price_cluster values tol higher = cluster_loop values tol higher None values"

subsection \<open>The state of the latest candle\<close>

datatype structure_state = Insufficient_history | Overlapping_levels | Support_broken | Resistance_broken
  | Two_sided_rejection | Support_rejection | Resistance_rejection | Testing_support | Testing_resistance
  | Unconfirmed_levels | Inside_range

fun show_structure :: "structure_state \<Rightarrow> string" where
  "show_structure Insufficient_history = ''insufficient_history''"
| "show_structure Overlapping_levels = ''overlapping_levels''"
| "show_structure Support_broken = ''support_broken_unconfirmed''"
| "show_structure Resistance_broken = ''resistance_broken_unconfirmed''"
| "show_structure Two_sided_rejection = ''two_sided_rejection''"
| "show_structure Support_rejection = ''support_rejection''"
| "show_structure Resistance_rejection = ''resistance_rejection''"
| "show_structure Testing_support = ''testing_support''"
| "show_structure Testing_resistance = ''testing_resistance''"
| "show_structure Unconfirmed_levels = ''unconfirmed_levels''"
| "show_structure Inside_range = ''inside_range''"

text \<open>\<open>1 + t / 100\<close> and \<open>1 - t / 100\<close>.\<close>

definition upper_edge :: "pyfloat \<Rightarrow> pyfloat" where
  "upper_edge t = fadd (Fin 1) (fdiv t (Fin 100))"

definition lower_edge :: "pyfloat \<Rightarrow> pyfloat" where
  "lower_edge t = fsub (Fin 1) (fdiv t (Fin 100))"

definition downside_break_pct :: "pyfloat \<Rightarrow> pyfloat option \<Rightarrow> pyfloat \<Rightarrow> pyfloat" where
  "downside_break_pct close support tol = (case support of None \<Rightarrow> Fin 0
     | Some l \<Rightarrow> fmax (fmul (fdiv (fsub (fmul l (lower_edge tol)) close) l) (Fin 100)) (Fin 0))"

definition upside_break_pct :: "pyfloat \<Rightarrow> pyfloat option \<Rightarrow> pyfloat \<Rightarrow> pyfloat" where
  "upside_break_pct close resistance tol = (case resistance of None \<Rightarrow> Fin 0
     | Some l \<Rightarrow> fmax (fmul (fdiv (fsub close (fmul l (upper_edge tol))) l) (Fin 100)) (Fin 0))"

text \<open>The zone around a level overlaps the candle.\<close>

definition tested :: "candle \<Rightarrow> pyfloat option \<Rightarrow> pyfloat \<Rightarrow> bool" where
  "tested c level tol \<longleftrightarrow> (case level of None \<Rightarrow> False
     | Some l \<Rightarrow> fle (cd_low c) (fmul l (upper_edge tol)) \<and> fle (fmul l (lower_edge tol)) (cd_high c))"

definition close_position :: "candle \<Rightarrow> pyfloat" where
  "close_position c = (let r = fsub (cd_high c) (cd_low c) in
     if truthy r then fdiv (fsub (cd_close c) (cd_low c)) r else Fin (1 / 2))"

definition lower_wick_ratio :: "candle \<Rightarrow> pyfloat" where
  "lower_wick_ratio c = (let r = fsub (cd_high c) (cd_low c) in
     if truthy r then fdiv (fsub (fmin (cd_open c) (cd_close c)) (cd_low c)) r else Fin 0)"

definition upper_wick_ratio :: "candle \<Rightarrow> pyfloat" where
  "upper_wick_ratio c = (let r = fsub (cd_high c) (cd_low c) in
     if truthy r then fdiv (fsub (cd_high c) (fmax (cd_open c) (cd_close c))) r else Fin 0)"

definition support_rejected :: "candle \<Rightarrow> pyfloat option \<Rightarrow> pyfloat \<Rightarrow> bool" where
  "support_rejected c level tol \<longleftrightarrow> tested c level tol \<and> (case level of None \<Rightarrow> False | Some l \<Rightarrow> fle l (cd_close c))
     \<and> fle (cd_open c) (cd_close c) \<and> fle (b64 (6 / 10)) (close_position c)"

definition resistance_rejected :: "candle \<Rightarrow> pyfloat option \<Rightarrow> pyfloat \<Rightarrow> bool" where
  "resistance_rejected c level tol \<longleftrightarrow> tested c level tol \<and> (case level of None \<Rightarrow> False | Some l \<Rightarrow> fle (cd_close c) l)
     \<and> fle (cd_close c) (cd_open c) \<and> fle (close_position c) (b64 (4 / 10))"

definition classify_structure :: "candle \<Rightarrow> pyfloat option \<Rightarrow> pyfloat option \<Rightarrow> nat \<Rightarrow> nat \<Rightarrow> pyfloat
  \<Rightarrow> structure_state \<times> direction \<times> nat \<times> pyfloat \<times> pyfloat" where
  "classify_structure c support resistance st rt tol =
     (let down = downside_break_pct (cd_close c) support tol;
          up = upside_break_pct (cd_close c) resistance tol;
          s = tested c support tol; r = tested c resistance tol
      in if support \<noteq> None \<and> resistance \<noteq> None \<and> fle (the resistance) (the support)
           then (Overlapping_levels, Conflict, 0, Fin 0, Fin 0)
         else if flt (Fin 0) down then (Support_broken, Conflict, st, Fin 0, down)
         else if flt (Fin 0) up then (Resistance_broken, Conflict, rt, Fin 0, up)
         else if s \<and> r then (Two_sided_rejection, Conflict, max st rt, fmax (lower_wick_ratio c) (upper_wick_ratio c), Fin 0)
         else if support_rejected c support tol then (Support_rejection, Bullish, st, lower_wick_ratio c, Fin 0)
         else if resistance_rejected c resistance tol then (Resistance_rejection, Bearish, rt, upper_wick_ratio c, Fin 0)
         else if s then (Testing_support, Neutral, st, Fin 0, Fin 0)
         else if r then (Testing_resistance, Neutral, rt, Fin 0, Fin 0)
         else if support = None \<and> resistance = None then (Unconfirmed_levels, Neutral, 0, Fin 0, Fin 0)
         else (Inside_range, Neutral, 0, Fin 0, Fin 0))"

subsection \<open>The support and resistance Cell\<close>

definition structure_ids :: cell_ids where
  "structure_ids = (''technical.support_resistance'', ''SupportResistanceCell'', ''technical'')"

definition structure_formula_version :: string where
  "structure_formula_version = ''support_resistance_cluster_rejection_v0.1''"

definition structure_confidence :: "nat \<Rightarrow> nat \<Rightarrow> nat \<Rightarrow> structure_state \<Rightarrow> pyfloat" where
  "structure_confidence history st rt state =
     (let v = clamp (fnum (25 + history * 3 + (max st rt - 1) * 8)) (Fin 0) (Fin 88) in
      if state = Unconfirmed_levels then fmin v (Fin 40) else v)"

definition structure_strength :: "direction \<Rightarrow> nat \<Rightarrow> pyfloat \<Rightarrow> pyfloat \<Rightarrow> pyfloat" where
  "structure_strength d touches rejection broken =
     (if d = Bullish \<or> d = Bearish
      then clamp (fadd (fnum (20 + min touches 4 * 8)) (fmul rejection (Fin 25))) (Fin 0) (Fin 80)
      else if d = Conflict
      then clamp (fadd (fnum (20 + min touches 4 * 5)) (fmul broken (Fin 15))) (Fin 0) (Fin 75)
      else Fin 0)"

definition rounded_or_none :: "pyfloat option \<Rightarrow> pyval" where
  "rounded_or_none x = (case x of None \<Rightarrow> PNone | Some v \<Rightarrow> num4 v)"

definition format_level :: "wording \<Rightarrow> pyfloat option \<Rightarrow> string" where
  "format_level T x = (case x of None \<Rightarrow> ''unconfirmed'' | Some v \<Rightarrow> wd_fixed T 4 v)"

definition level_distance :: "pyfloat \<Rightarrow> pyfloat option \<Rightarrow> pyfloat option" where
  "level_distance v level = (case level of None \<Rightarrow> None | Some l \<Rightarrow> distance_pct v l)"

definition insufficient_history_result :: "wording \<Rightarrow> request \<Rightarrow> cell_result" where
  "insufficient_history_result T rq = neutral_result structure_ids rq 10
     (msg [wd_text T ''structure.at_least'', show_nat 6, wd_text T ''structure.candles''])
     [(''formula_version'', PStr structure_formula_version), (''structure_state'', PStr (show_structure Insufficient_history)),
      (''minimum_candle_count'', PInt 6), (''actual_candle_count'', PInt (int (length (rq_candles rq))))]"

definition structure_explanation :: "wording \<Rightarrow> structure_state \<Rightarrow> pyfloat option \<Rightarrow> pyfloat option \<Rightarrow> pyfloat \<Rightarrow> string" where
  "structure_explanation T state support resistance tol = msg
     [wd_text T ''structure.support'', format_level T support, wd_text T ''structure.resistance'',
      format_level T resistance, wd_text T ''structure.tolerance'', wd_fixed T 2 tol, ''%'', wd_text T ''semicolon'',
      wd_text T (''structure.'' @ show_structure state), wd_text T ''stop'']"

text \<open>The history before the latest candle, at most 48 candles of it.\<close>

definition structure_history :: "candle list \<Rightarrow> candle list" where
  "structure_history cs = drop (length cs - 49) (butlast cs)"

definition zone_tolerance :: "candle list \<Rightarrow> pyfloat" where
  "zone_tolerance history = clamp (fmul (ft_average_range_pct (build_feature_snapshot history None)) (b64 (35 / 100)))
     (Fin (1 / 4)) (Fin (3 / 2))"

definition confirmed_level :: "price_cluster \<Rightarrow> pyfloat option" where
  "confirmed_level c = (if pc_touch_count c \<ge> 2 then Some (pc_level c) else None)"

definition structure_result :: "wording \<Rightarrow> request \<Rightarrow> candle list \<Rightarrow> pyfloat \<Rightarrow> price_cluster \<Rightarrow> price_cluster \<Rightarrow> cell_result" where
  "structure_result T rq history tol s r =
     (let latest = last (rq_candles rq); support = confirmed_level s; resistance = confirmed_level r;
          (state, d, touches, rejection, broken) =
            classify_structure latest support resistance (pc_touch_count s) (pc_touch_count r) tol;
          confidence = structure_confidence (length history) (if support = None then 0 else pc_touch_count s)
            (if resistance = None then 0 else pc_touch_count r) state;
          strength = structure_strength d touches rejection broken
      in result_of structure_ids rq d strength confidence (Fin 0) (Fin 0) (if d \<noteq> Neutral then strength else Fin 0)
        (score d strength confidence) (structure_explanation T state support resistance tol)
        [(evidence_of ''candles.high_low_clusters'' (msg [''support='', format_level T support, '' ('',
            show_nat (pc_touch_count s), '' touches), resistance='', format_level T resistance, '' ('',
            show_nat (pc_touch_count r), '' touches), tolerance='', wd_fixed T 2 tol, ''%'']))
            \<lparr>evd_reliability := clamp (fnum (45 + max (pc_touch_count s) (pc_touch_count r) * 8)) (Fin 0) (Fin 90)\<rparr>,
         evidence_of ''candles.latest'' (msg [''open='', wd_fixed T 4 (cd_open latest), '', high='',
            wd_fixed T 4 (cd_high latest), '', low='', wd_fixed T 4 (cd_low latest), '', close='',
            wd_fixed T 4 (cd_close latest), '', state='', show_structure state])]
        []
        [(''formula_version'', PStr structure_formula_version), (''structure_state'', PStr (show_structure state)),
         (''support_level'', rounded_or_none support), (''resistance_level'', rounded_or_none resistance),
         (''support_touch_count'', PInt (int (pc_touch_count s))),
         (''resistance_touch_count'', PInt (int (pc_touch_count r))),
         (''support_cluster_spread_pct'', num4 (pc_spread_pct s)),
         (''resistance_cluster_spread_pct'', num4 (pc_spread_pct r)),
         (''support_distance_pct'', rounded_or_none (level_distance (cd_close latest) support)),
         (''resistance_distance_pct'', rounded_or_none (level_distance (cd_close latest) resistance)),
         (''zone_tolerance_pct'', num4 tol), (''minimum_level_touches'', PInt 2),
         (''history_candle_count'', PInt (int (length history))), (''maximum_history_candle_count'', PInt 48),
         (''feature_version'', PStr feature_version)])"

definition structure_analyze :: "wording \<Rightarrow> request \<Rightarrow> cell_result res" where
  "structure_analyze T rq =
     (if length (rq_candles rq) < 6 then Inr (insufficient_history_result T rq)
      else
        let history = structure_history (rq_candles rq); tol = zone_tolerance history in
        bind_res (densest_price_cluster (map cd_low history) tol False) (\<lambda>s.
        bind_res (densest_price_cluster (map cd_high history) tol True) (\<lambda>r.
        Inr (structure_result T rq history tol s r))))"

subsection \<open>What the Cell promises\<close>

lemma in_range_fmin [range_intros]: "in_range l h a \<Longrightarrow> in_range l h b \<Longrightarrow> in_range l h (fmin a b)"
  by (simp add: fmin_def)

lemma structure_strength_range [range_intros]: "in_range 0 100 (structure_strength d n r b)"
  by (simp add: structure_strength_def range_intros)

lemma structure_confidence_range [range_intros]: "in_range 0 100 (structure_confidence h s r st)"
  by (simp add: structure_confidence_def Let_def range_intros)

lemma structure_analyze_ok:
  assumes "structure_analyze T rq = Inr r"
  shows "result_ok r"
proof -
  have "result_ok (structure_result T rq history tol s r')" for history tol s r'
    unfolding structure_result_def Let_def split_beta by (simp add: result_of_ok range_intros)
  moreover have "result_ok (insufficient_history_result T rq)"
    by (simp add: insufficient_history_result_def neutral_result_ok)
  ultimately show ?thesis using assms
    by (auto simp: structure_analyze_def Let_def bind_res_eq_Inr split: if_splits)
qed

text \<open>A break names a confirmed level.\<close>

lemma no_break: "\<not> flt (Fin 0) (downside_break_pct x None tol)" "\<not> flt (Fin 0) (upside_break_pct x None tol)"
  by (simp_all add: downside_break_pct_def upside_break_pct_def)

lemma classify_broken:
  assumes "classify_structure c support resistance st rt tol = (state, rest)"
  shows "state = Support_broken \<Longrightarrow> support \<noteq> None" "state = Resistance_broken \<Longrightarrow> resistance \<noteq> None"
  using assms no_break
  by (cases support; cases resistance; auto simp: classify_structure_def Let_def split: if_splits)+

text \<open>A cluster has at most as many members as there are candles.\<close>

lemma cluster_of_count: "cluster_of ms = Inr c \<Longrightarrow> pc_touch_count c = length ms"
  by (auto simp: cluster_of_def Let_def split: if_splits)

lemma cluster_loop_count:
  "cluster_loop vals tol higher best vs = Inr c \<Longrightarrow> (\<And>b. best = Some b \<Longrightarrow> pc_touch_count b \<le> length vals)
     \<Longrightarrow> pc_touch_count c \<le> length vals"
proof (induction vals tol higher best vs rule: cluster_loop.induct)
  case (3 vals tol higher best a as)
  then obtain m where m: "cluster_of (cluster_members vals tol a) = Inr m"
    by (auto simp: bind_res_eq_Inr)
  have "pc_touch_count m \<le> length vals"
    using cluster_of_count[OF m] by (simp add: cluster_members_def)
  with 3 m show ?case by (auto split: option.splits if_splits)
qed auto

lemma structure_history_length: "length (structure_history cs) \<le> 48"
  by (simp add: structure_history_def)

end
