(* ===== verification/Cells_Breakout.thy ===== *)
theory Cells_Breakout
  imports Cells_Structure Decision_Policy
begin

section \<open>Breakout confirmation\<close>

text \<open>
  Models \<open>cells/breakout.py\<close>: the Cell that reads the structure result among its children and
  confirms a broken level when the cross is fresh, the close strong and the volume high.
\<close>

subsection \<open>Reading the structure\<close>

definition breakout_ids :: cell_ids where
  "breakout_ids = (''technical.breakout'', ''BreakoutCell'', ''technical'')"

definition structure_cell_id :: string where
  "structure_cell_id = ''technical.support_resistance''"

definition known_structure_states :: "string list" where
  "known_structure_states = map show_structure [Insufficient_history, Overlapping_levels, Support_broken,
     Resistance_broken, Two_sided_rejection, Support_rejection, Resistance_rejection, Testing_support,
     Testing_resistance, Unconfirmed_levels, Inside_range]"

definition required_structure_result :: "cell_result list option \<Rightarrow> cell_result res" where
  "required_structure_result children =
     (let matches = filter (\<lambda>r. cr_cell_id r = structure_cell_id) (case children of None \<Rightarrow> [] | Some rs \<Rightarrow> rs) in
      if length matches \<noteq> 1 then raise PyValueError
        ''BreakoutCell requires exactly one technical.support_resistance result''
      else Inr (hd matches))"

text \<open>A number that is not a \<open>bool\<close>; an integer too large for a float raises \<open>OverflowError\<close>.\<close>

definition required_metadata_number :: "cell_result \<Rightarrow> string \<Rightarrow> pyfloat res" where
  "required_metadata_number r key =
     (let bad = raise PyValueError (msg [cr_cell_id r, '' metadata '', key, '' must be a finite number'']) in
      case item_or (cr_metadata r) key PNone of
        PFloat f \<Rightarrow> if isfinite f then Inr f else bad
      | PInt i \<Rightarrow> if isfinite (b64 (of_int i)) then Inr (b64 (of_int i))
          else raise (PyOther ''OverflowError'') ''int too large to convert to float''
      | _ \<Rightarrow> bad)"

text \<open>\<open>value.is_integer()\<close> and \<open>int(value)\<close> of a finite value.\<close>

fun is_integer :: "pyfloat \<Rightarrow> bool" where
  "is_integer (Fin q) \<longleftrightarrow> of_int \<lfloor>q\<rfloor> = q"
| "is_integer _ \<longleftrightarrow> False"

fun float_floor :: "pyfloat \<Rightarrow> int" where
  "float_floor (Fin q) = \<lfloor>q\<rfloor>"
| "float_floor _ = 0"

subsection \<open>Confirmation\<close>

definition non_candidate_result :: "wording \<Rightarrow> request \<Rightarrow> cell_result \<Rightarrow> string \<Rightarrow> cell_result" where
  "non_candidate_result T rq structure state =
     (let shown = (if state = [] then ''unknown'' else state) in
      result_of breakout_ids rq Neutral (Fin 0) (cr_confidence structure) (Fin 0) (Fin 0) (Fin 0) (Fin 0)
        (msg [wd_text T ''breakout.state'', shown, wd_text T ''breakout.no_candidate''])
        [(evidence_of (cr_cell_id structure) (msg [''structure_state='', shown]))\<lparr>evd_reliability := cr_confidence structure\<rparr>]
        [structure]
        [(''breakout_state'', PStr (if state \<in> set ([] # map show_structure [Insufficient_history, Unconfirmed_levels])
            then ''insufficient_structure'' else ''no_breakout_candidate'')),
         (''structure_state'', PStr shown), (''failed_confirmations'', PList [])])"

definition breakout_threshold :: "bool \<Rightarrow> pyfloat \<Rightarrow> pyfloat \<Rightarrow> pyfloat" where
  "breakout_threshold upside level tol = fmul level (if upside then upper_edge tol else lower_edge tol)"

definition fresh_cross :: "bool \<Rightarrow> candle \<Rightarrow> pyfloat \<Rightarrow> bool" where
  "fresh_cross upside previous threshold =
     (if upside then fle (cd_close previous) threshold else fle threshold (cd_close previous))"

definition candle_confirmed :: "bool \<Rightarrow> candle \<Rightarrow> bool" where
  "candle_confirmed upside c =
     (if upside then flt (cd_open c) (cd_close c) \<and> fle (b64 (7 / 10)) (close_position c)
      else flt (cd_close c) (cd_open c) \<and> fle (close_position c) (b64 (3 / 10)))"

definition volume_window :: "candle list \<Rightarrow> candle list" where
  "volume_window cs = drop (length cs - 21) cs"

definition window_ratio :: "candle list \<Rightarrow> pyfloat" where
  "window_ratio cs = ft_latest_volume_ratio (build_feature_snapshot (volume_window cs) None)"

definition failed_confirmations :: "bool \<Rightarrow> bool \<Rightarrow> bool \<Rightarrow> string list" where
  "failed_confirmations fresh strong volume =
     opt_issue (\<not> fresh) ''fresh_cross'' @ opt_issue (\<not> strong) ''strong_close'' @ opt_issue (\<not> volume) ''volume''"

definition unconfirmed_state :: "string list \<Rightarrow> string" where
  "unconfirmed_state failed =
     (if length failed > 1 then ''breakout_unconfirmed_multiple''
      else if hd failed = ''fresh_cross'' then ''breakout_not_fresh''
      else if hd failed = ''strong_close'' then ''breakout_unconfirmed_candle''
      else ''breakout_unconfirmed_volume'')"

definition breakout_strength :: "bool \<Rightarrow> pyfloat \<Rightarrow> pyfloat \<Rightarrow> pyfloat \<Rightarrow> bool \<Rightarrow> pyfloat" where
  "breakout_strength confirmed displacement ratio position upside =
     (if \<not> confirmed then clamp (fadd (Fin 20) (fmul displacement (Fin 5))) (Fin 0) (Fin 55)
      else clamp (fadd (fadd (fadd (Fin 25) (fmul displacement (Fin 8)))
          (fmul (fmax (fsub ratio (Fin 1)) (Fin 0)) (Fin 20)))
          (fmul (if upside then position else fsub (Fin 1) position) (Fin 15))) (Fin 0) (Fin 88))"

definition breakout_confidence :: "pyfloat \<Rightarrow> int \<Rightarrow> bool \<Rightarrow> bool \<Rightarrow> bool \<Rightarrow> pyfloat" where
  "breakout_confidence structure touches fresh strong volume =
     clamp (fadd (fadd (fadd (fadd (fmul structure (b64 (45 / 100))) (Fin (of_int (min touches 5 * 5))))
       (if fresh then Fin 12 else Fin 0)) (if strong then Fin 10 else Fin 0)) (if volume then Fin 10 else Fin 0))
       (Fin 0) (Fin 90)"

definition breakout_explanation :: "wording \<Rightarrow> string \<Rightarrow> bool \<Rightarrow> pyfloat \<Rightarrow> pyfloat \<Rightarrow> pyfloat \<Rightarrow> string list \<Rightarrow> string" where
  "breakout_explanation T state upside level displacement ratio failed =
     (if failed = [] then msg [wd_text T ''breakout.fresh'', wd_text T (if upside then ''breakout.up'' else ''breakout.down''),
         wd_text T ''breakout.across'', wd_fixed T 4 level, wd_text T ''breakout.distance'', wd_fixed T 2 displacement,
         wd_text T ''breakout.volume'', wd_fixed T 2 ratio, wd_text T ''breakout.confirmed'']
      else msg [wd_text T ''breakout.candidate'', state, wd_text T ''breakout.but'',
         join (wd_text T ''semicolon'') (map (\<lambda>k. wd_text T (''breakout.'' @ k)) failed),
         wd_text T ''breakout.current_volume'', wd_fixed T 2 ratio, wd_text T ''breakout.unconfirmed''])"

text \<open>The result once the level, the tolerance and the touch count have been read.\<close>

definition breakout_result :: "wording \<Rightarrow> request \<Rightarrow> cell_result \<Rightarrow> string \<Rightarrow> bool \<Rightarrow> pyfloat \<Rightarrow> pyfloat \<Rightarrow> int \<Rightarrow> cell_result" where
  "breakout_result T rq structure state upside level tol touches =
     (let cs = rq_candles rq; previous = cs ! (length cs - 2); latest = last cs;
          threshold = breakout_threshold upside level tol;
          fresh = fresh_cross upside previous threshold;
          position = close_position latest; strong = candle_confirmed upside latest;
          ratio = window_ratio cs; volume = fle (b64 (12 / 10)) ratio;
          displacement = fmul (fdiv (fabs (fsub (cd_close latest) level)) level) (Fin 100);
          failed = failed_confirmations fresh strong volume;
          d = (if failed \<noteq> [] then Conflict else if upside then Bullish else Bearish);
          breakout_state = (if failed \<noteq> [] then unconfirmed_state failed
            else if upside then ''upside_breakout_confirmed'' else ''downside_breakout_confirmed'');
          strength = breakout_strength (failed = []) displacement ratio position upside;
          confidence = breakout_confidence (cr_confidence structure) touches fresh strong volume
      in result_of breakout_ids rq d strength confidence (Fin 0) (Fin 0) strength (score d strength confidence)
        (breakout_explanation T breakout_state upside level displacement ratio failed)
        [(evidence_of (cr_cell_id structure) (msg [''structure_state='', state, '', level='', wd_fixed T 4 level,
            '', touches='', show_int touches, '', tolerance='', wd_fixed T 2 tol, ''%'']))
            \<lparr>evd_reliability := cr_confidence structure\<rparr>,
         evidence_of ''candles.close_volume'' (msg [''previous_close='', wd_fixed T 4 (cd_close previous),
            '', latest_close='', wd_fixed T 4 (cd_close latest), '', displacement='', wd_fixed T 2 displacement,
            ''%, volume_ratio='', wd_fixed T 2 ratio, '', close_position='', wd_fixed T 2 position])]
        [structure]
        [(''breakout_state'', PStr breakout_state),
         (''candidate_direction'', PStr (show_direction (if upside then Bullish else Bearish))),
         (''structure_state'', PStr state), (''breakout_level'', num4 level), (''breakout_threshold'', num4 threshold),
         (''level_touch_count'', PInt touches), (''zone_tolerance_pct'', num4 tol),
         (''displacement_pct'', num4 displacement), (''volume_ratio'', num4 ratio),
         (''minimum_volume_ratio'', PFloat (b64 (12 / 10))),
         (''volume_baseline_candle_count'', PInt (int (length (volume_window cs) - 1))),
         (''maximum_volume_baseline_candles'', PInt 20), (''fresh_cross'', PBool fresh),
         (''candle_confirmed'', PBool strong), (''volume_confirmed'', PBool volume),
         (''failed_confirmations'', PList (map PStr failed)), (''feature_version'', PStr feature_version)])"

definition breakout_candidate :: "wording \<Rightarrow> request \<Rightarrow> cell_result \<Rightarrow> string \<Rightarrow> cell_result res" where
  "breakout_candidate T rq structure state =
     (let upside = (state = show_structure Resistance_broken) in
      if length (rq_candles rq) < 2 then raise PyValueError ''BreakoutCell requires at least two candles''
      else
        bind_res (required_metadata_number structure (if upside then ''resistance_level'' else ''support_level'')) (\<lambda>level.
        bind_res (required_metadata_number structure ''zone_tolerance_pct'') (\<lambda>tol.
        bind_res (required_metadata_number structure
          (if upside then ''resistance_touch_count'' else ''support_touch_count'')) (\<lambda>touches.
        if fle level (Fin 0) \<or> fle tol (Fin 0)
        then raise PyValueError ''BreakoutCell structure level and tolerance must be positive''
        else if flt touches (Fin 2) \<or> \<not> is_integer touches
        then raise PyValueError ''BreakoutCell structure touch count must be an integer of at least two''
        else Inr (breakout_result T rq structure state upside level tol (float_floor touches))))))"

definition breakout_analyze :: "stdlib \<Rightarrow> wording \<Rightarrow> request \<Rightarrow> cell_result list option \<Rightarrow> cell_result res" where
  "breakout_analyze L T rq children = bind_res (required_structure_result children) (\<lambda>structure.
     if cr_target structure \<noteq> rq_target rq \<or> cr_horizon structure \<noteq> rq_horizon rq
     then raise PyValueError ''BreakoutCell structure result target/horizon does not match request''
     else if item_or (cr_metadata structure) ''formula_version'' PNone \<noteq> PStr structure_formula_version
     then raise PyValueError (msg [''BreakoutCell requires support/resistance formula '', structure_formula_version])
     else
       let state = py_str L (item_or (cr_metadata structure) ''structure_state'' (PStr [])) in
       if state \<notin> set known_structure_states
       then raise PyValueError (msg [''BreakoutCell received unknown structure state '', sl_repr L (PStr state)])
       else if state \<noteq> show_structure Resistance_broken \<and> state \<noteq> show_structure Support_broken
       then Inr (non_candidate_result T rq structure state)
       else breakout_candidate T rq structure state)"

subsection \<open>What the Cell promises\<close>

lemma breakout_strength_range [range_intros]: "in_range 0 100 (breakout_strength c d r p u)"
  by (simp add: breakout_strength_def range_intros)

lemma breakout_confidence_range [range_intros]: "in_range 0 100 (breakout_confidence s n f c v)"
  by (simp add: breakout_confidence_def range_intros)

lemma required_structure_member: "required_structure_result (Some rs) = Inr s \<Longrightarrow> s \<in> set rs"
  by (auto simp: required_structure_result_def Let_def split: if_splits)
    (metis filter_is_subset hd_in_set length_0_conv nat.simps(3) One_nat_def subsetD)

lemma breakout_analyze_ok:
  assumes "breakout_analyze L T rq (Some rs) = Inr r" "list_all result_ok rs"
  shows "result_ok r"
proof -
  obtain s where s: "required_structure_result (Some rs) = Inr s"
    using assms(1) by (auto simp: breakout_analyze_def bind_res_eq_Inr)
  have "result_ok s" using required_structure_member[OF s] assms(2) by (simp add: list_all_iff)
  then have "result_ok (non_candidate_result T rq s state)" for state
    by (simp add: non_candidate_result_def result_ok_def result_of_def breakout_ids_def Let_def)
  moreover have "result_ok (breakout_result T rq s state up level tol n)" for state up level tol n
    unfolding breakout_result_def Let_def by (simp add: result_of_ok range_intros)
  ultimately show ?thesis using assms(1) s
    by (auto simp: breakout_analyze_def breakout_candidate_def Let_def bind_res_eq_Inr split: if_splits)
qed

text \<open>The rounded tolerance stays positive.\<close>

lemma zone_tolerance_rounded: "in_range (1 / 4) 2 (py_round 4 (zone_tolerance h))"
proof -
  have "in_range (1 / 4) (3 / 2) (zone_tolerance h)" unfolding zone_tolerance_def by (rule clamp_in_range) simp
  then obtain t where t: "zone_tolerance h = Fin t" "1 / 4 \<le> t" "t \<le> 3 / 2" by (auto elim: in_rangeE)
  have "(of_int 2500 :: rat) \<le> t * 10 ^ 4" "t * 10 ^ 4 \<le> (of_int 15000 :: rat)" using t by simp_all
  then have r: "2500 \<le> round_half_even (t * 10 ^ 4)" "round_half_even (t * 10 ^ 4) \<le> 15000"
    using round_half_even_mono round_half_even_int by metis+
  have "b64 (1 / 4) = Fin (1 / 4)" using b64_exact[of 1 "- 2"] by (simp add: pow2_def)
  moreover have "b64 2 = Fin 2" by (rule b64_num) simp
  moreover have "(1 / 4 :: rat) \<le> of_int (round_half_even (t * 10 ^ 4)) / 10 ^ 4"
    using r(1) by (simp add: field_simps)
  moreover have "of_int (round_half_even (t * 10 ^ 4)) / 10 ^ 4 \<le> (2 :: rat)"
  proof -
    have "(of_int (round_half_even (t * 10 ^ 4)) :: rat) \<le> of_int 15000" using r(2) by (simp only: of_int_le_iff)
    then show ?thesis by (simp add: field_simps)
  qed
  ultimately show ?thesis unfolding t(1) py_round.simps by (intro b64_in_range) simp_all
qed

text \<open>A level in the metadata that the Cell cannot use: it was rounded to zero, or is not finite.\<close>

definition unusable_level :: "cell_result \<Rightarrow> structure_state \<Rightarrow> string \<Rightarrow> bool" where
  "unusable_level s state key \<longleftrightarrow> item_or (cr_metadata s) ''structure_state'' PNone = PStr (show_structure state)
     \<and> (\<forall>v. item_or (cr_metadata s) key PNone = PFloat v \<longrightarrow> \<not> (isfinite v \<and> flt (Fin 0) v))"

lemma structure_result_fields:
  assumes "classify_structure (last (rq_candles rq)) (confirmed_level sc) (confirmed_level rc)
      (pc_touch_count sc) (pc_touch_count rc) tol = (state, rest)"
  shows "cr_cell_id (structure_result T rq h tol sc rc) = structure_cell_id"
    "cr_target (structure_result T rq h tol sc rc) = rq_target rq"
    "cr_horizon (structure_result T rq h tol sc rc) = rq_horizon rq"
    "item_or (cr_metadata (structure_result T rq h tol sc rc)) ''formula_version'' v = PStr structure_formula_version"
    "item_or (cr_metadata (structure_result T rq h tol sc rc)) ''structure_state'' v = PStr (show_structure state)"
    "item_or (cr_metadata (structure_result T rq h tol sc rc)) ''support_level'' v = rounded_or_none (confirmed_level sc)"
    "item_or (cr_metadata (structure_result T rq h tol sc rc)) ''resistance_level'' v = rounded_or_none (confirmed_level rc)"
    "item_or (cr_metadata (structure_result T rq h tol sc rc)) ''support_touch_count'' v = PInt (int (pc_touch_count sc))"
    "item_or (cr_metadata (structure_result T rq h tol sc rc)) ''resistance_touch_count'' v = PInt (int (pc_touch_count rc))"
    "item_or (cr_metadata (structure_result T rq h tol sc rc)) ''zone_tolerance_pct'' v = num4 tol"
  by (simp_all add: structure_result_def Let_def split_beta assms result_of_def structure_ids_def structure_cell_id_def item_or_def)

text \<open>The numbers of a candidate, once they are read.\<close>

lemma breakout_candidate_raises:
  assumes "state = show_structure Resistance_broken \<or> state = show_structure Support_broken"
    and "length (rq_candles rq) \<ge> 2"
    and "required_metadata_number s ''zone_tolerance_pct'' = Inr tol" "\<not> fle tol (Fin 0)"
    and "item_or (cr_metadata s) (if state = show_structure Resistance_broken then ''resistance_touch_count''
      else ''support_touch_count'') PNone = PInt (int n)" "2 \<le> n" "n \<le> 48"
    and "item_or (cr_metadata s) (if state = show_structure Resistance_broken then ''resistance_level'' else ''support_level'') PNone = PFloat v"
  shows "(\<exists>e. breakout_candidate T rq s state = Inl e) \<longleftrightarrow> \<not> (isfinite v \<and> flt (Fin 0) v)"
proof -
  have n: "b64 (of_int (int n)) = Fin (of_int (int n))" using assms(7) by (intro b64_int) auto
  have touches: "required_metadata_number s (if state = show_structure Resistance_broken then ''resistance_touch_count''
      else ''support_touch_count'') = Inr (Fin (of_int (int n)))"
    unfolding required_metadata_number_def Let_def assms(5) using n by simp
  have int: "\<not> (flt (Fin (of_int (int n))) (Fin 2) \<or> \<not> is_integer (Fin (of_int (int n))))" using assms(6) by simp
  show ?thesis
  proof (cases "isfinite v")
    case True
    have level: "required_metadata_number s (if state = show_structure Resistance_broken then ''resistance_level'' else ''support_level'') = Inr v"
      unfolding required_metadata_number_def Let_def assms(8) using True by simp
    have pos: "flt (Fin 0) v \<longleftrightarrow> \<not> fle v (Fin 0)" using True by (cases v) auto
    show ?thesis
      using assms(2,4) True int pos
      unfolding breakout_candidate_def Let_def level assms(3) touches bind_res_simps by simp
  next
    case False
    have level: "\<exists>e. required_metadata_number s (if state = show_structure Resistance_broken then ''resistance_level'' else ''support_level'') = Inl e"
      unfolding required_metadata_number_def Let_def assms(8) using False by simp
    then show ?thesis using assms(2) False unfolding breakout_candidate_def Let_def by auto
  qed
qed

lemma show_structure_inj: "show_structure a = show_structure b \<longleftrightarrow> a = b"
  by (cases a; cases b) simp_all

lemma known_structure_state: "show_structure a \<in> set known_structure_states"
  by (cases a) (simp_all add: known_structure_states_def)

text \<open>
  C12: The breakout Cell can read what the structure Cell writes, except a level that four decimals
  cannot hold. Over one request, with the structure result as its child, it raises an exception
  exactly when the state is a broken level and that level, rounded in the metadata, is no longer a
  positive finite number; so a request for an asset priced below half a ten-thousandth fails.
\<close>

theorem breakout_accepts_structure:
  assumes "structure_analyze T rq = Inr s"
  shows "(\<exists>e. breakout_analyze L T rq (Some [s]) = Inl e) \<longleftrightarrow>
     unusable_level s Resistance_broken ''resistance_level'' \<or> unusable_level s Support_broken ''support_level''"
proof (cases "length (rq_candles rq) < 6")
  case True
  then have s: "s = insufficient_history_result T rq" using assms by (simp add: structure_analyze_def)
  have f: "cr_cell_id s = structure_cell_id" "cr_target s = rq_target rq" "cr_horizon s = rq_horizon rq"
    "item_or (cr_metadata s) ''formula_version'' v = PStr structure_formula_version"
    "item_or (cr_metadata s) ''structure_state'' v = PStr (show_structure Insufficient_history)" for v
    by (simp_all add: s insufficient_history_result_def neutral_result_def result_of_def structure_ids_def
        structure_cell_id_def item_or_def)
  show ?thesis
    by (simp add: breakout_analyze_def required_structure_result_def f unusable_level_def show_structure_inj
        known_structure_state del: show_structure.simps)
next
  case False
  let ?h = "structure_history (rq_candles rq)"
  let ?tol = "zone_tolerance ?h"
  obtain sc rc where sc: "densest_price_cluster (map cd_low ?h) ?tol False = Inr sc"
    and rc: "densest_price_cluster (map cd_high ?h) ?tol True = Inr rc"
    and s: "s = structure_result T rq ?h ?tol sc rc"
    using assms False by (auto simp: structure_analyze_def Let_def bind_res_eq_Inr)
  obtain state rest where st: "classify_structure (last (rq_candles rq)) (confirmed_level sc) (confirmed_level rc)
      (pc_touch_count sc) (pc_touch_count rc) ?tol = (state, rest)" by (rule prod.exhaust)
  note f = structure_result_fields[OF st, of T ?h, folded s]
  have counts: "pc_touch_count sc \<le> 48" "pc_touch_count rc \<le> 48"
    using cluster_loop_count[OF sc[unfolded densest_price_cluster_def]]
      cluster_loop_count[OF rc[unfolded densest_price_cluster_def]] structure_history_length[of "rq_candles rq"] by auto
  have tol: "required_metadata_number s ''zone_tolerance_pct'' = Inr (py_round 4 ?tol)" "\<not> fle (py_round 4 ?tol) (Fin 0)"
    using zone_tolerance_rounded[of ?h] by (auto simp: required_metadata_number_def f num4_def Let_def elim!: in_rangeE)
  have run: "breakout_analyze L T rq (Some [s]) = (if state \<noteq> Resistance_broken \<and> state \<noteq> Support_broken
      then Inr (non_candidate_result T rq s (show_structure state)) else breakout_candidate T rq s (show_structure state))"
    by (simp add: breakout_analyze_def required_structure_result_def f show_structure_inj known_structure_state Let_def
        del: show_structure.simps)
  have unusable: "unusable_level s a key \<longleftrightarrow> state = a \<and> (\<forall>v. item_or (cr_metadata s) key PNone = PFloat v
      \<longrightarrow> \<not> (isfinite v \<and> flt (Fin 0) v))" for a key
    unfolding unusable_level_def f by (auto simp: show_structure_inj simp del: show_structure.simps)
  show ?thesis
  proof (cases "state = Resistance_broken \<or> state = Support_broken")
    case False
    then show ?thesis unfolding run unusable by simp
  next
    case True
    define c where "c = (if state = Resistance_broken then rc else sc)"
    have touched: "2 \<le> pc_touch_count c"
      using classify_broken[OF st] True by (auto simp: c_def confirmed_level_def split: if_splits)
    have len: "2 \<le> length (rq_candles rq)" using \<open>\<not> length (rq_candles rq) < 6\<close> by simp
    have "(\<exists>e. breakout_candidate T rq s (show_structure state) = Inl e)
        \<longleftrightarrow> \<not> (isfinite (py_round 4 (pc_level c)) \<and> flt (Fin 0) (py_round 4 (pc_level c)))"
      by (rule breakout_candidate_raises[OF _ len tol, where n = "pc_touch_count c"])
        (use True touched counts f(6-9)[of PNone] in \<open>auto simp: c_def show_structure_inj confirmed_level_def
          rounded_or_none_def num4_def simp del: show_structure.simps\<close>)
    then show ?thesis using True touched f(6-9)[of PNone] unfolding run unusable
      by (auto simp: c_def confirmed_level_def rounded_or_none_def num4_def)
  qed
qed

subsection \<open>A cheap asset\<close>

text \<open>
  A valid request at a price near one millionth, a power of two so that every step is exact: five
  candles between \<open>penny\<close> and twice \<open>penny\<close>, then one that closes at eight times \<open>penny\<close>.
\<close>

definition penny :: rat where
  "penny = 1 / 1048576"

definition penny_candle :: "string \<Rightarrow> rat \<Rightarrow> rat \<Rightarrow> candle" where
  "penny_candle t high close = \<lparr>cd_timestamp = t, cd_open = Fin penny, cd_high = Fin high, cd_low = Fin penny,
     cd_close = Fin close, cd_volume = Fin 100\<rparr>"

definition penny_request :: request where
  "penny_request = \<lparr>rq_target = ''SHIBUSDT'', rq_horizon = ''1h'', rq_candles =
     map (\<lambda>c. penny_candle [c] (2 * penny) penny) ''abcde'' @ [penny_candle ''f'' (8 * penny) (8 * penny)], rq_events = [], rq_context = []\<rparr>"

lemma penny_exact: "0 < n \<Longrightarrow> n < 2 ^ 53 \<Longrightarrow> b64 (of_int n * penny) = Fin (of_int n * penny)"
  using b64_exact[of n "- 20"] by (simp add: pow2_def penny_def)

lemma penny_num:
  "b64 penny = Fin penny" "b64 (2 * penny) = Fin (2 * penny)" "b64 (4 * penny) = Fin (4 * penny)"
  "b64 (8 * penny) = Fin (8 * penny)" "0 < penny"
  using penny_exact[of 1] penny_exact[of 2] penny_exact[of 4] penny_exact[of 8] by (simp_all add: penny_def)

definition penny_history :: "candle list" where
  "penny_history = map (\<lambda>c. penny_candle [c] (2 * penny) penny) ''abcde''"

lemma penny_candle_sel [simp]:
  "cd_open (penny_candle t h c) = Fin penny" "cd_high (penny_candle t h c) = Fin h" "cd_low (penny_candle t h c) = Fin penny"
  "cd_close (penny_candle t h c) = Fin c"
  by (simp_all add: penny_candle_def)

lemma penny_tolerance: "zone_tolerance penny_history = Fin (3 / 2)"
proof -
  have r: "range_pct (penny_candle t (2 * penny) penny) = Fin 100" for t
    using penny_num by (simp add: range_pct_def pct_def fsub_def b64_num)
  have "ft_average_range_pct (build_feature_snapshot penny_history None) = mean (replicate 5 (Fin 100))"
    using penny_num by (simp add: build_feature_snapshot_def penny_history_def Let_def truthy_def r numeral_eq_Suc)
  moreover have "mean (replicate 5 (Fin 100)) = Fin 100"
    by (simp add: mean_def fsum_def numeral_eq_Suc b64_num)
  moreover obtain q where q: "b64 (35 / 100) = Fin q" "1 / 4 \<le> q" "q \<le> 1"
    using b64_in_range[of "1 / 4" 1 "35 / 100"] b64_exact[of 1 "- 2"] by (auto simp: pow2_def elim!: in_rangeE)
  moreover obtain t where "b64 (100 * q) = Fin t" "2 \<le> t"
    using b64_in_range[of 2 100 "100 * q"] q by (auto simp: b64_num elim!: in_rangeE)
  ultimately show ?thesis by (simp add: zone_tolerance_def clamp_def fmin_def fmax_def)
qed

lemma densest_of_equal:
  assumes "b64 x = Fin x" "0 < x" "b64 (2 * x) = Fin (2 * x)" "b64 (3 * x) = Fin (3 * x)" "b64 (4 * x) = Fin (4 * x)"
    "b64 (5 * x) = Fin (5 * x)"
  shows "densest_price_cluster (replicate 5 (Fin x)) (Fin (3 / 2)) h
    = Inr \<lparr>pc_level = Fin x, pc_touch_count = 5, pc_spread_pct = Fin 0\<rparr>"
proof -
  have d: "distance_pct (Fin x) (Fin x) = Some (Fin 0)" using assms(2) by (simp add: distance_pct_def truthy_def fsub_def)
  have m: "cluster_members (replicate 5 (Fin x)) (Fin (3 / 2)) (Fin x) = replicate 5 (Fin x)"
    by (simp add: cluster_members_def d filter_True)
  have "fsum (replicate 5 (Fin x)) = Fin (5 * x)" using assms by (simp add: fsum_def numeral_eq_Suc algebra_simps)
  then have c: "cluster_of (replicate 5 (Fin x)) = Inr \<lparr>pc_level = Fin x, pc_touch_count = 5, pc_spread_pct = Fin 0\<rparr>"
    using assms(1,2) by (simp add: cluster_of_def fmax_def fmin_def fsub_def truthy_def numeral_eq_Suc)
  have step: "cluster_loop (replicate 5 (Fin x)) (Fin (3 / 2)) h (Some \<lparr>pc_level = Fin x, pc_touch_count = 5, pc_spread_pct = Fin 0\<rparr>)
      (replicate n (Fin x)) = Inr \<lparr>pc_level = Fin x, pc_touch_count = 5, pc_spread_pct = Fin 0\<rparr>" for n
    by (induction n) (simp_all add: m c)
  have "replicate 5 (Fin x) = Fin x # replicate 4 (Fin x)" by (simp add: numeral_eq_Suc)
  then have "densest_price_cluster (replicate 5 (Fin x)) (Fin (3 / 2)) h
      = cluster_loop (replicate 5 (Fin x)) (Fin (3 / 2)) h None (Fin x # replicate 4 (Fin x))"
    unfolding densest_price_cluster_def by simp
  then show ?thesis unfolding cluster_loop.simps m c bind_res_simps option.case step .
qed

lemma penny_break:
  "\<exists>u. classify_structure (penny_candle ''f'' (8 * penny) (8 * penny)) (Some (Fin penny)) (Some (Fin (2 * penny))) 5 5 (Fin (3 / 2))
     = (Resistance_broken, Conflict, 5, Fin 0, u)"
proof -
  let ?p = penny
  obtain e where e: "b64 (3 / 200) = Fin e" "0 \<le> e" "e \<le> 1"
    using b64_in_range[of 0 1 "3 / 200"] by (auto elim!: in_rangeE)
  obtain lo where lo: "b64 (1 - e) = Fin lo" "0 \<le> lo" "lo \<le> 1"
    using b64_in_range[of 0 1 "1 - e"] e by (auto elim!: in_rangeE)
  obtain hi where hi: "b64 (1 + e) = Fin hi" "1 \<le> hi" "hi \<le> 2"
    using b64_in_range[of 1 2 "1 + e"] e by (auto simp: b64_num elim!: in_rangeE)
  have edges: "lower_edge (Fin (3 / 2)) = Fin lo" "upper_edge (Fin (3 / 2)) = Fin hi"
    using e lo hi by (simp_all add: lower_edge_def upper_edge_def fsub_def)
  obtain t where t: "b64 (?p * lo) = Fin t" "0 \<le> t" "t \<le> ?p"
    using b64_in_range[of 0 ?p "?p * lo"] penny_num lo by (auto simp: mult_left_le elim!: in_rangeE)
  obtain d where d: "b64 (t - 8 * ?p) = Fin d" "- 8 * ?p \<le> d" "d \<le> 0"
    using b64_in_range[of "- 8 * ?p" 0 "t - 8 * ?p"] penny_num t b64_minus[of "8 * ?p"] by (auto elim!: in_rangeE)
  have "- 8 \<le> d / ?p" "d / ?p \<le> 0" using d penny_num(5) by (simp_all add: field_simps)
  then obtain d1 where d1: "b64 (d / ?p) = Fin d1" "- 8 \<le> d1" "d1 \<le> 0"
    using b64_in_range[of "- 8" 0 "d / ?p"] by (auto simp: b64_neg_num elim!: in_rangeE)
  obtain d2 where d2: "b64 (d1 * 100) = Fin d2" "d2 \<le> 0"
    using b64_in_range[of "- 800" 0 "d1 * 100"] d1 by (auto simp: b64_neg_num elim!: in_rangeE)
  have down: "\<not> flt (Fin 0) (downside_break_pct (Fin (8 * ?p)) (Some (Fin ?p)) (Fin (3 / 2)))"
    using t d d1 d2 by (simp add: downside_break_pct_def edges fsub_def fmax_def)
  obtain v where v: "b64 (2 * ?p * hi) = Fin v" "2 * ?p \<le> v" "v \<le> 4 * ?p"
    using b64_in_range[of "2 * ?p" "4 * ?p" "2 * ?p * hi"] penny_num hi by (auto elim!: in_rangeE)
  obtain w where w: "b64 (8 * ?p - v) = Fin w" "4 * ?p \<le> w" "w \<le> 8 * ?p"
    using b64_in_range[of "4 * ?p" "8 * ?p" "8 * ?p - v"] penny_num v by (auto elim!: in_rangeE)
  have "2 \<le> w / (2 * ?p)" "w / (2 * ?p) \<le> 4" using w penny_num(5) by (simp_all add: field_simps)
  then obtain w1 where w1: "b64 (w / (2 * ?p)) = Fin w1" "2 \<le> w1" "w1 \<le> 4"
    using b64_in_range[of 2 4 "w / (2 * ?p)"] by (auto simp: b64_num elim!: in_rangeE)
  obtain w2 where w2: "b64 (w1 * 100) = Fin w2" "200 \<le> w2"
    using b64_in_range[of 200 400 "w1 * 100"] w1 by (auto simp: b64_num elim!: in_rangeE)
  have up: "flt (Fin 0) (upside_break_pct (Fin (8 * ?p)) (Some (Fin (2 * ?p))) (Fin (3 / 2)))"
    using v w w1 w2 by (simp add: upside_break_pct_def edges fsub_def fmax_def)
  show ?thesis using down up penny_num(5) by (simp add: classify_structure_def Let_def)
qed

theorem breakout_accepts_structure_witness:
  "validate_request penny_request = Inr () \<and> (\<exists>s e. structure_analyze plain_wording penny_request = Inr s
     \<and> breakout_analyze echo_lib plain_wording penny_request (Some [s]) = Inl e)"
proof
  show "validate_request penny_request = Inr ()" by code_simp
  let ?cs = "rq_candles penny_request" and ?p = penny
  have h: "structure_history ?cs = penny_history" and len: "length ?cs = 6" and latest: "last ?cs = penny_candle ''f'' (8 * ?p) (8 * ?p)"
    by (simp_all add: penny_request_def structure_history_def penny_history_def butlast_append)
  let ?sc = "\<lparr>pc_level = Fin ?p, pc_touch_count = 5, pc_spread_pct = Fin 0\<rparr>"
  let ?rc = "\<lparr>pc_level = Fin (2 * ?p), pc_touch_count = 5, pc_spread_pct = Fin 0\<rparr>"
  let ?s = "structure_result plain_wording penny_request penny_history (Fin (3 / 2)) ?sc ?rc"
  have hs: "map cd_low penny_history = replicate 5 (Fin ?p)" "map cd_high penny_history = replicate 5 (Fin (2 * ?p))"
    by (simp_all add: penny_history_def numeral_eq_Suc)
  have sc: "densest_price_cluster (map cd_low penny_history) (Fin (3 / 2)) False = Inr ?sc"
    unfolding hs by (rule densest_of_equal) (use penny_num penny_exact[of 3] penny_exact[of 5] in simp_all)
  have rc: "densest_price_cluster (map cd_high penny_history) (Fin (3 / 2)) True = Inr ?rc"
    unfolding hs by (rule densest_of_equal) (use penny_num penny_exact[of 6] penny_exact[of 10] in simp_all)
  have s: "structure_analyze plain_wording penny_request = Inr ?s"
    by (simp add: structure_analyze_def len h penny_tolerance sc rc)
  obtain u where "classify_structure (last ?cs) (confirmed_level ?sc) (confirmed_level ?rc) (pc_touch_count ?sc)
      (pc_touch_count ?rc) (Fin (3 / 2)) = (Resistance_broken, Conflict, 5, Fin 0, u)"
    using penny_break by (auto simp: latest confirmed_level_def)
  note f = structure_result_fields[OF this, of plain_wording penny_history]
  have "\<lfloor>2 * ?p * 10 ^ 4\<rfloor> = 0" by (simp add: penny_def floor_eq_iff)
  then have "round_half_even (2 * ?p * 10 ^ 4) = 0" by (simp add: round_half_even_def Let_def penny_def)
  then have "unusable_level ?s Resistance_broken ''resistance_level''"
    unfolding unusable_level_def f by (simp add: rounded_or_none_def confirmed_level_def num4_def)
  with breakout_accepts_structure[OF s, of echo_lib] s show "\<exists>s e. structure_analyze plain_wording penny_request = Inr s
     \<and> breakout_analyze echo_lib plain_wording penny_request (Some [s]) = Inl e" by blast
qed

end
