(* ===== verification/Cells_Anomaly.thy ===== *)
theory Cells_Anomaly
  imports Cells_Basic Decision_Policy
begin

section \<open>Volume and price anomalies\<close>

text \<open>
  Models \<open>cells/volume_price_anomaly.py\<close>: robust statistics of a bounded history, the anomaly state
  of the latest candle and the Cell. A NaN, whose place in a sort Python leaves open, is not
  considered; candles of a validated request are finite.
\<close>

subsection \<open>Robust statistics\<close>

text \<open>\<open>statistics.median\<close>.\<close>

definition median :: "pyfloat list \<Rightarrow> pyfloat res" where
  "median xs = (let s = sort xs; n = length s in
     if n = 0 then raise (PyOther ''StatisticsError'') ''no median for empty data''
     else if odd n then Inr (s ! (n div 2))
     else Inr (fdiv (fadd (s ! (n div 2 - 1)) (s ! (n div 2))) (Fin 2)))"

record vp_metrics =
  vp_latest_volume :: pyfloat
  vp_volume_median :: pyfloat
  vp_volume_ratio :: pyfloat
  vp_volume_relative_mad :: pyfloat
  vp_volume_scale :: pyfloat
  vp_volume_robust_z :: pyfloat
  vp_latest_return_pct :: pyfloat
  vp_abs_return_median_pct :: pyfloat
  vp_return_mad_pct :: pyfloat
  vp_return_scale_pct :: pyfloat
  vp_price_robust_z :: pyfloat
  vp_muted_price_threshold_pct :: pyfloat

definition mad_factor :: pyfloat where
  "mad_factor = b64 (14826 / 10000)"

definition abs_returns :: "candle list \<Rightarrow> pyfloat list" where
  "abs_returns h = step_moves (map cd_close h)"

definition build_metrics :: "candle list \<Rightarrow> candle \<Rightarrow> pyfloat \<Rightarrow> vp_metrics res" where
  "build_metrics history latest volume_median =
     (let ratio = fdiv (cd_volume latest) volume_median in
      bind_res (median (map (\<lambda>c. fabs (fsub (fdiv (cd_volume c) volume_median) (Fin 1))) history)) (\<lambda>vmad.
      let vscale = fmul mad_factor (fmax vmad (b64 (1 / 10))); returns = abs_returns history in
      bind_res (median returns) (\<lambda>rmedian.
      bind_res (median (map (\<lambda>v. fabs (fsub v rmedian)) returns)) (\<lambda>rmad.
      let rscale = fmul mad_factor (fmax rmad (b64 (15 / 100))); base = cd_close (last history) in
      if \<not> truthy base then raise (PyOther ''ZeroDivisionError'') ''float division by zero''
      else
        let ret = pct (fsub (cd_close latest) base) base in
        Inr \<lparr>vp_latest_volume = cd_volume latest, vp_volume_median = volume_median, vp_volume_ratio = ratio,
          vp_volume_relative_mad = vmad, vp_volume_scale = vscale,
          vp_volume_robust_z = fdiv (fsub ratio (Fin 1)) vscale, vp_latest_return_pct = ret,
          vp_abs_return_median_pct = rmedian, vp_return_mad_pct = rmad, vp_return_scale_pct = rscale,
          vp_price_robust_z = fdiv (fsub (fabs ret) rmedian) rscale,
          vp_muted_price_threshold_pct = fmax (Fin (1 / 2)) (fadd rmedian (fmul (Fin (3 / 2)) rscale))\<rparr>))))"

subsection \<open>The state and its severity\<close>

datatype anomaly_state = A_insufficient | A_invalid_baseline | A_degraded_baseline | A_normal | A_absorption
  | A_divergence | A_dislocation_up | A_dislocation_down | A_expansion_up | A_expansion_down

fun show_anomaly :: "anomaly_state \<Rightarrow> string" where
  "show_anomaly A_insufficient = ''insufficient_history''"
| "show_anomaly A_invalid_baseline = ''invalid_volume_baseline''"
| "show_anomaly A_degraded_baseline = ''degraded_volume_baseline''"
| "show_anomaly A_normal = ''normal''"
| "show_anomaly A_absorption = ''volume_absorption''"
| "show_anomaly A_divergence = ''volume_price_divergence''"
| "show_anomaly A_dislocation_up = ''price_dislocation_up''"
| "show_anomaly A_dislocation_down = ''price_dislocation_down''"
| "show_anomaly A_expansion_up = ''synchronized_expansion_up''"
| "show_anomaly A_expansion_down = ''synchronized_expansion_down''"

definition known_anomaly_states :: "string list" where
  "known_anomaly_states = map show_anomaly [A_insufficient, A_invalid_baseline, A_degraded_baseline, A_normal,
     A_absorption, A_divergence, A_dislocation_up, A_dislocation_down, A_expansion_up, A_expansion_down]"

definition robust_z_threshold :: pyfloat where
  "robust_z_threshold = Fin (7 / 2)"

definition volume_anomalous :: "vp_metrics \<Rightarrow> bool" where
  "volume_anomalous m \<longleftrightarrow> fle (Fin 2) (vp_volume_ratio m) \<and> fle robust_z_threshold (vp_volume_robust_z m)"

definition price_anomalous :: "vp_metrics \<Rightarrow> bool" where
  "price_anomalous m \<longleftrightarrow> fle (Fin (3 / 2)) (fabs (vp_latest_return_pct m)) \<and> fle robust_z_threshold (vp_price_robust_z m)"

definition anomaly_state_of :: "bool \<Rightarrow> bool \<Rightarrow> pyfloat \<Rightarrow> pyfloat \<Rightarrow> anomaly_state" where
  "anomaly_state_of volume price ret muted =
     (if volume \<and> price then (if flt (Fin 0) ret then A_expansion_up else A_expansion_down)
      else if volume then (if fle (fabs ret) muted then A_absorption else A_divergence)
      else if price then (if flt (Fin 0) ret then A_dislocation_up else A_dislocation_down)
      else A_normal)"

definition volume_severity :: "vp_metrics \<Rightarrow> bool \<Rightarrow> pyfloat" where
  "volume_severity m anomalous =
     (if \<not> anomalous then Fin 0
      else py_round 4 (clamp100 (fadd (fadd (Fin 35) (fmul (fsub (vp_volume_ratio m) (Fin 2)) (Fin 20)))
        (fmul (fsub (fmin (vp_volume_robust_z m) (Fin 10)) robust_z_threshold) (Fin 4)))))"

definition price_severity :: "vp_metrics \<Rightarrow> bool \<Rightarrow> pyfloat" where
  "price_severity m anomalous =
     (if \<not> anomalous then Fin 0
      else py_round 4 (clamp100 (fadd (fadd (Fin 35) (fmul (fsub (fabs (vp_latest_return_pct m)) (Fin (3 / 2))) (Fin 8)))
        (fmul (fsub (fmin (vp_price_robust_z m) (Fin 10)) robust_z_threshold) (Fin 4)))))"

definition anomaly_score :: "anomaly_state \<Rightarrow> pyfloat \<Rightarrow> pyfloat \<Rightarrow> pyfloat" where
  "anomaly_score state v p =
     (if state \<in> {A_normal, A_insufficient, A_invalid_baseline, A_degraded_baseline} then Fin 0
      else if state \<in> {A_expansion_up, A_expansion_down} then py_round 4 (clamp100 (fdiv (fadd v p) (Fin 2)))
      else py_round 4 (fmax v p))"

text \<open>The manipulation risk and the volatility risk of a state.\<close>

definition risk_dimensions :: "anomaly_state \<Rightarrow> pyfloat \<Rightarrow> pyfloat \<Rightarrow> pyfloat \<times> pyfloat" where
  "risk_dimensions state sc p =
     (let part = (\<lambda>k. py_round 4 (clamp100 (fmul sc (b64 (k / 100)))));
          jump = py_round 4 (clamp100 (fmax (Fin 45) p)) in
      if state \<in> {A_expansion_up, A_expansion_down} then (part 35, jump)
      else if state = A_absorption then (part 65, part 25)
      else if state = A_divergence then (part 55, part 40)
      else if state \<in> {A_dislocation_up, A_dislocation_down} then (part 45, jump)
      else (Fin 0, Fin 0))"

definition anomaly_confidence :: "nat \<Rightarrow> pyfloat" where
  "anomaly_confidence n = py_round 4 (clamp (fadd (Fin 40) (fmul (fnum (min n 32)) (Fin (3 / 2)))) (Fin 0) (Fin 88))"

definition price_direction :: "pyfloat \<Rightarrow> string" where
  "price_direction r = (if flt (Fin 0) r then ''up'' else if flt r (Fin 0) then ''down'' else ''flat'')"

subsection \<open>The anomaly Cell\<close>

definition anomaly_ids :: cell_ids where
  "anomaly_ids = (''risk.volume_price_anomaly'', ''VolumePriceAnomalyCell'', ''risk'')"

definition anomaly_formula_version :: string where
  "anomaly_formula_version = ''robust_volume_price_anomaly_v0.2''"

definition num6 :: "pyfloat \<Rightarrow> pyval" where
  "num6 x = PFloat (py_round 6 x)"

definition with_reliability :: "pyfloat \<Rightarrow> evidence \<Rightarrow> evidence" where
  "with_reliability c e = e\<lparr>evd_reliability := c\<rparr>"

definition history_metadata :: "anomaly_state \<Rightarrow> nat \<Rightarrow> meta" where
  "history_metadata state n = [(''formula_version'', PStr anomaly_formula_version),
     (''anomaly_state'', PStr (show_anomaly state)), (''history_candle_count'', PInt (int n)),
     (''minimum_history_candle_count'', PInt 8), (''maximum_history_candle_count'', PInt 48)]"

definition anomaly_quiet :: "request \<Rightarrow> pyfloat \<Rightarrow> string \<Rightarrow> evidence list \<Rightarrow> meta \<Rightarrow> cell_result" where
  "anomaly_quiet rq confidence explanation evs md = result_of anomaly_ids rq Neutral (Fin 0) confidence
     (Fin 0) (Fin 0) (Fin 0) (Fin 0) explanation evs [] md"

definition insufficient_anomaly_result :: "wording \<Rightarrow> request \<Rightarrow> nat \<Rightarrow> cell_result" where
  "insufficient_anomaly_result T rq n =
     (let c = py_round 4 (clamp (fnum (10 + n * 3)) (Fin 0) (Fin 30)) in
      anomaly_quiet rq c (wd_text T ''anomaly.insufficient'')
        [with_reliability c (evidence_of ''candles.history'' (msg [''history_count='', show_nat n, '', minimum='', show_nat 8]))]
        (history_metadata A_insufficient n @ [(''manipulation_inference'', PStr ''risk_pattern_not_proof'')]))"

definition baseline_metadata :: "anomaly_state \<Rightarrow> nat \<Rightarrow> pyfloat \<Rightarrow> nat \<Rightarrow> pyfloat \<Rightarrow> meta" where
  "baseline_metadata state n volume_median positive coverage = history_metadata state n
     @ [(''historical_volume_median'', PFloat volume_median), (''positive_volume_count'', PInt (int positive)),
        (''positive_volume_coverage'', num6 coverage), (''minimum_positive_volume_coverage'', PFloat (b64 (8 / 10))),
        (''manipulation_inference'', PStr ''risk_pattern_not_proof'')]"

definition invalid_baseline_result :: "wording \<Rightarrow> request \<Rightarrow> nat \<Rightarrow> pyfloat \<Rightarrow> nat \<Rightarrow> pyfloat \<Rightarrow> cell_result" where
  "invalid_baseline_result T rq n volume_median positive coverage =
     anomaly_quiet rq (Fin 20) (wd_text T ''anomaly.invalid'')
       [with_reliability (Fin 20) (evidence_of ''candles.volume.robust_baseline''
          (msg [''historical_volume_median='', wd_fixed T 4 volume_median]))]
       (baseline_metadata A_invalid_baseline n volume_median positive coverage)"

definition degraded_baseline_result :: "wording \<Rightarrow> request \<Rightarrow> nat \<Rightarrow> pyfloat \<Rightarrow> nat \<Rightarrow> pyfloat \<Rightarrow> cell_result" where
  "degraded_baseline_result T rq n volume_median positive coverage =
     anomaly_quiet rq (Fin 25) (wd_text T ''anomaly.degraded'')
       [with_reliability (Fin 25) (evidence_of ''candles.volume.baseline_coverage''
          (msg [''positive_volume_count='', show_nat positive, '', history_count='', show_nat n, '', coverage='',
            wd_fixed T 4 coverage, '', minimum='', wd_fixed T 4 (b64 (8 / 10))]))]
       (baseline_metadata A_degraded_baseline n volume_median positive coverage)"

definition anomaly_explanation :: "wording \<Rightarrow> anomaly_state \<Rightarrow> vp_metrics \<Rightarrow> pyfloat \<Rightarrow> string" where
  "anomaly_explanation T state m sc = msg
     [wd_text T (''anomaly.'' @ show_anomaly state), wd_text T ''anomaly.volume'', wd_fixed T 2 (vp_volume_ratio m),
      wd_text T ''anomaly.change'', wd_fixed T 2 (vp_latest_return_pct m), wd_text T ''anomaly.strength'',
      wd_fixed T 1 sc, wd_text T ''anomaly.caveat'']"

definition anomaly_evidence :: "wording \<Rightarrow> anomaly_state \<Rightarrow> vp_metrics \<Rightarrow> pyfloat \<Rightarrow> pyfloat \<Rightarrow> evidence list" where
  "anomaly_evidence T state m sc confidence = map (with_reliability confidence)
     [evidence_of ''candles.volume.robust_baseline'' (msg [''latest='', wd_fixed T 4 (vp_latest_volume m),
        '', median='', wd_fixed T 4 (vp_volume_median m), '', ratio='', wd_fixed T 4 (vp_volume_ratio m),
        '', robust_z='', wd_fixed T 4 (vp_volume_robust_z m)]),
      evidence_of ''candles.close.robust_return'' (msg [''latest_return='', wd_fixed T 4 (vp_latest_return_pct m),
        ''%, historical_abs_median='', wd_fixed T 4 (vp_abs_return_median_pct m), ''%, robust_z='',
        wd_fixed T 4 (vp_price_robust_z m)]),
      evidence_of ''volume_price.anomaly_classification'' (msg [''state='', show_anomaly state, '', anomaly_score='',
        wd_fixed T 4 sc, ''; abnormal co-movement is risk evidence, not proof of manipulation''])]"

definition anomaly_metadata :: "anomaly_state \<Rightarrow> nat \<Rightarrow> nat \<Rightarrow> pyfloat \<Rightarrow> vp_metrics \<Rightarrow> pyfloat \<Rightarrow> pyfloat \<Rightarrow> pyfloat \<Rightarrow> meta" where
  "anomaly_metadata state n positive coverage m v p sc = history_metadata state n
     @ [(''positive_volume_count'', PInt (int positive)), (''positive_volume_coverage'', num6 coverage),
        (''minimum_positive_volume_coverage'', PFloat (b64 (8 / 10))), (''latest_volume'', num6 (vp_latest_volume m)),
        (''historical_volume_median'', num6 (vp_volume_median m)), (''volume_ratio'', num6 (vp_volume_ratio m)),
        (''volume_relative_mad'', num6 (vp_volume_relative_mad m)), (''volume_scale'', num6 (vp_volume_scale m)),
        (''volume_robust_z'', num6 (vp_volume_robust_z m)), (''latest_return_pct'', num6 (vp_latest_return_pct m)),
        (''price_direction'', PStr (price_direction (vp_latest_return_pct m))),
        (''historical_abs_return_median_pct'', num6 (vp_abs_return_median_pct m)),
        (''return_mad_pct'', num6 (vp_return_mad_pct m)), (''return_scale_pct'', num6 (vp_return_scale_pct m)),
        (''price_robust_z'', num6 (vp_price_robust_z m)),
        (''muted_price_threshold_pct'', num6 (vp_muted_price_threshold_pct m)),
        (''volume_anomalous'', PBool (volume_anomalous m)), (''price_anomalous'', PBool (price_anomalous m)),
        (''volume_severity'', PFloat v), (''price_severity'', PFloat p), (''anomaly_score'', PFloat sc),
        (''volume_ratio_threshold'', PFloat (Fin 2)), (''robust_z_threshold'', PFloat robust_z_threshold),
        (''minimum_price_move_pct'', PFloat (Fin (3 / 2))), (''single_window_confidence_cap'', PFloat (Fin 88)),
        (''manipulation_inference'', PStr ''risk_pattern_not_proof'')]"

definition anomaly_result :: "wording \<Rightarrow> request \<Rightarrow> nat \<Rightarrow> nat \<Rightarrow> pyfloat \<Rightarrow> vp_metrics \<Rightarrow> cell_result" where
  "anomaly_result T rq n positive coverage m =
     (let state = anomaly_state_of (volume_anomalous m) (price_anomalous m) (vp_latest_return_pct m)
            (vp_muted_price_threshold_pct m);
          d = (if state = A_normal then Neutral else Conflict);
          v = volume_severity m (volume_anomalous m); p = price_severity m (price_anomalous m);
          sc = anomaly_score state v p; (manipulation, volatility) = risk_dimensions state sc p;
          confidence = anomaly_confidence n
      in result_of anomaly_ids rq d sc confidence volatility manipulation (py_round 4 (fmax volatility manipulation))
        (score d sc confidence) (anomaly_explanation T state m sc) (anomaly_evidence T state m sc confidence) []
        (anomaly_metadata state n positive coverage m v p sc))"

definition anomaly_analyze :: "wording \<Rightarrow> request \<Rightarrow> cell_result res" where
  "anomaly_analyze T rq =
     (let cs = rq_candles rq; history = drop (length cs - 49) (butlast cs); n = length history in
      if n < 8 then Inr (insufficient_anomaly_result T rq n)
      else
        let positive = length (filter (\<lambda>c. flt (Fin 0) (cd_volume c)) history);
            coverage = int_div (int positive) (int n)
        in bind_res (median (map cd_volume history)) (\<lambda>vm.
          if fle vm (Fin 0) then Inr (invalid_baseline_result T rq n vm positive coverage)
          else if flt coverage (b64 (8 / 10)) then Inr (degraded_baseline_result T rq n vm positive coverage)
          else bind_res (build_metrics history (last cs) vm) (\<lambda>m. Inr (anomaly_result T rq n positive coverage m))))"

end
