(* ===== verification/Cells_Risk.thy ===== *)
theory Cells_Risk
  imports Cells_Anomaly
begin

section \<open>Market integrity risk\<close>

text \<open>
  Models \<open>cells/risk.py\<close>: the Cell that reads the anomaly result among its children and adds what a
  large range and a long wick of the latest candle contribute.
\<close>

definition manipulation_ids :: cell_ids where
  "manipulation_ids = (''risk.manipulation'', ''ManipulationRiskCell'', ''risk'')"

definition anomaly_cell_id :: string where
  "anomaly_cell_id = ''risk.volume_price_anomaly''"

definition required_anomaly_result :: "cell_result list option \<Rightarrow> cell_result res" where
  "required_anomaly_result children =
     (let rs = (case children of None \<Rightarrow> [] | Some rs \<Rightarrow> rs); matches = filter (\<lambda>r. cr_cell_id r = anomaly_cell_id) rs in
      if length rs \<noteq> 1 \<or> length matches \<noteq> 1 then raise PyValueError
        (msg [''ManipulationRiskCell requires exactly one '', anomaly_cell_id, '' child result''])
      else Inr (hd matches))"

text \<open>The truth value of a metadata entry.\<close>

fun py_true :: "pyval \<Rightarrow> bool" where
  "py_true PNone = False"
| "py_true (PBool b) = b"
| "py_true (PInt i) = (i \<noteq> 0)"
| "py_true (PFloat f) = truthy f"
| "py_true (PStr s) = (s \<noteq> [])"
| "py_true (PList vs) = (vs \<noteq> [])"
| "py_true (PDict d) = (d \<noteq> [])"
| "py_true (POpaque _) = True"

definition risk_confidence :: "pyfloat \<Rightarrow> bool \<Rightarrow> nat \<Rightarrow> pyfloat" where
  "risk_confidence anomaly enough n = py_round 4 (clamp
     (fadd (fadd (fadd (fmul anomaly (b64 (55 / 100))) (Fin 30)) (if enough then Fin 10 else Fin 0)) (fnum (n * 8)))
     (Fin 0) (Fin 90))"

text \<open>The two components of the shape, zero when they do not apply.\<close>

definition range_applies :: "bool \<Rightarrow> features \<Rightarrow> bool" where
  "range_applies enough f \<longleftrightarrow> enough \<and> flt (Fin 4) (ft_latest_range_pct f)"

definition wick_applies :: "bool \<Rightarrow> features \<Rightarrow> bool" where
  "wick_applies enough f \<longleftrightarrow> enough \<and> flt (b64 (55 / 100)) (ft_latest_wick_ratio f)"

definition range_component :: "bool \<Rightarrow> features \<Rightarrow> pyfloat" where
  "range_component enough f = (if range_applies enough f
     then clamp (fmul (fsub (ft_latest_range_pct f) (Fin 4)) (Fin 8)) (Fin 0) (Fin 30) else Fin 0)"

definition wick_component :: "bool \<Rightarrow> features \<Rightarrow> pyfloat" where
  "wick_component enough f = (if wick_applies enough f
     then clamp (fmul (fsub (ft_latest_wick_ratio f) (b64 (55 / 100))) (Fin 60)) (Fin 0) (Fin 25) else Fin 0)"

definition shape_evidence :: "wording \<Rightarrow> bool \<Rightarrow> features \<Rightarrow> evidence list" where
  "shape_evidence T enough f =
     (if range_applies enough f then [evidence_of ''large_intraperiod_range'' (msg [wd_text T ''risk.range'',
        wd_fixed T 2 (ft_latest_range_pct f), wd_text T ''risk.range_grows''])] else [])
     @ (if wick_applies enough f then [evidence_of ''long_wick'' (msg [wd_text T ''risk.wick'',
        wd_fixed T 2 (ft_latest_wick_ratio f), wd_text T ''risk.wick_rejects''])] else [])"

definition manipulation_result :: "wording \<Rightarrow> request \<Rightarrow> cell_result \<Rightarrow> string \<Rightarrow> cell_result" where
  "manipulation_result T rq anomaly state =
     (let f = build_feature_snapshot (rq_candles rq) None; enough = length (rq_candles rq) \<ge> 4;
          rc = range_component enough f; wc = wick_component enough f; shape = shape_evidence T enough f;
          weight = (if py_true (item_or (cr_metadata anomaly) ''price_anomalous'' PNone) then Fin (1 / 2) else Fin 1);
          risk = clamp100 (fadd (fadd (cr_manipulation_risk anomaly) (fmul rc weight)) wc);
          volatility = clamp100 (fmax (cr_volatility_risk anomaly)
            (if enough then fmul (ft_latest_range_pct f) (Fin 14) else Fin 0));
          d = (if fle (Fin 35) risk then Conflict else Neutral);
          confidence = risk_confidence (cr_confidence anomaly) enough (length shape)
      in result_of manipulation_ids rq d (py_round 4 risk) confidence (py_round 4 volatility) (py_round 4 risk)
        (py_round 4 (fmax risk volatility)) (score d risk confidence)
        (msg [wd_text T ''risk.state'', state, wd_text T ''risk.combined'', wd_fixed T 1 risk, wd_text T ''risk.caveat''])
        (with_reliability (cr_confidence anomaly) (evidence_of (cr_cell_id anomaly) (msg [''state='', state,
            '', anomaly_strength='', wd_fixed T 1 (cr_strength anomaly), '', manipulation_risk='',
            wd_fixed T 1 (cr_manipulation_risk anomaly)]))
         # shape
         @ (if enough then [] else [with_reliability (Fin 20) (evidence_of ''candles.shape_history''
             (msg [''candle_count='', show_nat (length (rq_candles rq)), '', minimum='', show_nat 4,
               ''; shape components skipped'']))]))
        [anomaly]
        [(''formula_version'', PStr ''shape_anomaly_manipulation_risk_v0.3''), (''anomaly_cell_id'', PStr anomaly_cell_id),
         (''anomaly_formula_version'', PStr anomaly_formula_version), (''anomaly_state'', PStr state),
         (''anomaly_component'', num4 (cr_manipulation_risk anomaly)), (''latest_range_pct'', num4 (ft_latest_range_pct f)),
         (''range_component'', num4 rc), (''range_component_weight'', PFloat weight),
         (''wick_ratio'', num4 (ft_latest_wick_ratio f)), (''wick_component'', num4 wc),
         (''shape_history_sufficient'', PBool enough), (''minimum_shape_candle_count'', PInt 4),
         (''feature_version'', PStr feature_version), (''manipulation_inference'', PStr ''risk_pattern_not_proof'')])"

definition manipulation_analyze :: "stdlib \<Rightarrow> wording \<Rightarrow> request \<Rightarrow> cell_result list option \<Rightarrow> cell_result res" where
  "manipulation_analyze L T rq children = bind_res (required_anomaly_result children) (\<lambda>anomaly.
     if cr_target anomaly \<noteq> rq_target rq \<or> cr_horizon anomaly \<noteq> rq_horizon rq
     then raise PyValueError ''ManipulationRiskCell anomaly result target/horizon does not match request''
     else if item_or (cr_metadata anomaly) ''formula_version'' PNone \<noteq> PStr anomaly_formula_version
     then raise PyValueError (msg [''ManipulationRiskCell requires volume/price anomaly formula '', anomaly_formula_version])
     else
       let state = py_str L (item_or (cr_metadata anomaly) ''anomaly_state'' (PStr [])) in
       if state \<notin> set known_anomaly_states
       then raise PyValueError (msg [''ManipulationRiskCell received unknown anomaly state '', sl_repr L (PStr state)])
       else Inr (manipulation_result T rq anomaly state))"

subsection \<open>What the two Cells promise\<close>

lemma severity_range [range_intros]: "in_range 0 100 (volume_severity m a)" "in_range 0 100 (price_severity m a)"
  by (simp_all add: volume_severity_def price_severity_def range_intros)

lemma anomaly_score_range: "in_range 0 100 v \<Longrightarrow> in_range 0 100 p \<Longrightarrow> in_range 0 100 (anomaly_score st v p)"
  by (simp add: anomaly_score_def range_intros)

lemma risk_dimensions_range [range_intros]:
  "in_range 0 100 (fst (risk_dimensions st sc p))" "in_range 0 100 (snd (risk_dimensions st sc p))"
  by (simp_all add: risk_dimensions_def Let_def range_intros)

lemma anomaly_confidence_range [range_intros]: "in_range 0 100 (anomaly_confidence n)"
  by (simp add: anomaly_confidence_def range_intros)

lemma risk_confidence_range [range_intros]: "in_range 0 100 (risk_confidence a e n)"
  by (simp add: risk_confidence_def range_intros)

lemma anomaly_quiet_ok: "in_range 0 100 c \<Longrightarrow> result_ok (anomaly_quiet rq c expl evs md)"
  by (simp add: anomaly_quiet_def result_of_def result_ok_def anomaly_ids_def)

lemma anomaly_result_ok: "result_ok (anomaly_result T rq n pos cov m)"
  unfolding anomaly_result_def Let_def split_beta
  by (simp add: result_of_ok range_intros anomaly_score_range)

lemma manipulation_result_ok: "result_ok (manipulation_result T rq a st)"
  unfolding manipulation_result_def Let_def by (simp add: result_of_ok range_intros)

text \<open>What every result of the anomaly Cell carries.\<close>

definition anomaly_shape :: "request \<Rightarrow> cell_result \<Rightarrow> bool" where
  "anomaly_shape rq r \<longleftrightarrow> cr_cell_id r = anomaly_cell_id \<and> cr_target r = rq_target rq \<and> cr_horizon r = rq_horizon rq
     \<and> item_or (cr_metadata r) ''formula_version'' PNone = PStr anomaly_formula_version
     \<and> (\<exists>st. item_or (cr_metadata r) ''anomaly_state'' (PStr []) = PStr (show_anomaly st)) \<and> result_ok r"

lemma history_metadata_items:
  "item_or (history_metadata st n @ md) ''formula_version'' v = PStr anomaly_formula_version"
  "item_or (history_metadata st n @ md) ''anomaly_state'' v = PStr (show_anomaly st)"
  by (simp_all add: history_metadata_def item_or_def)

lemma anomaly_shape_of:
  "anomaly_shape rq (insufficient_anomaly_result T rq n)"
  "anomaly_shape rq (invalid_baseline_result T rq n vm k c)"
  "anomaly_shape rq (degraded_baseline_result T rq n vm k c)"
  "anomaly_shape rq (anomaly_result T rq n k c m)"
proof -
  have q: "anomaly_shape rq (anomaly_quiet rq c expl evs (history_metadata st n @ md))" if "in_range 0 100 c" for c expl evs st n md
    using anomaly_quiet_ok[OF that] unfolding anomaly_shape_def
    by (auto simp: anomaly_quiet_def result_of_def anomaly_ids_def anomaly_cell_id_def history_metadata_items)
  show "anomaly_shape rq (insufficient_anomaly_result T rq n)"
    unfolding insufficient_anomaly_result_def Let_def by (rule q) (simp add: range_intros)
  show "anomaly_shape rq (invalid_baseline_result T rq n vm k c)"
    unfolding invalid_baseline_result_def baseline_metadata_def by (rule q) simp
  show "anomaly_shape rq (degraded_baseline_result T rq n vm k c)"
    unfolding degraded_baseline_result_def baseline_metadata_def by (rule q) simp
  have ok: "result_ok (anomaly_result T rq n k c m)" by (rule anomaly_result_ok)
  show "anomaly_shape rq (anomaly_result T rq n k c m)"
    using ok unfolding anomaly_shape_def
    by (auto simp: anomaly_result_def Let_def split_beta result_of_def anomaly_ids_def anomaly_cell_id_def
        anomaly_metadata_def history_metadata_items)
qed

lemma anomaly_analyze_shape:
  assumes "anomaly_analyze T rq = Inr r"
  shows "anomaly_shape rq r"
  using assms unfolding anomaly_analyze_def Let_def
  by (auto simp: bind_res_eq_Inr anomaly_shape_of split: if_splits)

lemma known_anomaly_state: "show_anomaly st \<in> set known_anomaly_states"
  by (cases st) (simp_all add: known_anomaly_states_def)

lemma manipulation_accepts_shape:
  assumes "anomaly_shape rq a"
  shows "\<exists>st. manipulation_analyze L T rq (Some [a]) = Inr (manipulation_result T rq a (show_anomaly st))"
  using assms known_anomaly_state unfolding anomaly_shape_def
  by (auto simp: manipulation_analyze_def required_anomaly_result_def Let_def)

end
