(* ===== verification/Cells_Correct.thy ===== *)
theory Cells_Correct
  imports Cells_Breakout Cells_Risk
begin

section \<open>Cells over a valid request\<close>

text \<open>
  On a request that passes validation no candle is zero, so the statistics and the clusters of the
  Cells are defined: the Cells answer, and every number of their results is within its bounds.
\<close>

definition good_candle :: "candle \<Rightarrow> bool" where
  "good_candle c \<longleftrightarrow> (\<exists>h l x. cd_high c = Fin h \<and> cd_low c = Fin l \<and> cd_close c = Fin x \<and> 0 < h \<and> 0 < l \<and> 0 < x)"

lemma valid_candles:
  assumes "validate_request rq = Inr ()" "c \<in> set (rq_candles rq)"
  shows "good_candle c"
proof -
  have "candle_ok c" using assms by (simp add: validate_request_ok request_ok_def)
  then obtain o' h l x v where c: "c = \<lparr>cd_timestamp = cd_timestamp c, cd_open = Fin o', cd_high = Fin h, cd_low = Fin l,
      cd_close = Fin x, cd_volume = Fin v\<rparr>" "0 < l" "l \<le> min o' x" "max o' x \<le> h"
    unfolding candle_ok_def by blast
  have "cd_high c = Fin h" "cd_low c = Fin l" "cd_close c = Fin x" by (subst c(1), simp)+
  then show ?thesis using c(2-4) by (simp add: good_candle_def)
qed

lemma own_cluster:
  assumes "in_range (1 / 4) (3 / 2) tol" "0 < x" "Fin x \<in> set vals"
  shows "cluster_members vals tol (Fin x) \<noteq> []"
proof -
  have "distance_pct (Fin x) (Fin x) = Some (Fin 0)" using assms(2) by (simp add: distance_pct_def truthy_def fsub_def)
  moreover have "fle (Fin 0) tol" using assms(1) by (auto elim!: in_rangeE)
  ultimately have "Fin x \<in> set (cluster_members vals tol (Fin x))" using assms(3) by (simp add: cluster_members_def)
  then show ?thesis by auto
qed

lemma cluster_loop_total:
  assumes "in_range (1 / 4) (3 / 2) tol" "\<forall>v \<in> set vs. v \<in> set vals \<and> (\<exists>x. v = Fin x \<and> 0 < x)" "best \<noteq> None \<or> vs \<noteq> []"
  shows "\<exists>c. cluster_loop vals tol h best vs = Inr c"
  using assms(2,3)
proof (induction vs arbitrary: best)
  case Nil
  then show ?case by auto
next
  case (Cons v vs)
  then obtain x where x: "v = Fin x" "0 < x" "Fin x \<in> set vals" by auto
  then obtain c where "cluster_of (cluster_members vals tol v) = Inr c"
    using own_cluster[OF assms(1) x(2,3)] by (auto simp: cluster_of_def Let_def)
  with Cons show ?case by (cases best) auto
qed

lemma densest_total:
  assumes "in_range (1 / 4) (3 / 2) tol" "\<forall>v \<in> set vs. \<exists>x. v = Fin x \<and> 0 < x" "vs \<noteq> []"
  shows "\<exists>c. densest_price_cluster vs tol h = Inr c"
  unfolding densest_price_cluster_def using assms by (intro cluster_loop_total) auto

lemma zone_tolerance_range: "in_range (1 / 4) (3 / 2) (zone_tolerance h)"
  unfolding zone_tolerance_def by (rule clamp_in_range) simp

lemma structure_analyze_total:
  assumes "validate_request rq = Inr ()"
  shows "\<exists>s. structure_analyze T rq = Inr s"
proof (cases "length (rq_candles rq) < 6")
  case False
  let ?h = "structure_history (rq_candles rq)"
  have sub: "set ?h \<subseteq> set (rq_candles rq)"
    unfolding structure_history_def by (meson in_set_butlastD set_drop_subset subset_code(1) subset_trans)
  have ne: "?h \<noteq> []" using False by (auto simp: structure_history_def)
  have good: "good_candle c" if "c \<in> set ?h" for c using valid_candles[OF assms] sub that by auto
  have "\<forall>v \<in> set (map cd_low ?h). \<exists>x. v = Fin x \<and> 0 < x" "\<forall>v \<in> set (map cd_high ?h). \<exists>x. v = Fin x \<and> 0 < x"
    using good by (fastforce simp: good_candle_def)+
  then have "\<exists>s. densest_price_cluster (map cd_low ?h) (zone_tolerance ?h) False = Inr s"
    "\<exists>r. densest_price_cluster (map cd_high ?h) (zone_tolerance ?h) True = Inr r"
    using ne by (intro densest_total zone_tolerance_range; simp)+
  then show ?thesis using False by (auto simp: structure_analyze_def Let_def)
qed (simp add: structure_analyze_def)

lemma median_total:
  assumes "xs \<noteq> []"
  shows "\<exists>m. median xs = Inr m"
proof -
  have "length (sort xs) \<noteq> 0" using assms by simp
  then show ?thesis unfolding median_def Let_def by (auto simp only: if_False if_True split: if_splits)
qed

lemma step_moves_ne:
  assumes "2 \<le> length xs" "\<forall>v \<in> set xs. truthy v"
  shows "step_moves xs \<noteq> []"
proof -
  obtain a b zs where "xs = a # b # zs" using assms(1) by (cases xs; cases "tl xs") auto
  then show ?thesis using assms(2) by (simp add: step_moves_def)
qed

lemma anomaly_analyze_total:
  assumes "validate_request rq = Inr ()"
  shows "\<exists>a. anomaly_analyze T rq = Inr a"
proof -
  let ?cs = "rq_candles rq"
  let ?h = "drop (length ?cs - 49) (butlast ?cs)"
  show ?thesis
  proof (cases "length ?h < 8")
    case False
    have sub: "set ?h \<subseteq> set ?cs" by (meson in_set_butlastD set_drop_subset subset_code(1) subset_trans)
    have ne: "?h \<noteq> []" using False by auto
    have closes: "truthy (cd_close c)" if "c \<in> set ?h" for c
      using valid_candles[OF assms, of c] sub that by (auto simp: good_candle_def truthy_def)
    obtain vm where vm: "median (map cd_volume ?h) = Inr vm" using median_total[of "map cd_volume ?h"] ne by auto
    have "\<exists>m. build_metrics ?h (last ?cs) vm = Inr m"
    proof -
      let ?dev = "map (\<lambda>c. fabs (fsub (fdiv (cd_volume c) vm) (Fin 1))) ?h"
      obtain vmad where "median ?dev = Inr vmad" using median_total[of ?dev] ne by auto
      moreover have "abs_returns ?h \<noteq> []"
        unfolding abs_returns_def by (rule step_moves_ne) (use False closes in auto)
      then obtain rm where "median (abs_returns ?h) = Inr rm" using median_total by blast
      moreover obtain rd where "median (map (\<lambda>v. fabs (fsub v rm)) (abs_returns ?h)) = Inr rd"
        using median_total[of "map (\<lambda>v. fabs (fsub v rm)) (abs_returns ?h)"] \<open>abs_returns ?h \<noteq> []\<close> by auto
      moreover have "truthy (cd_close (last ?h))" by (rule closes[OF last_in_set[OF ne]])
      ultimately show ?thesis unfolding build_metrics_def Let_def by simp
    qed
    then show ?thesis using False vm unfolding anomaly_analyze_def Let_def by auto
  next
    case True
    then show ?thesis unfolding anomaly_analyze_def Let_def if_P[OF True] by blast
  qed
qed

text \<open>
  C11: The Cells over candles and events answer every valid request within bounds. Trend, volume,
  volatility, regime, news, structure and anomaly Cell return a result, and so does the integrity Cell
  with the anomaly result as its child; the breakout Cell, with the structure result, raises or returns
  one. In all of them strength, confidence, the risks and the urgency lie between 0 and 100, the score
  between -100 and 100 with the sign of the direction.
\<close>

theorem cells_answer_in_bounds:
  assumes "validate_request rq = Inr ()"
  shows "list_all result_ok [trend_analyze T rq, volume_analyze T rq, volatility_analyze T rq, regime_analyze T rq, news_analyze T rq]
    \<and> (\<exists>s. structure_analyze T rq = Inr s \<and> result_ok s
        \<and> (case breakout_analyze L T rq (Some [s]) of Inl e \<Rightarrow> True | Inr b \<Rightarrow> result_ok b))
    \<and> (\<exists>a m. anomaly_analyze T rq = Inr a \<and> manipulation_analyze L T rq (Some [a]) = Inr m \<and> result_ok a \<and> result_ok m)"
proof -
  obtain s where s: "structure_analyze T rq = Inr s" using structure_analyze_total[OF assms] by blast
  note sok = structure_analyze_ok[OF s]
  have "case breakout_analyze L T rq (Some [s]) of Inl e \<Rightarrow> True | Inr b \<Rightarrow> result_ok b"
    using breakout_analyze_ok[of L T rq "[s]"] sok by (auto split: sum.splits)
  moreover obtain a where a: "anomaly_analyze T rq = Inr a" using anomaly_analyze_total[OF assms] by blast
  have shape: "anomaly_shape rq a" by (rule anomaly_analyze_shape[OF a])
  then have "result_ok a" by (simp add: anomaly_shape_def)
  moreover obtain m where "manipulation_analyze L T rq (Some [a]) = Inr m" "result_ok m"
    using manipulation_accepts_shape[OF shape] manipulation_result_ok by blast
  ultimately show ?thesis using s sok a basic_cells_ok by simp
qed

theorem cells_answer_in_bounds_witness:
  "\<exists>a m. anomaly_analyze plain_wording penny_request = Inr a
     \<and> manipulation_analyze echo_lib plain_wording penny_request (Some [a]) = Inr m \<and> result_ok m"
proof -
  have "validate_request penny_request = Inr ()" by code_simp
  from cells_answer_in_bounds[OF this, of plain_wording echo_lib] show ?thesis by blast
qed

end
