(* ===== verification/Spec2Isabelle.thy ===== *)
theory Spec2Isabelle
  imports Graph_Defaults Control_Correct Admission Plan_Validation Router Engine_Records Horizon_Batch Horizon_Correct
    Cells_Correct
begin

section \<open>Market Cell: a verified model of the execution core\<close>

text \<open>
  Market Cell analyses one trading target. A request (candles, events, a horizon) is validated; a
  graph names the Cells to run and their dependencies; a planner places every Cell on a binding and
  matches its inputs; a coordinator runs the nodes level by level through an executor, which may
  route to a service and may retry, fall back or refuse; the results of the children reach the root
  Cell, whose result is the decision. A run record, an event log, traces and runtime summaries are
  kept. A batch runs the same graph at several horizons and a further Cell reads the batch. Paths
  below are under \<open>src/packages/python/src/market_cell/\<close>.

  \<^bold>\<open>Which theory models which part\<close>, in the order of the dependencies:

  \<^item> \<^theory_text>\<open>Prelude\<close>: Python values (\<open>pyval\<close>), insertion-ordered dictionaries as association lists,
    exceptions as values of a sum, with the \<open>except\<close> clauses by subclass; general lemmas.
  \<^item> \<^theory_text>\<open>Core_Models\<close>: \<open>models.py\<close>, \<open>validation.py\<close>, \<open>data/quality.py\<close>. \<^theory_text>\<open>Graph_Topology\<close>,
    \<^theory_text>\<open>Graph_Model\<close>, \<^theory_text>\<open>Graph_Defaults\<close>: \<open>graph/\<close>. \<^theory_text>\<open>Hashing\<close>: \<open>hashing.py\<close>, the canonical JSON text
    written out. \<^theory_text>\<open>Inputs\<close>: \<open>inputs/\<close>.
  \<^item> \<^theory_text>\<open>Exec_Models\<close>: \<open>execution/models.py\<close>. \<^theory_text>\<open>Catalog\<close>: \<open>registry.py\<close>, \<open>execution/catalog.py\<close>,
    \<open>cells/base.py\<close>. \<^theory_text>\<open>Plan_Validation\<close>, \<^theory_text>\<open>Placement\<close>, \<^theory_text>\<open>Planner\<close>: the files of these names.
  \<^item> \<^theory_text>\<open>Binary64\<close>, \<^theory_text>\<open>Float_Order\<close>: the arithmetic and order of Python's \<open>float\<close>.
  \<^item> \<^theory_text>\<open>Executor\<close>: \<open>execution/executor.py\<close>. \<^theory_text>\<open>Control\<close>, \<^theory_text>\<open>Control_Correct\<close>, \<^theory_text>\<open>Admission\<close>:
    \<open>execution/control.py\<close>. \<^theory_text>\<open>Router\<close>: \<open>execution/router.py\<close>. \<^theory_text>\<open>Coordinator\<close>:
    \<open>execution/coordinator.py\<close>.
  \<^item> \<^theory_text>\<open>Telemetry\<close>, \<^theory_text>\<open>Runtime_Store\<close>: \<open>execution/telemetry.py\<close> and the in-memory part of
    \<open>execution/runtime_store.py\<close>.
  \<^item> \<^theory_text>\<open>Runs\<close>: \<open>runs.py\<close>, \<open>events.py\<close> and the dictionaries of the records. \<^theory_text>\<open>Engine\<close>,
    \<^theory_text>\<open>Engine_Correct\<close>, \<^theory_text>\<open>Engine_Records\<close>: \<open>engine.py\<close>, its events and what a run saves.
  \<^item> \<^theory_text>\<open>Scoring\<close>: \<open>scoring.py\<close>, \<open>features/market.py\<close>. \<^theory_text>\<open>Decision_Policy\<close>: \<open>policies/decision.py\<close>,
    \<open>cells/decision.py\<close>. \<^theory_text>\<open>Cells_Basic\<close>: \<open>cells/technical.py\<close>, \<open>regime.py\<close>, \<open>news.py\<close>.
    \<^theory_text>\<open>Cells_Structure\<close>, \<^theory_text>\<open>Cells_Breakout\<close>, \<^theory_text>\<open>Cells_Anomaly\<close>, \<^theory_text>\<open>Cells_Risk\<close>:
    \<open>cells/support_resistance.py\<close>, \<open>breakout.py\<close>, \<open>volume_price_anomaly.py\<close>, \<open>risk.py\<close>;
    \<^theory_text>\<open>Cells_Correct\<close> joins them.
  \<^item> \<^theory_text>\<open>Horizon_Models\<close>: \<open>horizons/models.py\<close>, \<open>horizons/validation.py\<close>, \<open>data/timeframes.py\<close>.
    \<^theory_text>\<open>Horizon_Runner\<close>, \<^theory_text>\<open>Horizon_Policy\<close>: the files of these names; \<^theory_text>\<open>Horizon_Batch\<close>:
    which engines a batch made and ran. \<^theory_text>\<open>Horizon_Decision\<close>,
    \<^theory_text>\<open>Horizon_Correct\<close>: \<open>horizons/decision_models.py\<close>, \<open>horizons/decision.py\<close>.
\<close>

subsection \<open>How state and effects are modelled\<close>

text \<open>
  A dataclass is a record whose fields carry a short prefix; a \<open>__post_init__\<close> that checks is a
  function \<open>mk_...\<close> into the sum of an exception and the object, its checks in the order of the
  source. Everything outside a function (clock, random ids, handlers, stores, the code of a Cell, a
  remote executor) acts on a world of any type, which the operations thread through in the order of
  the calls; a callback is a function of that world that returns, raises, or returns an object of
  another type. So a property of \<open>engine_run\<close> or \<open>control_execute\<close> holds for every Cell, every store
  and every executor with the behaviour its hypotheses name. The event bus, the run record and
  the admission state of the executor that an engine makes for itself are explicit parts of the
  world (\<open>eworld\<close>). One thread runs an analysis; only the admission controller, which threads may
  share, is also modelled step by step (\<open>contended\<close> in \<^theory_text>\<open>Admission\<close>), with its lock as one step.

  Python's \<open>int\<close> is \<open>int\<close> or \<open>nat\<close>; a \<open>float\<close> is \<open>pyfloat\<close>: a rational that binary64 can hold, an
  infinity or NaN. Arithmetic computes exactly and rounds to nearest, ties to even; \<open>round(x, n)\<close> is
  rounding of the exact value. Signed zeros are one zero. \<open>sum()\<close> adds from the left, without the
  compensation that Python 3.12 introduced. A sort or an order statistic over values with a NaN, where
  Python's answer depends on its algorithm, puts NaN last. A \<open>datetime\<close> is its wall clock in
  microseconds with its offset; a conversion or a subtraction that leaves the years 1 to 9999 raises
  \<open>OverflowError\<close>. The two break percentages of the structure Cell divide by a level;
  for a level of zero, which takes candles at a price of zero that the request validator refuses, they
  are 0 where Python raises \<open>ZeroDivisionError\<close>. Characters are the code points 0 to 255.

  The locales state the interfaces, and every one is interpreted on the model's own definitions:
  \<open>admission_contract\<close> (the in-memory controller), \<open>world\<close> (an environment whose clock and ids only
  move forward), \<open>input_resolver\<close> and its extension \<open>snapshot_store\<close> (the local resolver),
  \<open>trace_archive\<close> (the in-memory trace store), \<open>placement_contract\<close> (the runtime-aware policy). The
  float type is an instance of \<open>linorder\<close>, so the library's sorting applies to it.
\<close>

subsection \<open>What the lemmas show\<close>

text \<open>
  \<^item> Validators decide their specifications: requests, graphs, plans, batches. The issues are listed in
    the order of the code and the list is empty exactly for the well-formed objects.
  \<^item> The planner returns a plan exactly when one can be assembled, and that plan validates again. A
    validated plan runs to an outcome whatever the Cells do: no look-up misses, the nodes run in
    level order, each result belongs to its node, inputs are resolved once.
  \<^item> Failure control ends within the budgets of the bindings, repeats only what is safe to repeat, and
    its record satisfies its own constructor. Admission never exceeds a limit
    in any interleaving in which no two calls release the same lease at once, and every overlap of
    that kind costs at most one slot. The router never returns a result of another binding.
  \<^item> The engine emits started, one event per node, then completed or failed. What a failed run saves
    are the records of the outcome the coordinator returned, with their values.
  \<^item> The stores keep what they accepted; snapshots and requests survive their conversions; hashes are
    checked on the way out.
  \<^item> Every candle and event Cell answers a valid request with numbers in range; the decision policies
    never report a lower risk than a child did; a batch is fail-fast and complete, in what it returns and in what
    it runs; an assessment of horizons has the documented directions, kinds of conflict, level and posture; an issued horizon
    decision is the one its bands imply.
\<close>

subsection \<open>Fuel, bounds and termination\<close>

text \<open>
  The level loop of \<open>graph/topology.py\<close> takes fuel, one unit more than there are nodes;
  \<open>level_loop_terminates\<close> shows that this never runs out. The work list of the closure is a function
  with a termination proof. The loops of failure control recurse on the attempts and bindings that
  remain. The subclass relation of exceptions is followed for at most as many steps as there are
  classes. All other loops run over lists.
\<close>

subsection \<open>Parameters\<close>

text \<open>
  The record \<open>stdlib\<close> holds SHA-256, the shortest decimal of a float and the text conversions;
  \<open>datetime_lib\<close> and \<open>iso_parser\<close> the ISO 8601 conversions; \<open>wording\<close> the fixed texts in Chinese and the
  fixed-point format of numbers, which no operation reads back. \<open>env\<close> holds clock and ids. Stores,
  executors, signals, handlers and Cells are functions of the world.
\<close>

subsection \<open>What modelling showed\<close>

text \<open>
  \<^item> \<open>boundary_risk_refused\<close>: \<open>horizons/policy.py\<close> takes the risk levels from the unrounded risks and
    stores the risks rounded to three digits; the constructor of the decision recomputes the levels
    from the stored risks. A risk that reaches a threshold only by rounding makes the Cell raise.
  \<^item> \<open>breakout_accepts_structure\<close>: the levels of \<open>cells/support_resistance.py\<close> are rounded to four
    decimals and \<open>cells/breakout.py\<close> demands a positive level, so a broken level of an asset priced
    below 0.00005 makes the run fail.
  \<^item> \<open>admission_never_exceeds\<close> and its witness: a lease of \<open>execution/control.py\<close> tests and sets
    \<open>_released\<close> outside the lock, so two threads that release it at once free two slots.
  \<^item> \<open>snapshot_decides\<close>: \<open>execution/runtime_store.py\<close> expects \<open>ValueError\<close> from a bad timestamp, but one
    whose UTC instant is outside the calendar raises \<open>OverflowError\<close>, as does a window that long.
  \<^item> In \<open>execution/plan_validation.py\<close> the reference an input-kind issue names is taken at an index into
    the existing references, so it is the wrong one when the node also names a missing input.
\<close>

subsection \<open>Not modelled\<close>

text \<open>
  File input and output (\<open>reports/store.py\<close>, the stores on the file system, \<open>replay/\<close>), the command
  line, the HTTP clients and the caches around them in \<open>data/\<close>, and \<open>performance.py\<close>, which
  compares finished runs with later prices and feeds nothing back. The Cells over order books and
  derivatives (\<open>cells/liquidity.py\<close>, \<open>cells/funding_open_interest.py\<close>) are Cells like any other for the
  engine, but their formulas are not written out, and with them \<open>default_registry\<close>. Where a string
  field is a \<open>Literal\<close> that the code checks, the model uses a datatype and the check has no counterpart;
  the theories say where.
\<close>

end
